(* ===== verification/OSD_Prelude.thy ===== *)
theory OSD_Prelude
  imports "HOL-Library.Word" "HOL-Library.Multiset" "HOL-Library.Monad_Syntax"
begin

text \<open>
  Shared vocabulary of the development.

  \<^item> Machine integers: \<open>uint8_t\<close>, \<open>uint16_t\<close>, \<open>uint32_t\<close>, \<open>uint64_t\<close> are words of that width;
    C \<open>int\<close> return codes are \<open>int\<close>.
  \<^item> Undefined behaviour: a C function is a HOL function into \<open>option\<close>; \<open>None\<close> is an access
    outside a buffer or through a null pointer. The library is built with \<open>-DNDEBUG\<close>
    (\<open>Makedefs\<close>), so \<open>assert\<close> itself is a no-op, and \<open>None\<close> is what follows it.
  \<^item> Buffers: a byte list of fixed length and offsets into it.
  \<^item> \<open>post Q m\<close>: every defined result of \<open>m\<close> satisfies \<open>Q\<close>; the rules in the collection
    \<open>post_rules\<close> push it through a sequence of calls. \<open>total Q m\<close> also claims a result.
\<close>

unbundle bit_operations_syntax

type_synonym u8 = "8 word"
type_synonym u16 = "16 word"
type_synonym u32 = "32 word"
type_synonym u64 = "64 word"
type_synonym bytes = "8 word list"

named_theorems osd_consts "the constants of the headers"
named_theorems post_rules "rules that split a post-condition along the code"

section \<open>Post-conditions of partial computations\<close>

definition post :: "('a \<Rightarrow> bool) \<Rightarrow> 'a option \<Rightarrow> bool" where
  "post Q m \<longleftrightarrow> (\<forall>r. m = Some r \<longrightarrow> Q r)"

lemma post_None [simp]: "post Q None"
  by (simp add: post_def)

lemma post_Some [simp]: "post Q (Some r) \<longleftrightarrow> Q r"
  by (simp add: post_def)

lemma postI: "(\<And>r. m = Some r \<Longrightarrow> Q r) \<Longrightarrow> post Q m"
  by (simp add: post_def)

lemma postD: "post Q m \<Longrightarrow> m = Some r \<Longrightarrow> Q r"
  by (simp add: post_def)

lemma post_bind [post_rules]:
  assumes "post P m" and "\<And>r. P r \<Longrightarrow> post Q (k r)"
  shows "post Q (m \<bind> k)"
  using assms by (cases m) auto

lemma post_mono:
  assumes "post P m" and "\<And>r. P r \<Longrightarrow> Q r"
  shows "post Q m"
  using assms by (auto simp: post_def)

lemma post_if [post_rules]:
  "(b \<Longrightarrow> post Q x) \<Longrightarrow> (\<not> b \<Longrightarrow> post Q y) \<Longrightarrow> post Q (if b then x else y)"
  by simp

text \<open>The same rules keeping what the pieces of the code return.\<close>

lemma post_call:
  "(\<And>r. m = Some r \<Longrightarrow> post Q (k r)) \<Longrightarrow> post Q (m \<bind> k)"
  by (cases m) simp_all

lemma post_pair:
  "(\<And>a b. r = (a, b) \<Longrightarrow> post Q (k a b)) \<Longrightarrow> post Q (case r of (a, b) \<Rightarrow> k a b)"
  by (cases r) simp

lemma post_option:
  "(v = None \<Longrightarrow> post Q m) \<Longrightarrow> (\<And>x. v = Some x \<Longrightarrow> post Q (k x)) \<Longrightarrow> post Q (case v of None \<Rightarrow> m | Some x \<Rightarrow> k x)"
  by (cases v) simp_all

lemmas post_code = post_call post_pair post_option post_if

text \<open>\<open>total Q m\<close>: \<open>m\<close> is defined and its result satisfies \<open>Q\<close>.\<close>

definition total :: "('a \<Rightarrow> bool) \<Rightarrow> 'a option \<Rightarrow> bool" where
  "total Q m \<longleftrightarrow> (\<exists>r. m = Some r \<and> Q r)"

lemma total_simps [simp]: "total Q (Some r) \<longleftrightarrow> Q r" "\<not> total Q None"
  by (simp_all add: total_def)

lemma total_bind:
  assumes "total P m" and "\<And>r. P r \<Longrightarrow> total Q (k r)"
  shows "total Q (m \<bind> k)"
  using assms by (cases m) auto

lemma total_pair_bind:
  assumes "total P m" and "\<And>a b. P (a, b) \<Longrightarrow> total Q (k a b)"
  shows "total Q (m \<bind> (\<lambda>(a, b). k a b))"
  using assms by (cases m) auto

lemma total_mono:
  assumes "total P m" and "\<And>r. P r \<Longrightarrow> Q r"
  shows "total Q m"
  using assms by (auto simp: total_def)

lemma total_conj: "total P m \<Longrightarrow> total Q m \<Longrightarrow> total (\<lambda>r. P r \<and> Q r) m"
  by (auto simp: total_def)

lemma total_if:
  "(b \<Longrightarrow> total Q x) \<Longrightarrow> (\<not> b \<Longrightarrow> total Q y) \<Longrightarrow> total Q (if b then x else y)"
  by simp

lemma total_post: "total Q m \<Longrightarrow> post Q m"
  by (auto simp: total_def)

section \<open>Buffers\<close>

text \<open>A read of \<open>n\<close> bytes at \<open>off\<close>, and a write of the bytes \<open>bs\<close> at \<open>off\<close>.\<close>

definition buf_get :: "bytes \<Rightarrow> nat \<Rightarrow> nat \<Rightarrow> bytes option" where
  "buf_get m off n = (if off + n \<le> length m then Some (take n (drop off m)) else None)"

definition buf_put :: "bytes \<Rightarrow> nat \<Rightarrow> bytes \<Rightarrow> bytes option" where
  "buf_put m off bs =
     (if off + length bs \<le> length m
      then Some (take off m @ bs @ drop (off + length bs) m) else None)"

text \<open>\<open>memset (m + off, 0, n)\<close>.\<close>

definition buf_zero :: "bytes \<Rightarrow> nat \<Rightarrow> nat \<Rightarrow> bytes option" where
  "buf_zero m off n = buf_put m off (replicate n 0)"

text \<open>
  The contract of a byte store, and what follows from it for any store that keeps it. The
  protocol code reads and writes its buffers only through these three operations.
\<close>

locale byte_store =
  fixes get :: "'m \<Rightarrow> nat \<Rightarrow> nat \<Rightarrow> bytes option"
    and put :: "'m \<Rightarrow> nat \<Rightarrow> bytes \<Rightarrow> 'm option"
    and size_of :: "'m \<Rightarrow> nat"
  assumes get_defined: "get m off n \<noteq> None \<longleftrightarrow> off + n \<le> size_of m"
    and put_defined: "put m off bs \<noteq> None \<longleftrightarrow> off + length bs \<le> size_of m"
    and put_size: "put m off bs = Some m' \<Longrightarrow> size_of m' = size_of m"
    and get_put: "put m off bs = Some m' \<Longrightarrow> get m' off (length bs) = Some bs"
    and get_put_apart: "put m off bs = Some m' \<Longrightarrow>
      i + n \<le> off \<or> off + length bs \<le> i \<Longrightarrow> get m' i n = get m i n"
begin

lemma put_put_get_first:
  assumes "put m i xs = Some m1" and "put m1 j ys = Some m2"
    and "i + length xs \<le> j \<or> j + length ys \<le> i"
  shows "get m2 i (length xs) = Some xs"
  using assms get_put get_put_apart by metis

lemma put_some:
  assumes "off + length bs \<le> size_of m"
  obtains m' where "put m off bs = Some m'" and "size_of m' = size_of m"
  using assms put_defined [of m off bs] put_size [of m off bs] by auto

end

lemma buf_put_length: "buf_put m off bs = Some m' \<Longrightarrow> length m' = length m"
  by (auto simp: buf_put_def split: if_splits)

lemma buf_put_defined: "off + length bs \<le> length m \<Longrightarrow>
    buf_put m off bs = Some (take off m @ bs @ drop (off + length bs) m)"
  by (simp add: buf_put_def)

lemma buf_get_put: "buf_put m off bs = Some m' \<Longrightarrow> buf_get m' off (length bs) = Some bs"
  by (auto simp: buf_put_def buf_get_def split: if_splits)

lemma buf_get_put_apart:
  assumes "buf_put m off bs = Some m'" and "i + n \<le> off \<or> off + length bs \<le> i"
  shows "buf_get m' i n = buf_get m i n"
proof -
  have m': "m' = take off m @ bs @ drop (off + length bs) m" "off + length bs \<le> length m"
    using assms(1) by (auto simp: buf_put_def split: if_splits)
  have "take n (drop i m') = take n (drop i m)"
  proof (cases "i + n \<le> off")
    case True
    then have "take n (drop i m') = take n (drop i (take off m))"
      using m' by simp
    with True show ?thesis by (simp add: drop_take min_def)
  next
    case False
    with assms(2) have "off + length bs \<le> i" by simp
    then show ?thesis using m' by simp
  qed
  with m' show ?thesis by (simp add: buf_get_def)
qed

interpretation mem: byte_store buf_get buf_put length
proof
  fix m m' bs and off i n :: nat
  show "buf_get m off n \<noteq> None \<longleftrightarrow> off + n \<le> length m"
    by (simp add: buf_get_def)
  show "buf_put m off bs \<noteq> None \<longleftrightarrow> off + length bs \<le> length m"
    by (simp add: buf_put_def)
  show "buf_put m off bs = Some m' \<Longrightarrow> i + n \<le> off \<or> off + length bs \<le> i \<Longrightarrow>
      buf_get m' i n = buf_get m i n"
    by (rule buf_get_put_apart)
qed (auto dest: buf_put_length buf_get_put)

lemma buf_zero_length: "buf_zero m off n = Some m' \<Longrightarrow> length m' = length m"
  by (simp add: buf_zero_def buf_put_length)

end
