(* ===== verification/OSD_Defs.thy ===== *)
theory OSD_Defs
  imports OSD_Prelude
begin

text \<open>
  The constants of \<^verbatim>\<open>osd-util/osd-defs.h\<close>, \<^verbatim>\<open>osd-util/osd-sense.h\<close> and
  \<^verbatim>\<open>osd-target/osd-types.h\<close>, at the width the code uses them with, and the structures of
  \<^verbatim>\<open>osd-types.h\<close> that the operations share. Values are members of the collection
  \<open>osd_consts\<close>. Sizes and offsets are natural numbers, return codes are \<open>int\<close>.
\<close>

section \<open>Constants\<close>

text \<open>Command descriptor block (\<^verbatim>\<open>osd-util/osd-defs.h\<close>).\<close>

definition VARLEN_CDB :: u8 where [osd_consts]: "VARLEN_CDB = 0x7f"

text \<open>Sizes (\<^verbatim>\<open>osd-util/osd-defs.h\<close>).\<close>

definition OSD_CDB_SIZE :: nat where [osd_consts]: "OSD_CDB_SIZE = 236"
definition OSD_MAX_SENSE :: nat where [osd_consts]: "OSD_MAX_SENSE = 252"
definition OSD_CRYPTO_KEYID_SIZE :: nat where [osd_consts]: "OSD_CRYPTO_KEYID_SIZE = 32"
definition OSD_SYS_ID_SIZE :: nat where [osd_consts]: "OSD_SYS_ID_SIZE = 20"

text \<open>Service actions (\<^verbatim>\<open>osd-util/osd-defs.h\<close>).\<close>

definition OSD_APPEND :: u16 where [osd_consts]: "OSD_APPEND = 0x8887"
definition OSD_CLEAR :: u16 where [osd_consts]: "OSD_CLEAR = 0x8889"
definition OSD_COPY_USER_OBJECTS :: u16 where [osd_consts]: "OSD_COPY_USER_OBJECTS = 0x8893"
definition OSD_CREATE :: u16 where [osd_consts]: "OSD_CREATE = 0x8882"
definition OSD_CREATE_AND_WRITE :: u16 where [osd_consts]: "OSD_CREATE_AND_WRITE = 0x8892"
definition OSD_CREATE_CLONE :: u16 where [osd_consts]: "OSD_CREATE_CLONE = 0x88a8"
definition OSD_CREATE_COLLECTION :: u16 where [osd_consts]: "OSD_CREATE_COLLECTION = 0x8895"
definition OSD_CREATE_PARTITION :: u16 where [osd_consts]: "OSD_CREATE_PARTITION = 0x888b"
definition OSD_CREATE_SNAPSHOT :: u16 where [osd_consts]: "OSD_CREATE_SNAPSHOT = 0x88a9"
definition OSD_CREATE_USER_TRACKING_COLLECTION :: u16 where [osd_consts]: "OSD_CREATE_USER_TRACKING_COLLECTION = 0x8894"
definition OSD_DETACH_CLONE :: u16 where [osd_consts]: "OSD_DETACH_CLONE = 0x88aa"
definition OSD_FLUSH :: u16 where [osd_consts]: "OSD_FLUSH = 0x8888"
definition OSD_FLUSH_COLLECTION :: u16 where [osd_consts]: "OSD_FLUSH_COLLECTION = 0x889a"
definition OSD_FLUSH_OSD :: u16 where [osd_consts]: "OSD_FLUSH_OSD = 0x889c"
definition OSD_FLUSH_PARTITION :: u16 where [osd_consts]: "OSD_FLUSH_PARTITION = 0x889b"
definition OSD_FORMAT_OSD :: u16 where [osd_consts]: "OSD_FORMAT_OSD = 0x8881"
definition OSD_GET_ATTRIBUTES :: u16 where [osd_consts]: "OSD_GET_ATTRIBUTES = 0x888e"
definition OSD_GET_MEMBER_ATTRIBUTES :: u16 where [osd_consts]: "OSD_GET_MEMBER_ATTRIBUTES = 0x88a2"
definition OSD_LIST :: u16 where [osd_consts]: "OSD_LIST = 0x8883"
definition OSD_LIST_COLLECTION :: u16 where [osd_consts]: "OSD_LIST_COLLECTION = 0x8897"
definition OSD_PERFORM_SCSI_COMMAND :: u16 where [osd_consts]: "OSD_PERFORM_SCSI_COMMAND = 0x8f7c"
definition OSD_PERFORM_TASK_MGMT_FUNC :: u16 where [osd_consts]: "OSD_PERFORM_TASK_MGMT_FUNC = 0x8f7d"
definition OSD_PUNCH :: u16 where [osd_consts]: "OSD_PUNCH = 0x8884"
definition OSD_QUERY :: u16 where [osd_consts]: "OSD_QUERY = 0x88a0"
definition OSD_READ :: u16 where [osd_consts]: "OSD_READ = 0x8885"
definition OSD_READ_MAP :: u16 where [osd_consts]: "OSD_READ_MAP = 0x88b1"
definition OSD_READ_MAPS_AND_COMPARE :: u16 where [osd_consts]: "OSD_READ_MAPS_AND_COMPARE = 0x88b2"
definition OSD_REFRESH_SNAPSHOT_OR_CLONE :: u16 where [osd_consts]: "OSD_REFRESH_SNAPSHOT_OR_CLONE = 0x88ab"
definition OSD_REMOVE :: u16 where [osd_consts]: "OSD_REMOVE = 0x888a"
definition OSD_REMOVE_COLLECTION :: u16 where [osd_consts]: "OSD_REMOVE_COLLECTION = 0x8896"
definition OSD_REMOVE_MEMBER_OBJECTS :: u16 where [osd_consts]: "OSD_REMOVE_MEMBER_OBJECTS = 0x88a1"
definition OSD_REMOVE_PARTITION :: u16 where [osd_consts]: "OSD_REMOVE_PARTITION = 0x888c"
definition OSD_RESTORE_PARTITION_FROM_SNAPSHOT :: u16 where [osd_consts]: "OSD_RESTORE_PARTITION_FROM_SNAPSHOT = 0x88ac"
definition OSD_SET_ATTRIBUTES :: u16 where [osd_consts]: "OSD_SET_ATTRIBUTES = 0x888f"
definition OSD_SET_KEY :: u16 where [osd_consts]: "OSD_SET_KEY = 0x8898"
definition OSD_SET_MASTER_KEY :: u16 where [osd_consts]: "OSD_SET_MASTER_KEY = 0x8899"
definition OSD_SET_MEMBER_ATTRIBUTES :: u16 where [osd_consts]: "OSD_SET_MEMBER_ATTRIBUTES = 0x88a3"
definition OSD_WRITE :: u16 where [osd_consts]: "OSD_WRITE = 0x8886"
definition OSD_CAS :: u16 where [osd_consts]: "OSD_CAS = 0x888d"
definition OSD_FA :: u16 where [osd_consts]: "OSD_FA = 0x8890"
definition OSD_COND_SETATTR :: u16 where [osd_consts]: "OSD_COND_SETATTR = 0x8891"
definition OSD_GEN_CAS :: u16 where [osd_consts]: "OSD_GEN_CAS = 0x88a5"

text \<open>Data distribution types (\<^verbatim>\<open>osd-util/osd-defs.h\<close>).\<close>

definition DDT_CONTIG :: u8 where [osd_consts]: "DDT_CONTIG = 0x0"
definition DDT_SGL :: u8 where [osd_consts]: "DDT_SGL = 0x1"
definition DDT_VEC :: u8 where [osd_consts]: "DDT_VEC = 0x2"

text \<open>SAM status (\<^verbatim>\<open>osd-util/osd-defs.h\<close>).\<close>

definition SAM_STAT_GOOD :: int where [osd_consts]: "SAM_STAT_GOOD = 0x0"
definition SAM_STAT_CHECK_CONDITION :: int where [osd_consts]: "SAM_STAT_CHECK_CONDITION = 0x2"

text \<open>Object identifiers (\<^verbatim>\<open>osd-util/osd-defs.h\<close>).\<close>

definition ROOT_PID :: u64 where [osd_consts]: "ROOT_PID = 0"
definition ROOT_OID :: u64 where [osd_consts]: "ROOT_OID = 0"
definition PARTITION_PID_LB :: u64 where [osd_consts]: "PARTITION_PID_LB = 0x10000"
definition PARTITION_OID :: u64 where [osd_consts]: "PARTITION_OID = 0x0"
definition OBJECT_PID_LB :: u64 where [osd_consts]: "OBJECT_PID_LB = 0x10000"
definition TRACKING_COLLECTION_OID_LB :: u64 where [osd_consts]: "TRACKING_COLLECTION_OID_LB = 0x1"
definition COLLECTION_PID_LB :: u64 where [osd_consts]: "COLLECTION_PID_LB = OBJECT_PID_LB"
definition USEROBJECT_PID_LB :: u64 where [osd_consts]: "USEROBJECT_PID_LB = OBJECT_PID_LB"
definition OBJECT_OID_LB :: u64 where [osd_consts]: "OBJECT_OID_LB = OBJECT_PID_LB"
definition COLLECTION_OID_LB :: u64 where [osd_consts]: "COLLECTION_OID_LB = COLLECTION_PID_LB"
definition USEROBJECT_OID_LB :: u64 where [osd_consts]: "USEROBJECT_OID_LB = USEROBJECT_PID_LB"
definition LINKED_COLLECTION_OID_LB :: u64 where [osd_consts]: "LINKED_COLLECTION_OID_LB = OBJECT_PID_LB"

text \<open>Continuation descriptor types (\<^verbatim>\<open>osd-util/osd-defs.h\<close>).\<close>

definition NO_MORE_DESCRIPTORS :: u16 where [osd_consts]: "NO_MORE_DESCRIPTORS = 0x0"
definition SCATTER_GATHER_LIST :: u16 where [osd_consts]: "SCATTER_GATHER_LIST = 0x1"
definition QUERY_LIST :: u16 where [osd_consts]: "QUERY_LIST = 0x2"
definition USER_OBJECT :: u16 where [osd_consts]: "USER_OBJECT = 0x100"
definition COPY_USER_OBJECT_SOURCE :: u16 where [osd_consts]: "COPY_USER_OBJECT_SOURCE = 0x101"
definition EXTENSION_CAPABILITIES :: u16 where [osd_consts]: "EXTENSION_CAPABILITIES = 0xFFEE"

text \<open>Object types (\<^verbatim>\<open>osd-util/osd-defs.h\<close>).\<close>

definition ROOT :: u8 where [osd_consts]: "ROOT = 0x1"
definition PARTITION :: u8 where [osd_consts]: "PARTITION = 0x2"
definition COLLECTION :: u8 where [osd_consts]: "COLLECTION = 0x40"
definition USEROBJECT :: u8 where [osd_consts]: "USEROBJECT = 0x80"
definition ILLEGAL_OBJ :: u8 where [osd_consts]: "ILLEGAL_OBJ = 0x0"

text \<open>Attribute page ranges (\<^verbatim>\<open>osd-util/osd-defs.h\<close>).\<close>

definition USEROBJECT_PG :: u32 where [osd_consts]: "USEROBJECT_PG = 0x0"
definition PARTITION_PG :: u32 where [osd_consts]: "PARTITION_PG = 0x30000000"
definition COLLECTION_PG :: u32 where [osd_consts]: "COLLECTION_PG = 0x60000000"
definition ROOT_PG :: u32 where [osd_consts]: "ROOT_PG = 0x90000000"
definition RESERVED_PG :: u32 where [osd_consts]: "RESERVED_PG = 0xC0000000"
definition ANY_PG :: u32 where [osd_consts]: "ANY_PG = 0xF0000000"
definition CUR_CMD_ATTR_PG :: u32 where [osd_consts]: "CUR_CMD_ATTR_PG = 0xFFFFFFFE"
definition GETALLATTR_PG :: u32 where [osd_consts]: "GETALLATTR_PG = 0xFFFFFFFF"

text \<open>Attribute page sets (\<^verbatim>\<open>osd-util/osd-defs.h\<close>).\<close>

definition STD_PG_LB :: int where [osd_consts]: "STD_PG_LB = 0x0"
definition STD_PG_UB :: int where [osd_consts]: "STD_PG_UB = 0x7F"
definition RSRV_PG_LB :: int where [osd_consts]: "RSRV_PG_LB = 0x80"
definition RSRV_PG_UB :: int where [osd_consts]: "RSRV_PG_UB = 0x7FFF"
definition LUN_PG_LB :: int where [osd_consts]: "LUN_PG_LB = 0x10000"
definition LUN_PG_UB :: int where [osd_consts]: "LUN_PG_UB = 0x1FFFFFFF"
definition VEND_PG_UB :: int where [osd_consts]: "VEND_PG_UB = 0x2FFFFFFF"

text \<open>Attribute numbers (\<^verbatim>\<open>osd-util/osd-defs.h\<close>).\<close>

definition ATTRNUM_LB :: u32 where [osd_consts]: "ATTRNUM_LB = 0x0"
definition ATTRNUM_INFO :: u32 where [osd_consts]: "ATTRNUM_INFO = ATTRNUM_LB"
definition ATTRNUM_UNMODIFIABLE :: u32 where [osd_consts]: "ATTRNUM_UNMODIFIABLE = 0xFFFFFFFF"
definition ATTRNUM_GETALL :: u32 where [osd_consts]: "ATTRNUM_GETALL = ATTRNUM_UNMODIFIABLE"

text \<open>Directory pages (\<^verbatim>\<open>osd-util/osd-defs.h\<close>).\<close>

definition USEROBJECT_DIR_PG :: u32 where [osd_consts]: "USEROBJECT_DIR_PG = USEROBJECT_PG + 0x0"
definition PARTITION_DIR_PG :: u32 where [osd_consts]: "PARTITION_DIR_PG = PARTITION_PG + 0x0"
definition COLLECTION_DIR_PG :: u32 where [osd_consts]: "COLLECTION_DIR_PG = COLLECTION_PG + 0x0"
definition ROOT_DIR_PG :: u32 where [osd_consts]: "ROOT_DIR_PG = ROOT_PG + 0x0"

text \<open>Defined attribute pages (\<^verbatim>\<open>osd-util/osd-defs.h\<close>).\<close>

definition USER_INFO_PG :: u32 where [osd_consts]: "USER_INFO_PG = 0x1"
definition ROOT_INFO_PG :: u32 where [osd_consts]: "ROOT_INFO_PG = ROOT_PG + 0x1"
definition USER_QUOTA_PG :: u32 where [osd_consts]: "USER_QUOTA_PG = 0x2"
definition USER_TMSTMP_PG :: u32 where [osd_consts]: "USER_TMSTMP_PG = 0x3"
definition USER_COLL_PG :: u32 where [osd_consts]: "USER_COLL_PG = 0x4"
definition USER_ATOMICS_PG :: u32 where [osd_consts]: "USER_ATOMICS_PG = 0x6"

text \<open>Page identification (\<^verbatim>\<open>osd-util/osd-defs.h\<close>).\<close>

definition ATTR_PAGE_ID_LEN :: nat where [osd_consts]: "ATTR_PAGE_ID_LEN = 40"

text \<open>Current command attributes (\<^verbatim>\<open>osd-util/osd-defs.h\<close>).\<close>

definition CCAP_RICV :: u32 where [osd_consts]: "CCAP_RICV = 0x1"
definition CCAP_OBJT :: u32 where [osd_consts]: "CCAP_OBJT = 0x2"
definition CCAP_PID :: u32 where [osd_consts]: "CCAP_PID = 0x3"
definition CCAP_OID :: u32 where [osd_consts]: "CCAP_OID = 0x4"
definition CCAP_APPADDR :: u32 where [osd_consts]: "CCAP_APPADDR = 0x5"

text \<open>Their lengths and offsets (\<^verbatim>\<open>osd-util/osd-defs.h\<close>).\<close>

definition CCAP_RICV_LEN :: nat where [osd_consts]: "CCAP_RICV_LEN = OSD_CRYPTO_KEYID_SIZE"
definition CCAP_OBJT_LEN :: nat where [osd_consts]: "CCAP_OBJT_LEN = 1"
definition CCAP_PID_LEN :: nat where [osd_consts]: "CCAP_PID_LEN = 8"
definition CCAP_OID_LEN :: nat where [osd_consts]: "CCAP_OID_LEN = 8"
definition CCAP_APPADDR_LEN :: nat where [osd_consts]: "CCAP_APPADDR_LEN = 8"
definition CCAP_RICV_OFF :: nat where [osd_consts]: "CCAP_RICV_OFF = 8"
definition CCAP_OBJT_OFF :: nat where [osd_consts]: "CCAP_OBJT_OFF = 28+12"
definition CCAP_PID_OFF :: nat where [osd_consts]: "CCAP_PID_OFF = 32+12"
definition CCAP_OID_OFF :: nat where [osd_consts]: "CCAP_OID_OFF = 40+12"
definition CCAP_APPADDR_OFF :: nat where [osd_consts]: "CCAP_APPADDR_OFF = 48+12"
definition CCAP_TOTAL_LEN :: nat where [osd_consts]: "CCAP_TOTAL_LEN = 56+12"

text \<open>User object timestamps (\<^verbatim>\<open>osd-util/osd-defs.h\<close>).\<close>

definition UTSAP_CTIME :: u32 where [osd_consts]: "UTSAP_CTIME = 0x1"
definition UTSAP_ATTR_ATIME :: u32 where [osd_consts]: "UTSAP_ATTR_ATIME = 0x2"
definition UTSAP_ATTR_MTIME :: u32 where [osd_consts]: "UTSAP_ATTR_MTIME = 0x3"
definition UTSAP_DATA_ATIME :: u32 where [osd_consts]: "UTSAP_DATA_ATIME = 0x4"
definition UTSAP_DATA_MTIME :: u32 where [osd_consts]: "UTSAP_DATA_MTIME = 0x5"

text \<open>Their offsets (\<^verbatim>\<open>osd-util/osd-defs.h\<close>).\<close>

definition UTSAP_CTIME_OFF :: nat where [osd_consts]: "UTSAP_CTIME_OFF = 8"
definition UTSAP_ATTR_ATIME_OFF :: nat where [osd_consts]: "UTSAP_ATTR_ATIME_OFF = 14"
definition UTSAP_ATTR_MTIME_OFF :: nat where [osd_consts]: "UTSAP_ATTR_MTIME_OFF = 20"
definition UTSAP_DATA_ATIME_OFF :: nat where [osd_consts]: "UTSAP_DATA_ATIME_OFF = 26"
definition UTSAP_DATA_MTIME_OFF :: nat where [osd_consts]: "UTSAP_DATA_MTIME_OFF = 32"
definition UTSAP_TOTAL_LEN :: nat where [osd_consts]: "UTSAP_TOTAL_LEN = 38"

text \<open>User object information (\<^verbatim>\<open>osd-util/osd-defs.h\<close>).\<close>

definition UIAP_PID :: u32 where [osd_consts]: "UIAP_PID = 0x1"
definition UIAP_OID :: u32 where [osd_consts]: "UIAP_OID = 0x2"
definition UIAP_USERNAME :: u32 where [osd_consts]: "UIAP_USERNAME = 0x9"
definition UIAP_USED_CAPACITY :: u32 where [osd_consts]: "UIAP_USED_CAPACITY = 0x81"
definition UIAP_LOGICAL_LEN :: u32 where [osd_consts]: "UIAP_LOGICAL_LEN = 0x82"
definition PARTITION_CAPACITY_QUOTA :: u32 where [osd_consts]: "PARTITION_CAPACITY_QUOTA = 0x10001"

text \<open>Their lengths (\<^verbatim>\<open>osd-util/osd-defs.h\<close>).\<close>

definition UIAP_PID_LEN :: nat where [osd_consts]: "UIAP_PID_LEN = 8"
definition UIAP_OID_LEN :: nat where [osd_consts]: "UIAP_OID_LEN = 8"
definition UIAP_USED_CAPACITY_LEN :: nat where [osd_consts]: "UIAP_USED_CAPACITY_LEN = 8"
definition UIAP_LOGICAL_LEN_LEN :: nat where [osd_consts]: "UIAP_LOGICAL_LEN_LEN = 8"

text \<open>Root information (\<^verbatim>\<open>osd-util/osd-defs.h\<close>).\<close>

definition RIAP_OSD_SYSTEM_ID :: u32 where [osd_consts]: "RIAP_OSD_SYSTEM_ID = 0x3"
definition RIAP_VENDOR_IDENTIFICATION :: u32 where [osd_consts]: "RIAP_VENDOR_IDENTIFICATION = 0x4"
definition RIAP_PRODUCT_IDENTIFICATION :: u32 where [osd_consts]: "RIAP_PRODUCT_IDENTIFICATION = 0x5"
definition RIAP_PRODUCT_MODEL :: u32 where [osd_consts]: "RIAP_PRODUCT_MODEL = 0x6"
definition RIAP_PRODUCT_REVISION_LEVEL :: u32 where [osd_consts]: "RIAP_PRODUCT_REVISION_LEVEL = 0x7"
definition RIAP_PRODUCT_SERIAL_NUMBER :: u32 where [osd_consts]: "RIAP_PRODUCT_SERIAL_NUMBER = 0x8"
definition RIAP_OSD_NAME :: u32 where [osd_consts]: "RIAP_OSD_NAME = 0x9"
definition RIAP_TOTAL_CAPACITY :: u32 where [osd_consts]: "RIAP_TOTAL_CAPACITY = 0x80"
definition RIAP_USED_CAPACITY :: u32 where [osd_consts]: "RIAP_USED_CAPACITY = 0x81"
definition RIAP_NUMBER_OF_PARTITIONS :: u32 where [osd_consts]: "RIAP_NUMBER_OF_PARTITIONS = 0xC0"
definition RIAP_CLOCK :: u32 where [osd_consts]: "RIAP_CLOCK = 0x100"

text \<open>Their lengths (\<^verbatim>\<open>osd-util/osd-defs.h\<close>).\<close>

definition RIAP_OSD_SYSTEM_ID_LEN :: nat where [osd_consts]: "RIAP_OSD_SYSTEM_ID_LEN = OSD_SYS_ID_SIZE"
definition RIAP_PRODUCT_REVISION_LEVEL_LEN :: nat where [osd_consts]: "RIAP_PRODUCT_REVISION_LEVEL_LEN = 4"
definition RIAP_TOTAL_CAPACITY_LEN :: nat where [osd_consts]: "RIAP_TOTAL_CAPACITY_LEN = 8"
definition RIAP_USED_CAPACITY_LEN :: nat where [osd_consts]: "RIAP_USED_CAPACITY_LEN = 8"
definition RIAP_NUMBER_OF_PARTITIONS_LEN :: nat where [osd_consts]: "RIAP_NUMBER_OF_PARTITIONS_LEN = 8"
definition RIAP_CLOCK_LEN :: nat where [osd_consts]: "RIAP_CLOCK_LEN = 6"

text \<open>Collection pointers (\<^verbatim>\<open>osd-util/osd-defs.h\<close>).\<close>

definition UCAP_COLL_PTR_LB :: u32 where [osd_consts]: "UCAP_COLL_PTR_LB = 0x1"
definition UCAP_COLL_PTR_UB :: u32 where [osd_consts]: "UCAP_COLL_PTR_UB = 0xFFFFFF00"

text \<open>Atomics (\<^verbatim>\<open>osd-util/osd-defs.h\<close>).\<close>

definition UAP_CAS :: u32 where [osd_consts]: "UAP_CAS = 0x1"
definition UAP_FA :: u32 where [osd_consts]: "UAP_FA = 0x2"

text \<open>Attribute formats of the command (\<^verbatim>\<open>osd-util/osd-defs.h\<close>).\<close>

definition GETFIELD_SETVALUE :: u8 where [osd_consts]: "GETFIELD_SETVALUE = 0x1"
definition GETPAGE_SETVALUE :: u8 where [osd_consts]: "GETPAGE_SETVALUE = 0x2"
definition GETLIST_SETLIST :: u8 where [osd_consts]: "GETLIST_SETLIST = 0x3"

text \<open>Map types (\<^verbatim>\<open>osd-util/osd-defs.h\<close>).\<close>

definition WRITTEN_DATA :: u16 where [osd_consts]: "WRITTEN_DATA = 0x1"
definition DATA_HOLE :: u16 where [osd_consts]: "DATA_HOLE = 0x2"
definition DAMAGED_DATA :: u16 where [osd_consts]: "DAMAGED_DATA = 0x3"
definition DAMAGED_ATTRIBUTES :: u16 where [osd_consts]: "DAMAGED_ATTRIBUTES = 0x8000"

text \<open>Offsets (\<^verbatim>\<open>osd-util/osd-defs.h\<close>).\<close>

definition OFFSET_UNUSED :: u32 where [osd_consts]: "OFFSET_UNUSED = 0xFFFFFFFF"

text \<open>Sense keys (\<^verbatim>\<open>osd-util/osd-sense.h\<close>).\<close>

definition OSD_SSK_RECOVERED_ERROR :: u8 where [osd_consts]: "OSD_SSK_RECOVERED_ERROR = 0x1"
definition OSD_SSK_HARDWARE_ERROR :: u8 where [osd_consts]: "OSD_SSK_HARDWARE_ERROR = 0x4"
definition OSD_SSK_ILLEGAL_REQUEST :: u8 where [osd_consts]: "OSD_SSK_ILLEGAL_REQUEST = 0x5"

text \<open>Additional sense codes (\<^verbatim>\<open>osd-util/osd-sense.h\<close>).\<close>

definition OSD_ASC_INVALID_COMMAND_OPCODE :: u16 where [osd_consts]: "OSD_ASC_INVALID_COMMAND_OPCODE = 0x2000"
definition OSD_ASC_INVALID_FIELD_IN_CDB :: u16 where [osd_consts]: "OSD_ASC_INVALID_FIELD_IN_CDB = 0x2400"
definition OSD_ASC_INVALID_FIELD_IN_PARAM_LIST :: u16 where [osd_consts]: "OSD_ASC_INVALID_FIELD_IN_PARAM_LIST = 0x2600"
definition OSD_ASC_PARAMETER_LIST_LENGTH_ERROR :: u16 where [osd_consts]: "OSD_ASC_PARAMETER_LIST_LENGTH_ERROR = 0x1A00"
definition OSD_ASC_PART_OR_COLL_CONTAINS_USER_OBJECTS :: u16 where [osd_consts]: "OSD_ASC_PART_OR_COLL_CONTAINS_USER_OBJECTS = 0x2C0A"
definition OSD_ASC_READ_PAST_END_OF_USER_OBJECT :: u16 where [osd_consts]: "OSD_ASC_READ_PAST_END_OF_USER_OBJECT = 0x3B17"
definition OSD_ASC_SYSTEM_RESOURCE_FAILURE :: u16 where [osd_consts]: "OSD_ASC_SYSTEM_RESOURCE_FAILURE = 0x5500"

text \<open>List header (\<^verbatim>\<open>osd-target/osd-types.h\<close>).\<close>

definition LIST_HDR_LEN :: nat where [osd_consts]: "LIST_HDR_LEN = 8"

text \<open>Attribute length bound (\<^verbatim>\<open>osd-target/osd-types.h\<close>).\<close>

definition ATTR_LEN_UB :: u16 where [osd_consts]: "ATTR_LEN_UB = 0xFFFE"

text \<open>List formats (\<^verbatim>\<open>osd-target/osd-types.h\<close>).\<close>

definition RTRV_ATTR_LIST :: u8 where [osd_consts]: "RTRV_ATTR_LIST = 0x1"
definition RTRVD_SET_ATTR_LIST :: u8 where [osd_consts]: "RTRVD_SET_ATTR_LIST = 0x9"
definition RTRVD_CREATE_MULTIOBJ_LIST :: u8 where [osd_consts]: "RTRVD_CREATE_MULTIOBJ_LIST = 0xF"

text \<open>Query lists (\<^verbatim>\<open>osd-target/osd-types.h\<close>).\<close>

definition MINQCELEN :: nat where [osd_consts]: "MINQCELEN = 0"

text \<open>Query list length (\<^verbatim>\<open>osd-target/osd-types.h\<close>).\<close>

definition MINQLISTLEN :: u32 where [osd_consts]: "MINQLISTLEN = 8"

text \<open>Multi-object list offsets (\<^verbatim>\<open>osd-target/osd-types.h\<close>).\<close>

definition ML_ODF_OFF :: nat where [osd_consts]: "ML_ODF_OFF = 12"
definition ML_ODL_OFF :: nat where [osd_consts]: "ML_ODL_OFF = 13"
definition MIN_ML_LEN :: nat where [osd_consts]: "MIN_ML_LEN = 13"

text \<open>Names (\<^verbatim>\<open>osd-target/osd-types.h\<close>).\<close>

definition MAXNAMELEN :: nat where [osd_consts]: "MAXNAMELEN = 256"
definition MAXROOTLEN :: nat where [osd_consts]: "MAXROOTLEN = 200"

text \<open>Blocks (\<^verbatim>\<open>osd-target/osd-types.h\<close>).\<close>

definition BLOCK_SZ :: u64 where [osd_consts]: "BLOCK_SZ = 512"

text \<open>Return codes (\<^verbatim>\<open>osd-target/osd-types.h\<close>).\<close>

definition OSD_ERROR :: int where [osd_consts]: "OSD_ERROR = -1"
definition OSD_OK :: int where [osd_consts]: "OSD_OK = 0"
definition OSD_REPEAT :: int where [osd_consts]: "OSD_REPEAT = 1"

section \<open>Layout of the packed list entries\<close>

text \<open>
  \<open>struct list_entry\<close> is packed: page, number, six reserved bytes, length, value pointer. The
  multi-object entry puts an object identifier first and has no reserved bytes.
\<close>

definition LE_PAGE_OFF :: nat where [osd_consts]: "LE_PAGE_OFF = 0"
definition LE_NUMBER_OFF :: nat where [osd_consts]: "LE_NUMBER_OFF = LE_PAGE_OFF + 4"
definition LE_RESERVED_OFF :: nat where [osd_consts]: "LE_RESERVED_OFF = LE_NUMBER_OFF + 4"
definition LE_LEN_OFF :: nat where [osd_consts]: "LE_LEN_OFF = LE_RESERVED_OFF + 6"
definition LE_VAL_OFF :: nat where [osd_consts]: "LE_VAL_OFF = LE_LEN_OFF + 2"
definition LE_MIN_ITEM_LEN :: nat where [osd_consts]: "LE_MIN_ITEM_LEN = LE_VAL_OFF"

definition MLE_OID_OFF :: nat where [osd_consts]: "MLE_OID_OFF = 0"
definition MLE_PAGE_OFF :: nat where [osd_consts]: "MLE_PAGE_OFF = MLE_OID_OFF + 8"
definition MLE_NUMBER_OFF :: nat where [osd_consts]: "MLE_NUMBER_OFF = MLE_PAGE_OFF + 4"
definition MLE_LEN_OFF :: nat where [osd_consts]: "MLE_LEN_OFF = MLE_NUMBER_OFF + 4"
definition MLE_VAL_OFF :: nat where [osd_consts]: "MLE_VAL_OFF = MLE_LEN_OFF + 2"
definition MLE_MIN_ITEM_LEN :: nat where [osd_consts]: "MLE_MIN_ITEM_LEN = (LE_VAL_OFF + 7) div 8 * 8"

section \<open>Error numbers\<close>

text \<open>The \<^verbatim>\<open>errno.h\<close> values the target returns negated.\<close>

definition EPERM :: int where [osd_consts]: "EPERM = 1"
definition ENOENT :: int where [osd_consts]: "ENOENT = 2"
definition EIO :: int where [osd_consts]: "EIO = 5"
definition ENOMEM :: int where [osd_consts]: "ENOMEM = 12"
definition EEXIST :: int where [osd_consts]: "EEXIST = 17"
definition ENOTDIR :: int where [osd_consts]: "ENOTDIR = 20"
definition EINVAL :: int where [osd_consts]: "EINVAL = 22"
definition ENAMETOOLONG :: int where [osd_consts]: "ENAMETOOLONG = 36"
definition ENOSYS :: int where [osd_consts]: "ENOSYS = 38"
definition EOVERFLOW :: int where [osd_consts]: "EOVERFLOW = 75"

section \<open>Shared structures\<close>

text \<open>The current command attributes page and the identifier cache of the device.\<close>

record cur_cmd_attr_pg =
  cdb_srvc_act :: u16
  ricv :: bytes
  obj_type :: u8
  ccap_pid :: u64
  ccap_oid :: u64
  append_off :: u64

record id_cache =
  cur_pid :: u64
  next_id :: u64

text \<open>
  \<open>struct list_entry\<close> in memory, the value as the bytes it points to. A null pointer is
  \<open>None\<close>.
\<close>

record list_entry =
  le_page :: u32
  le_number :: u32
  le_len :: u16
  le_val :: "bytes option"

record getattr_list_entry =
  ga_page :: u32
  ga_number :: u32

text \<open>One entry of a scatter/gather list, in the byte order of the initiator once decoded.\<close>

record sg_list_entry =
  sg_offset :: u64
  bytes_to_transfer :: u64

end
