(* ===== verification/OSD_Util.thy ===== *)
theory OSD_Util
  imports OSD_Defs
begin

text \<open>
  \<^verbatim>\<open>osd-util/osd-util.c\<close>: the byte-order conversions for both host orders, the floating
  offset format of attribute lists, the six-byte time stamps and the hash.
  A pointer into a buffer is the buffer and an offset; \<open>None\<close> is an access outside the buffer.
\<close>

section \<open>Host memory\<close>

text \<open>
  A scalar access through a pointer, on a little-endian and on a big-endian host:
  \<open>load_le32 bs\<close> is \<open>*(const uint32_t *) d\<close> with the four bytes \<open>bs\<close> at \<open>d\<close>.
\<close>

definition load_le16 :: "bytes \<Rightarrow> u16" where
  "load_le16 bs = ucast (bs ! 0) OR push_bit 8 (ucast (bs ! 1))"

definition store_le16 :: "u16 \<Rightarrow> bytes" where
  "store_le16 w = [ucast w, ucast (drop_bit 8 w)]"

definition load_be16 :: "bytes \<Rightarrow> u16" where
  "load_be16 bs = push_bit 8 (ucast (bs ! 0)) OR ucast (bs ! 1)"

definition store_be16 :: "u16 \<Rightarrow> bytes" where
  "store_be16 w = [ucast (drop_bit 8 w), ucast w]"

definition load_le32 :: "bytes \<Rightarrow> u32" where
  "load_le32 bs = ucast (bs ! 0) OR push_bit 8 (ucast (bs ! 1))
     OR push_bit 16 (ucast (bs ! 2)) OR push_bit 24 (ucast (bs ! 3))"

definition store_le32 :: "u32 \<Rightarrow> bytes" where
  "store_le32 w = [ucast w, ucast (drop_bit 8 w), ucast (drop_bit 16 w), ucast (drop_bit 24 w)]"

definition load_be32 :: "bytes \<Rightarrow> u32" where
  "load_be32 bs = push_bit 24 (ucast (bs ! 0)) OR push_bit 16 (ucast (bs ! 1))
     OR push_bit 8 (ucast (bs ! 2)) OR ucast (bs ! 3)"

definition store_be32 :: "u32 \<Rightarrow> bytes" where
  "store_be32 w = [ucast (drop_bit 24 w), ucast (drop_bit 16 w), ucast (drop_bit 8 w), ucast w]"

definition load_be64 :: "bytes \<Rightarrow> u64" where
  "load_be64 bs = push_bit 32 (ucast (load_be32 (take 4 bs))) OR ucast (load_be32 (drop 4 bs))"

definition store_be64 :: "u64 \<Rightarrow> bytes" where
  "store_be64 w = store_be32 (ucast (drop_bit 32 w)) @ store_be32 (ucast w)"

section \<open>Byte order\<close>

definition swab32 :: "u32 \<Rightarrow> u32" where
  "swab32 d = push_bit 24 (d AND 0x000000ff) OR push_bit 8 (d AND 0x0000ff00)
     OR drop_bit 8 (d AND 0x00ff0000) OR drop_bit 24 (d AND 0xff000000)"

definition get_ntohll_le :: "bytes \<Rightarrow> nat \<Rightarrow> u64 option" where
  "get_ntohll_le m d = do {
     b0 \<leftarrow> buf_get m d 4;
     b1 \<leftarrow> buf_get m (d + 4) 4;
     let d0 = swab32 (load_le32 b0);
     let d1 = swab32 (load_le32 b1);
     Some (push_bit 32 (ucast d0) OR ucast d1)
   }"

definition get_ntohll_be :: "bytes \<Rightarrow> nat \<Rightarrow> u64 option" where
  "get_ntohll_be m d = do { b \<leftarrow> buf_get m d 8; Some (load_be64 b) }"

definition get_ntohl_le :: "bytes \<Rightarrow> nat \<Rightarrow> u32 option" where
  "get_ntohl_le m d = do { b \<leftarrow> buf_get m d 4; Some (swab32 (load_le32 b)) }"

definition get_ntohl_be :: "bytes \<Rightarrow> nat \<Rightarrow> u32 option" where
  "get_ntohl_be m d = do { b \<leftarrow> buf_get m d 4; Some (load_be32 b) }"

text \<open>The 16-bit swap is computed in \<open>int\<close> and truncated on return.\<close>

definition get_ntohs_le :: "bytes \<Rightarrow> nat \<Rightarrow> u16 option" where
  "get_ntohs_le m d = do {
     b \<leftarrow> buf_get m d 2;
     let x = load_le16 b;
     Some (push_bit 8 (x AND 0x00ff) OR drop_bit 8 (x AND 0xff00))
   }"

definition get_ntohs_be :: "bytes \<Rightarrow> nat \<Rightarrow> u16 option" where
  "get_ntohs_be m d = do { b \<leftarrow> buf_get m d 2; Some (load_be16 b) }"

definition set_htonll_le :: "bytes \<Rightarrow> nat \<Rightarrow> u64 \<Rightarrow> bytes option" where
  "set_htonll_le m x val = do {
     m \<leftarrow> buf_put m x (store_le32 (swab32 (ucast (drop_bit 32 (val AND 0xffffffff00000000)))));
     buf_put m (x + 4) (store_le32 (swab32 (ucast (val AND 0x00000000ffffffff))))
   }"

definition set_htonll_be :: "bytes \<Rightarrow> nat \<Rightarrow> u64 \<Rightarrow> bytes option" where
  "set_htonll_be m x val = buf_put m x (store_be64 val)"

definition set_htonl_le :: "bytes \<Rightarrow> nat \<Rightarrow> u32 \<Rightarrow> bytes option" where
  "set_htonl_le m x val = buf_put m x (store_le32 (swab32 val))"

definition set_htonl_be :: "bytes \<Rightarrow> nat \<Rightarrow> u32 \<Rightarrow> bytes option" where
  "set_htonl_be m x val = buf_put m x (store_be32 val)"

definition set_htons_le :: "bytes \<Rightarrow> nat \<Rightarrow> u16 \<Rightarrow> bytes option" where
  "set_htons_le m x val =
     buf_put m x (store_le16 (push_bit 8 (val AND 0x00ff) OR drop_bit 8 (val AND 0xff00)))"

definition set_htons_be :: "bytes \<Rightarrow> nat \<Rightarrow> u16 \<Rightarrow> bytes option" where
  "set_htons_be m x val = buf_put m x (store_be16 val)"

text \<open>The names the rest of the code uses; the target is built on little-endian hosts.\<close>

abbreviation get_ntohs :: "bytes \<Rightarrow> nat \<Rightarrow> u16 option" where "get_ntohs \<equiv> get_ntohs_le"
abbreviation get_ntohl :: "bytes \<Rightarrow> nat \<Rightarrow> u32 option" where "get_ntohl \<equiv> get_ntohl_le"
abbreviation get_ntohll :: "bytes \<Rightarrow> nat \<Rightarrow> u64 option" where "get_ntohll \<equiv> get_ntohll_le"
abbreviation set_htons :: "bytes \<Rightarrow> nat \<Rightarrow> u16 \<Rightarrow> bytes option" where "set_htons \<equiv> set_htons_le"
abbreviation set_htonl :: "bytes \<Rightarrow> nat \<Rightarrow> u32 \<Rightarrow> bytes option" where "set_htonl \<equiv> set_htonl_le"
abbreviation set_htonll :: "bytes \<Rightarrow> nat \<Rightarrow> u64 \<Rightarrow> bytes option" where
  "set_htonll \<equiv> set_htonll_le"

section \<open>Time stamps\<close>

definition get_ntohtime_le :: "bytes \<Rightarrow> nat \<Rightarrow> u64 option" where
  "get_ntohtime_le m d = do {
     b \<leftarrow> buf_get m d 6;
     s \<leftarrow> buf_put (replicate 8 0) 2 b;
     get_ntohll_le s 0
   }"

definition get_ntohtime_be :: "bytes \<Rightarrow> nat \<Rightarrow> u64 option" where
  "get_ntohtime_be m d = do {
     b \<leftarrow> buf_get m d 6;
     s \<leftarrow> buf_put (replicate 8 0) 2 b;
     Some (load_be64 s)
   }"

definition set_htontime_le :: "bytes \<Rightarrow> nat \<Rightarrow> u64 \<Rightarrow> bytes option" where
  "set_htontime_le m x val = do {
     s \<leftarrow> set_htonll_le (replicate 8 0) 0 val;
     b \<leftarrow> buf_get s 2 6;
     buf_put m x b
   }"

definition set_htontime_be :: "bytes \<Rightarrow> nat \<Rightarrow> u64 \<Rightarrow> bytes option" where
  "set_htontime_be m x val = do {
     b \<leftarrow> buf_get (store_be64 val) 2 6;
     buf_put m x b
   }"

abbreviation get_ntohtime :: "bytes \<Rightarrow> nat \<Rightarrow> u64 option" where "get_ntohtime \<equiv> get_ntohtime_le"
abbreviation set_htontime :: "bytes \<Rightarrow> nat \<Rightarrow> u64 \<Rightarrow> bytes option" where
  "set_htontime \<equiv> set_htontime_le"

section \<open>Offsets of attribute lists\<close>

text \<open>The arithmetic right shift of the sign bit leaves the four-bit exponent.\<close>

definition get_ntohoffset :: "bytes \<Rightarrow> nat \<Rightarrow> u64 option" where
  "get_ntohoffset m d = do {
     base \<leftarrow> get_ntohl m d;
     if base = OFFSET_UNUSED then Some (NOT 0)
     else
       let exponent = sint base div 2 ^ 28;
           x = push_bit (nat (exponent + 8)) (ucast (base AND NOT 0xf0000000) :: u64)
       in Some x
   }"

text \<open>\<open>while (val > max_mantissa) { ++exponent; val >>= 1; }\<close>\<close>

function mantissa_loop :: "int \<Rightarrow> u64 \<Rightarrow> int \<times> u64" where
  "mantissa_loop exponent val =
     (if val > 0x0fffffff then mantissa_loop (exponent + 1) (drop_bit 1 val) else (exponent, val))"
  by pat_completeness auto
termination
proof (relation "measure (\<lambda>(e, v). unat v)")
  fix exponent :: int and val :: u64
  assume "val > 0x0fffffff"
  then have "0 < unat val" by (metis not_less_zero unat_gt_0 word_not_simps(1) zero_less_iff_neq_zero)
  then have "unat (drop_bit 1 val) < unat val"
    unfolding unat_drop_bit_eq by (simp add: drop_bit_eq_div)
  then show "((exponent + 1, drop_bit 1 val), exponent, val) \<in> measure (\<lambda>(e, v). unat v)" by simp
qed simp

definition set_htonoffset :: "bytes \<Rightarrow> nat \<Rightarrow> u64 \<Rightarrow> bytes option" where
  "set_htonoffset m x val =
     (let (exponent, val) = mantissa_loop (-5) (drop_bit 3 val) in
      if exponent > 15 then buf_zero m x 4
      else
        let base = ucast val :: u32;
            base = base OR push_bit 28 (word_of_int exponent)
        in set_htonl m x base)"

function next_offset_recheck :: "u64 \<Rightarrow> nat \<Rightarrow> u64 \<Rightarrow> u64" where
  "next_offset_recheck start exponent val =
     (if exponent > 23 then 0
      else if push_bit exponent val < start then
        (let val = val + 1 in
         if val AND NOT 0x0fffffff \<noteq> 0 then next_offset_recheck start (exponent + 1) (drop_bit 1 val)
         else push_bit exponent val)
      else push_bit exponent val)"
  by pat_completeness auto
termination
  by (relation "measure (\<lambda>(start, exponent, val). 24 - exponent)") auto

definition next_offset :: "u64 \<Rightarrow> u64" where
  "next_offset start =
     (let (exponent, val) = mantissa_loop 3 (drop_bit 3 start)
      in next_offset_recheck start (nat exponent) val)"

section \<open>Hashing and rounding\<close>

definition jenkins_step :: "u32 \<Rightarrow> u8 \<Rightarrow> u32" where
  "jenkins_step hash k =
     (let hash = hash + ucast k;
          hash = hash + push_bit 10 hash
      in hash XOR drop_bit 6 hash)"

definition jenkins_finish :: "u32 \<Rightarrow> u32" where
  "jenkins_finish hash =
     (let hash = hash + push_bit 3 hash;
          hash = hash XOR drop_bit 11 hash
      in hash + push_bit 15 hash)"

definition jenkins_one_at_a_time_hash :: "bytes \<Rightarrow> u32" where
  "jenkins_one_at_a_time_hash key = jenkins_finish (foldl jenkins_step 0 key)"

text \<open>\<open>roundup8\<close> on unsigned 32-bit values.\<close>

definition roundup8 :: "u32 \<Rightarrow> u32" where
  "roundup8 x = (x + 7) AND NOT 7"


section \<open>The two host orders agree\<close>

lemma byte_masks:
  "(0x000000ff :: u32) = mask 8" "(0x0000ff00 :: u32) = push_bit 8 (mask 8)"
  "(0x00ff0000 :: u32) = push_bit 16 (mask 8)" "(0xff000000 :: u32) = push_bit 24 (mask 8)"
  "(0x00ff :: u16) = mask 8" "(0xff00 :: u16) = push_bit 8 (mask 8)"
  "(0xffffffff00000000 :: u64) = push_bit 32 (mask 32)" "(0x00000000ffffffff :: u64) = mask 32"
  by (simp_all add: mask_eq_exp_minus_1)

text \<open>The byte of a word an index falls into.\<close>

lemma bit_cases_32:
  "n < (32::nat) \<Longrightarrow> n < 8 \<or> (8 \<le> n \<and> n < 16) \<or> (16 \<le> n \<and> n < 24) \<or> (24 \<le> n \<and> n < 32)"
  by arith

lemma bit_cases_16: "n < (16::nat) \<Longrightarrow> n < 8 \<or> (8 \<le> n \<and> n < 16)"
  by arith

lemma bit_u8_high [simp]: "8 \<le> n \<Longrightarrow> \<not> bit (a :: u8) n"
  by (auto dest: bit_imp_le_length)

lemma len32: "LENGTH(32) = 32"
  by simp

lemma len16: "LENGTH(16) = 16"
  by simp

lemma swab32_load: "swab32 (load_le32 [a, b, c, d]) = load_be32 [a, b, c, d]"
  unfolding swab32_def load_le32_def load_be32_def byte_masks
  by (rule bit_word_eqI, simp only: len32, drule bit_cases_32, elim disjE) (auto simp: bit_simps)

lemma swab32_store: "store_le32 (swab32 w) = store_be32 w"
proof -
  have "ucast (swab32 w) = (ucast (drop_bit 24 w) :: u8)"
    "ucast (drop_bit 8 (swab32 w)) = (ucast (drop_bit 16 w) :: u8)"
    "ucast (drop_bit 16 (swab32 w)) = (ucast (drop_bit 8 w) :: u8)"
    "ucast (drop_bit 24 (swab32 w)) = (ucast w :: u8)"
    unfolding swab32_def byte_masks
    by (rule bit_word_eqI, auto simp: bit_simps)+
  then show ?thesis by (simp add: store_le32_def store_be32_def)
qed

lemma swab16_load: "push_bit 8 (load_le16 [a, b] AND 0x00ff) OR drop_bit 8 (load_le16 [a, b] AND 0xff00)
    = load_be16 [a, b]"
  unfolding load_le16_def load_be16_def byte_masks
  by (rule bit_word_eqI, simp only: len16, drule bit_cases_16, elim disjE) (auto simp: bit_simps)

lemma swab16_store:
  "store_le16 (push_bit 8 (w AND 0x00ff) OR drop_bit 8 (w AND 0xff00)) = store_be16 w"
proof -
  have "ucast (push_bit 8 (w AND 0x00ff) OR drop_bit 8 (w AND 0xff00)) = (ucast (drop_bit 8 w) :: u8)"
    "ucast (drop_bit 8 (push_bit 8 (w AND 0x00ff) OR drop_bit 8 (w AND 0xff00))) = (ucast w :: u8)"
    unfolding byte_masks by (rule bit_word_eqI, auto simp: bit_simps)+
  then show ?thesis by (simp add: store_le16_def store_be16_def)
qed

lemma load_store_be16: "load_be16 (store_be16 w) = w"
  unfolding load_be16_def store_be16_def
  by (rule bit_word_eqI, simp only: len16, drule bit_cases_16, elim disjE) (auto simp: bit_simps)

lemma load_store_be32: "load_be32 (store_be32 w) = w"
  unfolding load_be32_def store_be32_def
  by (rule bit_word_eqI, simp only: len32, drule bit_cases_32, elim disjE) (auto simp: bit_simps)

lemma store_load_be32: "store_be32 (load_be32 [a, b, c, d]) = [a, b, c, d]"
proof -
  let ?w = "load_be32 [a, b, c, d]"
  have "ucast (drop_bit 24 ?w) = a" "ucast (drop_bit 16 ?w) = b" "ucast (drop_bit 8 ?w) = c"
    "ucast ?w = d"
    unfolding load_be32_def
    by (rule bit_word_eqI, auto simp: bit_simps)+
  then show ?thesis by (simp add: store_be32_def)
qed

lemma store_be_length [simp]:
  "length (store_be16 h) = 2" "length (store_be32 w) = 4" "length (store_be64 l) = 8"
  by (simp_all add: store_be16_def store_be32_def store_be64_def)

lemma split_join_64: "push_bit 32 (ucast (ucast (drop_bit 32 w) :: u32)) OR ucast (ucast w :: u32) = (w :: u64)"
  by (rule bit_word_eqI) (auto simp: bit_simps)

lemma load_store_be64: "load_be64 (store_be64 w) = w"
  by (simp add: load_be64_def store_be64_def load_store_be32 split_join_64)

lemma buf_get_length: "buf_get m d n = Some b \<Longrightarrow> length b = n"
  by (auto simp: buf_get_def split: if_splits)

lemma length_2E: assumes "length b = 2" obtains x y where "b = [x, y]"
  using assms by (auto simp: length_Suc_conv numeral_eq_Suc)

lemma length_4E: assumes "length b = 4" obtains x y z w where "b = [x, y, z, w]"
  using assms by (auto simp: length_Suc_conv numeral_eq_Suc)

lemma get_ntohs_agree: "get_ntohs_le m d = get_ntohs_be m d"
proof (cases "buf_get m d 2")
  case (Some b)
  then obtain x y where "b = [x, y]" by (rule length_2E [OF buf_get_length])
  with Some show ?thesis
    by (simp only: get_ntohs_le_def get_ntohs_be_def swab16_load Let_def bind.simps)
qed (simp add: get_ntohs_le_def get_ntohs_be_def)

lemma swab32_load_len: "length b = 4 \<Longrightarrow> swab32 (load_le32 b) = load_be32 b"
  by (erule length_4E) (simp add: swab32_load)

lemma get_ntohl_agree: "get_ntohl_le m d = get_ntohl_be m d"
  by (cases "buf_get m d 4")
    (simp_all add: get_ntohl_le_def get_ntohl_be_def swab32_load_len buf_get_length)

lemma buf_get_append:
  "buf_get m d (i + j) = do { a \<leftarrow> buf_get m d i; b \<leftarrow> buf_get m (d + i) j; Some (a @ b) }"
  by (auto simp: buf_get_def take_add add.assoc add.commute)

lemma buf_put_append:
  "buf_put m d (xs @ ys) = do { m \<leftarrow> buf_put m d xs; buf_put m (d + length xs) ys }"
  by (cases "d + (length xs + length ys) \<le> length m") (auto simp: buf_put_def ac_simps)

lemma get_ntohll_agree: "get_ntohll_le m d = get_ntohll_be m d"
proof -
  have *: "buf_get m d 8 = do { a \<leftarrow> buf_get m d 4; b \<leftarrow> buf_get m (d + 4) 4; Some (a @ b) }"
    using buf_get_append [of m d 4 4] by simp
  show ?thesis
  proof (cases "buf_get m d 4")
    case a: (Some a)
    show ?thesis
    proof (cases "buf_get m (d + 4) 4")
      case (Some b)
      with a show ?thesis
        by (simp add: get_ntohll_le_def get_ntohll_be_def * load_be64_def buf_get_length
            swab32_load_len)
    qed (simp add: get_ntohll_le_def get_ntohll_be_def * a)
  qed (simp add: get_ntohll_le_def get_ntohll_be_def *)
qed

lemma set_htons_agree: "set_htons_le m x v = set_htons_be m x v"
  by (simp only: set_htons_le_def set_htons_be_def swab16_store)

lemma set_htonl_agree: "set_htonl_le m x v = set_htonl_be m x v"
  by (simp add: set_htonl_le_def set_htonl_be_def swab32_store)

lemma set_htonll_agree: "set_htonll_le m x v = set_htonll_be m x v"
proof -
  have "ucast (drop_bit 32 (v AND 0xffffffff00000000)) = (ucast (drop_bit 32 v) :: u32)"
    "ucast (v AND 0x00000000ffffffff) = (ucast v :: u32)"
    unfolding byte_masks by (rule bit_word_eqI, auto simp: bit_simps)+
  then show ?thesis
    by (simp add: set_htonll_le_def set_htonll_be_def swab32_store store_be64_def buf_put_append)
qed

section \<open>The contract of a scalar codec\<close>

text \<open>
  A scalar codec reads and writes a fixed number of bytes. Every field of a command block, a list
  entry or a sense descriptor is accessed through one; its laws follow from the byte store alone.
\<close>

locale byte_codec =
  fixes getv :: "bytes \<Rightarrow> nat \<Rightarrow> 'a option"
    and setv :: "bytes \<Rightarrow> nat \<Rightarrow> 'a \<Rightarrow> bytes option"
    and enc :: "'a \<Rightarrow> bytes"
    and dec :: "bytes \<Rightarrow> 'a"
    and width :: nat
  assumes getv_eq: "getv m d = map_option dec (buf_get m d width)"
    and setv_eq: "setv m x v = buf_put m x (enc v)"
    and dec_enc: "dec (enc v) = v"
    and width_enc: "length (enc v) = width"
begin

lemma set_defined: "setv m x v \<noteq> None \<longleftrightarrow> x + width \<le> length m"
  using mem.put_defined [of m x "enc v"] by (simp add: setv_eq width_enc)

lemma get_defined: "getv m d \<noteq> None \<longleftrightarrow> d + width \<le> length m"
  using mem.get_defined [of m d width] by (simp add: getv_eq)

lemma set_obtain:
  assumes "x + width \<le> length m"
  obtains m' where "setv m x v = Some m'" and "length m' = length m"
  using mem.put_some [of x "enc v" m] assms by (auto simp: setv_eq width_enc)

lemma set_length: "setv m x v = Some m' \<Longrightarrow> length m' = length m"
  by (simp add: setv_eq buf_put_length)

lemma get_set: "setv m x v = Some m' \<Longrightarrow> getv m' x = Some v"
  using mem.get_put [of m x "enc v" m'] by (simp add: setv_eq getv_eq width_enc dec_enc)

lemma get_set_apart:
  assumes "setv m x v = Some m'" and "d + n \<le> x \<or> x + width \<le> d"
  shows "buf_get m' d n = buf_get m d n"
  using mem.get_put_apart [of m x "enc v" m' d n] assms by (simp add: setv_eq width_enc)

lemma getv_set_apart:
  assumes "setv m x v = Some m'" and "d + width \<le> x \<or> x + width \<le> d"
  shows "getv m' d = getv m d"
  using get_set_apart [OF assms] by (simp add: getv_eq)

lemma write_read:
  assumes "x + width \<le> length m"
  shows "\<exists>m'. setv m x v = Some m' \<and> getv m' x = Some v \<and> length m' = length m \<and>
    (\<forall>d n. d + n \<le> x \<or> x + width \<le> d \<longrightarrow> buf_get m' d n = buf_get m d n)"
  using set_obtain [OF assms, of v] get_set get_set_apart by metis

end

interpretation ntohs: byte_codec get_ntohs_le set_htons_le store_be16 load_be16 2
  by unfold_locales
    (simp_all add: get_ntohs_agree get_ntohs_be_def set_htons_agree set_htons_be_def
      load_store_be16 bind_map_option split: Option.bind_splits)

interpretation ntohl: byte_codec get_ntohl_le set_htonl_le store_be32 load_be32 4
  by unfold_locales
    (simp_all add: get_ntohl_agree get_ntohl_be_def set_htonl_agree set_htonl_be_def
      load_store_be32 split: Option.bind_splits)

interpretation ntohll: byte_codec get_ntohll_le set_htonll_le store_be64 load_be64 8
  by unfold_locales
    (simp_all add: get_ntohll_agree get_ntohll_be_def set_htonll_agree set_htonll_be_def
      load_store_be64 split: Option.bind_splits)

lemmas codec_length [simp] = ntohs.set_length ntohl.set_length ntohll.set_length

section \<open>Properties of the conversions\<close>

lemma get_ntohtime_agree: "get_ntohtime_le m d = get_ntohtime_be m d"
proof -
  have "get_ntohll_le s 0 = Some (load_be64 s)" if "length s = 8" for s
    using that by (simp add: ntohll.getv_eq buf_get_def)
  then show ?thesis
    by (auto simp: get_ntohtime_le_def get_ntohtime_be_def dest: buf_put_length
        split: Option.bind_splits)
qed

lemma set_htontime_agree: "set_htontime_le m x v = set_htontime_be m x v"
proof -
  have "buf_put r 0 (store_be64 v) = Some (store_be64 v)" if "length r = 8" for r
    using that by (simp add: buf_put_def)
  then have "set_htonll_le (replicate 8 0) 0 v = Some (store_be64 v)"
    by (simp only: ntohll.setv_eq length_replicate)
  then show ?thesis
    by (simp only: set_htontime_le_def set_htontime_be_def bind.simps)
qed

lemma load_be32_low: "load_be32 (0 # 0 # drop 2 (store_be32 u)) = u AND 0xffff"
proof -
  have *: "0 # 0 # drop 2 (store_be32 u) = [0, 0, ucast (drop_bit 8 u), ucast u]"
    by (simp add: store_be32_def)
  have "push_bit 8 (ucast (ucast (drop_bit 8 u) :: u8)) OR ucast (ucast u :: u8) = u AND mask 16"
    by (rule bit_word_eqI) (auto simp: bit_simps)
  then show ?thesis
    unfolding * load_be32_def by (simp add: mask_eq_exp_minus_1)
qed

lemma join_48:
  "push_bit 32 (ucast (ucast (drop_bit 32 v) AND 0xffff :: u32)) OR ucast (ucast v :: u32)
    = (v :: u64) AND 0xffffffffffff"
proof (rule bit_word_eqI)
  fix n assume "n < LENGTH(64)"
  have mask: "(0xffffffffffff :: u64) = mask 48" "(0xffff :: u32) = mask 16"
    by (simp_all add: mask_eq_exp_minus_1)
  show "bit (push_bit 32 (ucast (ucast (drop_bit 32 v) AND 0xffff :: u32)) OR ucast (ucast v :: u32) :: u64) n
      \<longleftrightarrow> bit (v AND 0xffffffffffff) n"
    unfolding mask using \<open>n < LENGTH(64)\<close> by (auto simp: bit_simps)
qed

lemma load_be64_time:
  "load_be64 ([0, 0] @ drop 2 (store_be64 v)) = v AND 0xffffffffffff"
proof -
  have "take 4 ([0, 0] @ drop 2 (store_be64 v)) = 0 # 0 # drop 2 (store_be32 (ucast (drop_bit 32 v)))"
    "drop 4 ([0, 0] @ drop 2 (store_be64 v)) = store_be32 (ucast v)"
    by (simp_all add: store_be64_def store_be32_def)
  then show ?thesis
    by (simp only: load_be64_def load_be32_low load_store_be32 join_48)
qed

lemma set_get_ntohtime:
  assumes "set_htontime_le m x v = Some m'"
  shows "get_ntohtime_le m' x = Some (v AND 0xffffffffffff)"
proof -
  have "buf_put m x (drop 2 (store_be64 v)) = Some m'"
    using assms by (auto simp: set_htontime_agree set_htontime_be_def buf_get_def)
  then have "buf_get m' x 6 = Some (drop 2 (store_be64 v))"
    using mem.get_put [of m x "drop 2 (store_be64 v)" m'] by simp
  then show ?thesis
    using load_be64_time [of v]
    by (simp add: get_ntohtime_agree get_ntohtime_be_def buf_put_def numeral_2_eq_2)
qed

section \<open>Offsets: lemmas\<close>

declare mantissa_loop.simps [simp del] next_offset_recheck.simps [simp del]

text \<open>The loop shifts as often as needed, and no more.\<close>

lemma mantissa_loop_result:
  obtains k where "mantissa_loop e v = (e + int k, drop_bit k v)"
    and "unat v div 2 ^ k < 2 ^ 28" and "\<forall>j<k. 2 ^ 28 \<le> unat v div 2 ^ j"
proof -
  have "\<exists>k. mantissa_loop e v = (e + int k, drop_bit k v) \<and> unat v div 2 ^ k < 2 ^ 28
      \<and> (\<forall>j<k. 2 ^ 28 \<le> unat v div 2 ^ j)"
  proof (induction e v rule: mantissa_loop.induct)
    case (1 e v)
    show ?case
    proof (cases "v > 0x0fffffff")
      case True
      then obtain k where k: "mantissa_loop (e + 1) (drop_bit 1 v) = (e + 1 + int k, drop_bit k (drop_bit 1 v))"
        "unat (drop_bit 1 v) div 2 ^ k < 2 ^ 28"
        "\<forall>j<k. 2 ^ 28 \<le> unat (drop_bit 1 v) div 2 ^ j"
        using 1 by blast
      have half: "unat (drop_bit 1 v) div 2 ^ j = unat v div 2 ^ Suc j" for j
        unfolding unat_drop_bit_eq by (simp add: drop_bit_eq_div div_mult2_eq)
      have "2 ^ 28 \<le> unat v div 2 ^ j" if "j < Suc k" for j
      proof (cases j)
        case 0
        with True show ?thesis by (simp add: word_less_nat_alt)
      next
        case (Suc i)
        with that k(3) show ?thesis by (simp only: half Suc_less_eq)
      qed
      moreover have "mantissa_loop e v = (e + int (Suc k), drop_bit (Suc k) v)"
        using k(1) True by (subst mantissa_loop.simps) (simp add: drop_bit_drop_bit)
      ultimately show ?thesis using k(2) unfolding half by blast
    next
      case False
      then have "mantissa_loop e v = (e, v)" by (subst mantissa_loop.simps) simp
      moreover have "unat v div 2 ^ 0 < 2 ^ 28"
        using False by (simp add: word_less_nat_alt)
      ultimately show ?thesis by (intro exI [of _ 0]) simp
    qed
  qed
  with that show ?thesis by blast
qed

text \<open>The exponent the loop settles on for a value: the least shift from 3 that leaves 28 bits.\<close>

definition offset_shift :: "nat \<Rightarrow> nat \<Rightarrow> bool" where
  "offset_shift s t \<longleftrightarrow> 3 \<le> t \<and> s div 2 ^ t < 2 ^ 28 \<and> (\<forall>j. 3 \<le> j \<and> j < t \<longrightarrow> 2 ^ 28 \<le> s div 2 ^ j)"

lemma mantissa_loop_shift:
  obtains t where "offset_shift (unat v) t"
    and "mantissa_loop e (drop_bit 3 v) = (e + int t - 3, drop_bit t v)"
proof -
  obtain k where k: "mantissa_loop e (drop_bit 3 v) = (e + int k, drop_bit k (drop_bit 3 v))"
    "unat (drop_bit 3 v) div 2 ^ k < 2 ^ 28"
    "\<forall>j<k. 2 ^ 28 \<le> unat (drop_bit 3 v) div 2 ^ j"
    by (rule mantissa_loop_result [of e "drop_bit 3 v"])
  have shift: "unat (drop_bit 3 v) div 2 ^ j = unat v div 2 ^ (3 + j)" for j
    by (simp only: unat_drop_bit_eq drop_bit_eq_div [where 'a = nat] power_add div_mult2_eq)
  have "2 ^ 28 \<le> unat v div 2 ^ j" if "3 \<le> j" "j < 3 + k" for j
    using k(3) [rule_format, of "j - 3"] that unfolding shift by simp
  then have "offset_shift (unat v) (3 + k)"
    using k(2) unfolding shift offset_shift_def by simp
  then show ?thesis
    using k(1) by (intro that [of "3 + k"]) (simp_all add: drop_bit_drop_bit add.commute)
qed

lemma offset_shift_unique:
  assumes "offset_shift s t" and "offset_shift s t'" shows "t = t'"
  using assms unfolding offset_shift_def by (meson linorder_neqE_nat not_less)

lemma offset_shift_le:
  assumes "offset_shift s t" and "3 \<le> e" and "s div 2 ^ e < 2 ^ 28" shows "t \<le> e"
  using assms unfolding offset_shift_def by (meson not_less)


lemma div_add_small:
  "(q * 2 ^ t + (2 ^ t - 1)) div 2 ^ t = (q :: nat)"
  "s < 2 ^ t \<Longrightarrow> (q * 2 ^ t + s) div 2 ^ t = (q :: nat)"
proof -
  show "s < 2 ^ t \<Longrightarrow> (q * 2 ^ t + s) div 2 ^ t = (q :: nat)" for s by (simp add: div_mult_self3)
  from this [of "2 ^ t - 1"] show "(q * 2 ^ t + (2 ^ t - 1)) div 2 ^ t = q" by simp
qed

lemma word_over_28: "(x :: u64) AND NOT 0x0fffffff \<noteq> 0 \<longleftrightarrow> 2 ^ 28 \<le> unat x"
proof -
  have m: "(0x0fffffff :: u64) = mask 28" by (simp add: mask_eq_exp_minus_1)
  have "x AND NOT (mask 28) = 0 \<longleftrightarrow> take_bit 28 x = x"
    unfolding take_bit_eq_mask by (auto simp: bit_eq_iff bit_simps)
  also have "\<dots> \<longleftrightarrow> unat x < 2 ^ 28"
    by (simp only: word_unat_eq_iff unsigned_take_bit_eq take_bit_nat_eq_self_iff)
  finally show ?thesis unfolding m by (simp add: not_less)
qed

lemma unat_push_drop:
  assumes "c * 2 ^ t < 2 ^ 64" and "unat (x :: u64) = c"
  shows "unat (push_bit t x) = c * 2 ^ t"
proof -
  have "unat (push_bit t x) = take_bit 64 (push_bit t (unat x))"
    by (simp add: unsigned_push_bit_eq)
  also have "\<dots> = c * 2 ^ t"
    using assms by (simp add: push_bit_eq_mult take_bit_nat_eq_self)
  finally show ?thesis .
qed

text \<open>The value of \<open>next_offset\<close>: the least multiple of \<open>2 ^ t\<close> that is not below \<open>start\<close>.\<close>

lemma next_offset_value:
  assumes t: "offset_shift (unat start) t"
  defines "c \<equiv> (unat start + (2 ^ t - 1)) div 2 ^ t"
  shows "unat (next_offset start)
    = (if 23 < t \<or> t = 23 \<and> c = 2 ^ 28 then 0 else c * 2 ^ t)"
proof -
  let ?s = "unat start" let ?q = "unat start div 2 ^ t"
  have loop: "next_offset start = next_offset_recheck start t (drop_bit t start)"
  proof -
    obtain t' where t': "offset_shift (unat start) t'"
      "mantissa_loop 3 (drop_bit 3 start) = (3 + int t' - 3, drop_bit t' start)"
      by (rule mantissa_loop_shift)
    then have "t' = t" using t offset_shift_unique by blast
    with t' show ?thesis by (simp add: next_offset_def)
  qed
  have q: "unat (drop_bit t start) = ?q" "?q < 2 ^ 28"
    unfolding unat_drop_bit_eq using t by (simp_all add: drop_bit_eq_div offset_shift_def)
  show ?thesis
  proof (cases "23 < t")
    case True
    then show ?thesis unfolding loop by (simp add: next_offset_recheck.simps)
  next
    case False
    have bound: "n * 2 ^ t < 2 ^ 64" if "n \<le> 2 ^ 28" for n :: nat
    proof -
      have "n * 2 ^ t \<le> 2 ^ 28 * 2 ^ t" using that by simp
      also have "\<dots> = 2 ^ (28 + t)" by (simp only: power_add)
      also have "\<dots> < 2 ^ 64" using False by (intro power_strict_increasing) auto
      finally show ?thesis .
    qed
    have low: "unat (push_bit t (drop_bit t start)) = ?q * 2 ^ t"
      using unat_push_drop bound q by simp
    have split: "?s = ?q * 2 ^ t + ?s mod 2 ^ t" by (rule div_mult_mod_eq [symmetric])
    show ?thesis
    proof (cases "?s mod 2 ^ t = 0")
      case True
      have "c = ?q"
      proof -
        have "?s + (2 ^ t - 1) = ?q * 2 ^ t + (2 ^ t - 1)" using True split by simp
        then show ?thesis unfolding c_def by (simp only: div_add_small)
      qed
      moreover have "\<not> push_bit t (drop_bit t start) < start"
        using low True split by (simp add: word_less_nat_alt)
      ultimately show ?thesis
        unfolding loop using False q low by (simp add: next_offset_recheck.simps)
    next
      case nz: False
      have c: "c = ?q + 1"
      proof -
        have "?s + (2 ^ t - 1) = (?q + 1) * 2 ^ t + (?s mod 2 ^ t - 1)"
        proof -
          have "1 \<le> (2::nat) ^ t" "(?q + 1) * 2 ^ t = ?q * 2 ^ t + 2 ^ t" by simp_all
          with split nz show ?thesis by linarith
        qed
        then show ?thesis
          unfolding c_def by (simp only: div_add_small less_imp_diff_less mod_less_divisor
              zero_less_power zero_less_numeral)
      qed
      have less: "push_bit t (drop_bit t start) < start"
        using low nz split by (simp add: word_less_nat_alt)
      have up: "unat (drop_bit t start + 1) = c"
        using q c by (simp add: unat_word_ariths)
      have above: "?s \<le> c * 2 ^ t"
      proof -
        have "c * 2 ^ t = ?q * 2 ^ t + 2 ^ t" "?s mod 2 ^ t < 2 ^ t" using c by simp_all
        with split show ?thesis by linarith
      qed
      show ?thesis
      proof (cases "c = 2 ^ 28")
        case False
        then have "\<not> (drop_bit t start + 1) AND NOT 0x0fffffff \<noteq> 0"
          unfolding word_over_28 up using c q by simp
        moreover have "unat (push_bit t (drop_bit t start + 1)) = c * 2 ^ t"
          using bound [of c] up c q by (intro unat_push_drop) simp_all
        ultimately show ?thesis
          unfolding loop using \<open>\<not> 23 < t\<close> False less by (simp add: next_offset_recheck.simps)
      next
        case True
        then have over: "(drop_bit t start + 1) AND NOT 0x0fffffff \<noteq> 0"
          unfolding word_over_28 up by simp
        have half: "unat (drop_bit 1 (drop_bit t start + 1)) = 2 ^ 27"
          unfolding unat_drop_bit_eq up True by (simp add: drop_bit_eq_div)
        have next_call: "next_offset start
            = next_offset_recheck start (t + 1) (drop_bit 1 (drop_bit t start + 1))"
          unfolding loop using \<open>\<not> 23 < t\<close> less over
          by (subst next_offset_recheck.simps) (simp add: Let_def)
        show ?thesis
        proof (cases "t = 23")
          case True
          then show ?thesis
            unfolding next_call using \<open>c = 2 ^ 28\<close> by (simp add: next_offset_recheck.simps)
        next
          case False
          have eq: "2 ^ 27 * 2 ^ (t + 1) = c * 2 ^ t"
            using True by simp
          have val: "unat (push_bit (t + 1) (drop_bit 1 (drop_bit t start + 1))) = c * 2 ^ t"
            using unat_push_drop [OF _ half, of "t + 1"] bound [of c] True unfolding eq by simp
          then have "\<not> push_bit (t + 1) (drop_bit 1 (drop_bit t start + 1)) < start"
            using above by (simp add: word_less_nat_alt)
          then show ?thesis
            unfolding next_call using False \<open>\<not> 23 < t\<close> val
            by (subst next_offset_recheck.simps) simp
        qed
      qed
    qed
  qed
qed

text \<open>The offsets \<open>next_offset\<close> may answer: a 28-bit mantissa and an exponent from 3 to 23.\<close>

definition legal_offset :: "nat \<Rightarrow> bool" where
  "legal_offset n \<longleftrightarrow> (\<exists>m e. m < 2 ^ 28 \<and> 3 \<le> e \<and> e \<le> 23 \<and> n = m * 2 ^ e)"

lemma ceil_mult_bounds:
  fixes s :: nat
  defines "c \<equiv> \<lambda>t. (s + (2 ^ t - 1)) div 2 ^ t"
  shows "s \<le> c t * 2 ^ t" and "c t * 2 ^ t < s + 2 ^ t"
    and "2 ^ t dvd n \<Longrightarrow> s \<le> n \<Longrightarrow> c t * 2 ^ t \<le> n"
proof -
  have P: "0 < (2::nat) ^ t" by simp
  have eq: "s + (2 ^ t - 1) = c t * 2 ^ t + (s + (2 ^ t - 1)) mod 2 ^ t"
    unfolding c_def by (rule div_mult_mod_eq [symmetric])
  have m: "(s + (2 ^ t - 1)) mod 2 ^ t < 2 ^ t" by simp
  from eq m P show lo: "s \<le> c t * 2 ^ t" by linarith
  from eq m P show hi: "c t * 2 ^ t < s + 2 ^ t" by linarith
  assume "2 ^ t dvd n" and "s \<le> n"
  then obtain k where k: "n = k * 2 ^ t" by (metis dvd_def mult.commute)
  with hi \<open>s \<le> n\<close> have "c t * 2 ^ t < (k + 1) * 2 ^ t" by simp
  then have "c t < k + 1" using mult_less_cancel2 by blast
  then show "c t * 2 ^ t \<le> n" using k by simp
qed

lemma offset_shift_exists: obtains t where "offset_shift (unat (v :: u64)) t"
  by (rule mantissa_loop_shift)


lemma next_offset_too_big:
  assumes "0xfffffff * 2 ^ 23 < unat start"
  shows "next_offset start = 0"
proof -
  obtain t where t: "offset_shift (unat start) t" by (rule offset_shift_exists)
  have "23 < t \<or> t = 23 \<and> (unat start + (2 ^ t - 1)) div 2 ^ t = 2 ^ 28"
  proof (cases "t \<le> 22")
    case True
    have "unat start < 2 ^ 28 * 2 ^ t"
      using t by (simp add: offset_shift_def div_less_iff_less_mult)
    also have "\<dots> \<le> 2 ^ 28 * 2 ^ 22"
      using True by (intro mult_le_mono2 power_increasing) auto
    finally show ?thesis using assms by simp
  next
    case False
    have "unat start < 2 ^ 28 * 2 ^ t"
      using t by (simp add: offset_shift_def div_less_iff_less_mult)
    then have "(unat start + (2 ^ 23 - 1)) div 2 ^ 23 = 2 ^ 28" if "t = 23"
      using assms that by (simp add: div_nat_eqI)
    with False show ?thesis by (cases "t = 23") (simp only: simp_thms, arith)
  qed
  then have "unat (next_offset start) = 0"
    unfolding next_offset_value [OF t] by auto
  then show ?thesis by (simp add: unat_eq_0)
qed

lemma next_offset_in_range:
  assumes "unat start \<le> 0xfffffff * 2 ^ 23" and t: "offset_shift (unat start) t"
  defines "c \<equiv> (unat start + (2 ^ t - 1)) div 2 ^ t"
  shows "unat (next_offset start) = c * 2 ^ t" and "t \<le> 23" and "c \<le> 2 ^ 28"
    and "c = 2 ^ 28 \<Longrightarrow> t < 23"
proof -
  show t23: "t \<le> 23"
    using assms(1) by (intro offset_shift_le [OF t]) (simp_all add: div_less_iff_less_mult)
  have hi: "c * 2 ^ t < unat start + 2 ^ t"
    unfolding c_def by (rule ceil_mult_bounds)
  have "unat start < 2 ^ 28 * 2 ^ t"
    using t by (simp add: offset_shift_def div_less_iff_less_mult)
  with hi have "c * 2 ^ t < (2 ^ 28 + 1) * 2 ^ t" by (simp only: distrib_right)
  then show "c \<le> 2 ^ 28" using mult_less_cancel2 [of c "2 ^ t"] by simp
  show lt: "c = 2 ^ 28 \<Longrightarrow> t < 23"
    using hi assms(1) t23 by (cases "t = 23") auto
  show "unat (next_offset start) = c * 2 ^ t"
    unfolding next_offset_value [OF t] using t23 lt by (auto simp: c_def)
qed

lemma legal_offsetI: "m < 2 ^ 28 \<Longrightarrow> 3 \<le> e \<Longrightarrow> e \<le> 23 \<Longrightarrow> n = m * 2 ^ e \<Longrightarrow> legal_offset n"
  unfolding legal_offset_def by blast

lemma next_offset_legal:
  assumes "unat start \<le> 0xfffffff * 2 ^ 23"
  shows "legal_offset (unat (next_offset start))"
proof -
  obtain t where t: "offset_shift (unat start) t" by (rule offset_shift_exists)
  note r = next_offset_in_range [OF assms t]
  have t3: "3 \<le> t" using t by (simp add: offset_shift_def)
  let ?c = "(unat start + (2 ^ t - 1)) div 2 ^ t"
  show ?thesis
  proof (cases "?c = 2 ^ 28")
    case False
    with r(3) have "?c < 2 ^ 28" by linarith
    then show ?thesis using t3 r(2) r(1) by (rule legal_offsetI)
  next
    case True
    have "unat (next_offset start) = 2 ^ 28 * 2 ^ t" unfolding r(1) True ..
    also have "\<dots> = 2 ^ 27 * 2 ^ (t + 1)" by simp
    finally show ?thesis using True r(4) t3 by (intro legal_offsetI [of "2 ^ 27" "t + 1"]) simp_all
  qed
qed


section \<open>The wire format of offsets\<close>

lemma offset_mantissa_bits:
  "unat (w :: u32) < 2 ^ 28 \<Longrightarrow> \<not> bit w n" if "28 \<le> n"
proof -
  assume "unat w < 2 ^ 28"
  then have "take_bit 28 w = w"
    by (simp only: word_unat_eq_iff unsigned_take_bit_eq take_bit_nat_eq_self_iff)
  then show ?thesis using that by (metis bit_take_bit_iff leD)
qed

lemma offset_exponent:
  assumes "unat (w :: u32) < 2 ^ 28" and "-8 \<le> e" and "e < 8"
  shows "sint (w OR push_bit 28 (word_of_int e)) div 2 ^ 28 = e"
proof -
  have "drop_bit 28 (sint (w OR push_bit 28 (word_of_int e))) = signed_take_bit 3 e"
    using offset_mantissa_bits [OF _ assms(1)]
    by (intro bit_eqI) (auto simp: bit_simps min_def)
  also have "\<dots> = e"
    using assms(2,3) by (intro signed_take_bit_int_eq_self) simp_all
  finally show ?thesis by (simp add: drop_bit_eq_div)
qed

lemma offset_mantissa:
  assumes "unat (w :: u32) < 2 ^ 28"
  shows "(w OR push_bit 28 (word_of_int e)) AND NOT 0xf0000000 = w"
proof -
  have m: "(0xf0000000 :: u32) = push_bit 28 (mask 4)" by (simp add: mask_eq_exp_minus_1)
  show ?thesis
    unfolding m using offset_mantissa_bits [OF _ assms]
    by (intro bit_word_eqI) (auto simp: bit_simps not_le)
qed

lemma offset_unused:
  assumes "unat (w :: u32) < 2 ^ 28" and "-8 \<le> e" and "e < 8"
  shows "w OR push_bit 28 (word_of_int e) = OFFSET_UNUSED \<longleftrightarrow> unat w = 0xfffffff \<and> e = -1"
proof
  assume eq: "w OR push_bit 28 (word_of_int e) = OFFSET_UNUSED"
  have "w = OFFSET_UNUSED AND NOT 0xf0000000"
    using offset_mantissa [OF assms(1), of e] unfolding eq by simp
  moreover have "e = sint OFFSET_UNUSED div 2 ^ 28"
    using offset_exponent [OF assms] unfolding eq by simp
  ultimately show "unat w = 0xfffffff \<and> e = -1" by (simp add: OFFSET_UNUSED_def)
next
  assume "unat w = 0xfffffff \<and> e = -1"
  then have "w = 0xfffffff" "e = -1" by (auto simp: word_unat_eq_iff)
  then show "w OR push_bit 28 (word_of_int e) = OFFSET_UNUSED"
    by (simp add: OFFSET_UNUSED_def mask_eq_exp_minus_1)
qed

text \<open>What a reader of the field sees, for values whose exponent fits the four-bit field.\<close>

lemma set_get_offset:
  assumes t: "offset_shift (unat v) t" and "t \<le> 15" and "set_htonoffset m x v = Some m'"
  shows "get_ntohoffset m' x
    = Some (if unat v div 2 ^ t = 0xfffffff \<and> t = 7 then NOT 0 else push_bit t (drop_bit t v))"
proof -
  let ?w = "ucast (drop_bit t v) :: u32"
  let ?base = "?w OR push_bit 28 (word_of_int (int t - 8))"
  obtain t' where "offset_shift (unat v) t'"
    "mantissa_loop (-5) (drop_bit 3 v) = (-5 + int t' - 3, drop_bit t' v)"
    by (rule mantissa_loop_shift)
  with t have loop: "mantissa_loop (-5) (drop_bit 3 v) = (int t - 8, drop_bit t v)"
    using offset_shift_unique by fastforce
  have set: "set_htonl m x ?base = Some m'"
    using assms(2,3) unfolding set_htonoffset_def loop by (simp add: Let_def)
  then have get: "get_ntohl m' x = Some ?base" by (rule ntohl.get_set)
  have q: "unat (drop_bit t v) = unat v div 2 ^ t" "unat v div 2 ^ t < 2 ^ 28"
    unfolding unat_drop_bit_eq using t by (simp_all add: drop_bit_eq_div offset_shift_def)
  have w: "unat ?w = unat v div 2 ^ t"
    using q(2) unfolding unsigned_ucast_eq q(1) by (simp add: take_bit_nat_eq_self)
  then have w28: "unat ?w < 2 ^ 28" using q by simp
  have e: "-8 \<le> int t - 8" "int t - 8 < 8" using assms(2) by simp_all
  have again: "(ucast ?w :: u64) = drop_bit t v"
    unfolding word_unat_eq_iff unsigned_ucast_eq [where 'b = 32] w q(1)
    using q(2) by (simp add: take_bit_nat_eq_self)
  define b where "b = ?base"
  have facts: "b = OFFSET_UNUSED \<longleftrightarrow> unat v div 2 ^ t = 0xfffffff \<and> int t - 8 = -1"
    "sint b div 2 ^ 28 = int t - 8" "b AND NOT 0xf0000000 = ?w"
    unfolding b_def using offset_unused [OF w28 e] offset_exponent [OF w28 e]
    by (simp_all only: w offset_mantissa [OF w28])
  have "int t - 8 = -1 \<longleftrightarrow> t = 7" by arith
  then show ?thesis
    unfolding get_ntohoffset_def get b_def [symmetric] using facts
    by (simp only: bind.simps Let_def again diff_add_cancel nat_int split: if_split) auto
qed

lemma push_drop_dvd:
  assumes "2 ^ t dvd unat (v :: u64)" shows "push_bit t (drop_bit t v) = v"
proof -
  have eq: "unat v div 2 ^ t * 2 ^ t = unat v" using assms by simp
  have "unat (drop_bit t v) = unat v div 2 ^ t"
    unfolding unat_drop_bit_eq by (simp add: drop_bit_eq_div)
  moreover have "unat v div 2 ^ t * 2 ^ t < 2 ^ 64"
    unfolding eq using unsigned_less [of v] by simp
  ultimately have "unat (push_bit t (drop_bit t v)) = unat v"
    using unat_push_drop eq by metis
  then show ?thesis by (simp only: word_unat_eq_iff)
qed

text \<open>The values the four-bit exponent can express.\<close>

definition wire_offset :: "nat \<Rightarrow> bool" where
  "wire_offset n \<longleftrightarrow> (\<exists>m e. m < 2 ^ 28 \<and> 3 \<le> e \<and> e \<le> 15 \<and> n = m * 2 ^ e)"

lemma set_get_wire_offset:
  assumes "wire_offset (unat v)" and "unat v \<noteq> 0xfffffff * 2 ^ 7"
    and "set_htonoffset m x v = Some m'"
  shows "get_ntohoffset m' x = Some v"
proof -
  obtain q e where e: "q < 2 ^ 28" "3 \<le> e" "e \<le> 15" "unat v = q * 2 ^ e"
    using assms(1) unfolding wire_offset_def by blast
  obtain t where t: "offset_shift (unat v) t" by (rule offset_shift_exists)
  have "t \<le> e" using e by (intro offset_shift_le [OF t]) simp_all
  then have dvd: "2 ^ t dvd unat v" unfolding e(4) by (simp add: dvd_mult le_imp_power_dvd)
  have "\<not> (unat v div 2 ^ t = 0xfffffff \<and> t = 7)"
    using assms(2) dvd by (metis dvd_div_mult_self)
  with \<open>t \<le> e\<close> e(3) show ?thesis
    using set_get_offset [OF t _ assms(3)] push_drop_dvd [OF dvd] by auto
qed

section \<open>The hash\<close>

text \<open>Each step of the hash is injective in the state and in the key byte.\<close>

lemma xor_drop_inj:
  assumes "0 < k" and "x XOR drop_bit k x = y XOR drop_bit k (y :: u32)"
  shows "x = y"
proof (rule bit_word_eqI)
  fix n assume "n < LENGTH(32)"
  have step: "(bit x i \<noteq> bit x (i + k)) \<longleftrightarrow> (bit y i \<noteq> bit y (i + k))" for i
    using arg_cong [OF assms(2), of "\<lambda>w. bit w i"]
    by (simp add: bit_xor_iff bit_drop_bit_eq add.commute)
  show "bit x n = bit y n"
  proof (induction "32 - n" arbitrary: n rule: less_induct)
    case less
    show ?case
    proof (cases "n < 32")
      case True
      then have "bit x (n + k) = bit y (n + k)"
        using assms(1) by (intro less) simp
      then show ?thesis using step [of n] by blast
    qed (auto dest: bit_imp_le_length)
  qed
qed

lemma shift_add_inj:
  assumes "(1 + 2 ^ k) * i = (1 :: u32)" and "x + push_bit k x = y + push_bit k (y :: u32)"
  shows "x = y"
proof -
  have "z = i * (z + push_bit k z)" for z :: u32
  proof -
    have "i * (z + push_bit k z) = ((1 + 2 ^ k) * i) * z"
      by (simp only: push_bit_eq_mult distrib_left distrib_right mult_1_left mult.assoc mult.commute
          mult.left_commute)
    then show ?thesis unfolding assms(1) by (simp only: mult_1_left)
  qed
  with assms(2) show ?thesis by metis
qed

lemma shift_add_10: "x + push_bit 10 x = y + push_bit 10 (y :: u32) \<Longrightarrow> x = y"
  by (rule shift_add_inj [where k = 10 and i = "0xc00ffc01"]) simp_all

lemma shift_add_3: "x + push_bit 3 x = y + push_bit 3 (y :: u32) \<Longrightarrow> x = y"
  by (rule shift_add_inj [where k = 3 and i = "0x38e38e39"]) simp_all

lemma shift_add_15: "x + push_bit 15 x = y + push_bit 15 (y :: u32) \<Longrightarrow> x = y"
  by (rule shift_add_inj [where k = 15 and i = "0x3fff8001"]) simp_all

lemma jenkins_step_inj:
  assumes "jenkins_step h k = jenkins_step h' k'" shows "h + ucast k = h' + ucast k'"
proof -
  have "h + ucast k + push_bit 10 (h + ucast k) = h' + ucast k' + push_bit 10 (h' + ucast k')"
    using assms unfolding jenkins_step_def Let_def by (rule xor_drop_inj [rotated]) simp
  then show ?thesis by (rule shift_add_10)
qed

lemma jenkins_step_state_inj: "jenkins_step h k = jenkins_step h' k \<Longrightarrow> h = h'"
  by (drule jenkins_step_inj) simp

lemma ucast_u8_inj: "(ucast (a :: u8) :: u32) = ucast b \<Longrightarrow> a = b"
proof -
  have "(ucast (ucast c :: u32) :: u8) = c" for c by (rule bit_word_eqI) (simp add: bit_simps)
  then show "(ucast a :: u32) = ucast b \<Longrightarrow> a = b" by metis
qed

lemma jenkins_step_byte_inj: "jenkins_step h k = jenkins_step h k' \<Longrightarrow> k = k'"
proof -
  assume "jenkins_step h k = jenkins_step h k'"
  then have "(ucast k :: u32) = ucast k'" by (drule_tac jenkins_step_inj) simp
  then show "k = k'" by (rule ucast_u8_inj)
qed

lemma jenkins_finish_inj:
  assumes "jenkins_finish h = jenkins_finish h'" shows "h = h'"
proof -
  have "h + push_bit 3 h XOR drop_bit 11 (h + push_bit 3 h)
      = h' + push_bit 3 h' XOR drop_bit 11 (h' + push_bit 3 h')"
    using assms unfolding jenkins_finish_def Let_def by (rule shift_add_15)
  then have "h + push_bit 3 h = h' + push_bit 3 h'" by (rule xor_drop_inj [rotated]) simp
  then show ?thesis by (rule shift_add_3)
qed

lemma jenkins_fold_inj: "foldl jenkins_step h ks = foldl jenkins_step h' ks \<Longrightarrow> h = h'"
  by (induction ks arbitrary: h h') (auto dest: jenkins_step_state_inj)

lemma next_offset_wire:
  assumes "unat start \<le> 0xfffffff * 2 ^ 15"
  shows "wire_offset (unat (next_offset start))" and "unat start \<le> unat (next_offset start)"
proof -
  obtain t where t: "offset_shift (unat start) t" by (rule offset_shift_exists)
  have small: "unat start \<le> 0xfffffff * 2 ^ 23" using assms by simp
  note r = next_offset_in_range [OF small t]
  let ?c = "(unat start + (2 ^ t - 1)) div 2 ^ t"
  have t3: "3 \<le> t" using t by (simp add: offset_shift_def)
  have t15: "t \<le> 15"
    using assms by (intro offset_shift_le [OF t]) (simp_all add: div_less_iff_less_mult)
  have hi: "?c * 2 ^ t < unat start + 2 ^ t" by (rule ceil_mult_bounds)
  show "unat start \<le> unat (next_offset start)"
    unfolding r(1) by (rule ceil_mult_bounds)
  show "wire_offset (unat (next_offset start))"
  proof (cases "?c = 2 ^ 28")
    case False
    with r(3) have "?c < 2 ^ 28" by linarith
    then show ?thesis unfolding wire_offset_def using t3 t15 r(1) by blast
  next
    case True
    have "t \<noteq> 15"
    proof
      assume "t = 15"
      with hi True assms show False by simp
    qed
    have "unat (next_offset start) = 2 ^ 28 * 2 ^ t" unfolding r(1) True ..
    also have "\<dots> = 2 ^ 27 * 2 ^ (t + 1)" by simp
    finally have eq: "unat (next_offset start) = 2 ^ 27 * 2 ^ (t + 1)" .
    have m: "(2::nat) ^ 27 < 2 ^ 28" by simp
    have "3 \<le> t + 1" "t + 1 \<le> 15" using t3 t15 \<open>t \<noteq> 15\<close> by simp_all
    with m eq show ?thesis unfolding wire_offset_def by blast
  qed
qed

lemma set_htonoffset_defined: "set_htonoffset m x v \<noteq> None \<longleftrightarrow> x + 4 \<le> length m"
  using ntohl.set_defined [of m x]
  by (simp add: set_htonoffset_def buf_zero_def buf_put_def Let_def split: prod.splits)

text \<open>What \<open>get_ntohoffset\<close> can answer: an unused offset, or one the signed exponent reaches.\<close>

lemma get_ntohoffset_bound:
  assumes "get_ntohoffset m d = Some v"
  shows "v = - 1 \<or> unat v \<le> 0xfffffff * 2 ^ 15"
proof -
  obtain base :: u32 where b: "get_ntohl m d = Some base"
    using assms by (auto simp: get_ntohoffset_def split: Option.bind_splits)
  let ?y = "base AND NOT 0xf0000000" and ?e = "nat (sint base div 2 ^ 28 + 8)"
  have n: "NOT 0xf0000000 = (0xfffffff :: u32)" by simp
  have "?y \<le> 0xfffffff" unfolding n by (rule word_and_le1)
  then have y: "unat ?y \<le> 0xfffffff" by (simp only: word_le_nat_alt) simp
  have "sint base < 2 ^ 31" using sint_lt [of base] by simp
  then have e: "?e \<le> 15" by simp
  have "unat (push_bit k (ucast z :: u64)) \<le> unat z * 2 ^ k" for k and z :: u32
  proof -
    have "unat (push_bit k (ucast z :: u64)) \<le> push_bit k (unat (ucast z :: u64))"
      unfolding unsigned_push_bit_eq by (rule take_bit_nat_less_eq_self)
    also have "\<dots> \<le> unat z * 2 ^ k" by (simp add: push_bit_nat_def unsigned_ucast_eq)
    finally show ?thesis .
  qed
  then have "unat (push_bit ?e (ucast ?y :: u64)) \<le> unat ?y * 2 ^ ?e" by blast
  also have "\<dots> \<le> 0xfffffff * 2 ^ 15" using y e by (intro mult_le_mono power_increasing) auto
  finally show ?thesis using assms b by (auto simp: get_ntohoffset_def Let_def split: if_splits)
qed

lemma next_offset_above:
  assumes "unat start \<le> 0xfffffff * 2 ^ 23"
  shows "unat start \<le> unat (next_offset start)" "next_offset start \<noteq> - 1"
proof -
  obtain t where t: "offset_shift (unat start) t" by (rule offset_shift_exists)
  show "unat start \<le> unat (next_offset start)"
    unfolding next_offset_in_range(1) [OF assms t] by (rule ceil_mult_bounds)
  show "next_offset start \<noteq> - 1"
  proof
    assume m: "next_offset start = - 1"
    obtain q e where q: "q < 2 ^ 28" "e \<le> 23" "unat (next_offset start) = q * 2 ^ e"
      using next_offset_legal [OF assms] by (auto simp: legal_offset_def)
    have "q * 2 ^ e \<le> 2 ^ 28 * 2 ^ 23" using q by (intro mult_le_mono power_increasing) auto
    then show False using q(3) m by (simp add: unsigned_minus_1_eq_mask mask_eq_exp_minus_1)
  qed
qed

lemma get_htonoffset_defined:
  assumes "set_htonoffset m x v = Some m'"
  obtains w where "get_ntohoffset m' x = Some w"
proof -
  have "x + 4 \<le> length m" using assms set_htonoffset_defined [of m x v] by simp
  moreover have "length m' = length m"
    using assms by (auto simp: set_htonoffset_def buf_zero_def Let_def dest: buf_put_length split: prod.splits if_splits)
  ultimately obtain base where b: "get_ntohl m' x = Some base" using ntohl.get_defined [of m' x] by auto
  show thesis by (cases "base = OFFSET_UNUSED") (use that b in \<open>simp_all add: get_ntohoffset_def Let_def\<close>)
qed

lemma reserved_offset_read:
  assumes "set_htonoffset m x 0x7ffffff80 = Some m'"
  shows "get_ntohl m' x = Some OFFSET_UNUSED" "get_ntohoffset m' x = Some 0xffffffffffffffff"
proof -
  have m1: "(- 1 :: u32) = 4294967295" by simp
  have "set_htonoffset m x 0x7ffffff80 = set_htonl m x OFFSET_UNUSED"
    unfolding OFFSET_UNUSED_def m1 [symmetric]
    by (simp add: set_htonoffset_def mantissa_loop.simps mask_eq_exp_minus_1)
  then show "get_ntohl m' x = Some OFFSET_UNUSED" using assms ntohl.get_set [of m x OFFSET_UNUSED m'] by simp
  then show "get_ntohoffset m' x = Some 0xffffffffffffffff" by (simp add: get_ntohoffset_def)
qed

section \<open>Properties\<close>

text \<open>
  The scalar accessors: a write inside the buffer succeeds, the value read back is the value
  written, on a little-endian and on a big-endian host alike, and no byte outside the field changes.
\<close>

lemma scalar_codecs:
  assumes "x + 8 \<le> length m"
  shows "(\<exists>m'. set_htonll_le m x v = Some m' \<and> get_ntohll_le m' x = Some v \<and> length m' = length m \<and>
        (\<forall>d n. d + n \<le> x \<or> x + 8 \<le> d \<longrightarrow> buf_get m' d n = buf_get m d n)) \<and>
    (\<exists>m'. set_htonl_le m x w = Some m' \<and> get_ntohl_le m' x = Some w \<and> length m' = length m \<and>
        (\<forall>d n. d + n \<le> x \<or> x + 4 \<le> d \<longrightarrow> buf_get m' d n = buf_get m d n)) \<and>
    (\<exists>m'. set_htons_le m x h = Some m' \<and> get_ntohs_le m' x = Some h \<and> length m' = length m \<and>
        (\<forall>d n. d + n \<le> x \<or> x + 2 \<le> d \<longrightarrow> buf_get m' d n = buf_get m d n)) \<and>
    set_htonll_be m x v = set_htonll_le m x v \<and> get_ntohll_be m x = get_ntohll_le m x \<and>
    set_htonl_be m x w = set_htonl_le m x w \<and> get_ntohl_be m x = get_ntohl_le m x \<and>
    set_htons_be m x h = set_htons_le m x h \<and> get_ntohs_be m x = get_ntohs_le m x"
  using assms ntohll.write_read [of x m v] ntohl.write_read [of x m w] ntohs.write_read [of x m h]
  by (simp add: set_htonll_agree get_ntohll_agree set_htonl_agree get_ntohl_agree
      set_htons_agree get_ntohs_agree)

lemma scalar_codecs_witness:
  "\<exists>m'. set_htonll_le (replicate 10 7) 1 0x0102030405060708 = Some m' \<and>
     get_ntohll_le m' 1 = Some 0x0102030405060708"
  using scalar_codecs [of 1 "replicate 10 7" "0x0102030405060708"] by (simp, blast)



text \<open>
  C26. Which offsets computed by \<open>next_offset\<close> survive: stored by \<open>set_htonoffset\<close> and read back by
  \<open>get_ntohoffset\<close>, the result for a start the list format can express is unchanged exactly when
  the start is at most \<open>0xfffffff * 2 ^ 15\<close>, beyond which the signed four-bit exponent overflows,
  and the result is not \<open>0x7ffffff80\<close>, whose encoding is the pattern of an unused offset. A start beyond
  the format gives 0, which reads as 0.
\<close>

theorem offset_roundtrip:
  assumes "x + 4 \<le> length m"
  shows "\<exists>m' v. set_htonoffset m x (next_offset start) = Some m' \<and> get_ntohoffset m' x = Some v \<and>
    (if unat start \<le> 0xfffffff * 2 ^ 23
     then start \<le> next_offset start \<and>
       (v = next_offset start \<longleftrightarrow> unat start \<le> 0xfffffff * 2 ^ 15 \<and> next_offset start \<noteq> 0x7ffffff80)
     else v = 0)"
proof -
  obtain m' where m': "set_htonoffset m x (next_offset start) = Some m'"
    using set_htonoffset_defined assms by blast
  obtain v where v: "get_ntohoffset m' x = Some v" by (rule get_htonoffset_defined [OF m'])
  have "v = next_offset start \<longleftrightarrow> unat start \<le> 0xfffffff * 2 ^ 15 \<and> next_offset start \<noteq> 0x7ffffff80"
    if r: "unat start \<le> 0xfffffff * 2 ^ 23"
  proof -
    have "v = next_offset start" if "unat start \<le> 0xfffffff * 2 ^ 15" "next_offset start \<noteq> 0x7ffffff80"
    proof -
      have "unat (next_offset start) \<noteq> 0xfffffff * 2 ^ 7" using that(2) by (auto simp: word_unat_eq_iff)
      then show ?thesis using set_get_wire_offset [OF next_offset_wire(1) [OF that(1)] _ m'] v by simp
    qed
    moreover have "v \<noteq> next_offset start" if "next_offset start = 0x7ffffff80"
      using reserved_offset_read [of m x m'] m' v that by auto
    moreover have "v \<noteq> next_offset start" if "0xfffffff * 2 ^ 15 < unat start"
      using get_ntohoffset_bound [OF v] next_offset_above [OF r] that by fastforce
    ultimately show ?thesis using linorder_not_less by blast
  qed
  moreover have "v = 0" if "0xfffffff * 2 ^ 23 < unat start"
  proof -
    have "wire_offset (unat (0 :: u64))" unfolding wire_offset_def by (rule exI [of _ 0], rule exI [of _ 3]) simp
    from set_get_wire_offset [OF this] show ?thesis using m' v next_offset_too_big [OF that] by simp
  qed
  ultimately show ?thesis using m' v next_offset_above [of start] by (auto simp: word_le_nat_alt)
qed

theorem offset_roundtrip_witness:
  "\<exists>m'. set_htonoffset (replicate 4 0) 0 (next_offset 0x1f00000001) = Some m' \<and>
     get_ntohoffset m' 0 = Some (next_offset 0x1f00000001)"
proof -
  have "next_offset 0x1f00000001 \<noteq> 0x7ffffff80"
    by (simp add: next_offset_def mantissa_loop.simps next_offset_recheck.simps)
  then show ?thesis
    using offset_roundtrip [of 0 "replicate 4 0" "0x1f00000001"] by auto
qed

text \<open>
  The table of \<open>TEST_NEXT_OFFSET\<close> wants \<open>0x100\<close>, \<open>0x200\<close> and \<open>0x800100\<close> for the first three starts here, as if the
  smallest scale were \<open>2 ^ 8\<close>; the function rounds to a multiple of 8. On the other entries it answers
  what the table wants. But \<open>0x7ffffff800000\<close> does not survive being stored: it
  becomes the pattern of an unused offset and reads as all ones.
\<close>

lemma next_offset_test_table:
  "next_offset 1 = 8" "next_offset 0x101 = 0x108" "next_offset 0x800001 = 0x800008"
  "next_offset 0 = 0" "next_offset 0xfffffff00 = 0xfffffff00" "next_offset 0xfffffff01 = 0x1000000000"
  "next_offset 0x7ffffff800000 = 0x7ffffff800000" "next_offset 0x7ffffff800001 = 0"
  "next_offset 0xffffffffffffffff = 0"
  by (simp_all add: next_offset_def mantissa_loop.simps next_offset_recheck.simps)

lemma next_offset_test_roundtrip:
  "(set_htonoffset (replicate 4 0) 0 0x7ffffff800000 \<bind> (\<lambda>m. get_ntohoffset m 0)) = Some (- 1)"
  by code_simp

text \<open>
  The six-byte time stamps: whatever the host order, writing a time and reading it back gives
  its low 48 bits, and the two host orders write the same bytes.
\<close>

lemma time_roundtrip:
  assumes "x + 6 \<le> length m"
  shows "\<exists>m'. set_htontime_le m x v = Some m' \<and> set_htontime_be m x v = Some m' \<and>
    get_ntohtime_le m' x = Some (v AND 0xffffffffffff) \<and>
    get_ntohtime_be m' x = Some (v AND 0xffffffffffff)"
proof -
  have "set_htontime_be m x v \<noteq> None"
    using assms mem.put_defined [of m x "drop 2 (store_be64 v)"]
    by (simp add: set_htontime_be_def buf_get_def)
  then obtain m' where m': "set_htontime_le m x v = Some m'"
    by (auto simp: set_htontime_agree)
  then show ?thesis
    using set_get_ntohtime [OF m'] by (simp flip: set_htontime_agree get_ntohtime_agree)
qed

lemma time_roundtrip_witness:
  "\<exists>m'. set_htontime_le (replicate 6 0) 0 0x1122334455667788 = Some m' \<and>
     get_ntohtime_be m' 0 = Some 0x334455667788"
  using time_roundtrip [of 0 "replicate 6 0" "0x1122334455667788"] by auto

text \<open>
  The hash never collides on a single change: two keys of the same length that differ in
  exactly one byte have different hashes.
\<close>

lemma jenkins_one_byte:
  "jenkins_one_at_a_time_hash (xs @ a # ys) = jenkins_one_at_a_time_hash (xs @ b # ys) \<longleftrightarrow> a = b"
proof
  assume "jenkins_one_at_a_time_hash (xs @ a # ys) = jenkins_one_at_a_time_hash (xs @ b # ys)"
  then have "jenkins_step (foldl jenkins_step 0 xs) a = jenkins_step (foldl jenkins_step 0 xs) b"
    unfolding jenkins_one_at_a_time_hash_def
    by (auto dest!: jenkins_finish_inj dest: jenkins_fold_inj)
  then show "a = b" by (rule jenkins_step_byte_inj)
qed simp

end
