(* ===== verification/List_Entry.thy ===== *)
theory List_Entry
  imports OSD_Util
begin

text \<open>
  \<^verbatim>\<open>osd-target/list-entry.c\<close>: attributes packed as list entries. \<open>base\<close> is the address of the
  buffer \<open>m\<close> and \<open>off\<close> the offset of the entry in it; the value is the bytes the value pointer
  reaches, \<open>None\<close> for a null pointer. A value pointer that reaches fewer bytes than the code
  copies is undefined.
\<close>

section \<open>The operations\<close>

definition le_pack_attr ::
  "nat \<Rightarrow> bytes \<Rightarrow> nat \<Rightarrow> u32 \<Rightarrow> u32 \<Rightarrow> u32 \<Rightarrow> u16 \<Rightarrow> bytes option \<Rightarrow> (int \<times> bytes) option" where
  "le_pack_attr base m off buflen page number valen val =
     (if buflen AND 0x7 \<noteq> 0 \<or> (base + off) mod 8 \<noteq> 0 then Some (- EINVAL, m)
      else if unat buflen < LE_MIN_ITEM_LEN then Some (- EOVERFLOW, m)
      else do {
        m \<leftarrow> set_htonl m (off + LE_PAGE_OFF) page;
        m \<leftarrow> set_htonl m (off + LE_NUMBER_OFF) number;
        m \<leftarrow> set_htons m (off + LE_LEN_OFF) valen;
        m \<leftarrow> buf_zero m (off + LE_RESERVED_OFF) 6;
        (valen, m) \<leftarrow> (case val of
            Some v \<Rightarrow>
              let buflen = buflen - of_nat LE_VAL_OFF;
                  valen = (if ucast valen > buflen then ucast buflen else valen)
              in do {
                b \<leftarrow> buf_get v 0 (unat valen);
                m \<leftarrow> buf_put m (off + LE_VAL_OFF) b;
                Some (valen, m)
              }
          | None \<Rightarrow> Some (0 :: u16, m));
        let len = (ucast valen + of_nat LE_VAL_OFF :: u32);
        let pad = (ucast (roundup8 len - len) :: u8);
        let cp = off + unat len;
        let len = len + ucast pad;
        m \<leftarrow> (if pad \<noteq> 0 then buf_zero m cp (unat pad) else Some m);
        Some (uint len, m)
      })"

text \<open>
  The assertion on the layouts is compiled out; it compares 18 with 24 and would always fail.
\<close>

definition le_multiobj_pack_attr ::
  "nat \<Rightarrow> bytes \<Rightarrow> nat \<Rightarrow> u32 \<Rightarrow> u64 \<Rightarrow> u32 \<Rightarrow> u32 \<Rightarrow> u16 \<Rightarrow> bytes option
    \<Rightarrow> (int \<times> bytes) option" where
  "le_multiobj_pack_attr base m off buflen oid page number valen val =
     (if unat buflen < MLE_MIN_ITEM_LEN then Some (- EOVERFLOW, m)
      else do {
        m \<leftarrow> set_htonll m off oid;
        (ret, m) \<leftarrow> le_pack_attr base m (off + 8) (buflen - 8) page number valen val;
        Some (if ret > 0 then int MLE_PAGE_OFF + ret else ret, m)
      })"

section \<open>The entry as bytes\<close>

definition round8 :: "nat \<Rightarrow> nat" where
  "round8 n = (n + 7) div 8 * 8"

text \<open>What an entry holds: its header, the value and zeros up to the next multiple of eight.\<close>

definition entry_bytes :: "u32 \<Rightarrow> u32 \<Rightarrow> u16 \<Rightarrow> bytes \<Rightarrow> bytes" where
  "entry_bytes page number valen v =
     store_be32 page @ store_be32 number @ replicate 6 0 @ store_be16 valen @ v @
       replicate (round8 (length v) - length v) 0"

lemma round8_ge: "n \<le> round8 n"
  unfolding round8_def by presburger

lemma round8_less: "round8 n < n + 8"
  unfolding round8_def by presburger

lemma round8_dvd [simp]: "round8 n mod 8 = 0"
  by (simp add: round8_def)

lemma round8_add8: "n mod 8 = 0 \<Longrightarrow> round8 (n + k) = n + round8 k"
proof -
  assume "n mod 8 = 0"
  then obtain j where j: "n = 8 * j" by (auto simp: mod_eq_0_iff_dvd)
  have "(8 * j + k + 7) div 8 = j + (k + 7) div 8" by (simp add: add.assoc)
  then show "round8 (n + k) = n + round8 k" unfolding round8_def j by simp
qed

lemma round8_mono: "n \<le> k \<Longrightarrow> k mod 8 = 0 \<Longrightarrow> round8 n \<le> k"
proof -
  assume "n \<le> k" and "k mod 8 = 0"
  then obtain j where j: "k = 8 * j" by (auto simp: mod_eq_0_iff_dvd)
  have "(n + 7) div 8 \<le> (8 * j + 7) div 8" using \<open>n \<le> k\<close> j by (intro div_le_mono) simp
  also have "\<dots> = j" by simp
  finally show "round8 n \<le> k" unfolding round8_def j by simp
qed

lemma entry_bytes_length: "length (entry_bytes page number valen v) = 16 + round8 (length v)"
  using round8_ge [of "length v"] by (simp add: entry_bytes_def)

lemma unat_roundup8:
  assumes "unat x + 7 < 2 ^ 32" shows "unat (roundup8 x) = round8 (unat x)"
proof -
  have m: "(7 :: u32) = mask 3" by (simp add: mask_eq_exp_minus_1)
  have "(x + 7) AND NOT 7 = push_bit 3 (drop_bit 3 (x + 7))"
    unfolding m by (rule bit_word_eqI) (auto simp: bit_simps)
  moreover have add: "unat (x + 7) = unat x + 7"
    using assms by (simp add: unat_word_ariths)
  moreover have "unat (push_bit 3 (drop_bit 3 (x + 7))) = take_bit 32 ((unat x + 7) div 8 * 8)"
    unfolding unsigned_push_bit_eq unat_drop_bit_eq add by (simp add: push_bit_eq_mult drop_bit_eq_div)
  ultimately have "unat (roundup8 x) = take_bit 32 ((unat x + 7) div 8 * 8)"
    by (simp only: roundup8_def)
  also have "\<dots> = (unat x + 7) div 8 * 8"
  proof (rule take_bit_nat_eq_self)
    have "(unat x + 7) div 8 * 8 \<le> unat x + 7" by simp
    with assms show "(unat x + 7) div 8 * 8 < 2 ^ 32" by linarith
  qed
  finally show ?thesis by (simp add: round8_def)
qed

section \<open>Packing as a single write\<close>

lemma buf_put_swap:
  assumes "i + length xs \<le> j \<or> j + length ys \<le> i"
  shows "do { m \<leftarrow> buf_put m i xs; buf_put m j ys } = do { m \<leftarrow> buf_put m j ys; buf_put m i xs }"
  using assms
  by (cases "i + length xs \<le> length m \<and> j + length ys \<le> length m")
    (auto simp: buf_put_def drop_take)

lemma buf_put_Nil: "off \<le> length m \<Longrightarrow> buf_put m off [] = Some m"
  by (simp add: buf_put_def)

lemma buf_put_end: "buf_put m off xs = Some m' \<Longrightarrow> off + length xs \<le> length m'"
  by (auto simp: buf_put_def split: if_splits)

text \<open>The value bytes that are copied when \<open>room\<close> bytes follow the header.\<close>

definition packed_value :: "nat \<Rightarrow> u16 \<Rightarrow> bytes option \<Rightarrow> bytes" where
  "packed_value room valen val = (case val of None \<Rightarrow> [] | Some v \<Rightarrow> take (min (unat valen) room) v)"

lemma put_entry:
  "buf_put m off (entry_bytes page number valen v) = do {
     m \<leftarrow> set_htonl m (off + LE_PAGE_OFF) page;
     m \<leftarrow> set_htonl m (off + LE_NUMBER_OFF) number;
     m \<leftarrow> set_htons m (off + LE_LEN_OFF) valen;
     m \<leftarrow> buf_zero m (off + LE_RESERVED_OFF) 6;
     m \<leftarrow> buf_put m (off + LE_VAL_OFF) v;
     buf_zero m (off + 16 + length v) (round8 (length v) - length v)
   }"
proof -
  let ?K = "\<lambda>m. do { m \<leftarrow> buf_put m (off + 16) v;
     buf_put m (off + 16 + length v) (replicate (round8 (length v) - length v) 0) }"
  have swap: "do { m \<leftarrow> buf_put m (off + 14) (store_be16 valen); m \<leftarrow> buf_put m (off + 8) (replicate 6 0); ?K m }
      = do { m \<leftarrow> buf_put m (off + 8) (replicate 6 0); m \<leftarrow> buf_put m (off + 14) (store_be16 valen); ?K m }" for m
    using buf_put_swap [of "off + 14" "store_be16 valen" "off + 8" "replicate 6 0" m]
    by (simp flip: Option.bind_assoc)
  have "buf_put m off (entry_bytes page number valen v) = do {
      m \<leftarrow> buf_put m off (store_be32 page); m \<leftarrow> buf_put m (off + 4) (store_be32 number);
      m \<leftarrow> buf_put m (off + 8) (replicate 6 0); m \<leftarrow> buf_put m (off + 14) (store_be16 valen); ?K m }"
    by (simp add: entry_bytes_def buf_put_append ac_simps)
  also have "\<dots> = do {
      m \<leftarrow> buf_put m off (store_be32 page); m \<leftarrow> buf_put m (off + 4) (store_be32 number);
      m \<leftarrow> buf_put m (off + 14) (store_be16 valen); m \<leftarrow> buf_put m (off + 8) (replicate 6 0); ?K m }"
    by (simp only: swap)
  finally show ?thesis
    by (simp add: ntohl.setv_eq ntohs.setv_eq buf_zero_def osd_consts ac_simps)
qed

lemma unat_of_nat_32: "k < 2 ^ 32 \<Longrightarrow> unat (of_nat k :: u32) = k"
  by (simp add: unsigned_of_nat take_bit_nat_eq_self)

lemma unat_pad:
  assumes "n \<le> 65535"
  shows "unat (ucast (roundup8 (of_nat (n + 16)) - of_nat (n + 16) :: u32) :: u8) = round8 n - n"
proof -
  have n: "unat (of_nat (n + 16) :: u32) = n + 16"
    using assms by (intro unat_of_nat_32) simp
  then have "unat (roundup8 (of_nat (n + 16) :: u32)) = round8 (n + 16)"
    using assms by (subst unat_roundup8) simp_all
  also have "\<dots> = 16 + round8 n" using round8_add8 [of 16 n] by (simp add: add.commute)
  finally have r: "unat (roundup8 (of_nat (n + 16) :: u32)) = 16 + round8 n" .
  have "unat (roundup8 (of_nat (n + 16)) - of_nat (n + 16) :: u32) = round8 n - n"
    using n r round8_ge [of n] by (subst unat_sub) (simp_all add: word_le_nat_alt)
  moreover have "round8 n - n < 2 ^ 8" using round8_less [of n] by simp
  ultimately show ?thesis by (simp add: unsigned_ucast_eq take_bit_nat_eq_self)
qed

lemma pack_tail:
  fixes w :: u16
  assumes w: "unat w = n" and fits: "off + 16 + n \<le> length m"
  shows "do {
        let len = (ucast w + of_nat LE_VAL_OFF :: u32);
        let pad = (ucast (roundup8 len - len) :: u8);
        let cp = off + unat len;
        let len = len + ucast pad;
        m \<leftarrow> (if pad \<noteq> 0 then buf_zero m cp (unat pad) else Some m);
        Some (uint len, m)
      } = map_option (Pair (int (16 + round8 n))) (buf_zero m (off + 16 + n) (round8 n - n))"
proof -
  have n: "n \<le> 65535" using w unsigned_less [of w, where ?'a = nat] by simp
  have len: "ucast w + of_nat LE_VAL_OFF = (of_nat (n + 16) :: u32)"
    using w by (simp add: osd_consts word_unat_eq_iff unsigned_of_nat unat_word_ariths
        unsigned_ucast_eq flip: take_bit_eq_mod)
  define pad where "pad = (ucast (roundup8 (of_nat (n + 16)) - of_nat (n + 16) :: u32) :: u8)"
  have pad: "unat pad = round8 n - n" unfolding pad_def using n by (rule unat_pad)
  have l: "unat (of_nat (n + 16) :: u32) = n + 16"
    using n by (intro unat_of_nat_32) simp
  have small: "round8 n - n < 8" "n \<le> round8 n" using round8_less [of n] round8_ge [of n] by simp_all
  have "unat (of_nat (n + 16) + ucast pad :: u32) = 16 + round8 n"
    unfolding unat_word_ariths unsigned_ucast_eq l pad using small n
    by (simp add: take_bit_nat_eq_self)
  then have u: "uint (of_nat (n + 16) + ucast pad :: u32) = int (16 + round8 n)"
    by (metis uint_nat)
  have z: "pad = 0 \<longleftrightarrow> round8 n - n = 0" using pad by (metis unat_0 unat_eq_0)
  have zero: "buf_zero m (off + 16 + n) 0 = Some m"
    using fits by (simp add: buf_zero_def buf_put_Nil)
  show ?thesis
    unfolding len Let_def pad_def [symmetric] l u
    using z zero pad by (simp add: add.commute add.left_commute split: Option.bind_splits)
qed

lemma le_pack_attr_put:
  assumes aligned: "(base + off) mod 8 = 0" and room: "buflen AND 7 = 0" "16 \<le> unat buflen"
    and val: "\<And>v. val = Some v \<Longrightarrow> min (unat valen) (unat buflen - 16) \<le> length v"
  defines "v \<equiv> packed_value (unat buflen - 16) valen val"
  shows "le_pack_attr base m off buflen page number valen val
    = map_option (Pair (int (16 + round8 (length v)))) (buf_put m off (entry_bytes page number valen v))"
proof -
  let ?w = "case val of None \<Rightarrow> 0
    | Some _ \<Rightarrow> if ucast valen > buflen - of_nat LE_VAL_OFF then ucast (buflen - of_nat LE_VAL_OFF) else valen"
  have sub: "unat (buflen - of_nat LE_VAL_OFF) = unat buflen - 16"
    using room(2) by (subst unat_sub) (simp_all add: osd_consts word_le_nat_alt)
  have w: "unat ?w = length v"
  proof (cases val)
    case (Some v0)
    have u: "unat (ucast valen :: u32) = unat valen"
      using unsigned_less [of valen, where ?'a = nat]
      by (simp add: unsigned_ucast_eq take_bit_nat_eq_self)
    have c: "unat (ucast (buflen - of_nat LE_VAL_OFF) :: u16) = unat buflen - 16"
      if "unat buflen - 16 < unat valen"
      using that sub unsigned_less [of valen, where ?'a = nat]
      by (simp add: unsigned_ucast_eq take_bit_nat_eq_self del: of_nat_numeral)
    show ?thesis
      using val [OF Some] c unfolding Some v_def packed_value_def
      by (simp add: word_less_nat_alt u sub min_def)
  qed (simp add: v_def packed_value_def)
  have v_copied: "(case val of
            Some v \<Rightarrow>
              let buflen = buflen - of_nat LE_VAL_OFF;
                  valen = (if ucast valen > buflen then ucast buflen else valen)
              in do {
                b \<leftarrow> buf_get v 0 (unat valen);
                m \<leftarrow> buf_put m (off + LE_VAL_OFF) b;
                Some (valen, m)
              }
          | None \<Rightarrow> Some (0 :: u16, m)) = map_option (Pair ?w) (buf_put m (off + LE_VAL_OFF) v)"
    if "off + 16 \<le> length m" for m
  proof (cases val)
    case None
    with that show ?thesis by (simp add: v_def packed_value_def buf_put_Nil osd_consts)
  next
    case (Some v0)
    have "buf_get v0 0 (unat ?w) = Some v"
      using val [OF Some] unfolding w unfolding Some
      by (simp add: v_def Some packed_value_def buf_get_def min_def)
    then show ?thesis
      unfolding Some by (cases "buf_put m (off + LE_VAL_OFF) v") (simp_all add: Let_def)
  qed
  have tail: "do {
        (valen, m) \<leftarrow> map_option (Pair ?w) (buf_put m (off + LE_VAL_OFF) v);
        let len = (ucast valen + of_nat LE_VAL_OFF :: u32);
        let pad = (ucast (roundup8 len - len) :: u8);
        let cp = off + unat len;
        let len = len + ucast pad;
        m \<leftarrow> (if pad \<noteq> 0 then buf_zero m cp (unat pad) else Some m);
        Some (uint len, m)
      } = map_option (Pair (int (16 + round8 (length v)))) (do {
        m \<leftarrow> buf_put m (off + LE_VAL_OFF) v;
        buf_zero m (off + 16 + length v) (round8 (length v) - length v) })" for m
  proof (cases "buf_put m (off + LE_VAL_OFF) v")
    case (Some m')
    then have "off + 16 + length v \<le> length m'"
      using buf_put_end [OF Some] by (simp add: osd_consts)
    from pack_tail [OF w this] show ?thesis by (simp only: Some option.map bind.simps prod.case)
  qed simp
  show ?thesis
  proof -
    have "\<not> (buflen AND 7 \<noteq> 0 \<or> (base + off) mod 8 \<noteq> 0)" "\<not> unat buflen < LE_MIN_ITEM_LEN"
      using aligned room by (simp_all add: osd_consts)
    note c = this
    show ?thesis
    proof (cases "off + 16 \<le> length m")
      case True
      obtain m1 where m1: "set_htonl m (off + LE_PAGE_OFF) page = Some m1" "length m1 = length m"
        by (rule ntohl.set_obtain [of "off + LE_PAGE_OFF" m]) (use True in \<open>simp_all add: osd_consts\<close>)
      obtain m2 where m2: "set_htonl m1 (off + LE_NUMBER_OFF) number = Some m2" "length m2 = length m"
        by (rule ntohl.set_obtain [of "off + LE_NUMBER_OFF" m1]) (use True m1 in \<open>simp_all add: osd_consts\<close>)
      obtain m3 where m3: "set_htons m2 (off + LE_LEN_OFF) valen = Some m3" "length m3 = length m"
        by (rule ntohs.set_obtain [of "off + LE_LEN_OFF" m2]) (use True m2 in \<open>simp_all add: osd_consts\<close>)
      obtain m4 where m4: "buf_zero m3 (off + LE_RESERVED_OFF) 6 = Some m4" "length m4 = length m"
        using mem.put_some [of "off + LE_RESERVED_OFF" "replicate 6 0" m3] True m3
        by (auto simp: osd_consts buf_zero_def)
      show ?thesis
        unfolding le_pack_attr_def put_entry if_not_P [OF c(1)] if_not_P [OF c(2)]
          m1(1) m2(1) m3(1) m4(1) bind.simps
        using v_copied [of m4] tail [of m4] True m4(2) by simp
    next
      case False
      have none: "set_htons m2 (off + LE_LEN_OFF) valen = None"
        if "set_htonl m (off + LE_PAGE_OFF) page = Some m1"
          "set_htonl m1 (off + LE_NUMBER_OFF) number = Some m2" for m1 m2
        using ntohs.set_defined [of m2 "off + LE_LEN_OFF" valen] that False
        by (auto simp: osd_consts)
      have "le_pack_attr base m off buflen page number valen val = None"
        unfolding le_pack_attr_def if_not_P [OF c(1)] if_not_P [OF c(2)]
        by (auto simp only: bind_eq_None_conv option.sel) (metis none option.distinct(1))
      moreover have "buf_put m off (entry_bytes page number valen v) = None"
        using False by (simp add: buf_put_def entry_bytes_length)
      ultimately show ?thesis by simp
    qed
  qed
qed

lemma le_pack_attr_bad:
  "buflen AND 7 \<noteq> 0 \<or> (base + off) mod 8 \<noteq> 0 \<Longrightarrow>
    le_pack_attr base m off buflen page number valen val = Some (- EINVAL, m)"
  "buflen AND 7 = 0 \<Longrightarrow> (base + off) mod 8 = 0 \<Longrightarrow> unat buflen < 16 \<Longrightarrow>
    le_pack_attr base m off buflen page number valen val = Some (- EOVERFLOW, m)"
  by (auto simp: le_pack_attr_def osd_consts)

lemma and_7: "(x :: u32) AND 7 = 0 \<longleftrightarrow> unat x mod 8 = 0"
proof -
  have "x AND 7 = take_bit 3 x" by (simp add: take_bit_eq_mask mask_eq_exp_minus_1)
  then have "unat (x AND 7) = take_bit 3 (unat x)" by (simp only: unsigned_take_bit_eq)
  then have "unat (x AND 7) = unat x mod 8" by (simp add: take_bit_eq_mod)
  then show ?thesis by (metis unat_0 unat_eq_0)
qed

lemma packed_value_length:
  assumes "\<And>v. val = Some v \<Longrightarrow> min (unat valen) room \<le> length v"
  shows "length (packed_value room valen val) \<le> room"
  using assms by (cases val) (auto simp: packed_value_def)

text \<open>The fields of a packed entry, read back through the accessors.\<close>

lemma entry_bytes_fields:
  assumes "buf_put m off (entry_bytes page number valen v) = Some m'"
  shows "get_ntohl m' off = Some page" and "get_ntohl m' (off + 4) = Some number"
    and "buf_get m' (off + 8) 6 = Some (replicate 6 0)" and "get_ntohs m' (off + 14) = Some valen"
    and "buf_get m' (off + 16) (length v) = Some v"
    and "buf_get m' (off + 16 + length v) (round8 (length v) - length v)
      = Some (replicate (round8 (length v) - length v) 0)"
proof -
  have split: "buf_get m' (off + length xs) (length ys) = Some ys"
    if "entry_bytes page number valen v = xs @ ys @ zs" for xs ys zs
  proof -
    have "buf_put m off (xs @ ys @ zs) = Some m'" using assms that by simp
    then show ?thesis by (auto simp: buf_put_def buf_get_def split: if_splits)
  qed
  show "get_ntohl m' off = Some page"
    using split [of "[]" "store_be32 page"]
    by (simp add: entry_bytes_def ntohl.getv_eq load_store_be32)
  show "get_ntohl m' (off + 4) = Some number"
    using split [of "store_be32 page" "store_be32 number"]
    by (simp add: entry_bytes_def ntohl.getv_eq load_store_be32)
  show "buf_get m' (off + 8) 6 = Some (replicate 6 0)"
    using split [of "store_be32 page @ store_be32 number" "replicate 6 0"]
    by (simp add: entry_bytes_def)
  show "get_ntohs m' (off + 14) = Some valen"
    using split [of "store_be32 page @ store_be32 number @ replicate 6 0" "store_be16 valen"]
    by (simp add: entry_bytes_def ntohs.getv_eq load_store_be16)
  show "buf_get m' (off + 16) (length v) = Some v"
    using split [of "store_be32 page @ store_be32 number @ replicate 6 0 @ store_be16 valen" v]
    by (simp add: entry_bytes_def)
  show "buf_get m' (off + 16 + length v) (round8 (length v) - length v)
      = Some (replicate (round8 (length v) - length v) 0)"
    using split [of "store_be32 page @ store_be32 number @ replicate 6 0 @ store_be16 valen @ v"
        "replicate (round8 (length v) - length v) 0" "[]"]
    by (simp add: entry_bytes_def add.assoc)
qed

section \<open>Properties\<close>

text \<open>
  C38. Packing an attribute into an aligned buffer of \<open>buflen\<close> bytes, a multiple of eight and at
  least 16: the call succeeds, its result is a multiple of eight between 16 and \<open>buflen\<close>, the
  header reads back as page, number and the untruncated length, the value is copied up to the room
  that is left, the rest up to the result is zero, and nothing else changes.
\<close>

theorem le_pack_attr_layout:
  assumes "(base + off) mod 8 = 0" and "unat buflen mod 8 = 0" and "16 \<le> unat buflen"
    and "off + unat buflen \<le> length m"
    and "\<And>v. val = Some v \<Longrightarrow> min (unat valen) (unat buflen - 16) \<le> length v"
  defines "v \<equiv> packed_value (unat buflen - 16) valen val"
  shows "\<exists>r m'. le_pack_attr base m off buflen page number valen val = Some (int r, m') \<and>
    r = 16 + round8 (length v) \<and> r \<le> unat buflen \<and> length m' = length m \<and>
    get_ntohl m' off = Some page \<and> get_ntohl m' (off + 4) = Some number \<and>
    get_ntohs m' (off + 14) = Some valen \<and> buf_get m' (off + 16) (length v) = Some v \<and>
    buf_get m' (off + 16 + length v) (r - 16 - length v) = Some (replicate (r - 16 - length v) 0) \<and>
    (\<forall>i n. i + n \<le> off \<or> off + r \<le> i \<longrightarrow> buf_get m' i n = buf_get m i n)"
proof -
  have "length v \<le> unat buflen - 16"
    unfolding v_def using assms(5) by (rule packed_value_length)
  moreover have "(unat buflen - 16) mod 8 = 0"
    using assms(2,3) by (metis le_add_diff_inverse mod_add_self1 mod_add_cong mod_diff_right_eq
      dvd_diff_nat dvd_eq_mod_eq_0 dvd_refl dvd_triv_left numeral_Bit0 mult_2)
  ultimately have r: "16 + round8 (length v) \<le> unat buflen"
    using round8_mono [of "length v" "unat buflen - 16"] assms(3) by linarith
  then obtain m' where m': "buf_put m off (entry_bytes page number valen v) = Some m'"
    using mem.put_some [of off "entry_bytes page number valen v" m] assms(4)
    by (auto simp: entry_bytes_length)
  have "le_pack_attr base m off buflen page number valen val = Some (int (16 + round8 (length v)), m')"
    using le_pack_attr_put [of base off buflen val valen m page number] assms(1-3,5) m'
    by (simp add: and_7 v_def)
  then show ?thesis
    using entry_bytes_fields [OF m'] r buf_put_length [OF m'] buf_get_put_apart [OF m']
    by (intro exI [of _ "16 + round8 (length v)"] exI [of _ m'])
      (simp add: entry_bytes_length add.assoc)
qed

theorem le_pack_attr_layout_witness:
  "\<exists>m'. le_pack_attr 0 (replicate 40 9) 8 24 7 5 20 (Some (replicate 20 3)) = Some (24, m') \<and>
     get_ntohs m' 22 = Some 20 \<and> buf_get m' 24 8 = Some (replicate 8 3)"
  using le_pack_attr_layout [of 0 8 24 "replicate 40 9" "Some (replicate 20 3)" 20 7 5]
  by (auto simp: packed_value_def round8_def)

text \<open>
  A multi-object entry is the object identifier followed by the same entry: with room for the
  header the result is eight more than the entry's; with exactly 16 bytes the guard lets the call
  through, the entry does not fit, and the buffer is left with the identifier written although
  the call reports an overflow.
\<close>

lemma le_multiobj_pack_attr_layout:
  assumes "(base + off) mod 8 = 0" and "unat buflen mod 8 = 0" and "16 \<le> unat buflen"
    and "off + unat buflen \<le> length m"
    and "\<And>v. val = Some v \<Longrightarrow> min (unat valen) (unat buflen - 24) \<le> length v"
  defines "v \<equiv> packed_value (unat buflen - 24) valen val"
  shows "\<exists>m1. set_htonll m off oid = Some m1 \<and>
    (if unat buflen = 16
     then le_multiobj_pack_attr base m off buflen oid page number valen val = Some (- EOVERFLOW, m1)
     else \<exists>m'. buf_put m1 (off + 8) (entry_bytes page number valen v) = Some m' \<and>
       24 + round8 (length v) \<le> unat buflen \<and>
       le_multiobj_pack_attr base m off buflen oid page number valen val
         = Some (int (24 + round8 (length v)), m') \<and>
       get_ntohll m' off = Some oid)"
proof -
  obtain m1 where m1: "set_htonll m off oid = Some m1" "length m1 = length m"
    using ntohll.set_obtain [of off m oid] assms(3,4) by auto
  have sub: "unat (buflen - 8) = unat buflen - 8"
    using assms(3) by (subst unat_sub) (simp_all add: word_le_nat_alt)
  have al: "(base + (off + 8)) mod 8 = 0" using assms(1) by (simp flip: add.assoc)
  have m8: "unat (buflen - 8) mod 8 = 0"
  proof -
    have "unat buflen = (unat buflen - 8) + 8" using assms(3) by simp
    with assms(2) show ?thesis unfolding sub by (metis mod_add_self2)
  qed
  have guard: "\<not> unat buflen < MLE_MIN_ITEM_LEN" using assms(3) by (simp add: osd_consts)
  show ?thesis
  proof (cases "unat buflen = 16")
    case True
    then have "le_pack_attr base m1 (off + 8) (buflen - 8) page number valen val = Some (- EOVERFLOW, m1)"
      using al m8 sub by (intro le_pack_attr_bad) (simp_all add: and_7)
    with True m1 guard show ?thesis
      by (simp add: le_multiobj_pack_attr_def EOVERFLOW_def)
  next
    case False
    have "unat buflen \<noteq> 16 \<Longrightarrow> 24 \<le> unat buflen"
      using assms(2,3) by presburger
    with False have ge: "24 \<le> unat buflen" by simp
    have room: "unat (buflen - 8) - 16 = unat buflen - 24" using sub by simp
    have "length v \<le> unat buflen - 24"
      unfolding v_def using assms(5) by (rule packed_value_length)
    moreover have "(unat buflen - 24) mod 8 = 0"
      using m8 ge unfolding sub by presburger
    ultimately have r: "24 + round8 (length v) \<le> unat buflen"
      using round8_mono [of "length v" "unat buflen - 24"] ge by linarith
    then obtain m' where m': "buf_put m1 (off + 8) (entry_bytes page number valen v) = Some m'"
      using mem.put_some [of "off + 8" "entry_bytes page number valen v" m1] assms(4) m1(2)
      by (auto simp: entry_bytes_length)
    have "le_pack_attr base m1 (off + 8) (buflen - 8) page number valen val
        = Some (int (16 + round8 (length v)), m')"
      using le_pack_attr_put [of base "off + 8" "buflen - 8" val valen m1 page number] al m8 ge sub
        assms(5) m' unfolding room by (simp add: and_7 v_def)
    moreover have "get_ntohll m' off = Some oid"
      using ntohll.get_set [OF m1(1)] buf_get_put_apart [OF m', of off 8]
      by (simp add: ntohll.getv_eq)
    ultimately show ?thesis
      using False m1 guard m' r by (simp add: le_multiobj_pack_attr_def MLE_PAGE_OFF_def MLE_OID_OFF_def)
  qed
qed

lemma le_multiobj_pack_attr_layout_witness:
  "\<exists>m'. le_multiobj_pack_attr 0 (replicate 16 9) 0 16 0x10001 7 5 4 (Some [1, 2, 3, 4])
      = Some (- EOVERFLOW, m') \<and> set_htonll (replicate 16 9) 0 0x10001 = Some m'"
  using le_multiobj_pack_attr_layout [of 0 0 16 "replicate 16 9" "Some [1, 2, 3, 4]" 4 "0x10001" 7 5]
  by auto

end
