(* ===== verification/OSD_Sense.thy ===== *)
theory OSD_Sense
  imports OSD_Util
begin

text \<open>
  \<^verbatim>\<open>osd-target/osd-sense.c\<close>: descriptor-format sense data. A sense buffer is a byte list of at
  least 252 bytes and an offset; the log messages are not modelled.
\<close>

section \<open>The operations\<close>

text \<open>\<open>ASC\<close> and \<open>ASCQ\<close> take the two bytes of a code.\<close>

definition ASC :: "u16 \<Rightarrow> u8" where
  "ASC x = ucast (drop_bit 8 (x AND 0xff00))"

definition ASCQ :: "u16 \<Rightarrow> u8" where
  "ASCQ x = ucast (x AND 0x00ff)"

definition sense_header_build :: "bytes \<Rightarrow> nat \<Rightarrow> int \<Rightarrow> u8 \<Rightarrow> u16 \<Rightarrow> u8 \<Rightarrow> (int \<times> bytes) option" where
  "sense_header_build data off len key code additional_len =
     (if len < 8 then Some (0, data)
      else do {
        data \<leftarrow> buf_put data off [0x72];
        data \<leftarrow> buf_put data (off + 1) [key];
        data \<leftarrow> buf_put data (off + 2) [ASC code];
        data \<leftarrow> buf_put data (off + 3) [ASCQ code];
        data \<leftarrow> buf_put data (off + 7) [additional_len];
        Some (8, data)
      })"

definition sense_info_build ::
  "bytes \<Rightarrow> nat \<Rightarrow> int \<Rightarrow> u32 \<Rightarrow> u32 \<Rightarrow> u64 \<Rightarrow> u64 \<Rightarrow> (int \<times> bytes) option" where
  "sense_info_build data off len not_init_funcs completed_funcs pid oid =
     (if len < 32 then Some (0, data)
      else do {
        data \<leftarrow> buf_put data off [0x6];
        data \<leftarrow> buf_put data (off + 1) [0x1e];
        data \<leftarrow> set_htonl data (off + 8) not_init_funcs;
        data \<leftarrow> set_htonl data (off + 12) completed_funcs;
        data \<leftarrow> set_htonll data (off + 16) pid;
        data \<leftarrow> set_htonll data (off + 24) oid;
        Some (32, data)
      })"

definition sense_csi_build :: "bytes \<Rightarrow> nat \<Rightarrow> int \<Rightarrow> u64 \<Rightarrow> (int \<times> bytes) option" where
  "sense_csi_build data off len csi =
     (if len < 12 then Some (0, data)
      else do {
        data \<leftarrow> buf_put data off [0x1];
        data \<leftarrow> buf_put data (off + 1) [0xa];
        data \<leftarrow> set_htonll data (off + 4) csi;
        Some (12, data)
      })"

text \<open>The running offset is a \<open>uint8_t\<close>, the length 252.\<close>

definition sense_basic_build ::
  "bytes \<Rightarrow> u8 \<Rightarrow> u16 \<Rightarrow> u64 \<Rightarrow> u64 \<Rightarrow> (int \<times> bytes) option" where
  "sense_basic_build sense key code pid oid = do {
     let off = (0 :: u8);
     let len = (of_nat OSD_MAX_SENSE :: u8);
     let nifunc = 0x303010b0;
     (r, sense) \<leftarrow> sense_header_build sense (unat off) (uint len - uint off) key code 32;
     let off = (word_of_int r :: u8);
     (r, sense) \<leftarrow> sense_info_build sense (unat off) (uint len - uint off) nifunc 0 pid oid;
     let off = off + word_of_int r;
     Some (uint off, sense)
   }"

definition sense_build_sdd ::
  "bytes \<Rightarrow> u8 \<Rightarrow> u16 \<Rightarrow> u64 \<Rightarrow> u64 \<Rightarrow> (int \<times> bytes) option" where
  "sense_build_sdd sense key code pid oid = do {
     let off = (0 :: u8);
     let len = (of_nat OSD_MAX_SENSE :: u8);
     let nifunc = 0x303010b0;
     (r, sense) \<leftarrow> sense_header_build sense (unat off) (uint len - uint off) key code 32;
     let off = (word_of_int r :: u8);
     (r, sense) \<leftarrow> sense_info_build sense (unat off) (uint len - uint off) nifunc 0 pid oid;
     let off = off + word_of_int r;
     Some (uint off, sense)
   }"

definition sense_build_sdd_csi ::
  "bytes \<Rightarrow> u8 \<Rightarrow> u16 \<Rightarrow> u64 \<Rightarrow> u64 \<Rightarrow> u64 \<Rightarrow> (int \<times> bytes) option" where
  "sense_build_sdd_csi sense key code pid oid csi = do {
     let off = (0 :: u8);
     let len = (of_nat OSD_MAX_SENSE :: u8);
     let nifunc = 0x303010b0;
     (r, sense) \<leftarrow> sense_header_build sense (unat off) (uint len - uint off) key code 44;
     let off = (word_of_int r :: u8);
     (r, sense) \<leftarrow> sense_info_build sense (unat off) (uint len - uint off) nifunc 0 pid oid;
     let off = off + word_of_int r;
     (r, sense) \<leftarrow> sense_csi_build sense (unat off) (uint len - uint off) csi;
     let off = off + word_of_int r;
     Some (uint off, sense)
   }"

section \<open>Lemmas\<close>

lemma buf_put_obtain:
  assumes "off + length bs \<le> length m"
  obtains m' where "buf_put m off bs = Some m'" and "length m' = length m"
  using mem.put_some [OF assms] by blast

lemma sense_header_build_ok:
  assumes "8 \<le> len" and "off + 8 \<le> length data"
  obtains data' where "sense_header_build data off len key code add = Some (8, data')"
    and "length data' = length data"
    and "buf_get data' off 4 = Some [0x72, key, ASC code, ASCQ code]"
    and "buf_get data' (off + 7) 1 = Some [add]"
    and "\<And>i n. i + n \<le> off \<or> off + 8 \<le> i \<Longrightarrow> buf_get data' i n = buf_get data i n"
proof -
  let ?h = "[0x72, key, ASC code, ASCQ code]"
  have four: "do { d \<leftarrow> buf_put data off [0x72]; d \<leftarrow> buf_put d (off + 1) [key];
        d \<leftarrow> buf_put d (off + 2) [ASC code]; d \<leftarrow> buf_put d (off + 3) [ASCQ code]; K d }
      = buf_put data off ?h \<bind> K" for K :: "bytes \<Rightarrow> (int \<times> bytes) option"
    using buf_put_append [of data off "[0x72]" "[key, ASC code, ASCQ code]"]
      buf_put_append [of _ "off + 1" "[key]" "[ASC code, ASCQ code]"]
      buf_put_append [of _ "off + 2" "[ASC code]" "[ASCQ code]"]
    by (simp add: Option.bind_assoc ac_simps numeral_3_eq_3)
  obtain d1 where d1: "buf_put data off ?h = Some d1" "length d1 = length data"
    using buf_put_obtain [of off ?h data] assms(2) by auto
  obtain d2 where d2: "buf_put d1 (off + 7) [add] = Some d2" "length d2 = length data"
    using buf_put_obtain [of "off + 7" "[add]" d1] assms(2) d1 by auto
  show ?thesis
  proof (rule that)
    show "sense_header_build data off len key code add = Some (8, d2)"
      using assms(1) d1(1) d2(1) four by (simp add: sense_header_build_def)
    show "buf_get d2 off 4 = Some ?h"
      using mem.put_put_get_first [OF d1(1) d2(1)] by (simp add: numeral_eq_Suc)
    show "buf_get d2 (off + 7) 1 = Some [add]"
      using mem.get_put [OF d2(1)] by simp
    show "i + n \<le> off \<or> off + 8 \<le> i \<Longrightarrow> buf_get d2 i n = buf_get data i n" for i n
      using mem.get_put_apart [OF d1(1), of i n] mem.get_put_apart [OF d2(1), of i n] by auto
  qed (fact d2(2))
qed

lemma sense_info_build_ok:
  assumes "32 \<le> len" and "off + 32 \<le> length data"
  obtains data' where "sense_info_build data off len nif cf pid oid = Some (32, data')"
    and "length data' = length data"
    and "buf_get data' off 2 = Some [0x6, 0x1e]"
    and "get_ntohl data' (off + 8) = Some nif" and "get_ntohl data' (off + 12) = Some cf"
    and "get_ntohll data' (off + 16) = Some pid" and "get_ntohll data' (off + 24) = Some oid"
    and "\<And>i n. i + n \<le> off \<or> off + 32 \<le> i \<Longrightarrow> buf_get data' i n = buf_get data i n"
proof -
  have two: "do { d \<leftarrow> buf_put data off [0x6]; d \<leftarrow> buf_put d (off + 1) [0x1e]; K d }
      = buf_put data off [0x6, 0x1e] \<bind> K" for K :: "bytes \<Rightarrow> (int \<times> bytes) option"
    using buf_put_append [of data off "[0x6]" "[0x1e]"] by (simp add: Option.bind_assoc)
  obtain d0 where d0: "buf_put data off [0x6, 0x1e] = Some d0" "length d0 = length data"
    using buf_put_obtain [of off "[0x6, 0x1e]" data] assms(2) by auto
  obtain d1 where d1: "set_htonl d0 (off + 8) nif = Some d1" "length d1 = length data"
    using ntohl.set_obtain [of "off + 8" d0 nif] assms(2) d0 by auto
  obtain d2 where d2: "set_htonl d1 (off + 12) cf = Some d2" "length d2 = length data"
    using ntohl.set_obtain [of "off + 12" d1 cf] assms(2) d1 by auto
  obtain d3 where d3: "set_htonll d2 (off + 16) pid = Some d3" "length d3 = length data"
    using ntohll.set_obtain [of "off + 16" d2 pid] assms(2) d2 by auto
  obtain d4 where d4: "set_htonll d3 (off + 24) oid = Some d4" "length d4 = length data"
    using ntohll.set_obtain [of "off + 24" d3 oid] assms(2) d3 by auto
  note ap = mem.get_put_apart [OF d0(1)] ntohl.get_set_apart [OF d1(1)] ntohl.get_set_apart [OF d2(1)]
    ntohll.get_set_apart [OF d3(1)] ntohll.get_set_apart [OF d4(1)]
  show ?thesis
  proof (rule that)
    show "sense_info_build data off len nif cf pid oid = Some (32, d4)"
      using assms(1) d0(1) d1(1) d2(1) d3(1) d4(1) two by (simp add: sense_info_build_def)
    show "buf_get d4 off 2 = Some [0x6, 0x1e]"
      using mem.get_put [OF d0(1)] by (simp add: ap numeral_2_eq_2)
    show "get_ntohl d4 (off + 8) = Some nif"
      using ntohl.get_set [OF d1(1)] by (simp add: ntohl.getv_eq ap)
    show "get_ntohl d4 (off + 12) = Some cf"
      using ntohl.get_set [OF d2(1)] by (simp add: ntohl.getv_eq ap)
    show "get_ntohll d4 (off + 16) = Some pid"
      using ntohll.get_set [OF d3(1)] by (simp add: ntohll.getv_eq ap)
    show "get_ntohll d4 (off + 24) = Some oid" using ntohll.get_set [OF d4(1)] .
    show "buf_get d4 i n = buf_get data i n" if "i + n \<le> off \<or> off + 32 \<le> i" for i n
      using that by (auto simp: ap)
  qed (fact d4(2))
qed

lemma sense_csi_build_ok:
  assumes "12 \<le> len" and "off + 12 \<le> length data"
  obtains data' where "sense_csi_build data off len csi = Some (12, data')"
    and "length data' = length data"
    and "buf_get data' off 2 = Some [0x1, 0xa]" and "get_ntohll data' (off + 4) = Some csi"
    and "\<And>i n. i + n \<le> off \<or> off + 12 \<le> i \<Longrightarrow> buf_get data' i n = buf_get data i n"
proof -
  have two: "do { d \<leftarrow> buf_put data off [0x1]; d \<leftarrow> buf_put d (off + 1) [0xa]; K d }
      = buf_put data off [0x1, 0xa] \<bind> K" for K :: "bytes \<Rightarrow> (int \<times> bytes) option"
    using buf_put_append [of data off "[0x1]" "[0xa]"] by (simp add: Option.bind_assoc)
  obtain d0 where d0: "buf_put data off [0x1, 0xa] = Some d0" "length d0 = length data"
    using buf_put_obtain [of off "[0x1, 0xa]" data] assms(2) by auto
  obtain d1 where d1: "set_htonll d0 (off + 4) csi = Some d1" "length d1 = length data"
    using ntohll.set_obtain [of "off + 4" d0 csi] assms(2) d0 by auto
  note ap = mem.get_put_apart [OF d0(1)] ntohll.get_set_apart [OF d1(1)]
  show ?thesis
  proof (rule that)
    show "sense_csi_build data off len csi = Some (12, d1)"
      using assms(1) d0(1) d1(1) two by (simp add: sense_csi_build_def)
    show "buf_get d1 off 2 = Some [0x1, 0xa]"
      using mem.get_put [OF d0(1)] by (simp add: ap numeral_2_eq_2)
    show "get_ntohll d1 (off + 4) = Some csi" using ntohll.get_set [OF d1(1)] .
    show "buf_get d1 i n = buf_get data i n" if "i + n \<le> off \<or> off + 12 \<le> i" for i n
      using that by (auto simp: ap)
  qed (fact d1(2))
qed

text \<open>The sense a handler leaves: header and object identification.\<close>

lemma sense_build_sdd_ok:
  assumes "252 \<le> length sense"
  obtains s where "sense_build_sdd sense key code pid oid = Some (40, s)"
    and "sense_basic_build sense key code pid oid = Some (40, s)"
    and "length s = length sense"
    and "buf_get s 0 4 = Some [0x72, key, ASC code, ASCQ code]" and "buf_get s 7 1 = Some [32]"
    and "get_ntohll s 24 = Some pid" and "get_ntohll s 32 = Some oid"
proof -
  obtain s1 where s1: "sense_header_build sense 0 252 key code 32 = Some (8, s1)"
    "length s1 = length sense" "buf_get s1 0 4 = Some [0x72, key, ASC code, ASCQ code]"
    "buf_get s1 7 1 = Some [32]"
    by (rule sense_header_build_ok [of 252 0 sense key code 32]) (use assms in auto)
  obtain s2 where s2: "sense_info_build s1 8 244 0x303010b0 0 pid oid = Some (32, s2)"
    "length s2 = length s1" "get_ntohll s2 24 = Some pid" "get_ntohll s2 32 = Some oid"
    "\<And>i n. i + n \<le> 8 \<or> 40 \<le> i \<Longrightarrow> buf_get s2 i n = buf_get s1 i n"
    by (rule sense_info_build_ok [of 244 8 s1 "0x303010b0" 0 pid oid]) (use assms s1(2) in auto)
  show ?thesis
    by (rule that [of s2])
      (use s1 s2 in \<open>simp_all add: sense_build_sdd_def sense_basic_build_def OSD_MAX_SENSE_def\<close>)
qed

lemma sense_build_sdd_csi_ok:
  assumes "252 \<le> length sense"
  shows "\<exists>s. sense_build_sdd_csi sense key code pid oid csi = Some (52, s) \<and> length s = length sense \<and>
    buf_get s 0 4 = Some [0x72, key, ASC code, ASCQ code] \<and> buf_get s 7 1 = Some [52 - 8] \<and>
    buf_get s 8 2 = Some [0x6, 0x1e] \<and> get_ntohll s 24 = Some pid \<and> get_ntohll s 32 = Some oid \<and>
    buf_get s 40 2 = Some [0x1, 0xa] \<and> get_ntohll s 44 = Some csi"
proof -
  obtain s1 where s1: "sense_header_build sense 0 252 key code 44 = Some (8, s1)"
    "length s1 = length sense" "buf_get s1 0 4 = Some [0x72, key, ASC code, ASCQ code]"
    "buf_get s1 7 1 = Some [44]"
    by (rule sense_header_build_ok [of 252 0 sense key code 44]) (use assms in auto)
  obtain s2 where s2: "sense_info_build s1 8 244 0x303010b0 0 pid oid = Some (32, s2)"
    "length s2 = length s1" "buf_get s2 8 2 = Some [0x6, 0x1e]"
    "get_ntohll s2 24 = Some pid" "get_ntohll s2 32 = Some oid"
    "\<And>i n. i + n \<le> 8 \<or> 40 \<le> i \<Longrightarrow> buf_get s2 i n = buf_get s1 i n"
    by (rule sense_info_build_ok [of 244 8 s1 "0x303010b0" 0 pid oid]) (use assms s1(2) in auto)
  obtain s3 where s3: "sense_csi_build s2 40 212 csi = Some (12, s3)"
    "length s3 = length s2" "buf_get s3 40 2 = Some [0x1, 0xa]" "get_ntohll s3 44 = Some csi"
    "\<And>i n. i + n \<le> 40 \<or> 52 \<le> i \<Longrightarrow> buf_get s3 i n = buf_get s2 i n"
    by (rule sense_csi_build_ok [of 212 40 s2 csi]) (use assms s1(2) s2(2) in auto)
  have "sense_build_sdd_csi sense key code pid oid csi = Some (52, s3)"
    using s1(1) s2(1) s3(1) by (simp add: sense_build_sdd_csi_def OSD_MAX_SENSE_def)
  then show ?thesis
    using s1 s2 s3 by (simp add: ntohll.getv_eq)
qed

section \<open>Properties\<close>

text \<open>
  The sense data with command-specific information: in a full sense buffer the builder always
  returns 52, the header announces the 44 bytes that follow it, and key, code, object identifiers
  and information read back from their descriptors.
\<close>

lemma sense_build_sdd_csi_layout:
  assumes "252 \<le> length sense"
  shows "\<exists>s. sense_build_sdd_csi sense key code pid oid csi = Some (52, s) \<and> length s = length sense \<and>
    buf_get s 0 4 = Some [0x72, key, ASC code, ASCQ code] \<and> buf_get s 7 1 = Some [52 - 8] \<and>
    buf_get s 8 2 = Some [0x6, 0x1e] \<and> get_ntohll s 24 = Some pid \<and> get_ntohll s 32 = Some oid \<and>
    buf_get s 40 2 = Some [0x1, 0xa] \<and> get_ntohll s 44 = Some csi"
  using assms by (rule sense_build_sdd_csi_ok)

lemma sense_build_sdd_csi_layout_witness:
  "\<exists>s. sense_build_sdd_csi (replicate 252 0) 5 0x2400 0x10000 0x10001 77 = Some (52, s) \<and>
     get_ntohll s 44 = Some 77"
  using sense_build_sdd_csi_layout [of "replicate 252 0"] by (metis length_replicate order_refl)

end
