(* ===== verification/Sql_Db.thy ===== *)
theory Sql_Db
  imports OSD_Util
begin

text \<open>
  \<^verbatim>\<open>osd-target/db.c\<close>, \<^verbatim>\<open>osd-target/osd.schema\<close> and the preparation of statements in
  \<^verbatim>\<open>obj.c\<close>, \<^verbatim>\<open>coll.c\<close>, \<^verbatim>\<open>attr.c\<close>: the database a target keeps its objects in.

  A table is the list of its rows; \<open>INTEGER\<close> columns are the signed 64-bit integers SQLite
  stores. What the engine may answer besides success is a schedule carried by the context: for
  every \<open>sqlite3_step\<close> an event, for every group of binds, every prepare and every
  \<open>sqlite3_exec\<close> whether it succeeds. An exhausted schedule means success.
\<close>

section \<open>Tables\<close>

record obj_row =
  o_pid :: int
  o_oid :: int
  o_type :: int

record attr_row =
  a_pid :: int
  a_oid :: int
  a_page :: int
  a_number :: int
  a_value :: "bytes option"

record coll_row =
  c_pid :: int
  c_cid :: int
  c_oid :: int
  c_number :: int

record tables =
  t_obj :: "obj_row list"
  t_attr :: "attr_row list"
  t_coll :: "coll_row list"

definition obj_key :: "obj_row \<Rightarrow> int \<times> int" where
  "obj_key r = (o_pid r, o_oid r)"

definition attr_key :: "attr_row \<Rightarrow> int \<times> int \<times> int \<times> int" where
  "attr_key r = (a_pid r, a_oid r, a_page r, a_number r)"

definition coll_key :: "coll_row \<Rightarrow> int \<times> int \<times> int" where
  "coll_key r = (c_pid r, c_cid r, c_oid r)"

text \<open>The second constraint of \<open>coll\<close>: \<open>UNIQUE (pid, oid, number) ON CONFLICT REPLACE\<close>.\<close>

definition coll_slot :: "coll_row \<Rightarrow> int \<times> int \<times> int" where
  "coll_slot r = (c_pid r, c_oid r, c_number r)"

text \<open>
  \<open>INSERT INTO t VALUES (...)\<close> into a table with a primary key; \<open>None\<close> is a constraint violation,
  which leaves the table unchanged.
\<close>

definition insert_row :: "('r \<Rightarrow> 'k) \<Rightarrow> 'r \<Rightarrow> 'r list \<Rightarrow> 'r list option" where
  "insert_row key r t = (if key r \<in> key ` set t then None else Some (t @ [r]))"

text \<open>\<open>INSERT OR REPLACE\<close>: the row with the same key goes.\<close>

definition replace_row :: "('r \<Rightarrow> 'k) \<Rightarrow> 'r \<Rightarrow> 'r list \<Rightarrow> 'r list" where
  "replace_row key r t = filter (\<lambda>x. key x \<noteq> key r) t @ [r]"

definition delete_rows :: "('r \<Rightarrow> bool) \<Rightarrow> 'r list \<Rightarrow> 'r list" where
  "delete_rows P t = filter (\<lambda>r. \<not> P r) t"

text \<open>
  An insertion into \<open>coll\<close>: the primary key aborts, the replacing constraint removes the row that
  holds the slot.
\<close>

definition insert_coll :: "coll_row \<Rightarrow> coll_row list \<Rightarrow> coll_row list option" where
  "insert_coll r t =
     (if coll_key r \<in> coll_key ` set t then None else Some (replace_row coll_slot r t))"

text \<open>What the schema enforces.\<close>

definition tables_ok :: "tables \<Rightarrow> bool" where
  "tables_ok t \<longleftrightarrow> distinct (map obj_key (t_obj t)) \<and> distinct (map attr_key (t_attr t)) \<and>
     distinct (map coll_key (t_coll t)) \<and> distinct (map coll_slot (t_coll t))"

section \<open>The engine and the context\<close>

datatype sq_event = EvOk | EvBusy | EvSchema | EvError

datatype sq_code = SQLITE_OK | SQLITE_ERROR | SQLITE_BUSY | SQLITE_SCHEMA | SQLITE_CONSTRAINT
  | SQLITE_ROW | SQLITE_DONE

text \<open>
  The statement table of a component: absent (a null pointer), prepared, allocated with null
  statements, or allocated with statements that have been finalized.
\<close>

datatype stmt_tab = NoTab | Prepared | Blank | Dangling

record db_context =
  tabs :: tables
  coll_tab :: stmt_tab
  obj_tab :: stmt_tab
  attr_tab :: stmt_tab
  in_txn :: bool
  step_evs :: "sq_event list"
  bind_evs :: "bool list"
  prep_evs :: "bool list"
  exec_evs :: "bool list"
  scan_ids :: "int list \<Rightarrow> int list"
  scan_attrs :: "attr_row list \<Rightarrow> attr_row list"

text \<open>\<open>scan_ids\<close> and \<open>scan_attrs\<close> are the order an unordered \<open>SELECT\<close> answers in.\<close>

definition engine_ok :: "db_context \<Rightarrow> bool" where
  "engine_ok dbc \<longleftrightarrow> (\<forall>xs. mset (scan_ids dbc xs) = mset xs) \<and>
     (\<forall>rs. mset (scan_attrs dbc rs) = mset rs)"

fun next_event :: "'e \<Rightarrow> 'e list \<Rightarrow> 'e \<times> 'e list" where
  "next_event d [] = (d, [])"
| "next_event d (e # es) = (e, es)"

text \<open>\<open>do ret = sqlite3_step (stmt); while (ret == SQLITE_BUSY)\<close>: the first other event.\<close>

fun busy_wait :: "sq_event list \<Rightarrow> sq_event \<times> sq_event list" where
  "busy_wait [] = (EvOk, [])"
| "busy_wait (e # es) = (if e = EvBusy then busy_wait es else (e, es))"

text \<open>Binding the parameters of a statement.\<close>

definition sq_bind :: "db_context \<Rightarrow> bool \<times> db_context" where
  "sq_bind dbc = (let (ok, es) = next_event True (bind_evs dbc) in (ok, dbc\<lparr>bind_evs := es\<rparr>))"

text \<open>A data manipulation statement, stepped until it is not busy.\<close>

definition sq_step_dms :: "(tables \<Rightarrow> tables option) \<Rightarrow> db_context \<Rightarrow> sq_code \<times> db_context" where
  "sq_step_dms eff dbc =
     (let (ev, es) = busy_wait (step_evs dbc); dbc = dbc\<lparr>step_evs := es\<rparr> in
      case ev of
        EvOk \<Rightarrow> (case eff (tabs dbc) of
            None \<Rightarrow> (SQLITE_CONSTRAINT, dbc)
          | Some t \<Rightarrow> (SQLITE_DONE, dbc\<lparr>tabs := t\<rparr>))
      | EvSchema \<Rightarrow> (SQLITE_SCHEMA, dbc)
      | _ \<Rightarrow> (SQLITE_ERROR, dbc))"

text \<open>The first row of a query, stepped until it is not busy.\<close>

definition sq_step_row :: "'r list \<Rightarrow> db_context \<Rightarrow> sq_code \<times> db_context" where
  "sq_step_row rows dbc =
     (let (ev, es) = busy_wait (step_evs dbc); dbc = dbc\<lparr>step_evs := es\<rparr> in
      case ev of
        EvOk \<Rightarrow> (if rows = [] then SQLITE_DONE else SQLITE_ROW, dbc)
      | EvSchema \<Rightarrow> (SQLITE_SCHEMA, dbc)
      | _ \<Rightarrow> (SQLITE_ERROR, dbc))"

text \<open>\<open>sqlite3_reset\<close> reports the error of the last step.\<close>

definition sqlite3_reset :: "sq_code \<Rightarrow> sq_code" where
  "sqlite3_reset code = (if code = SQLITE_ROW \<or> code = SQLITE_DONE then SQLITE_OK else code)"

definition sq_exec :: "db_context \<Rightarrow> bool \<times> db_context" where
  "sq_exec dbc = (let (ok, es) = next_event True (exec_evs dbc) in (ok, dbc\<lparr>exec_evs := es\<rparr>))"

section \<open>Preparing and finalizing statements\<close>

text \<open>The statements of the three components, in the order they are prepared.\<close>

definition obj_sql :: "string list" where
  "obj_sql = [
    ''INSERT INTO obj VALUES (?, ?, ?);'',
    ''DELETE FROM obj WHERE pid = ? AND oid = ?;'',
    ''DELETE FROM obj WHERE pid = ?;'',
    ''SELECT MAX(oid) FROM obj WHERE pid = ?;'',
    ''SELECT MAX(pid) FROM obj;'',
    ''SELECT COUNT(oid) FROM obj WHERE pid = ? AND oid = ?;'',
    ''SELECT COUNT(oid) FROM obj WHERE pid = ? AND oid != 0  LIMIT 1;'',
    ''SELECT type FROM obj WHERE pid = ? AND oid = ?;'',
    ''SELECT oid FROM obj WHERE pid = ? AND type = 128 AND  oid >= ?;'',
    ''SELECT oid FROM obj WHERE pid = ? AND type = 64 AND  oid >= ?;'',
    ''SELECT pid FROM obj WHERE oid = 0 AND type = 2 AND  pid >= ?;'']"

definition coll_sql :: "string list" where
  "coll_sql = [
    ''INSERT INTO coll VALUES (?, ?, ?, ?);'',
    ''DELETE FROM coll WHERE pid = ? AND cid = ? AND oid = ?;'',
    ''DELETE FROM coll WHERE pid = ? AND cid = ?;'',
    ''DELETE FROM coll WHERE pid = ? AND oid = ?;'',
    ''SELECT COUNT (*) FROM coll WHERE pid = ? AND cid = ?  LIMIT 1;'',
    ''SELECT cid FROM coll WHERE pid = ? AND oid = ? AND  number = ?;'',
    ''SELECT oid FROM coll WHERE pid = ? AND cid = ? AND  oid >= ?;'',
    ''INSERT INTO coll SELECT ?, ?, oid, 0 FROM coll WHERE pid = ? AND cid = ?;'']"

definition attr_sql :: "string list" where
  "attr_sql = [
    ''INSERT OR REPLACE INTO attr VALUES (?, ?, ?, ?, ?);'',
    ''DELETE FROM attr WHERE pid = ? AND oid = ? AND page = ?  AND number = ?;'',
    ''DELETE FROM attr WHERE pid = ? AND oid = ?;'',
    ''SELECT page, number, value FROM attr WHERE pid = ? AND  oid = ? AND page = ? AND number = ?;'',
    ''SELECT value FROM attr WHERE pid = ? AND oid = ? AND  page = ? AND number = ?;'',
    ''SELECT page, number, value FROM attr WHERE pid = ? AND  oid = ? AND page = ?;'',
    ''SELECT page, number, value FROM attr WHERE pid = ? AND  oid = ? AND number = ?;'',
    ''SELECT page, number, value FROM attr WHERE pid = ? AND oid = ?;'',
    '' SELECT page, @uip  FROM attr   WHERE pid = @pid AND oid = @oid GROUP BY page ''
      @ '' EXCEPT  SELECT page, @uip  FROM attr    WHERE pid = @pid AND oid = @oid AND number = 0 ''
      @ '' UNION ALL  SELECT page, value FROM attr    WHERE pid = @pid AND oid = @oid AND number = 0;''
   ]"

text \<open>
  Preparing the statements of a component in order. At the first failure the labels of the code
  finalize the statements prepared so far, in reverse, and leave the structure in place: with null
  pointers if it was the first statement, else with pointers to finalized statements.
\<close>

fun prepare_all :: "nat \<Rightarrow> string list \<Rightarrow> bool list \<Rightarrow> stmt_tab \<times> bool list" where
  "prepare_all done [] es = (Prepared, es)"
| "prepare_all done (s # ss) es =
     (let (ok, es) = next_event True es in
      if ok then prepare_all (done + 1) ss es
      else (if done = 0 then Blank else Dangling, es))"

text \<open>
  \<open>sqlite3_finalize\<close> on a null pointer does nothing; on a finalized statement it is undefined.
  The result is the return code and the structure afterwards.
\<close>

definition finalize_tab :: "stmt_tab \<Rightarrow> (int \<times> stmt_tab) option" where
  "finalize_tab t = (case t of
       NoTab \<Rightarrow> Some (OSD_ERROR, NoTab)
     | Dangling \<Rightarrow> None
     | _ \<Rightarrow> Some (OSD_OK, NoTab))"

definition coll_finalize :: "db_context \<Rightarrow> (int \<times> db_context) option" where
  "coll_finalize dbc = do { (r, t) \<leftarrow> finalize_tab (coll_tab dbc); Some (r, dbc\<lparr>coll_tab := t\<rparr>) }"

definition obj_finalize :: "db_context \<Rightarrow> (int \<times> db_context) option" where
  "obj_finalize dbc = do { (r, t) \<leftarrow> finalize_tab (obj_tab dbc); Some (r, dbc\<lparr>obj_tab := t\<rparr>) }"

definition attr_finalize :: "db_context \<Rightarrow> (int \<times> db_context) option" where
  "attr_finalize dbc = do { (r, t) \<leftarrow> finalize_tab (attr_tab dbc); Some (r, dbc\<lparr>attr_tab := t\<rparr>) }"

text \<open>The name of a table, which the query functions print into their statements.\<close>

definition coll_getname :: "db_context \<Rightarrow> string option" where
  "coll_getname dbc = (if coll_tab dbc = NoTab then None else Some ''coll'')"

definition obj_getname :: "db_context \<Rightarrow> string option" where
  "obj_getname dbc = (if obj_tab dbc = NoTab then None else Some ''obj'')"

definition attr_getname :: "db_context \<Rightarrow> string option" where
  "attr_getname dbc = (if attr_tab dbc = NoTab then None else Some ''attr'')"

definition coll_initialize :: "db_context \<Rightarrow> (int \<times> db_context) option" where
  "coll_initialize dbc = do {
     (_, dbc) \<leftarrow> (if coll_tab dbc \<noteq> NoTab then coll_finalize dbc else Some (OSD_OK, dbc));
     let (t, es) = prepare_all 0 coll_sql (prep_evs dbc);
     Some (if t = Prepared then OSD_OK else - EIO, dbc\<lparr>coll_tab := t, prep_evs := es\<rparr>)
   }"

definition obj_initialize :: "db_context \<Rightarrow> (int \<times> db_context) option" where
  "obj_initialize dbc = do {
     (_, dbc) \<leftarrow> (if obj_tab dbc \<noteq> NoTab then obj_finalize dbc else Some (OSD_OK, dbc));
     let (t, es) = prepare_all 0 obj_sql (prep_evs dbc);
     Some (if t = Prepared then OSD_OK else - EIO, dbc\<lparr>obj_tab := t, prep_evs := es\<rparr>)
   }"

definition attr_initialize :: "db_context \<Rightarrow> (int \<times> db_context) option" where
  "attr_initialize dbc = do {
     (_, dbc) \<leftarrow> (if attr_tab dbc \<noteq> NoTab then attr_finalize dbc else Some (OSD_OK, dbc));
     let (t, es) = prepare_all 0 attr_sql (prep_evs dbc);
     Some (if t = Prepared then OSD_OK else - EIO, dbc\<lparr>attr_tab := t, prep_evs := es\<rparr>)
   }"

section \<open>db.c\<close>

text \<open>The error labels fall through: \<open>attr\<close>, \<open>obj\<close>, \<open>coll\<close>.\<close>

definition db_initialize :: "db_context \<Rightarrow> (int \<times> db_context) option" where
  "db_initialize dbc = do {
     (ret, dbc) \<leftarrow> coll_initialize dbc;
     if ret \<noteq> OSD_OK then do { (_, dbc) \<leftarrow> coll_finalize dbc; Some (ret, dbc) }
     else do {
       (ret, dbc) \<leftarrow> obj_initialize dbc;
       if ret \<noteq> OSD_OK then do {
         (_, dbc) \<leftarrow> obj_finalize dbc; (_, dbc) \<leftarrow> coll_finalize dbc; Some (ret, dbc) }
       else do {
         (ret, dbc) \<leftarrow> attr_initialize dbc;
         if ret \<noteq> OSD_OK then do {
           (_, dbc) \<leftarrow> attr_finalize dbc; (_, dbc) \<leftarrow> obj_finalize dbc;
           (_, dbc) \<leftarrow> coll_finalize dbc; Some (ret, dbc) }
         else Some (OSD_OK, dbc)
       }
     }
   }"

definition db_finalize :: "db_context \<Rightarrow> (int \<times> db_context) option" where
  "db_finalize dbc = do {
     (r1, dbc) \<leftarrow> coll_finalize dbc;
     (r2, dbc) \<leftarrow> obj_finalize dbc;
     (r3, dbc) \<leftarrow> attr_finalize dbc;
     Some (if r1 OR r2 OR r3 = OSD_OK then OSD_OK else OSD_ERROR, dbc)
   }"

definition db_reset_stmt :: "db_context \<Rightarrow> bool \<Rightarrow> sq_code \<Rightarrow> (int \<times> db_context) option" where
  "db_reset_stmt dbc bound code =
     (let ret = sqlite3_reset code in
      if \<not> bound then Some (OSD_ERROR, dbc)
      else if ret = SQLITE_OK then Some (OSD_OK, dbc)
      else if ret = SQLITE_SCHEMA then do {
        (_, dbc) \<leftarrow> db_finalize dbc;
        (ret, dbc) \<leftarrow> db_initialize dbc;
        if ret = OSD_OK then Some (OSD_REPEAT, dbc) else Some (OSD_ERROR, dbc)
      }
      else Some (OSD_ERROR, dbc))"

definition db_begin_txn :: "db_context \<Rightarrow> int \<times> db_context" where
  "db_begin_txn dbc =
     (let (ok, dbc) = sq_exec dbc in
      if ok \<and> \<not> in_txn dbc then (OSD_OK, dbc\<lparr>in_txn := True\<rparr>) else (OSD_ERROR, dbc))"

definition db_end_txn :: "db_context \<Rightarrow> int \<times> db_context" where
  "db_end_txn dbc =
     (let (ok, dbc) = sq_exec dbc in
      if ok \<and> in_txn dbc then (OSD_OK, dbc\<lparr>in_txn := False\<rparr>) else (OSD_ERROR, dbc))"

definition db_exec_pragma :: "db_context \<Rightarrow> int \<times> db_context" where
  "db_exec_pragma dbc =
     (let (ok, dbc) = sq_exec dbc in if ok then (OSD_OK, dbc) else (OSD_ERROR, dbc))"

definition db_print_pragma :: "db_context \<Rightarrow> int \<times> db_context" where
  "db_print_pragma dbc =
     (let (ok, dbc) = sq_exec dbc in if ok then (OSD_OK, dbc) else (OSD_ERROR, dbc))"

definition db_exec_dms ::
  "db_context \<Rightarrow> (tables \<Rightarrow> tables option) \<Rightarrow> bool \<Rightarrow> (int \<times> db_context) option" where
  "db_exec_dms dbc stmt bound =
     (if \<not> bound then db_reset_stmt dbc bound SQLITE_OK
      else let (code, dbc) = sq_step_dms stmt dbc in db_reset_stmt dbc bound code)"

text \<open>
  The loop over the rows of an identifier query. \<open>outdata\<close> is the write position; the counters are
  64-bit. Leaving through the overflow of \<open>add_len\<close> leaves the statement on a row.
\<close>

function id_rtrvl_loop ::
  "int list \<Rightarrow> sq_event list \<Rightarrow> u64 \<Rightarrow> bytes \<Rightarrow> nat \<Rightarrow> u64 \<Rightarrow> u64 \<Rightarrow> u64
    \<Rightarrow> (sq_code \<times> sq_event list \<times> bytes \<times> u64 \<times> u64 \<times> u64) option" where
  "id_rtrvl_loop rows evs alloc_len m outdata len add_len cont_id =
     (case next_event EvOk evs of
        (EvOk, evs') \<Rightarrow> (case rows of
            [] \<Rightarrow> Some (SQLITE_DONE, evs', m, len, add_len, cont_id)
          | x # rows' \<Rightarrow> do {
              (m, outdata, len, cont_id) \<leftarrow>
                (if alloc_len - len \<ge> 8 then do {
                   m \<leftarrow> set_htonll m outdata (word_of_int x);
                   Some (m, outdata + 8, len + 8, cont_id) }
                 else Some (m, outdata, len, if cont_id = 0 then word_of_int x else cont_id));
              if add_len + 8 > add_len
              then id_rtrvl_loop rows' evs' alloc_len m outdata len (add_len + 8) cont_id
              else Some (SQLITE_ROW, evs', m, len, - 1, cont_id) })
      | (EvBusy, evs') \<Rightarrow>
          (if evs = [] then None
           else id_rtrvl_loop rows evs' alloc_len m outdata len add_len cont_id)
      | (EvSchema, evs') \<Rightarrow> Some (SQLITE_SCHEMA, evs', m, len, add_len, cont_id)
      | (EvError, evs') \<Rightarrow> Some (SQLITE_ERROR, evs', m, len, add_len, cont_id))"
  by pat_completeness auto
termination
proof (relation "measure (\<lambda>(rows, evs, _). length rows + length evs)", goal_cases)
  case (2 rows evs)
  then show ?case by (cases evs) auto
next
  case (3 rows evs)
  then show ?case by (cases evs) auto
qed simp

text \<open>
  The output parameters that the loop resets are only reset when the bind succeeded:
  \<open>used_outlen\<close>, \<open>add_len\<close> and \<open>cont_id\<close> are passed in and out.
\<close>

definition db_exec_id_rtrvl_stmt ::
  "db_context \<Rightarrow> int list \<Rightarrow> bool \<Rightarrow> u64 \<Rightarrow> bytes \<Rightarrow> nat \<Rightarrow> u64 \<times> u64 \<times> u64
    \<Rightarrow> (int \<times> (bytes \<times> u64 \<times> u64 \<times> u64) \<times> db_context) option" where
  "db_exec_id_rtrvl_stmt dbc rows bound alloc_len m outdata outs =
     (if \<not> bound then do {
        (ret, dbc) \<leftarrow> db_reset_stmt dbc bound SQLITE_OK;
        Some (ret, (m, outs), dbc) }
      else do {
        (code, evs, m, len, add_len, cont_id) \<leftarrow>
          id_rtrvl_loop (scan_ids dbc rows) (step_evs dbc) alloc_len m outdata 0 0 0;
        (ret, dbc) \<leftarrow> db_reset_stmt (dbc\<lparr>step_evs := evs\<rparr>) bound code;
        Some (ret, (m, if ret = OSD_OK then len else 0, add_len, cont_id), dbc)
      })"

text \<open>
  \<open>repeat: ... if (ret == OSD_REPEAT) goto repeat;\<close>: the bodies bind and execute one statement.
  A loop that does not end has the value \<open>None\<close>.
\<close>

partial_function (option) goto_repeat ::
  "('o \<Rightarrow> db_context \<Rightarrow> (int \<times> 'o \<times> db_context) option) \<Rightarrow> 'o \<Rightarrow> db_context
    \<Rightarrow> (int \<times> 'o \<times> db_context) option" where
  "goto_repeat body out dbc = do {
     (ret, out', dbc') \<leftarrow> body out dbc;
     if ret = OSD_REPEAT then goto_repeat body out' dbc' else Some (ret, out', dbc')
   }"

text \<open>A data manipulation statement with its binds, and a query for the first row.\<close>

definition run_dms :: "(tables \<Rightarrow> tables option) \<Rightarrow> db_context \<Rightarrow> (int \<times> db_context) option" where
  "run_dms stmt dbc = do {
     (ret, _, dbc) \<leftarrow> goto_repeat (\<lambda>_ dbc. do {
        let (bound, dbc) = sq_bind dbc;
        (ret, dbc) \<leftarrow> db_exec_dms dbc stmt bound;
        Some (ret, (), dbc) }) () dbc;
     Some (ret, dbc)
   }"

text \<open>One step of a query: the column of the row, if there is one, then the reset.\<close>

definition query_once ::
  "'r list \<Rightarrow> ('o \<Rightarrow> 'r \<Rightarrow> 'o option) \<Rightarrow> 'o \<Rightarrow> db_context \<Rightarrow> (int \<times> 'o \<times> db_context) option" where
  "query_once rows column out dbc = do {
     let (code, dbc) = sq_step_row rows dbc;
     out \<leftarrow> (if code = SQLITE_ROW then column out (hd rows) else Some out);
     (ret, dbc) \<leftarrow> db_reset_stmt dbc True code;
     Some (ret, out, dbc) }"

definition run_query ::
  "(tables \<Rightarrow> 'r list) \<Rightarrow> ('o \<Rightarrow> 'r \<Rightarrow> 'o option) \<Rightarrow> 'o \<Rightarrow> db_context
    \<Rightarrow> (int \<times> 'o \<times> db_context) option" where
  "run_query query column = goto_repeat (\<lambda>out dbc. do {
     let (bound, dbc) = sq_bind dbc;
     if \<not> bound then do {
       (ret, dbc) \<leftarrow> db_reset_stmt dbc bound SQLITE_OK;
       Some (ret, out, dbc) }
     else query_once (query (tabs dbc)) column out dbc })"

definition run_ids ::
  "(tables \<Rightarrow> int list) \<Rightarrow> u64 \<Rightarrow> nat \<Rightarrow> bytes \<times> u64 \<times> u64 \<times> u64 \<Rightarrow> db_context
    \<Rightarrow> (int \<times> (bytes \<times> u64 \<times> u64 \<times> u64) \<times> db_context) option" where
  "run_ids query alloc_len outdata = goto_repeat (\<lambda>(m, outs) dbc. do {
     let (bound, dbc) = sq_bind dbc;
     db_exec_id_rtrvl_stmt dbc (query (tabs dbc)) bound alloc_len m outdata outs })"

section \<open>Opening a database\<close>

text \<open>
  The callback of \<open>db_check_tables\<close>, called for every table name of the file in alphabetical
  order; a non-zero answer ends the query with an error.
\<close>

definition check_membership :: "string list \<Rightarrow> string \<Rightarrow> int" where
  "check_membership arr val = (if val \<in> set arr then 0 else - 1)"

definition db_check_tables :: "string list \<Rightarrow> db_context \<Rightarrow> int \<times> db_context" where
  "db_check_tables names dbc =
     (let (ok, dbc) = sq_exec dbc in
      if ok \<and> (\<forall>n \<in> set names. check_membership [''attr'', ''obj'', ''coll''] n = 0)
      then (OSD_OK, dbc) else (OSD_ERROR, dbc))"

datatype stat_result = StatReg | StatNotReg | StatNoEnt | StatFailed

text \<open>
  \<open>osd_db_open\<close>: the answer of \<open>stat\<close>, whether \<open>sqlite3_open\<close> succeeds, the table names of the
  file and the context it opens. The result is the return code and the context pointer.
\<close>

definition osd_db_open ::
  "stat_result \<Rightarrow> bool \<Rightarrow> string list \<Rightarrow> db_context \<Rightarrow> (int \<times> db_context option) option" where
  "osd_db_open st open_ok names dbc =
     (if st = StatNotReg then Some (1, None)
      else if st = StatFailed then Some (- 1, None)
      else
        let is_new_db = (st = StatNoEnt) in
        if \<not> open_ok then Some (OSD_ERROR, None)
        else do {
          let (ret, dbc) =
            (if is_new_db
             then let (ok, dbc) = sq_exec dbc in
               (if ok then OSD_OK else OSD_ERROR, dbc\<lparr>tabs := \<lparr>t_obj = [], t_attr = [], t_coll = []\<rparr>\<rparr>)
             else db_check_tables names dbc);
          if ret \<noteq> OSD_OK then Some (OSD_ERROR, None)
          else do {
            (ret, dbc) \<leftarrow> db_initialize dbc;
            if ret \<noteq> OSD_OK then Some (OSD_ERROR, None)
            else if is_new_db then Some (1, Some dbc) else Some (OSD_OK, Some dbc)
          }
        })"

definition osd_db_close :: "db_context \<Rightarrow> int option" where
  "osd_db_close dbc = do { (_, _) \<leftarrow> db_finalize dbc; Some OSD_OK }"

section \<open>Lemmas: the schedule and the statement tables\<close>

definition db_good :: "db_context \<Rightarrow> bool" where
  "db_good dbc \<longleftrightarrow> coll_tab dbc = Prepared \<and> obj_tab dbc = Prepared \<and> attr_tab dbc = Prepared \<and>
     (\<forall>b \<in> set (prep_evs dbc). b)"

text \<open>No error is scheduled; busy answers and schema changes may be.\<close>

definition db_clean :: "db_context \<Rightarrow> bool" where
  "db_clean dbc \<longleftrightarrow> EvError \<notin> set (step_evs dbc) \<and> (\<forall>b \<in> set (bind_evs dbc). b)"

text \<open>What no statement touches: the transaction and the scan order; events only get used up.\<close>

definition db_frame :: "db_context \<Rightarrow> db_context \<Rightarrow> bool" where
  "db_frame dbc dbc' \<longleftrightarrow> in_txn dbc' = in_txn dbc \<and> scan_ids dbc' = scan_ids dbc \<and>
     scan_attrs dbc' = scan_attrs dbc \<and> exec_evs dbc' = exec_evs dbc \<and>
     set (step_evs dbc') \<subseteq> set (step_evs dbc) \<and> set (bind_evs dbc') \<subseteq> set (bind_evs dbc)"

lemma db_frame_refl [simp]: "db_frame dbc dbc"
  by (simp add: db_frame_def)

lemma db_frame_trans: "db_frame a b \<Longrightarrow> db_frame b c \<Longrightarrow> db_frame a c"
  by (auto simp: db_frame_def)

lemma db_frame_clean: "db_frame a b \<Longrightarrow> db_clean a \<Longrightarrow> db_clean b"
  by (auto simp: db_frame_def db_clean_def)

lemma busy_wait_props:
  "busy_wait evs = (ev, es) \<Longrightarrow> ev \<noteq> EvBusy \<and> set es \<subseteq> set evs \<and> (ev \<noteq> EvOk \<longrightarrow> ev \<in> set evs \<and> length es < length evs)"
  by (induction evs) (auto split: if_splits)

lemma prepare_all_ok:
  "(\<forall>b \<in> set es. b) \<Longrightarrow> \<exists>es'. prepare_all n ss es = (Prepared, es') \<and> (\<forall>b \<in> set es'. b)"
proof (induction ss arbitrary: n es)
  case (Cons s ss)
  then show ?case by (cases es) auto
qed auto

lemma db_initialize_ok:
  assumes "\<forall>b \<in> set (prep_evs dbc). b" and "coll_tab dbc = NoTab" "obj_tab dbc = NoTab" "attr_tab dbc = NoTab"
  obtains es where "db_initialize dbc = Some (OSD_OK, dbc\<lparr>coll_tab := Prepared, obj_tab := Prepared,
    attr_tab := Prepared, prep_evs := es\<rparr>)" and "\<forall>b \<in> set es. b"
proof -
  obtain e1 where e1: "prepare_all 0 coll_sql (prep_evs dbc) = (Prepared, e1)" "\<forall>b \<in> set e1. b"
    using prepare_all_ok [OF assms(1)] by blast
  obtain e2 where e2: "prepare_all 0 obj_sql e1 = (Prepared, e2)" "\<forall>b \<in> set e2. b"
    using prepare_all_ok [OF e1(2)] by blast
  obtain e3 where e3: "prepare_all 0 attr_sql e2 = (Prepared, e3)" "\<forall>b \<in> set e3. b"
    using prepare_all_ok [OF e2(2)] by blast
  have "db_initialize dbc = Some (OSD_OK, dbc\<lparr>coll_tab := Prepared, obj_tab := Prepared,
    attr_tab := Prepared, prep_evs := e3\<rparr>)"
    using assms(2-4) e1(1) e2(1) e3(1)
    by (simp add: db_initialize_def coll_initialize_def obj_initialize_def attr_initialize_def)
  then show ?thesis using e3(2) by (rule that)
qed

lemma db_finalize_ok:
  assumes "coll_tab dbc = Prepared" "obj_tab dbc = Prepared" "attr_tab dbc = Prepared"
  shows "db_finalize dbc = Some (OSD_OK, dbc\<lparr>coll_tab := NoTab, obj_tab := NoTab, attr_tab := NoTab\<rparr>)"
  using assms
  by (simp add: db_finalize_def coll_finalize_def obj_finalize_def attr_finalize_def finalize_tab_def osd_consts)

lemma db_reset_stmt_unbound [simp]: "db_reset_stmt dbc False code = Some (OSD_ERROR, dbc)"
  by (simp add: db_reset_stmt_def)

text \<open>Resetting a statement: only a schema change touches the context.\<close>

lemma db_reset_stmt_ok:
  assumes "db_good dbc"
  obtains ret dbc' where "db_reset_stmt dbc bound code = Some (ret, dbc')" and "db_good dbc'"
    and "tabs dbc' = tabs dbc" and "step_evs dbc' = step_evs dbc" and "db_frame dbc dbc'"
    and "ret = (if \<not> bound then OSD_ERROR else if sqlite3_reset code = SQLITE_OK then OSD_OK
      else if sqlite3_reset code = SQLITE_SCHEMA then OSD_REPEAT else OSD_ERROR)"
proof (cases "bound \<and> sqlite3_reset code = SQLITE_SCHEMA")
  case True
  have t: "coll_tab dbc = Prepared" "obj_tab dbc = Prepared" "attr_tab dbc = Prepared"
    "\<forall>b \<in> set (prep_evs dbc). b"
    using assms unfolding db_good_def by blast+
  let ?d = "dbc\<lparr>coll_tab := NoTab, obj_tab := NoTab, attr_tab := NoTab\<rparr>"
  obtain es where es: "db_initialize ?d = Some (OSD_OK, ?d\<lparr>coll_tab := Prepared, obj_tab := Prepared,
    attr_tab := Prepared, prep_evs := es\<rparr>)" "\<forall>b \<in> set es. b"
    using db_initialize_ok [of ?d] t by auto
  then show ?thesis
    using True db_finalize_ok [OF t(1-3)]
    by (intro that [of OSD_REPEAT "?d\<lparr>coll_tab := Prepared, obj_tab := Prepared,
      attr_tab := Prepared, prep_evs := es\<rparr>"])
      (simp_all add: db_reset_stmt_def db_good_def db_frame_def)
next
  case False
  then show ?thesis
    using assms
    by (intro that [of "if \<not> bound then OSD_ERROR else if sqlite3_reset code = SQLITE_OK then OSD_OK
      else OSD_ERROR" dbc]) (auto simp: db_reset_stmt_def Let_def)
qed

section \<open>The contract of a statement runner\<close>

text \<open>
  What the tables' operations rely on: a statement either takes effect exactly once and reports
  success, or it reports an error and changes nothing.
\<close>

locale stmt_runner =
  fixes run :: "(tables \<Rightarrow> tables option) \<Rightarrow> 'd \<Rightarrow> (int \<times> 'd) option"
    and view :: "'d \<Rightarrow> tables"
    and good :: "'d \<Rightarrow> bool"
    and frame :: "'d \<Rightarrow> 'd \<Rightarrow> bool"
  assumes run_total: "good d \<Longrightarrow> \<exists>ret d'. run eff d = Some (ret, d') \<and> good d' \<and> frame d d' \<and>
    (ret = OSD_OK \<and> eff (view d) = Some (view d') \<or> ret = OSD_ERROR \<and> view d' = view d)"
begin

lemma run_cases:
  assumes "good d"
  obtains (succeeded) d' where "run eff d = Some (OSD_OK, d')" "eff (view d) = Some (view d')" "good d'" "frame d d'"
    | (failed) d' where "run eff d = Some (OSD_ERROR, d')" "view d' = view d" "good d'" "frame d d'"
  using run_total [OF assms, of eff] by blast

lemma run_invariant:
  assumes "good d" and "P (view d)" and "\<And>t t'. P t \<Longrightarrow> eff t = Some t' \<Longrightarrow> P t'"
  shows "\<exists>ret d'. run eff d = Some (ret, d') \<and> good d' \<and> P (view d')"
  using assms run_cases [OF assms(1), of eff] by metis

lemma run_conflict:
  assumes "good d" and "eff (view d) = None"
  shows "\<exists>d'. run eff d = Some (OSD_ERROR, d') \<and> view d' = view d"
  using assms run_cases [OF assms(1), of eff] by (metis option.distinct(1))

end

lemma goto_repeat_unfold:
  "goto_repeat body out dbc = do {
     (ret, out', dbc') \<leftarrow> body out dbc;
     if ret = OSD_REPEAT then goto_repeat body out' dbc' else Some (ret, out', dbc') }"
  by (rule goto_repeat.simps)

text \<open>The loop ends: every repetition has used up a scheduled schema change.\<close>

lemma goto_repeat_rule:
  assumes "Inv out dbc"
    and "\<And>out dbc. Inv out dbc \<Longrightarrow> \<exists>ret out' dbc'. body out dbc = Some (ret, out', dbc') \<and>
      (if ret = OSD_REPEAT then Inv out' dbc' \<and> length (step_evs dbc') < length (step_evs dbc)
       else Q ret out' dbc')"
  shows "\<exists>ret out' dbc'. goto_repeat body out dbc = Some (ret, out', dbc') \<and> Q ret out' dbc'"
  using assms(1)
proof (induction "length (step_evs dbc)" arbitrary: out dbc rule: less_induct)
  case less
  obtain ret out' dbc' where b: "body out dbc = Some (ret, out', dbc')"
    and r: "if ret = OSD_REPEAT then Inv out' dbc' \<and> length (step_evs dbc') < length (step_evs dbc)
       else Q ret out' dbc'"
    using assms(2) [OF less.prems] by blast
  show ?case
  proof (cases "ret = OSD_REPEAT")
    case True
    with r less.hyps show ?thesis
      by (subst goto_repeat_unfold) (simp add: b)
  next
    case False
    with r show ?thesis by (subst goto_repeat_unfold) (simp add: b)
  qed
qed

lemma codes_distinct [simp]:
  "OSD_OK \<noteq> OSD_ERROR" "OSD_ERROR \<noteq> OSD_OK" "OSD_OK \<noteq> OSD_REPEAT" "OSD_REPEAT \<noteq> OSD_OK"
  "OSD_ERROR \<noteq> OSD_REPEAT" "OSD_REPEAT \<noteq> OSD_ERROR"
  by (simp_all add: osd_consts)

lemma sq_bind_frame:
  assumes "sq_bind dbc = (ok, d)"
  shows "db_good d = db_good dbc" "db_frame dbc d" "tabs d = tabs dbc" "step_evs d = step_evs dbc"
    "db_clean dbc \<Longrightarrow> ok"
  using assms
  by (cases "bind_evs dbc"; auto simp: sq_bind_def db_good_def db_frame_def db_clean_def)+

text \<open>One execution of a data manipulation statement.\<close>

lemma db_exec_dms_ok:
  assumes "db_good dbc"
  obtains ret dbc' where "db_exec_dms dbc eff bound = Some (ret, dbc')" and "db_good dbc'"
    and "db_frame dbc dbc'"
    and "ret = OSD_OK \<and> eff (tabs dbc) = Some (tabs dbc') \<or>
      ret = OSD_ERROR \<and> tabs dbc' = tabs dbc \<and> (bound \<and> db_clean dbc \<longrightarrow> eff (tabs dbc) = None) \<or>
      ret = OSD_REPEAT \<and> tabs dbc' = tabs dbc \<and> length (step_evs dbc') < length (step_evs dbc)"
proof (cases bound)
  case False
  with assms show ?thesis by (intro that [of OSD_ERROR dbc]) (simp_all add: db_exec_dms_def)
next
  case True
  obtain ev es where w: "busy_wait (step_evs dbc) = (ev, es)" by (cases "busy_wait (step_evs dbc)")
  note wp = busy_wait_props [OF w]
  obtain code d where st: "sq_step_dms eff dbc = (code, d)" by (cases "sq_step_dms eff dbc")
  have d: "db_good d" "db_frame dbc d" "step_evs d = es"
    using st w wp assms
    by (auto simp: sq_step_dms_def db_good_def db_frame_def Let_def split: sq_event.splits option.splits)
  obtain ret d' where r: "db_reset_stmt d True code = Some (ret, d')" "db_good d'" "tabs d' = tabs d"
    "step_evs d' = step_evs d" "db_frame d d'"
    "ret = (if \<not> True then OSD_ERROR else if sqlite3_reset code = SQLITE_OK then OSD_OK
      else if sqlite3_reset code = SQLITE_SCHEMA then OSD_REPEAT else OSD_ERROR)"
    by (rule db_reset_stmt_ok [OF d(1)])
  show ?thesis
  proof (rule that [of ret d'])
    show "db_exec_dms dbc eff bound = Some (ret, d')"
      using True st r(1) by (simp add: db_exec_dms_def)
    show "db_frame dbc d'" using d(2) r(5) by (rule db_frame_trans)
    show "ret = OSD_OK \<and> eff (tabs dbc) = Some (tabs d') \<or>
      ret = OSD_ERROR \<and> tabs d' = tabs dbc \<and> (bound \<and> db_clean dbc \<longrightarrow> eff (tabs dbc) = None) \<or>
      ret = OSD_REPEAT \<and> tabs d' = tabs dbc \<and> length (step_evs d') < length (step_evs dbc)"
      using st w wp r(3,4,6) d(3)
      by (auto simp: sq_step_dms_def Let_def sqlite3_reset_def db_clean_def
          split: sq_event.splits option.splits if_splits)
  qed (fact r(2))
qed

lemma run_dms_ok:
  assumes "db_good dbc"
  shows "\<exists>ret dbc'. run_dms eff dbc = Some (ret, dbc') \<and> db_good dbc' \<and> db_frame dbc dbc' \<and>
    (ret = OSD_OK \<and> eff (tabs dbc) = Some (tabs dbc') \<or>
     ret = OSD_ERROR \<and> tabs dbc' = tabs dbc \<and> (db_clean dbc \<longrightarrow> eff (tabs dbc) = None))"
proof -
  let ?body = "\<lambda>(_::unit) dbc. do { let (bound, dbc) = sq_bind dbc;
        (ret, dbc) \<leftarrow> db_exec_dms dbc eff bound; Some (ret, (), dbc) }"
  let ?Inv = "\<lambda>(_::unit) d. db_good d \<and> db_frame dbc d \<and> tabs d = tabs dbc"
  let ?Q = "\<lambda>ret (_::unit) d. db_good d \<and> db_frame dbc d \<and>
    (ret = OSD_OK \<and> eff (tabs dbc) = Some (tabs d) \<or>
     ret = OSD_ERROR \<and> tabs d = tabs dbc \<and> (db_clean dbc \<longrightarrow> eff (tabs dbc) = None))"
  have "\<exists>ret u d'. goto_repeat ?body () dbc = Some (ret, u, d') \<and> ?Q ret u d'"
  proof (rule goto_repeat_rule [where Inv = ?Inv])
    fix u :: unit and d assume inv: "?Inv u d"
    obtain ok d1 where b: "sq_bind d = (ok, d1)" by (cases "sq_bind d")
    note bf = sq_bind_frame [OF b]
    obtain ret d2 where e: "db_exec_dms d1 eff ok = Some (ret, d2)" "db_good d2" "db_frame d1 d2"
      "ret = OSD_OK \<and> eff (tabs d1) = Some (tabs d2) \<or>
      ret = OSD_ERROR \<and> tabs d2 = tabs d1 \<and> (ok \<and> db_clean d1 \<longrightarrow> eff (tabs d1) = None) \<or>
      ret = OSD_REPEAT \<and> tabs d2 = tabs d1 \<and> length (step_evs d2) < length (step_evs d1)"
      using db_exec_dms_ok [of d1 eff ok] inv bf(1) by blast
    have fr: "db_frame dbc d2" using inv bf(2) e(3) by (blast intro: db_frame_trans)
    have cl: "db_clean dbc \<Longrightarrow> ok \<and> db_clean d1"
      using inv bf(2,5) by (blast dest: db_frame_clean)
    show "\<exists>ret out' dbc'. ?body u d = Some (ret, out', dbc') \<and>
      (if ret = OSD_REPEAT then ?Inv out' dbc' \<and> length (step_evs dbc') < length (step_evs d)
       else ?Q ret out' dbc')"
      using e(1,2,4) fr cl inv bf(3,4) by (auto simp: b)
  qed (use assms in simp)
  then show ?thesis by (auto simp: run_dms_def)
qed

interpretation sql: stmt_runner run_dms tabs db_good db_frame
  by unfold_locales (use run_dms_ok in blast)

text \<open>A query for one row.\<close>

text \<open>One step of a query and the reset after it.\<close>

lemma query_once_ok:
  assumes good: "db_good d" and col: "rows = [] \<or> column out (hd rows) \<noteq> None"
  shows "\<exists>ret out' d'. query_once rows column out d = Some (ret, out', d') \<and> db_good d' \<and> db_frame d d' \<and> tabs d' = tabs d \<and>
    (ret = OSD_OK \<and> Some out' = (case rows of [] \<Rightarrow> Some out | r # _ \<Rightarrow> column out r) \<or>
     ret = OSD_ERROR \<and> out' = out \<and> \<not> db_clean d \<or>
     ret = OSD_REPEAT \<and> out' = out \<and> length (step_evs d') < length (step_evs d))"
proof -
  obtain ev es where w: "busy_wait (step_evs d) = (ev, es)" by (cases "busy_wait (step_evs d)")
  note wp = busy_wait_props [OF w]
  let ?d2 = "d\<lparr>step_evs := es\<rparr>"
  define code where "code = (case ev of EvOk \<Rightarrow> (if rows = [] then SQLITE_DONE else SQLITE_ROW)
    | EvSchema \<Rightarrow> SQLITE_SCHEMA | _ \<Rightarrow> SQLITE_ERROR)"
  have st: "sq_step_row rows d = (code, ?d2)"
    using w by (simp add: sq_step_row_def code_def split: sq_event.splits)
  have g2: "db_good ?d2" "db_frame d ?d2"
    using good wp by (auto simp: db_good_def db_frame_def)
  obtain o2 where o2: "(if code = SQLITE_ROW then column out (hd rows) else Some out) = Some o2"
  proof (cases "code = SQLITE_ROW")
    case True
    then obtain r rs where "rows = r # rs"
      by (cases rows) (simp_all add: code_def split: sq_event.splits if_splits)
    with True col that show ?thesis by auto
  qed (use that in simp)
  obtain ret d3 where r: "db_reset_stmt ?d2 True code = Some (ret, d3)" "db_good d3"
    "tabs d3 = tabs ?d2" "step_evs d3 = step_evs ?d2" "db_frame ?d2 d3"
    "ret = (if \<not> True then OSD_ERROR else if sqlite3_reset code = SQLITE_OK then OSD_OK
      else if sqlite3_reset code = SQLITE_SCHEMA then OSD_REPEAT else OSD_ERROR)"
    by (rule db_reset_stmt_ok [OF g2(1)])
  have body: "query_once rows column out d = Some (ret, o2, d3)"
    using st o2 r(1) by (simp add: query_once_def split: if_splits)
  have fr: "db_frame d d3" using g2(2) r(5) by (blast intro: db_frame_trans)
  have err: "ev = EvError \<Longrightarrow> \<not> db_clean d" using wp by (auto simp: db_clean_def)
  show ?thesis
    unfolding body using r fr wp o2 err
    by (cases rows) (auto simp: code_def sqlite3_reset_def split: sq_event.splits if_splits)
qed

lemma run_query_ok:
  assumes good: "db_good dbc"
    and col: "\<And>r rs. query (tabs dbc) = r # rs \<Longrightarrow> column out r \<noteq> None"
  shows "\<exists>ret out' dbc'. run_query query column out dbc = Some (ret, out', dbc') \<and> db_good dbc' \<and>
    db_frame dbc dbc' \<and> tabs dbc' = tabs dbc \<and>
    (ret = OSD_OK \<and> Some out' = (case query (tabs dbc) of [] \<Rightarrow> Some out | r # _ \<Rightarrow> column out r) \<or>
     ret = OSD_ERROR \<and> out' = out \<and> \<not> db_clean dbc)"
proof -
  let ?body = "\<lambda>out dbc. do {
     let (bound, dbc) = sq_bind dbc;
     if \<not> bound then do {
       (ret, dbc) \<leftarrow> db_reset_stmt dbc bound SQLITE_OK;
       Some (ret, out, dbc) }
     else query_once (query (tabs dbc)) column out dbc }"
  let ?Inv = "\<lambda>o' d. db_good d \<and> db_frame dbc d \<and> tabs d = tabs dbc \<and> o' = out"
  let ?Q = "\<lambda>ret o' d. db_good d \<and> db_frame dbc d \<and> tabs d = tabs dbc \<and>
    (ret = OSD_OK \<and> Some o' = (case query (tabs dbc) of [] \<Rightarrow> Some out | r # _ \<Rightarrow> column out r) \<or>
     ret = OSD_ERROR \<and> o' = out \<and> \<not> db_clean dbc)"
  have "\<exists>ret o' d'. goto_repeat ?body out dbc = Some (ret, o', d') \<and> ?Q ret o' d'"
  proof (rule goto_repeat_rule [where Inv = ?Inv])
    fix o' d assume inv: "?Inv o' d"
    obtain ok d1 where b: "sq_bind d = (ok, d1)" by (cases "sq_bind d")
    note bf = sq_bind_frame [OF b]
    have g1: "db_good d1" and t1: "tabs d1 = tabs dbc" and f1: "db_frame dbc d1"
      using inv bf by (auto intro: db_frame_trans)
    show "\<exists>ret out' dbc'. ?body o' d = Some (ret, out', dbc') \<and>
      (if ret = OSD_REPEAT then ?Inv out' dbc' \<and> length (step_evs dbc') < length (step_evs d)
       else ?Q ret out' dbc')"
    proof (cases ok)
      case False
      have nc: "\<not> db_clean dbc"
        using False bf(5) inv by (blast dest: db_frame_clean)
      then show ?thesis
        using False inv g1 t1 f1 nc by (auto simp: b intro: db_frame_trans)
    next
      case True
      have col': "query (tabs dbc) = [] \<or> column out (hd (query (tabs dbc))) \<noteq> None"
        using col by (cases "query (tabs dbc)") auto
      obtain ret o2 d3 where q: "query_once (query (tabs dbc)) column out d1 = Some (ret, o2, d3)"
        "db_good d3" "db_frame d1 d3" "tabs d3 = tabs d1"
        "ret = OSD_OK \<and> Some o2 = (case query (tabs dbc) of [] \<Rightarrow> Some out | r # _ \<Rightarrow> column out r) \<or>
         ret = OSD_ERROR \<and> o2 = out \<and> \<not> db_clean d1 \<or>
         ret = OSD_REPEAT \<and> o2 = out \<and> length (step_evs d3) < length (step_evs d1)"
        using query_once_ok [where rows = "query (tabs dbc)" and column = column and out = out, OF g1 col'] by blast
      have body: "?body o' d = Some (ret, o2, d3)"
        using True inv q(1) by (simp add: b t1 Let_def)
      have "db_frame dbc d3" using f1 q(3) by (rule db_frame_trans)
      moreover have "\<not> db_clean d1 \<Longrightarrow> \<not> db_clean dbc" using f1 by (blast dest: db_frame_clean)
      ultimately show ?thesis
        unfolding body using q(2,4,5) t1 bf(4) by auto
    qed
  qed (use good in simp)
  then show ?thesis by (auto simp: run_query_def)
qed

section \<open>Identifier queries\<close>

text \<open>The identifiers as they are laid out in the answer, and the one to continue from.\<close>

definition id_bytes :: "int list \<Rightarrow> bytes" where
  "id_bytes xs = concat (map (\<lambda>x. store_be64 (word_of_int x)) xs)"

definition first_id :: "int list \<Rightarrow> u64" where
  "first_id xs = (case filter (\<lambda>x. word_of_int x \<noteq> (0 :: u64)) xs of [] \<Rightarrow> 0 | x # _ \<Rightarrow> word_of_int x)"

lemma id_bytes_length [simp]: "length (id_bytes xs) = 8 * length xs"
  by (induction xs) (simp_all add: id_bytes_def)

lemma id_bytes_Cons: "id_bytes (x # xs) = store_be64 (word_of_int x) @ id_bytes xs"
  by (simp add: id_bytes_def)

lemma unat_u64_less: "unat (w :: u64) < 2 ^ 64"
  using unsigned_less [of w, where ?'a = nat] by simp

declare id_rtrvl_loop.simps [simp del]

text \<open>How the loop may end: with all rows, or at a scheduled schema change or error.\<close>

definition rtrvl_end :: "sq_event list \<Rightarrow> sq_event list \<Rightarrow> sq_code \<Rightarrow> bool \<Rightarrow> bool" where
  "rtrvl_end evs evs' code all_rows \<longleftrightarrow> set evs' \<subseteq> set evs \<and>
     (code = SQLITE_DONE \<and> all_rows \<or> code = SQLITE_SCHEMA \<and> length evs' < length evs \<or>
      code = SQLITE_ERROR \<and> EvError \<in> set evs)"

lemma rtrvl_end_mono:
  "rtrvl_end evs1 evs' code a \<Longrightarrow> set evs1 \<subseteq> set evs \<Longrightarrow> length evs1 \<le> length evs \<Longrightarrow> (a \<Longrightarrow> b)
    \<Longrightarrow> rtrvl_end evs evs' code b"
  unfolding rtrvl_end_def by (meson less_le_trans subsetD subset_trans)

lemma id_rtrvl_loop_spec:
  assumes "unat len \<le> unat alloc_len" and "outdata + (unat alloc_len - unat len) \<le> length m"
    and "unat add_len + 8 * length rows < 2 ^ 64"
  defines "room \<equiv> (unat alloc_len - unat len) div 8"
  obtains code evs' m' len' add' cont' where
    "id_rtrvl_loop rows evs alloc_len m outdata len add_len cont_id = Some (code, evs', m', len', add', cont')"
    and "length m' = length m"
    and "rtrvl_end evs evs' code
      (buf_put m outdata (id_bytes (take room rows)) = Some m' \<and>
       unat len' = unat len + 8 * min room (length rows) \<and> unat add' = unat add_len + 8 * length rows \<and>
       cont' = (if cont_id \<noteq> 0 then cont_id else first_id (drop room rows)))"
  using assms(1-3) unfolding room_def
proof (induction "length rows + length evs" arbitrary: rows evs m outdata len add_len cont_id thesis rule: less_induct)
  case less
  let ?room = "(unat alloc_len - unat len) div 8"
  obtain ev evs1 where ev: "next_event EvOk evs = (ev, evs1)" by (cases "next_event EvOk evs")
  have sub: "set evs1 \<subseteq> set evs" "length evs1 \<le> length evs" "ev \<noteq> EvOk \<Longrightarrow> ev \<in> set evs \<and> length evs1 < length evs"
    using ev by (cases evs; auto)+
  show ?case
  proof (cases ev)
    case EvBusy
    then have "evs \<noteq> []" using sub by auto
    have step: "id_rtrvl_loop rows evs alloc_len m outdata len add_len cont_id
        = id_rtrvl_loop rows evs1 alloc_len m outdata len add_len cont_id"
      using ev EvBusy \<open>evs \<noteq> []\<close> by (subst id_rtrvl_loop.simps) simp
    show ?thesis
      by (rule less.hyps [where rows = "rows" and evs = "evs1" and len = "len" and outdata = "outdata" and m = "m" and add_len = "add_len" and cont_id = "cont_id"])
        (use less.prems sub EvBusy step rtrvl_end_mono [OF _ sub(1,2)] in \<open>auto\<close>)
  next
    case EvSchema
    then show ?thesis
      using ev sub by (intro less.prems(1)) (subst id_rtrvl_loop.simps, auto simp: rtrvl_end_def)
  next
    case EvError
    then show ?thesis
      using ev sub by (intro less.prems(1)) (subst id_rtrvl_loop.simps, auto simp: rtrvl_end_def)
  next
    case EvOk
    show ?thesis
    proof (cases rows)
      case Nil
      have "id_rtrvl_loop rows evs alloc_len m outdata len add_len cont_id
          = Some (SQLITE_DONE, evs1, m, len, add_len, cont_id)"
        using ev EvOk Nil by (subst id_rtrvl_loop.simps) simp
      then show ?thesis
        by (rule less.prems(1))
          (use sub less.prems(3) Nil in \<open>simp_all add: rtrvl_end_def first_id_def id_bytes_def buf_put_def\<close>)
    next
      case (Cons x rows1)
      have add8: "unat (add_len + 8) = unat add_len + 8"
        using less.prems(4) Cons by (simp add: unat_word_ariths)
      then have no_over: "add_len + 8 > add_len" by (simp add: word_less_nat_alt)
      have sub_len: "unat (alloc_len - len) = unat alloc_len - unat len"
        using less.prems(2) by (simp add: unat_sub word_le_nat_alt)
      show ?thesis
      proof (cases "unat alloc_len - unat len \<ge> 8")
        case True
        have fit: "outdata + 8 \<le> length m" using less.prems(3) True by simp
        obtain m1 where m1: "set_htonll m outdata (word_of_int x) = Some m1" "length m1 = length m"
          by (rule ntohll.set_obtain [OF fit])
        have len8: "unat (len + 8) = unat len + 8"
          using True unat_u64_less [of alloc_len] by (simp add: unat_word_ariths)
        have room: "?room = Suc ((unat alloc_len - unat (len + 8)) div 8)"
        proof -
          have "unat alloc_len - unat len = 8 + (unat alloc_len - (unat len + 8))" using True by simp
          then have "?room = (8 + (unat alloc_len - (unat len + 8))) div 8"
            by (rule arg_cong [where f = "\<lambda>n. n div 8"])
          also have "\<dots> = Suc ((unat alloc_len - (unat len + 8)) div 8)" by simp
          finally show ?thesis unfolding len8 .
        qed
        have step: "id_rtrvl_loop rows evs alloc_len m outdata len add_len cont_id
            = id_rtrvl_loop rows1 evs1 alloc_len m1 (outdata + 8) (len + 8) (add_len + 8) cont_id"
          using ev EvOk Cons True m1(1) no_over sub_len
          by (subst id_rtrvl_loop.simps) (simp add: word_le_nat_alt)
        show ?thesis
        proof (rule less.hyps [where rows = "rows1" and evs = "evs1" and len = "len + 8" and outdata = "outdata + 8" and m = "m1" and add_len = "add_len + 8" and cont_id = "cont_id"])
          fix code evs' m' len' add' cont'
          assume r: "id_rtrvl_loop rows1 evs1 alloc_len m1 (outdata + 8) (len + 8) (add_len + 8) cont_id
              = Some (code, evs', m', len', add', cont')"
            "length m' = length m1"
            and e: "rtrvl_end evs1 evs' code
             (buf_put m1 (outdata + 8) (id_bytes (take ((unat alloc_len - unat (len + 8)) div 8) rows1)) = Some m' \<and>
              unat len' = unat (len + 8) + 8 * min ((unat alloc_len - unat (len + 8)) div 8) (length rows1) \<and>
              unat add' = unat (add_len + 8) + 8 * length rows1 \<and>
              cont' = (if cont_id \<noteq> 0 then cont_id
                else first_id (drop ((unat alloc_len - unat (len + 8)) div 8) rows1)))"
          show thesis
          proof (rule less.prems(1))
            show "id_rtrvl_loop rows evs alloc_len m outdata len add_len cont_id
              = Some (code, evs', m', len', add', cont')" unfolding step by (rule r(1))
            show "length m' = length m" using r(2) m1(2) by simp
            show "rtrvl_end evs evs' code (buf_put m outdata (id_bytes (take ?room rows)) = Some m' \<and>
              unat len' = unat len + 8 * min ?room (length rows) \<and>
              unat add' = unat add_len + 8 * length rows \<and>
              cont' = (if cont_id \<noteq> 0 then cont_id else first_id (drop ?room rows)))"
              unfolding room Cons
              by (rule rtrvl_end_mono [OF e sub(1,2)])
                (use m1(1) in \<open>simp add: id_bytes_Cons buf_put_append ntohll.setv_eq add8 len8\<close>)
          qed
        qed (use less.prems sub(2) Cons True m1(2) in \<open>auto simp: len8 add8\<close>)
      next
        case False
        have room: "?room = 0" using False by simp
        let ?c = "if cont_id = 0 then word_of_int x else cont_id"
        have step: "id_rtrvl_loop rows evs alloc_len m outdata len add_len cont_id
            = id_rtrvl_loop rows1 evs1 alloc_len m outdata len (add_len + 8) ?c"
          using ev EvOk Cons False no_over sub_len
          by (subst id_rtrvl_loop.simps) (simp add: word_le_nat_alt)
        have c: "(if ?c \<noteq> 0 then ?c else first_id rows1) = (if cont_id \<noteq> 0 then cont_id else first_id rows)"
          by (simp add: Cons first_id_def)
        show ?thesis
        proof (rule less.hyps [where rows = "rows1" and evs = "evs1" and len = "len" and outdata = "outdata" and m = "m" and add_len = "add_len + 8" and cont_id = "?c"])
          fix code evs' m' len' add' cont'
          assume r: "id_rtrvl_loop rows1 evs1 alloc_len m outdata len (add_len + 8) ?c
              = Some (code, evs', m', len', add', cont')" "length m' = length m"
            and e: "rtrvl_end evs1 evs' code (buf_put m outdata (id_bytes (take ?room rows1)) = Some m' \<and>
              unat len' = unat len + 8 * min ?room (length rows1) \<and>
              unat add' = unat (add_len + 8) + 8 * length rows1 \<and>
              cont' = (if ?c \<noteq> 0 then ?c else first_id (drop ?room rows1)))"
          show thesis
          proof (rule less.prems(1))
            show "id_rtrvl_loop rows evs alloc_len m outdata len add_len cont_id
              = Some (code, evs', m', len', add', cont')" unfolding step by (rule r(1))
            show "rtrvl_end evs evs' code (buf_put m outdata (id_bytes (take ?room rows)) = Some m' \<and>
              unat len' = unat len + 8 * min ?room (length rows) \<and>
              unat add' = unat add_len + 8 * length rows \<and>
              cont' = (if cont_id \<noteq> 0 then cont_id else first_id (drop ?room rows)))"
              by (rule rtrvl_end_mono [OF e sub(1,2)])
                (use c room Cons in \<open>auto simp: id_bytes_def add8 first_id_def\<close>)
          qed (fact r(2))
        qed (use less.prems sub(2) Cons in \<open>auto simp: add8\<close>)
      qed
    qed
  qed
qed

text \<open>What a complete identifier listing of \<open>ids\<close> leaves in the output parameters.\<close>

definition listed :: "int list \<Rightarrow> u64 \<Rightarrow> bytes \<Rightarrow> nat \<Rightarrow> bytes \<times> u64 \<times> u64 \<times> u64 \<Rightarrow> bool" where
  "listed ids alloc_len m outdata = (\<lambda>(m', used, add_len, cont_id).
     buf_put m outdata (id_bytes (take (unat alloc_len div 8) ids)) = Some m' \<and>
     unat used = 8 * min (unat alloc_len div 8) (length ids) \<and>
     unat add_len = 8 * length ids \<and> cont_id = first_id (drop (unat alloc_len div 8) ids))"

lemma scan_length: "engine_ok dbc \<Longrightarrow> length (scan_ids dbc xs) = length xs"
  unfolding engine_ok_def by (metis size_mset)

lemma db_exec_id_rtrvl_ok:
  assumes good: "db_good dbc" and eng: "engine_ok dbc"
    and room: "outdata + unat alloc_len \<le> length m" and few: "8 * length rows < 2 ^ 64"
  obtains ret o' dbc' where
    "db_exec_id_rtrvl_stmt dbc rows bound alloc_len m outdata outs = Some (ret, o', dbc')"
    and "db_good dbc'" and "db_frame dbc dbc'" and "tabs dbc' = tabs dbc"
    and "length (fst o') = length m"
    and "ret = OSD_OK \<and> listed (scan_ids dbc rows) alloc_len m outdata o' \<or>
      ret = OSD_ERROR \<and> \<not> (bound \<and> db_clean dbc) \<or>
      ret = OSD_REPEAT \<and> length (step_evs dbc') < length (step_evs dbc)"
proof (cases bound)
  case False
  with good show ?thesis
    by (intro that [of OSD_ERROR "(m, outs)" dbc]) (simp_all add: db_exec_id_rtrvl_stmt_def)
next
  case True
  have pre: "unat (0::u64) \<le> unat alloc_len" "outdata + (unat alloc_len - unat (0::u64)) \<le> length m"
    "unat (0::u64) + 8 * length (scan_ids dbc rows) < 2 ^ 64"
    using room few scan_length [OF eng] by simp_all
  obtain code evs m' len add_len cont_id where l:
    "id_rtrvl_loop (scan_ids dbc rows) (step_evs dbc) alloc_len m outdata 0 0 0
      = Some (code, evs, m', len, add_len, cont_id)" "length m' = length m"
    and e: "rtrvl_end (step_evs dbc) evs code
      (buf_put m outdata (id_bytes (take ((unat alloc_len - unat (0::u64)) div 8) (scan_ids dbc rows))) = Some m' \<and>
       unat len = unat (0::u64) + 8 * min ((unat alloc_len - unat (0::u64)) div 8) (length (scan_ids dbc rows)) \<and>
       unat add_len = unat (0::u64) + 8 * length (scan_ids dbc rows) \<and>
       cont_id = (if (0::u64) \<noteq> 0 then 0 else first_id (drop ((unat alloc_len - unat (0::u64)) div 8) (scan_ids dbc rows))))"
    by (rule id_rtrvl_loop_spec [OF pre])
  let ?d = "dbc\<lparr>step_evs := evs\<rparr>"
  have g: "db_good ?d" "db_frame dbc ?d"
    using good e by (auto simp: db_good_def db_frame_def rtrvl_end_def)
  obtain ret d' where r: "db_reset_stmt ?d True code = Some (ret, d')" "db_good d'" "tabs d' = tabs ?d"
    "step_evs d' = step_evs ?d" "db_frame ?d d'"
    "ret = (if \<not> True then OSD_ERROR else if sqlite3_reset code = SQLITE_OK then OSD_OK
      else if sqlite3_reset code = SQLITE_SCHEMA then OSD_REPEAT else OSD_ERROR)"
    by (rule db_reset_stmt_ok [OF g(1)])
  let ?o = "(m', if ret = OSD_OK then len else 0, add_len, cont_id)"
  show ?thesis
  proof (rule that [of ret ?o d'])
    show "db_exec_id_rtrvl_stmt dbc rows bound alloc_len m outdata outs = Some (ret, ?o, d')"
      using True l(1) r(1) by (simp add: db_exec_id_rtrvl_stmt_def)
    show "db_frame dbc d'" using g(2) r(5) by (rule db_frame_trans)
    show "ret = OSD_OK \<and> listed (scan_ids dbc rows) alloc_len m outdata ?o \<or>
      ret = OSD_ERROR \<and> \<not> (bound \<and> db_clean dbc) \<or>
      ret = OSD_REPEAT \<and> length (step_evs d') < length (step_evs dbc)"
      using e r(4,6)
      by (auto simp: rtrvl_end_def sqlite3_reset_def listed_def db_clean_def)
  qed (use r l(2) in simp_all)
qed

lemma buf_put_same:
  assumes "length m1 = length m" shows "buf_put m1 off bs = Some m' \<Longrightarrow> length m' = length m"
  using assms by (simp add: buf_put_length)

text \<open>
  The whole retrieval. A schema change in the middle of the rows makes the loop start over, on the
  buffer the first attempt has already written to.
\<close>

lemma run_ids_ok:
  assumes good: "db_good dbc" and eng: "engine_ok dbc"
    and room: "outdata + unat alloc_len \<le> length m" and few: "8 * length (query (tabs dbc)) < 2 ^ 64"
  shows "\<exists>ret o' dbc'. run_ids query alloc_len outdata (m, outs) dbc = Some (ret, o', dbc') \<and>
    db_good dbc' \<and> db_frame dbc dbc' \<and> tabs dbc' = tabs dbc \<and> length (fst o') = length m \<and>
    (ret = OSD_OK \<and> (\<exists>m1. length m1 = length m \<and>
        listed (scan_ids dbc (query (tabs dbc))) alloc_len m1 outdata o') \<or>
     ret = OSD_ERROR \<and> \<not> db_clean dbc)"
proof -
  let ?body = "\<lambda>(m, outs) dbc. do { let (bound, dbc) = sq_bind dbc;
     db_exec_id_rtrvl_stmt dbc (query (tabs dbc)) bound alloc_len m outdata outs }"
  let ?Inv = "\<lambda>o' d. db_good d \<and> db_frame dbc d \<and> tabs d = tabs dbc \<and> length (fst o') = length m"
  let ?Q = "\<lambda>ret o' d. db_good d \<and> db_frame dbc d \<and> tabs d = tabs dbc \<and> length (fst o') = length m \<and>
    (ret = OSD_OK \<and> (\<exists>m1. length m1 = length m \<and>
        listed (scan_ids dbc (query (tabs dbc))) alloc_len m1 outdata o') \<or>
     ret = OSD_ERROR \<and> \<not> db_clean dbc)"
  have "\<exists>ret o' d'. goto_repeat ?body (m, outs) dbc = Some (ret, o', d') \<and> ?Q ret o' d'"
  proof (rule goto_repeat_rule [where Inv = ?Inv])
    fix o' :: "bytes \<times> u64 \<times> u64 \<times> u64" and d assume inv: "?Inv o' d"
    obtain m1 os where o': "o' = (m1, os)" by (cases o')
    obtain ok d1 where b: "sq_bind d = (ok, d1)" by (cases "sq_bind d")
    note bf = sq_bind_frame [OF b]
    have g1: "db_good d1" and t1: "tabs d1 = tabs dbc" and f1: "db_frame dbc d1"
      using inv bf by (auto intro: db_frame_trans)
    have e1: "engine_ok d1" and s1: "scan_ids d1 = scan_ids dbc"
      using f1 eng by (simp_all add: db_frame_def engine_ok_def)
    obtain ret o2 d2 where x: "db_exec_id_rtrvl_stmt d1 (query (tabs dbc)) ok alloc_len m1 outdata os
        = Some (ret, o2, d2)" "db_good d2" "db_frame d1 d2" "tabs d2 = tabs d1" "length (fst o2) = length m1"
      "ret = OSD_OK \<and> listed (scan_ids d1 (query (tabs dbc))) alloc_len m1 outdata o2 \<or>
      ret = OSD_ERROR \<and> \<not> (ok \<and> db_clean d1) \<or>
      ret = OSD_REPEAT \<and> length (step_evs d2) < length (step_evs d1)"
    proof (rule db_exec_id_rtrvl_ok [OF g1 e1])
      show "outdata + unat alloc_len \<le> length m1" using room inv o' by simp
    qed (use few in blast)+
    have fr: "db_frame dbc d2" using f1 x(3) by (rule db_frame_trans)
    have cl: "db_clean dbc \<Longrightarrow> ok \<and> db_clean d1"
      using inv f1 bf(5) by (blast dest: db_frame_clean)
    have body: "?body o' d = Some (ret, o2, d2)"
      using x(1) by (simp add: b o' t1)
    show "\<exists>ret out' dbc'. ?body o' d = Some (ret, out', dbc') \<and>
      (if ret = OSD_REPEAT then ?Inv out' dbc' \<and> length (step_evs dbc') < length (step_evs d)
       else ?Q ret out' dbc')"
      unfolding body using x(2,4,5,6) fr cl inv t1 s1 o' bf(4) by fastforce
  qed (use good in simp)
  then show ?thesis by (auto simp: run_ids_def)
qed

section \<open>The constraints of the schema\<close>

lemma insert_row_distinct:
  "distinct (map key t) \<Longrightarrow> insert_row key r t = Some t' \<Longrightarrow> distinct (map key t')"
  by (auto simp: insert_row_def split: if_splits)

lemma delete_rows_distinct: "distinct (map key t) \<Longrightarrow> distinct (map key (delete_rows P t))"
  by (simp add: delete_rows_def distinct_map inj_on_def)

lemma replace_row_distinct: "distinct (map key t) \<Longrightarrow> distinct (map key (replace_row key r t))"
  by (auto simp: replace_row_def distinct_map inj_on_def)

lemma insert_coll_distinct:
  assumes "distinct (map coll_key t)" and "distinct (map coll_slot t)" and "insert_coll r t = Some t'"
  shows "distinct (map coll_key t') \<and> distinct (map coll_slot t')"
  using assms replace_row_distinct [OF assms(2), of r]
  by (auto simp: insert_coll_def replace_row_def distinct_map inj_on_def split: if_splits)
    (metis imageI)

lemma set_insert_row: "insert_row key r t = Some t' \<Longrightarrow> set t' = insert r (set t)"
  by (auto simp: insert_row_def split: if_splits)

lemma set_delete_rows [simp]: "set (delete_rows P t) = {r \<in> set t. \<not> P r}"
  by (auto simp: delete_rows_def)

lemma set_replace_row: "set (replace_row key r t) = insert r {x \<in> set t. key x \<noteq> key r}"
  by (auto simp: replace_row_def)

lemma tables_okD:
  "tables_ok t \<Longrightarrow> distinct (map obj_key (t_obj t))" "tables_ok t \<Longrightarrow> distinct (map attr_key (t_attr t))"
  "tables_ok t \<Longrightarrow> distinct (map coll_key (t_coll t))" "tables_ok t \<Longrightarrow> distinct (map coll_slot (t_coll t))"
  by (simp_all add: tables_ok_def)

section \<open>Properties\<close>

text \<open>
  C10. However often the engine is busy and however often the schema changes under a statement, a
  data manipulation statement returns, and it has taken effect exactly once with \<open>OSD_OK\<close>, or not
  at all with \<open>OSD_ERROR\<close>; without a scheduled error it fails only on a constraint. The statement
  tables are prepared again afterwards.
\<close>

theorem statement_exactly_once:
  assumes "db_good dbc"
  shows "\<exists>ret dbc'. run_dms stmt dbc = Some (ret, dbc') \<and> db_good dbc' \<and>
    (ret = OSD_OK \<and> stmt (tabs dbc) = Some (tabs dbc') \<or>
     ret = OSD_ERROR \<and> tabs dbc' = tabs dbc \<and> (db_clean dbc \<longrightarrow> stmt (tabs dbc) = None))"
  using run_dms_ok [OF assms, of stmt] by blast

definition sample_db :: "sq_event list \<Rightarrow> db_context" where
  "sample_db evs = \<lparr>tabs = \<lparr>t_obj = [], t_attr = [], t_coll = []\<rparr>, coll_tab = Prepared,
     obj_tab = Prepared, attr_tab = Prepared, in_txn = False, step_evs = evs, bind_evs = [],
     prep_evs = [], exec_evs = [], scan_ids = id, scan_attrs = id\<rparr>"

lemma sample_db_good [simp]:
  "db_good (sample_db evs)" "engine_ok (sample_db evs)" "tabs (sample_db evs) = \<lparr>t_obj = [], t_attr = [], t_coll = []\<rparr>"
  "scan_ids (sample_db evs) = id" "scan_attrs (sample_db evs) = id"
  "EvError \<notin> set evs \<Longrightarrow> db_clean (sample_db evs)"
  by (simp_all add: sample_db_def db_good_def engine_ok_def db_clean_def)

theorem statement_exactly_once_witness:
  "\<exists>dbc'. run_dms (\<lambda>t. Some (t\<lparr>t_obj := \<lparr>o_pid = 1, o_oid = 2, o_type = 128\<rparr> # t_obj t\<rparr>))
      (sample_db [EvBusy, EvSchema, EvBusy, EvBusy, EvOk]) = Some (OSD_OK, dbc') \<and>
    \<lparr>t_obj = [\<lparr>o_pid = 1, o_oid = 2, o_type = 128\<rparr>], t_attr = [], t_coll = []\<rparr> = tabs dbc'"
proof -
  have "db_clean (sample_db [EvBusy, EvSchema, EvBusy, EvBusy, EvOk])" by simp
  then show ?thesis
    using statement_exactly_once [of "sample_db [EvBusy, EvSchema, EvBusy, EvBusy, EvOk]"
        "\<lambda>t. Some (t\<lparr>t_obj := \<lparr>o_pid = 1, o_oid = 2, o_type = 128\<rparr> # t_obj t\<rparr>)"]
    by (auto simp del: sample_db_good(6))
qed

text \<open>
  C17. An identifier listing: for a buffer of at least \<open>alloc_len\<close> bytes it never writes beyond the
  buffer; when it succeeds it has written as many identifiers as fit, in the order of the engine,
  as eight-byte big-endian values, \<open>used\<close> counts their bytes, \<open>add_len\<close> the bytes of all of them,
  and the continuation is the first non-zero identifier left out.
\<close>

theorem id_listing_correct:
  assumes "db_good dbc" and "engine_ok dbc" and "outdata + unat alloc_len \<le> length m"
    and "8 * length (query (tabs dbc)) < 2 ^ 64"
  shows "\<exists>ret m' used add_len cont_id dbc'.
    run_ids query alloc_len outdata (m, outs) dbc = Some (ret, (m', used, add_len, cont_id), dbc') \<and>
    tabs dbc' = tabs dbc \<and> length m' = length m \<and> (ret = OSD_OK \<or> ret = OSD_ERROR \<and> \<not> db_clean dbc) \<and>
    (ret = OSD_OK \<longrightarrow> (\<exists>ids. mset ids = mset (query (tabs dbc)) \<and>
       (let k = unat alloc_len div 8 in
        buf_get m' outdata (8 * min k (length ids)) = Some (id_bytes (take k ids)) \<and>
        unat used = 8 * min k (length ids) \<and> unat add_len = 8 * length ids \<and>
        cont_id = first_id (drop k ids))))"
proof -
  obtain ret o' dbc' where r0: "run_ids query alloc_len outdata (m, outs) dbc = Some (ret, o', dbc')"
    "tabs dbc' = tabs dbc" "length (fst o') = length m"
    "ret = OSD_OK \<and> (\<exists>m1. length m1 = length m \<and>
        listed (scan_ids dbc (query (tabs dbc))) alloc_len m1 outdata o') \<or>
     ret = OSD_ERROR \<and> \<not> db_clean dbc"
    using run_ids_ok [of dbc outdata alloc_len m query outs] assms by blast
  obtain m' used add_len cont_id where o': "o' = (m', used, add_len, cont_id)" by (cases o')
  note r = r0 [unfolded o' fst_conv]
  have "\<exists>ids. mset ids = mset (query (tabs dbc)) \<and>
       (let k = unat alloc_len div 8 in
        buf_get m' outdata (8 * min k (length ids)) = Some (id_bytes (take k ids)) \<and>
        unat used = 8 * min k (length ids) \<and> unat add_len = 8 * length ids \<and>
        cont_id = first_id (drop k ids))" if ok: "ret = OSD_OK"
  proof -
    obtain m1 where l: "listed (scan_ids dbc (query (tabs dbc))) alloc_len m1 outdata (m', used, add_len, cont_id)"
      using r(4) ok by auto
    let ?ids = "scan_ids dbc (query (tabs dbc))"
    have "buf_get m' outdata (8 * min (unat alloc_len div 8) (length ?ids))
        = Some (id_bytes (take (unat alloc_len div 8) ?ids))"
      using l mem.get_put [of m1 outdata "id_bytes (take (unat alloc_len div 8) ?ids)" m']
      by (simp add: listed_def min.commute)
    then show ?thesis
      using l assms(2) by (intro exI [of _ ?ids]) (simp add: listed_def engine_ok_def)
  qed
  with r show ?thesis by auto
qed

theorem id_listing_correct_witness:
  "\<exists>ret m' used add_len cont_id dbc'.
    run_ids (\<lambda>t. [0x10005, 0x10007]) 8 24 (replicate 32 0, 0, 0, 0) (sample_db [EvBusy, EvOk, EvSchema])
      = Some (ret, (m', used, add_len, cont_id), dbc') \<and> (ret = OSD_OK \<or> ret = OSD_ERROR)"
  using id_listing_correct [of "sample_db [EvBusy, EvOk, EvSchema]" 24 8 "replicate 32 0"
      "\<lambda>t. [0x10005, 0x10007]" "(0, 0, 0)"] by fastforce

text \<open>
  If the second or a later statement of a component cannot be prepared, initialising the
  database does not report an error: the error path finalizes statements that the component has
  finalized already, which is undefined.
\<close>

lemma failed_prepare_finalizes_twice:
  assumes "coll_tab dbc = NoTab" and "prep_evs dbc = True # False # es"
  shows "coll_initialize dbc = Some (- EIO, dbc\<lparr>coll_tab := Dangling, prep_evs := es\<rparr>) \<and>
    db_initialize dbc = None"
proof -
  have "coll_initialize dbc = Some (- EIO, dbc\<lparr>coll_tab := Dangling, prep_evs := es\<rparr>)"
    using assms by (simp add: coll_initialize_def coll_sql_def)
  then show ?thesis
    by (simp add: db_initialize_def coll_finalize_def finalize_tab_def osd_consts)
qed

lemma failed_prepare_finalizes_twice_witness:
  "db_initialize ((sample_db [])\<lparr>coll_tab := NoTab, prep_evs := [True, False]\<rparr>) = None"
  using failed_prepare_finalizes_twice [of "(sample_db [])\<lparr>coll_tab := NoTab, prep_evs := [True, False]\<rparr>" "[]"]
  by simp

text \<open>
  Opening: the check for the tables of an existing file accepts a file without any table, and
  a path that is not a regular file is answered with 1, the code for a new database, although no
  context has been allocated.
\<close>

lemma open_accepts_empty_and_irregular:
  assumes "coll_tab dbc = NoTab" and "obj_tab dbc = NoTab" and "attr_tab dbc = NoTab"
    and "prep_evs dbc = []" and "exec_evs dbc = []"
  shows "(\<exists>dbc'. osd_db_open StatReg True [] dbc = Some (OSD_OK, Some dbc') \<and> db_good dbc') \<and>
    osd_db_open StatNotReg open_ok names dbc = Some (1, None)"
proof -
  have x: "sq_exec dbc = (True, dbc)" using assms(5) by (simp add: sq_exec_def)
  obtain es where "db_initialize dbc = Some (OSD_OK, dbc\<lparr>coll_tab := Prepared, obj_tab := Prepared,
    attr_tab := Prepared, prep_evs := es\<rparr>)" "\<forall>b \<in> set es. b"
    using db_initialize_ok [of dbc] assms(1-4) by auto
  then show ?thesis
    by (auto simp: osd_db_open_def db_check_tables_def x db_good_def)
qed

lemma open_accepts_empty_and_irregular_witness:
  "osd_db_open StatNotReg True [] ((sample_db [])\<lparr>coll_tab := NoTab, obj_tab := NoTab, attr_tab := NoTab\<rparr>)
    = Some (1, None)"
  using open_accepts_empty_and_irregular
    [of "(sample_db [])\<lparr>coll_tab := NoTab, obj_tab := NoTab, attr_tab := NoTab\<rparr>" True "[]"]
  by (simp add: sample_db_def)

end
