(* ===== verification/Obj_Table.thy ===== *)
theory Obj_Table
  imports Sql_Db
begin

text \<open>
  \<^verbatim>\<open>osd-target/obj.c\<close>: the table of the objects. Identifiers are bound as signed 64-bit values,
  types as signed 32-bit values. A statement table that is not prepared is a null or dangling
  pointer, the result then is undefined.
\<close>

section \<open>The operations\<close>

definition on_obj :: "db_context \<Rightarrow> 'a option \<Rightarrow> 'a option" where
  "on_obj dbc r = (if obj_tab dbc = Prepared then r else None)"

definition obj_row_of :: "u64 \<Rightarrow> u64 \<Rightarrow> u32 \<Rightarrow> obj_row" where
  "obj_row_of pid oid type = \<lparr>o_pid = sint pid, o_oid = sint oid, o_type = sint type\<rparr>"

definition obj_insert :: "db_context \<Rightarrow> u64 \<Rightarrow> u64 \<Rightarrow> u32 \<Rightarrow> (int \<times> db_context) option" where
  "obj_insert dbc pid oid type = on_obj dbc (run_dms (\<lambda>t.
     map_option (\<lambda>rows. t\<lparr>t_obj := rows\<rparr>) (insert_row obj_key (obj_row_of pid oid type) (t_obj t))) dbc)"

definition obj_delete :: "db_context \<Rightarrow> u64 \<Rightarrow> u64 \<Rightarrow> (int \<times> db_context) option" where
  "obj_delete dbc pid oid = on_obj dbc (run_dms (\<lambda>t.
     Some (t\<lparr>t_obj := delete_rows (\<lambda>r. o_pid r = sint pid \<and> o_oid r = sint oid) (t_obj t)\<rparr>)) dbc)"

definition obj_delete_pid :: "db_context \<Rightarrow> u64 \<Rightarrow> (int \<times> db_context) option" where
  "obj_delete_pid dbc pid = on_obj dbc (run_dms (\<lambda>t.
     Some (t\<lparr>t_obj := delete_rows (\<lambda>r. o_pid r = sint pid) (t_obj t)\<rparr>)) dbc)"

text \<open>
  \<open>SELECT MAX(...)\<close> answers one row, null when there is nothing to aggregate; a null column reads
  as 0. The signed increment of the largest 64-bit value is undefined.
\<close>

definition select_max :: "int list \<Rightarrow> int option list" where
  "select_max xs = [if xs = [] then None else Some (Max (set xs))]"

definition column_next :: "'o \<Rightarrow> int option \<Rightarrow> u64 option" where
  "column_next out r =
     (let v = (case r of None \<Rightarrow> 0 | Some x \<Rightarrow> x) in
      if v = 2 ^ 63 - 1 then None else Some (word_of_int (v + 1)))"

definition obj_get_nextoid :: "db_context \<Rightarrow> u64 \<Rightarrow> u64 \<Rightarrow> (int \<times> u64 \<times> db_context) option" where
  "obj_get_nextoid dbc pid oid = on_obj dbc (run_query
     (\<lambda>t. select_max (map o_oid (filter (\<lambda>r. o_pid r = sint pid) (t_obj t)))) column_next oid dbc)"

text \<open>The query of the next partition has no parameters and so no bind.\<close>

definition obj_get_nextpid :: "db_context \<Rightarrow> u64 \<Rightarrow> (int \<times> u64 \<times> db_context) option" where
  "obj_get_nextpid dbc pid = on_obj dbc (goto_repeat (\<lambda>out dbc.
     query_once (select_max (map o_pid (t_obj (tabs dbc)))) column_next out dbc) pid dbc)"

text \<open>\<open>sqlite3_column_int\<close> keeps the low 32 bits.\<close>

definition column_int :: "int \<Rightarrow> int" where
  "column_int v = sint (word_of_int v :: u32)"

definition obj_ispresent :: "db_context \<Rightarrow> u64 \<Rightarrow> u64 \<Rightarrow> (int \<times> int \<times> db_context) option" where
  "obj_ispresent dbc pid oid = on_obj dbc (run_query
     (\<lambda>t. [int (length (filter (\<lambda>r. o_pid r = sint pid \<and> o_oid r = sint oid) (t_obj t)))])
     (\<lambda>out v. Some (column_int v)) 0 dbc)"

definition obj_isempty_pid :: "db_context \<Rightarrow> u64 \<Rightarrow> (int \<times> bool \<times> db_context) option" where
  "obj_isempty_pid dbc pid = on_obj dbc (run_query
     (\<lambda>t. [int (length (filter (\<lambda>r. o_pid r = sint pid \<and> o_oid r \<noteq> 0) (t_obj t)))])
     (\<lambda>out v. Some (0 = column_int v)) False dbc)"

definition obj_get_type :: "db_context \<Rightarrow> u64 \<Rightarrow> u64 \<Rightarrow> (int \<times> u8 \<times> db_context) option" where
  "obj_get_type dbc pid oid = on_obj dbc (run_query
     (\<lambda>t. map o_type (filter (\<lambda>r. o_pid r = sint pid \<and> o_oid r = sint oid) (t_obj t)))
     (\<lambda>out v. Some (word_of_int (column_int v))) ILLEGAL_OBJ dbc)"

definition obj_get_oids_in_pid ::
  "db_context \<Rightarrow> u64 \<Rightarrow> u64 \<Rightarrow> u64 \<Rightarrow> nat \<Rightarrow> bytes \<times> u64 \<times> u64 \<times> u64
    \<Rightarrow> (int \<times> (bytes \<times> u64 \<times> u64 \<times> u64) \<times> db_context) option" where
  "obj_get_oids_in_pid dbc pid initial_oid alloc_len outdata outs = on_obj dbc (run_ids
     (\<lambda>t. map o_oid (filter (\<lambda>r. o_pid r = sint pid \<and> o_type r = uint USEROBJECT \<and>
        sint initial_oid \<le> o_oid r) (t_obj t)))
     alloc_len outdata outs dbc)"

definition obj_get_cids_in_pid ::
  "db_context \<Rightarrow> u64 \<Rightarrow> u64 \<Rightarrow> u64 \<Rightarrow> nat \<Rightarrow> bytes \<times> u64 \<times> u64 \<times> u64
    \<Rightarrow> (int \<times> (bytes \<times> u64 \<times> u64 \<times> u64) \<times> db_context) option" where
  "obj_get_cids_in_pid dbc pid initial_cid alloc_len outdata outs = on_obj dbc (run_ids
     (\<lambda>t. map o_oid (filter (\<lambda>r. o_pid r = sint pid \<and> o_type r = uint COLLECTION \<and>
        sint initial_cid \<le> o_oid r) (t_obj t)))
     alloc_len outdata outs dbc)"

definition obj_get_all_pids ::
  "db_context \<Rightarrow> u64 \<Rightarrow> u64 \<Rightarrow> nat \<Rightarrow> bytes \<times> u64 \<times> u64 \<times> u64
    \<Rightarrow> (int \<times> (bytes \<times> u64 \<times> u64 \<times> u64) \<times> db_context) option" where
  "obj_get_all_pids dbc initial_pid alloc_len outdata outs = on_obj dbc (run_ids
     (\<lambda>t. map o_pid (filter (\<lambda>r. o_oid r = uint PARTITION_OID \<and> o_type r = uint PARTITION \<and>
        sint initial_pid \<le> o_pid r) (t_obj t)))
     alloc_len outdata outs dbc)"

section \<open>The table as a map\<close>

text \<open>The abstract object table: which type an identifier has.\<close>

definition obj_map :: "tables \<Rightarrow> int \<times> int \<rightharpoonup> int" where
  "obj_map t = map_of (map (\<lambda>r. (obj_key r, o_type r)) (t_obj t))"

lemma on_obj_good [simp]: "db_good dbc \<Longrightarrow> on_obj dbc r = r"
  by (simp add: on_obj_def db_good_def)

lemma sint_eq [simp]: "sint (x :: 'a::len word) = sint y \<longleftrightarrow> x = y"
  by (metis signed_word_eqI)

lemma obj_map_dom: "obj_map t k \<noteq> None \<longleftrightarrow> k \<in> obj_key ` set (t_obj t)"
  by (force simp: obj_map_def map_of_eq_None_iff)

lemma obj_map_insert:
  assumes "insert_row obj_key r (t_obj t) = Some rows"
  shows "obj_map (t\<lparr>t_obj := rows\<rparr>) = (obj_map t)(obj_key r \<mapsto> o_type r)"
proof -
  have "rows = t_obj t @ [r]" and "obj_key r \<notin> obj_key ` set (t_obj t)"
    using assms by (auto simp: insert_row_def split: if_splits)
  then have "map_of (map (\<lambda>r. (obj_key r, o_type r)) (t_obj t)) (obj_key r) = None"
    by (auto simp: map_of_eq_None_iff)
  then show ?thesis
    unfolding obj_map_def \<open>rows = t_obj t @ [r]\<close>
    by (auto simp: fun_eq_iff map_add_def split: option.splits)
qed

lemma map_of_delete_rows:
  "map_of (map (\<lambda>r. (key r, v r)) (delete_rows (\<lambda>r. key r \<in> S) rows))
    = map_of (map (\<lambda>r. (key r, v r)) rows) |` (- S)"
  by (induction rows) (auto simp: delete_rows_def restrict_map_def fun_eq_iff)

lemma obj_map_delete:
  "obj_map (t\<lparr>t_obj := delete_rows (\<lambda>r. obj_key r \<in> S) (t_obj t)\<rparr>) = obj_map t |` (- S)"
  by (simp add: obj_map_def map_of_delete_rows)

lemma obj_rows_unique:
  assumes "distinct (map obj_key rows)"
  shows "filter (\<lambda>r. o_pid r = p \<and> o_oid r = q) rows
    = (case map_of (map (\<lambda>r. (obj_key r, r)) rows) (p, q) of None \<Rightarrow> [] | Some r \<Rightarrow> [r])"
  using assms
proof (induction rows)
  case (Cons r rows)
  have "filter (\<lambda>r. o_pid r = p \<and> o_oid r = q) rows = []" if "obj_key r = (p, q)"
    using Cons.prems that by (auto simp: filter_empty_conv obj_key_def image_iff)
  then show ?case using Cons by (auto simp: obj_key_def)
qed simp

lemma obj_map_row:
  "obj_map t k = map_option o_type (map_of (map (\<lambda>r. (obj_key r, r)) (t_obj t)) k)"
proof -
  have "map_of (map (\<lambda>r. (obj_key r, o_type r)) rows) k
      = map_option o_type (map_of (map (\<lambda>r. (obj_key r, r)) rows) k)" for rows
    by (induction rows) auto
  then show ?thesis by (simp add: obj_map_def)
qed

section \<open>What each operation does\<close>

abbreviation okey :: "u64 \<Rightarrow> u64 \<Rightarrow> int \<times> int" where
  "okey pid oid \<equiv> (sint pid, sint oid)"

lemma obj_key_row [simp]: "obj_key (obj_row_of pid oid ty) = okey pid oid" "o_type (obj_row_of pid oid ty) = sint ty"
  by (simp_all add: obj_key_def obj_row_of_def)

lemma obj_insert_ok:
  assumes "db_good dbc"
  shows "\<exists>ret dbc'. obj_insert dbc pid oid ty = Some (ret, dbc') \<and> db_good dbc' \<and> db_frame dbc dbc' \<and>
    (ret = OSD_OK \<and> obj_map (tabs dbc) (okey pid oid) = None \<and>
       tabs dbc' = (tabs dbc)\<lparr>t_obj := t_obj (tabs dbc) @ [obj_row_of pid oid ty]\<rparr> \<or>
     ret = OSD_ERROR \<and> tabs dbc' = tabs dbc \<and>
       (db_clean dbc \<longrightarrow> obj_map (tabs dbc) (okey pid oid) \<noteq> None))"
proof -
  let ?r = "obj_row_of pid oid ty"
  let ?eff = "\<lambda>t. map_option (\<lambda>rows. t\<lparr>t_obj := rows\<rparr>) (insert_row obj_key ?r (t_obj t))"
  have ins: "?eff t = (if obj_map t (okey pid oid) = None
      then Some (t\<lparr>t_obj := t_obj t @ [?r]\<rparr>) else None)" for t
    using obj_map_dom [of t "okey pid oid"] by (auto simp: insert_row_def)
  have "obj_insert dbc pid oid ty = run_dms ?eff dbc" using assms by (simp add: obj_insert_def)
  then show ?thesis
    using run_dms_ok [OF assms, of ?eff] unfolding ins by (auto split: if_splits)
qed

lemma obj_map_append:
  "obj_map t (okey pid oid) = None \<Longrightarrow>
    obj_map (t\<lparr>t_obj := t_obj t @ [obj_row_of pid oid ty]\<rparr>) = (obj_map t)(okey pid oid \<mapsto> sint ty)"
  using obj_map_insert [of "obj_row_of pid oid ty" t] obj_map_dom [of t "okey pid oid"]
  by (simp add: insert_row_def)

lemma obj_delete_ok:
  assumes "db_good dbc"
  shows "\<exists>ret dbc'. obj_delete dbc pid oid = Some (ret, dbc') \<and> db_good dbc' \<and> db_frame dbc dbc' \<and>
    (ret = OSD_OK \<and> tabs dbc' = (tabs dbc)\<lparr>t_obj := delete_rows (\<lambda>r. obj_key r \<in> {okey pid oid}) (t_obj (tabs dbc))\<rparr> \<or>
     ret = OSD_ERROR \<and> tabs dbc' = tabs dbc \<and> \<not> db_clean dbc)"
proof -
  have eq: "obj_delete dbc pid oid = run_dms (\<lambda>t. Some (t\<lparr>t_obj := delete_rows (\<lambda>r. obj_key r \<in> {okey pid oid}) (t_obj t)\<rparr>)) dbc"
    using assms by (simp add: obj_delete_def obj_key_def)
  show ?thesis
    using run_dms_ok [OF assms, of "\<lambda>t. Some (t\<lparr>t_obj := delete_rows (\<lambda>r. obj_key r \<in> {okey pid oid}) (t_obj t)\<rparr>)"]
    unfolding eq by auto
qed

lemma obj_delete_pid_ok:
  assumes "db_good dbc"
  shows "\<exists>ret dbc'. obj_delete_pid dbc pid = Some (ret, dbc') \<and> db_good dbc' \<and> db_frame dbc dbc' \<and>
    (ret = OSD_OK \<and> tabs dbc' = (tabs dbc)\<lparr>t_obj := delete_rows (\<lambda>r. obj_key r \<in> {k. fst k = sint pid}) (t_obj (tabs dbc))\<rparr> \<or>
     ret = OSD_ERROR \<and> tabs dbc' = tabs dbc \<and> \<not> db_clean dbc)"
proof -
  have eq: "obj_delete_pid dbc pid = run_dms (\<lambda>t. Some (t\<lparr>t_obj := delete_rows (\<lambda>r. obj_key r \<in> {k. fst k = sint pid}) (t_obj t)\<rparr>)) dbc"
    using assms by (simp add: obj_delete_pid_def obj_key_def)
  show ?thesis
    using run_dms_ok [OF assms, of "\<lambda>t. Some (t\<lparr>t_obj := delete_rows (\<lambda>r. obj_key r \<in> {k. fst k = sint pid}) (t_obj t)\<rparr>)"]
    unfolding eq by auto
qed

lemma obj_rows_of:
  assumes "tables_ok t"
  shows "filter (\<lambda>r. o_pid r = p \<and> o_oid r = q) (t_obj t) = [] \<and> obj_map t (p, q) = None \<or>
    (\<exists>r. filter (\<lambda>r. o_pid r = p \<and> o_oid r = q) (t_obj t) = [r] \<and> obj_map t (p, q) = Some (o_type r))"
  using obj_rows_unique [OF tables_okD(1) [OF assms], of p q] obj_map_row [of t "(p, q)"]
  by (auto split: option.splits)

lemma column_int_small [simp]: "column_int 0 = 0" "column_int 1 = 1"
  by (simp_all add: column_int_def)

lemma obj_ispresent_ok:
  assumes "db_good dbc" and "tables_ok (tabs dbc)"
  shows "\<exists>ret present dbc'. obj_ispresent dbc pid oid = Some (ret, present, dbc') \<and>
    db_good dbc' \<and> db_frame dbc dbc' \<and> tabs dbc' = tabs dbc \<and>
    (ret = OSD_OK \<and> present = (if obj_map (tabs dbc) (okey pid oid) = None then 0 else 1) \<or>
     ret = OSD_ERROR \<and> present = 0 \<and> \<not> db_clean dbc)"
proof -
  let ?q = "\<lambda>t. [int (length (filter (\<lambda>r. o_pid r = sint pid \<and> o_oid r = sint oid) (t_obj t)))]"
  have eq: "obj_ispresent dbc pid oid = run_query ?q (\<lambda>out v. Some (column_int v)) 0 dbc"
    using assms by (simp add: obj_ispresent_def)
  show ?thesis
    using run_query_ok [OF assms(1), of ?q "\<lambda>out v. Some (column_int v)" 0]
      obj_rows_of [OF assms(2), of "sint pid" "sint oid"]
    unfolding eq by auto
qed

lemma obj_get_type_ok:
  assumes "db_good dbc" and "tables_ok (tabs dbc)"
  shows "\<exists>ret ty dbc'. obj_get_type dbc pid oid = Some (ret, ty, dbc') \<and>
    db_good dbc' \<and> db_frame dbc dbc' \<and> tabs dbc' = tabs dbc \<and>
    (ret = OSD_OK \<and> ty = (case obj_map (tabs dbc) (okey pid oid) of None \<Rightarrow> ILLEGAL_OBJ
       | Some x \<Rightarrow> word_of_int (column_int x)) \<or>
     ret = OSD_ERROR \<and> ty = ILLEGAL_OBJ \<and> \<not> db_clean dbc)"
proof -
  let ?q = "\<lambda>t. map o_type (filter (\<lambda>r. o_pid r = sint pid \<and> o_oid r = sint oid) (t_obj t))"
  have eq: "obj_get_type dbc pid oid = run_query ?q (\<lambda>out v. Some (word_of_int (column_int v))) ILLEGAL_OBJ dbc"
    using assms by (simp add: obj_get_type_def)
  show ?thesis
    using run_query_ok [OF assms(1), of ?q "\<lambda>out v. Some (word_of_int (column_int v))" ILLEGAL_OBJ]
      obj_rows_of [OF assms(2), of "sint pid" "sint oid"]
    unfolding eq by auto
qed

lemma sint_of_int_64: "- (2 ^ 63) \<le> k \<Longrightarrow> k < 2 ^ 63 \<Longrightarrow> sint (word_of_int k :: u64) = k"
  by (simp add: signed_of_int signed_take_bit_int_eq_self)

text \<open>The largest identifier of a partition, 0 when it has none.\<close>

definition max_oid :: "tables \<Rightarrow> int \<Rightarrow> int" where
  "max_oid t p = (let xs = map o_oid (filter (\<lambda>r. o_pid r = p) (t_obj t)) in
     if xs = [] then 0 else Max (set xs))"

lemma obj_get_nextoid_ok:
  assumes "db_good dbc" and "max_oid (tabs dbc) (sint pid) \<noteq> 2 ^ 63 - 1"
  shows "\<exists>ret oid' dbc'. obj_get_nextoid dbc pid oid = Some (ret, oid', dbc') \<and>
    db_good dbc' \<and> db_frame dbc dbc' \<and> tabs dbc' = tabs dbc \<and>
    (ret = OSD_OK \<and> oid' = word_of_int (max_oid (tabs dbc) (sint pid) + 1) \<or>
     ret = OSD_ERROR \<and> oid' = oid \<and> \<not> db_clean dbc)"
proof -
  let ?q = "\<lambda>t. select_max (map o_oid (filter (\<lambda>r. o_pid r = sint pid) (t_obj t)))"
  have eq: "obj_get_nextoid dbc pid oid = run_query ?q column_next oid dbc"
    using assms by (simp add: obj_get_nextoid_def)
  have c: "column_next oid (hd (?q (tabs dbc))) = Some (word_of_int (max_oid (tabs dbc) (sint pid) + 1))"
    using assms(2) by (auto simp: column_next_def select_max_def max_oid_def Let_def)
  have "\<exists>ret out' dbc'. run_query ?q column_next oid dbc = Some (ret, out', dbc') \<and> db_good dbc' \<and>
    db_frame dbc dbc' \<and> tabs dbc' = tabs dbc \<and>
    (ret = OSD_OK \<and> Some out' = (case ?q (tabs dbc) of [] \<Rightarrow> Some oid | r # _ \<Rightarrow> column_next oid r) \<or>
     ret = OSD_ERROR \<and> out' = oid \<and> \<not> db_clean dbc)"
    using assms(1) by (rule run_query_ok) (use c in \<open>simp add: select_max_def\<close>)
  then show ?thesis
    unfolding eq using c by (auto simp: select_max_def)
qed

definition max_pid :: "tables \<Rightarrow> int" where
  "max_pid t = (let xs = map o_pid (t_obj t) in if xs = [] then 0 else Max (set xs))"

lemma obj_get_nextpid_ok:
  assumes "db_good dbc" and "max_pid (tabs dbc) \<noteq> 2 ^ 63 - 1"
  shows "\<exists>ret pid' dbc'. obj_get_nextpid dbc pid = Some (ret, pid', dbc') \<and>
    db_good dbc' \<and> db_frame dbc dbc' \<and> tabs dbc' = tabs dbc \<and>
    (ret = OSD_OK \<and> pid' = word_of_int (max_pid (tabs dbc) + 1) \<or>
     ret = OSD_ERROR \<and> pid' = pid \<and> \<not> db_clean dbc)"
proof -
  let ?rows = "\<lambda>t. select_max (map o_pid (t_obj t))"
  let ?Inv = "\<lambda>o' d. db_good d \<and> db_frame dbc d \<and> tabs d = tabs dbc \<and> o' = pid"
  have c: "column_next out (hd (?rows (tabs dbc))) = Some (word_of_int (max_pid (tabs dbc) + 1))" for out :: u64
    using assms(2) by (auto simp: column_next_def select_max_def max_pid_def Let_def)
  have "\<exists>ret out d. goto_repeat (\<lambda>out dbc. query_once (?rows (tabs dbc)) column_next out dbc) pid dbc = Some (ret, out, d) \<and>
    (db_good d \<and> db_frame dbc d \<and> tabs d = tabs dbc \<and>
      (ret = OSD_OK \<and> out = word_of_int (max_pid (tabs dbc) + 1) \<or> ret = OSD_ERROR \<and> out = pid \<and> \<not> db_clean dbc))"
  proof (rule goto_repeat_rule [where Inv = ?Inv])
    fix out d assume inv: "?Inv out d"
    have "?rows (tabs d) = [] \<or> column_next out (hd (?rows (tabs d))) \<noteq> None" using c inv by simp
    then obtain ret o2 d3 where q: "query_once (?rows (tabs d)) column_next out d = Some (ret, o2, d3)"
      "db_good d3" "db_frame d d3" "tabs d3 = tabs d"
      "ret = OSD_OK \<and> Some o2 = (case ?rows (tabs d) of [] \<Rightarrow> Some out | r # _ \<Rightarrow> column_next out r) \<or>
       ret = OSD_ERROR \<and> o2 = out \<and> \<not> db_clean d \<or>
       ret = OSD_REPEAT \<and> o2 = out \<and> length (step_evs d3) < length (step_evs d)"
      using query_once_ok [where rows = "?rows (tabs d)" and column = column_next and out = out and d = d] inv by blast
    have "db_frame dbc d3" "\<not> db_clean d \<Longrightarrow> \<not> db_clean dbc"
      using inv q(3) by (blast intro: db_frame_trans dest: db_frame_clean)+
    moreover have "(case ?rows (tabs d) of [] \<Rightarrow> Some out | r # _ \<Rightarrow> column_next out r) = Some (word_of_int (max_pid (tabs dbc) + 1))"
      using c [of out] inv by (simp add: select_max_def)
    ultimately show "\<exists>ret out' dbc'. query_once (?rows (tabs d)) column_next out d = Some (ret, out', dbc') \<and>
      (if ret = OSD_REPEAT then ?Inv out' dbc' \<and> length (step_evs dbc') < length (step_evs d)
       else db_good dbc' \<and> db_frame dbc dbc' \<and> tabs dbc' = tabs dbc \<and>
        (ret = OSD_OK \<and> out' = word_of_int (max_pid (tabs dbc) + 1) \<or> ret = OSD_ERROR \<and> out' = pid \<and> \<not> db_clean dbc))"
      unfolding q(1) using q(2,4,5) inv by auto
  qed (use assms(1) in simp)
  then show ?thesis using assms(1) by (simp add: obj_get_nextpid_def)
qed

lemma tables_ok_obj:
  assumes "tables_ok t" and "distinct (map obj_key rows)"
  shows "tables_ok (t\<lparr>t_obj := rows\<rparr>)"
  using assms by (simp add: tables_ok_def)

lemma tables_ok_delete_obj: "tables_ok t \<Longrightarrow> tables_ok (t\<lparr>t_obj := delete_rows P (t_obj t)\<rparr>)"
  by (rule tables_ok_obj) (auto dest: tables_okD intro: delete_rows_distinct)

lemma tables_ok_insert_obj:
  "tables_ok t \<Longrightarrow> obj_map t (okey pid oid) = None \<Longrightarrow>
    tables_ok (t\<lparr>t_obj := t_obj t @ [obj_row_of pid oid ty]\<rparr>)"
  using obj_map_dom [of t "okey pid oid"] tables_okD(1) [of t]
  by (intro tables_ok_obj) auto

section \<open>Properties\<close>

text \<open>
  C9. The object table refines a finite map from identifier pairs to types. Over an engine without
  scheduled errors (it may be busy, and the schema may change), inserting adds the pair and fails
  exactly when it is there, deleting an object or a partition removes the pairs, the presence test
  and the type query answer what the map holds, and the constraints of the schema are kept.
\<close>

theorem obj_table_refines_map:
  assumes "db_good dbc" and "db_clean dbc" and "tables_ok (tabs dbc)"
  defines "M \<equiv> obj_map (tabs dbc)"
  shows "(\<exists>d. obj_insert dbc pid oid ty = Some (if M (okey pid oid) = None then OSD_OK else OSD_ERROR, d) \<and>
       obj_map (tabs d) = (if M (okey pid oid) = None then M(okey pid oid \<mapsto> sint ty) else M) \<and>
       db_good d \<and> tables_ok (tabs d)) \<and>
    (\<exists>d. obj_delete dbc pid oid = Some (OSD_OK, d) \<and> obj_map (tabs d) = M(okey pid oid := None) \<and>
       db_good d \<and> tables_ok (tabs d)) \<and>
    (\<exists>d. obj_delete_pid dbc pid = Some (OSD_OK, d) \<and> obj_map (tabs d) = M |` {k. fst k \<noteq> sint pid} \<and>
       db_good d \<and> tables_ok (tabs d)) \<and>
    (\<exists>d. obj_ispresent dbc pid oid = Some (OSD_OK, if M (okey pid oid) = None then 0 else 1, d) \<and>
       tabs d = tabs dbc) \<and>
    (\<exists>d. obj_get_type dbc pid oid = Some (OSD_OK, case M (okey pid oid) of None \<Rightarrow> ILLEGAL_OBJ
         | Some x \<Rightarrow> word_of_int (column_int x), d) \<and> tabs d = tabs dbc)"
proof (intro conjI)
  show "\<exists>d. obj_insert dbc pid oid ty = Some (if M (okey pid oid) = None then OSD_OK else OSD_ERROR, d) \<and>
       obj_map (tabs d) = (if M (okey pid oid) = None then M(okey pid oid \<mapsto> sint ty) else M) \<and>
       db_good d \<and> tables_ok (tabs d)"
    using assms(2,3) obj_insert_ok [OF assms(1), of pid oid ty] unfolding M_def
    by (auto simp: obj_map_append tables_ok_insert_obj)
  show "\<exists>d. obj_delete dbc pid oid = Some (OSD_OK, d) \<and> obj_map (tabs d) = M(okey pid oid := None) \<and>
       db_good d \<and> tables_ok (tabs d)"
    using assms(2,3) obj_delete_ok [OF assms(1), of pid oid] obj_map_delete [where S = "{okey pid oid}"] unfolding M_def
    by (auto simp: tables_ok_delete_obj restrict_complement_singleton_eq)
  show "\<exists>d. obj_delete_pid dbc pid = Some (OSD_OK, d) \<and> obj_map (tabs d) = M |` {k. fst k \<noteq> sint pid} \<and>
       db_good d \<and> tables_ok (tabs d)"
    using assms(2,3) obj_delete_pid_ok [OF assms(1), of pid] obj_map_delete [where S = "{k. fst k = sint pid}"] unfolding M_def
    by (auto simp: tables_ok_delete_obj Compl_eq)
  show "\<exists>d. obj_ispresent dbc pid oid = Some (OSD_OK, if M (okey pid oid) = None then 0 else 1, d) \<and>
       tabs d = tabs dbc"
    using assms(2) obj_ispresent_ok [OF assms(1,3), of pid oid] unfolding M_def by auto
  show "\<exists>d. obj_get_type dbc pid oid = Some (OSD_OK, case M (okey pid oid) of None \<Rightarrow> ILLEGAL_OBJ
         | Some x \<Rightarrow> word_of_int (column_int x), d) \<and> tabs d = tabs dbc"
    using assms(2) obj_get_type_ok [OF assms(1,3), of pid oid] unfolding M_def by auto
qed

theorem obj_table_refines_map_witness:
  "\<exists>d. obj_insert (sample_db [EvSchema]) 0x10000 0x10001 128 = Some (OSD_OK, d) \<and>
     obj_map (tabs d) = [(0x10000, 0x10001) \<mapsto> 128]"
proof -
  have "db_clean (sample_db [EvSchema])" "tables_ok (tabs (sample_db [EvSchema]))"
    by (simp_all add: tables_ok_def)
  then show ?thesis
    using obj_table_refines_map [of "sample_db [EvSchema]" "0x10000" "0x10001" 128]
    by (auto simp: obj_map_def)
qed

text \<open>
  C21. The next free identifier of a partition: if the largest signed identifier of the partition
  is not the largest 64-bit value, the answer is larger than every identifier in use, and the
  object it names does not exist; it is 1 for a partition without objects.
\<close>

theorem nextoid_fresh:
  assumes "db_good dbc" and "db_clean dbc" and "max_oid (tabs dbc) (sint pid) \<noteq> 2 ^ 63 - 1"
    and "\<And>r. r \<in> set (t_obj (tabs dbc)) \<Longrightarrow> - (2 ^ 63) \<le> o_oid r \<and> o_oid r < 2 ^ 63"
  shows "\<exists>oid' d. obj_get_nextoid dbc pid oid = Some (OSD_OK, oid', d) \<and> tabs d = tabs dbc \<and>
    (\<forall>r \<in> set (t_obj (tabs dbc)). o_pid r = sint pid \<longrightarrow> o_oid r < sint oid') \<and>
    obj_map (tabs dbc) (okey pid oid') = None \<and>
    ((\<forall>r \<in> set (t_obj (tabs dbc)). o_pid r \<noteq> sint pid) \<longrightarrow> oid' = 1)"
proof -
  let ?m = "max_oid (tabs dbc) (sint pid)"
  obtain d where d: "obj_get_nextoid dbc pid oid = Some (OSD_OK, word_of_int (?m + 1), d)" "tabs d = tabs dbc"
    using obj_get_nextoid_ok [OF assms(1,3), of oid] assms(2) by metis
  have ge: "o_oid r \<le> ?m" if "r \<in> set (t_obj (tabs dbc))" "o_pid r = sint pid" for r
    using that by (auto simp: max_oid_def Let_def filter_empty_conv)
  have "- (2 ^ 63) \<le> ?m \<and> ?m < 2 ^ 63"
  proof (cases "filter (\<lambda>r. o_pid r = sint pid) (t_obj (tabs dbc)) = []")
    case False
    then have "Max (o_oid ` set (filter (\<lambda>r. o_pid r = sint pid) (t_obj (tabs dbc))))
        \<in> o_oid ` set (filter (\<lambda>r. o_pid r = sint pid) (t_obj (tabs dbc)))"
      by (intro Max_in) (simp_all only: finite_imageI finite_set image_is_empty set_empty not_False_eq_True)
    with False have "?m \<in> o_oid ` set (filter (\<lambda>r. o_pid r = sint pid) (t_obj (tabs dbc)))"
      by (simp add: max_oid_def Let_def)
    then show ?thesis using assms(4) by auto
  qed (simp add: max_oid_def)
  then have s: "sint (word_of_int (?m + 1) :: u64) = ?m + 1"
    using assms(3) by (intro sint_of_int_64) linarith+
  have "obj_map (tabs dbc) (okey pid (word_of_int (?m + 1))) = None"
    using ge s obj_map_dom [of "tabs dbc" "okey pid (word_of_int (?m + 1))"]
    by (force simp: obj_key_def)
  moreover have "?m = 0" if "\<forall>r \<in> set (t_obj (tabs dbc)). o_pid r \<noteq> sint pid"
    using that by (simp add: max_oid_def filter_empty_conv)
  ultimately show ?thesis
    using d ge s by (intro exI [of _ "word_of_int (?m + 1)"] exI [of _ d]) fastforce
qed

theorem nextoid_fresh_witness:
  "\<exists>oid' d. obj_get_nextoid (sample_db [EvBusy]) 0x10000 7 = Some (OSD_OK, oid', d) \<and> oid' = 1"
proof -
  have "db_clean (sample_db [EvBusy])" "max_oid (tabs (sample_db [EvBusy])) (sint (0x10000 :: u64)) \<noteq> 2 ^ 63 - 1"
    by (simp_all add: max_oid_def)
  then show ?thesis
    using nextoid_fresh [of "sample_db [EvBusy]" "0x10000" 7] by auto
qed

end
