(* ===== verification/Coll_Table.thy ===== *)
theory Coll_Table
  imports Obj_Table
begin

text \<open>
  \<^verbatim>\<open>osd-target/coll.c\<close>: which objects belong to which collections. An insertion binds the
  attribute number as a signed 32-bit integer, the query for a collection binds it as a 64-bit one.
\<close>

section \<open>The operations\<close>

definition on_coll :: "db_context \<Rightarrow> 'a option \<Rightarrow> 'a option" where
  "on_coll dbc r = (if coll_tab dbc = Prepared then r else None)"

definition coll_row_of :: "u64 \<Rightarrow> u64 \<Rightarrow> u64 \<Rightarrow> u32 \<Rightarrow> coll_row" where
  "coll_row_of pid cid oid number =
     \<lparr>c_pid = sint pid, c_cid = sint cid, c_oid = sint oid, c_number = sint number\<rparr>"

definition coll_insert :: "db_context \<Rightarrow> u64 \<Rightarrow> u64 \<Rightarrow> u64 \<Rightarrow> u32 \<Rightarrow> (int \<times> db_context) option" where
  "coll_insert dbc pid cid oid number = on_coll dbc (run_dms (\<lambda>t.
     map_option (\<lambda>rows. t\<lparr>t_coll := rows\<rparr>) (insert_coll (coll_row_of pid cid oid number) (t_coll t))) dbc)"

text \<open>
  \<open>INSERT INTO coll SELECT ?, ?, oid, 0 FROM coll WHERE pid = ? AND cid = ?\<close>: the rows selected
  first, then inserted one by one; the first violation undoes the statement.
\<close>

fun insert_colls :: "coll_row list \<Rightarrow> coll_row list \<Rightarrow> coll_row list option" where
  "insert_colls [] t = Some t"
| "insert_colls (r # rs) t = do { t \<leftarrow> insert_coll r t; insert_colls rs t }"

definition copied_rows :: "u64 \<Rightarrow> u64 \<Rightarrow> u64 \<Rightarrow> coll_row list \<Rightarrow> coll_row list" where
  "copied_rows pid dest_cid source_cid rows =
     map (\<lambda>r. \<lparr>c_pid = sint pid, c_cid = sint dest_cid, c_oid = c_oid r, c_number = 0\<rparr>)
       (filter (\<lambda>r. c_pid r = sint pid \<and> c_cid r = sint source_cid) rows)"

definition coll_copyoids :: "db_context \<Rightarrow> u64 \<Rightarrow> u64 \<Rightarrow> u64 \<Rightarrow> (int \<times> db_context) option" where
  "coll_copyoids dbc pid dest_cid source_cid = on_coll dbc (run_dms (\<lambda>t.
     map_option (\<lambda>rows. t\<lparr>t_coll := rows\<rparr>)
       (insert_colls (copied_rows pid dest_cid source_cid (t_coll t)) (t_coll t))) dbc)"

definition coll_delete :: "db_context \<Rightarrow> u64 \<Rightarrow> u64 \<Rightarrow> u64 \<Rightarrow> (int \<times> db_context) option" where
  "coll_delete dbc pid cid oid = on_coll dbc (run_dms (\<lambda>t.
     Some (t\<lparr>t_coll := delete_rows (\<lambda>r. c_pid r = sint pid \<and> c_cid r = sint cid \<and> c_oid r = sint oid)
       (t_coll t)\<rparr>)) dbc)"

definition coll_delete_cid :: "db_context \<Rightarrow> u64 \<Rightarrow> u64 \<Rightarrow> (int \<times> db_context) option" where
  "coll_delete_cid dbc pid cid = on_coll dbc (run_dms (\<lambda>t.
     Some (t\<lparr>t_coll := delete_rows (\<lambda>r. c_pid r = sint pid \<and> c_cid r = sint cid) (t_coll t)\<rparr>)) dbc)"

definition coll_delete_oid :: "db_context \<Rightarrow> u64 \<Rightarrow> u64 \<Rightarrow> (int \<times> db_context) option" where
  "coll_delete_oid dbc pid oid = on_coll dbc (run_dms (\<lambda>t.
     Some (t\<lparr>t_coll := delete_rows (\<lambda>r. c_pid r = sint pid \<and> c_oid r = sint oid) (t_coll t)\<rparr>)) dbc)"

definition coll_isempty_cid :: "db_context \<Rightarrow> u64 \<Rightarrow> u64 \<Rightarrow> (int \<times> bool \<times> db_context) option" where
  "coll_isempty_cid dbc pid cid = on_coll dbc (run_query
     (\<lambda>t. [int (length (filter (\<lambda>r. c_pid r = sint pid \<and> c_cid r = sint cid) (t_coll t)))])
     (\<lambda>out v. Some (0 = column_int v)) False dbc)"

definition coll_get_cid :: "db_context \<Rightarrow> u64 \<Rightarrow> u64 \<Rightarrow> u32 \<Rightarrow> u64 \<Rightarrow> (int \<times> u64 \<times> db_context) option" where
  "coll_get_cid dbc pid oid number cid = on_coll dbc (run_query
     (\<lambda>t. map c_cid (filter (\<lambda>r. c_pid r = sint pid \<and> c_oid r = sint oid \<and> c_number r = uint number)
        (t_coll t)))
     (\<lambda>out v. Some (word_of_int v)) cid dbc)"

definition coll_get_oids_in_cid ::
  "db_context \<Rightarrow> u64 \<Rightarrow> u64 \<Rightarrow> u64 \<Rightarrow> u64 \<Rightarrow> nat \<Rightarrow> bytes \<times> u64 \<times> u64 \<times> u64
    \<Rightarrow> (int \<times> (bytes \<times> u64 \<times> u64 \<times> u64) \<times> db_context) option" where
  "coll_get_oids_in_cid dbc pid cid initial_oid alloc_len outdata outs = on_coll dbc (run_ids
     (\<lambda>t. map c_oid (filter (\<lambda>r. c_pid r = sint pid \<and> c_cid r = sint cid \<and> sint initial_oid \<le> c_oid r)
        (t_coll t)))
     alloc_len outdata outs dbc)"

text \<open>The collection attributes page is not implemented.\<close>

definition coll_get_cap :: "db_context \<Rightarrow> int" where
  "coll_get_cap dbc = OSD_ERROR"

section \<open>Lemmas\<close>

lemma on_coll_good [simp]: "db_good dbc \<Longrightarrow> on_coll dbc r = r"
  by (simp add: on_coll_def db_good_def)

lemma insert_coll_set:
  "insert_coll r t = Some t' \<Longrightarrow> set t' = insert r {x \<in> set t. coll_slot x \<noteq> coll_slot r}"
  by (auto simp: insert_coll_def set_replace_row split: if_splits)

lemma insert_coll_defined: "insert_coll r t \<noteq> None \<longleftrightarrow> coll_key r \<notin> coll_key ` set t"
  by (simp add: insert_coll_def)

text \<open>Rows that differ in the object never meet in a key or a slot.\<close>

lemma coll_key_oid: "coll_key r = coll_key x \<Longrightarrow> c_oid r = c_oid x"
  by (simp add: coll_key_def)

lemma coll_slot_oid: "coll_slot r = coll_slot x \<Longrightarrow> c_oid r = c_oid x"
  by (simp add: coll_slot_def)

lemma insert_colls_spec:
  assumes "distinct (map c_oid rs)"
  shows "(insert_colls rs t = None \<longleftrightarrow> (\<exists>r \<in> set rs. coll_key r \<in> coll_key ` set t)) \<and>
    (\<forall>t'. insert_colls rs t = Some t' \<longrightarrow>
      set t' = set rs \<union> {x \<in> set t. coll_slot x \<notin> coll_slot ` set rs})"
  using assms
proof (induction rs arbitrary: t)
  case (Cons r rs)
  show ?case
  proof (cases "insert_coll r t")
    case None
    then have "coll_key r \<in> coll_key ` set t" using insert_coll_defined [of r t] by blast
    with None show ?thesis by simp
  next
    case (Some t1)
    note s1 = insert_coll_set [OF Some]
    have k: "coll_key r \<notin> coll_key ` set t" using insert_coll_defined [of r t] Some by blast
    have oid: "c_oid r \<noteq> c_oid x" if "x \<in> set rs" for x using Cons.prems that by auto
    have key: "coll_key x \<in> coll_key ` set t1 \<longleftrightarrow> coll_key x \<in> coll_key ` set t" if "x \<in> set rs" for x
    proof -
      have "coll_slot y \<noteq> coll_slot r" if "coll_key x = coll_key y" for y
        using oid [OF \<open>x \<in> set rs\<close>] coll_slot_oid [of y r] coll_key_oid [of x y] that by auto
      moreover have "coll_key x \<noteq> coll_key r" using oid [OF that] coll_key_oid [of x r] by auto
      ultimately show ?thesis unfolding s1 by auto
    qed
    have slot: "coll_slot r \<notin> coll_slot ` set rs"
      using oid coll_slot_oid [of r] by blast
    have IH: "(insert_colls rs t1 = None \<longleftrightarrow> (\<exists>r \<in> set rs. coll_key r \<in> coll_key ` set t1)) \<and>
      (\<forall>t'. insert_colls rs t1 = Some t' \<longrightarrow>
        set t' = set rs \<union> {x \<in> set t1. coll_slot x \<notin> coll_slot ` set rs})"
      using Cons.prems by (intro Cons.IH) simp
    have "insert_colls rs t1 = None \<longleftrightarrow> (\<exists>x \<in> set (r # rs). coll_key x \<in> coll_key ` set t)"
      using IH key k by auto
    moreover have "set rs \<union> {x \<in> set t1. coll_slot x \<notin> coll_slot ` set rs}
        = set (r # rs) \<union> {x \<in> set t. coll_slot x \<notin> coll_slot ` set (r # rs)}"
      unfolding s1 using slot by auto
    ultimately show ?thesis using IH Some by simp
  qed
qed auto

lemma insert_colls_distinct:
  "distinct (map coll_key t) \<Longrightarrow> distinct (map coll_slot t) \<Longrightarrow> insert_colls rs t = Some t' \<Longrightarrow>
    distinct (map coll_key t') \<and> distinct (map coll_slot t')"
proof (induction rs arbitrary: t)
  case (Cons r rs)
  then obtain t1 where t1: "insert_coll r t = Some t1" "insert_colls rs t1 = Some t'"
    by (auto split: Option.bind_splits)
  show ?case
    using Cons.IH [of t1] insert_coll_distinct [OF Cons.prems(1,2) t1(1)] t1(2) by simp
qed auto

lemma tables_ok_coll:
  "tables_ok t \<Longrightarrow> distinct (map coll_key rows) \<Longrightarrow> distinct (map coll_slot rows) \<Longrightarrow> tables_ok (t\<lparr>t_coll := rows\<rparr>)"
  by (simp add: tables_ok_def)

lemma copied_rows_distinct:
  assumes "tables_ok t"
  shows "distinct (map c_oid (copied_rows pid dest src (t_coll t)))"
  using tables_okD(3) [OF assms]
  by (auto simp: copied_rows_def distinct_map inj_on_def coll_key_def)

text \<open>The members of a collection.\<close>

definition members :: "tables \<Rightarrow> int \<Rightarrow> int \<Rightarrow> int set" where
  "members t p c = c_oid ` {r \<in> set (t_coll t). c_pid r = p \<and> c_cid r = c}"

lemma uint_below_31: "uint (w :: u32) < 2 ^ 31 \<longleftrightarrow> unat w < 2 ^ 31"
proof -
  have "(2 ^ 31 :: int) = int (2 ^ 31)" by (simp only: of_nat_power of_nat_numeral)
  then show ?thesis unfolding uint_nat by (simp only: of_nat_less_iff)
qed

lemma sint_below_31: "unat (w :: u32) < 2 ^ 31 \<Longrightarrow> sint w = uint w"
proof -
  assume "unat w < 2 ^ 31"
  then have "uint w < 2 ^ 31" by (simp only: uint_below_31)
  then show "sint w = uint w"
    using signed_take_bit_int_eq_self [of 31 "uint w"] by (simp add: sint_uint order_trans [OF _ uint_ge_0])
qed

lemma coll_insert_ok:
  assumes "db_good dbc"
  shows "\<exists>ret d. coll_insert dbc pid cid oid number = Some (ret, d) \<and> db_good d \<and> db_frame dbc d \<and>
    (ret = OSD_OK \<and> sint oid \<notin> members (tabs dbc) (sint pid) (sint cid) \<and>
       tabs d = (tabs dbc)\<lparr>t_coll := replace_row coll_slot (coll_row_of pid cid oid number) (t_coll (tabs dbc))\<rparr> \<or>
     ret = OSD_ERROR \<and> tabs d = tabs dbc \<and>
       (db_clean dbc \<longrightarrow> sint oid \<in> members (tabs dbc) (sint pid) (sint cid)))"
proof -
  let ?r = "coll_row_of pid cid oid number"
  let ?eff = "\<lambda>t. map_option (\<lambda>rows. t\<lparr>t_coll := rows\<rparr>) (insert_coll ?r (t_coll t))"
  have "coll_key ?r \<in> coll_key ` set (t_coll t) \<longleftrightarrow> sint oid \<in> members t (sint pid) (sint cid)" for t
    by (force simp: members_def coll_key_def coll_row_of_def)
  then have ins: "?eff t = (if sint oid \<in> members t (sint pid) (sint cid) then None
      else Some (t\<lparr>t_coll := replace_row coll_slot ?r (t_coll t)\<rparr>))" for t
    by (simp add: insert_coll_def)
  have "coll_insert dbc pid cid oid number = run_dms ?eff dbc"
    using assms by (simp add: coll_insert_def)
  then show ?thesis
    using run_dms_ok [OF assms, of ?eff] unfolding ins by (auto split: if_splits)
qed

section \<open>Properties\<close>

text \<open>
  Adding an object to a collection and asking for the collection by the same attribute number:
  the answer is the collection exactly for numbers below \<open>2 ^ 31\<close>. For larger numbers the insertion
  has stored a negative number, the query finds nothing and leaves the output as it was.
\<close>

lemma coll_insert_get_cid:
  assumes "db_good dbc" and "db_clean dbc" and "tables_ok (tabs dbc)"
    and "\<And>r. r \<in> set (t_coll (tabs dbc)) \<Longrightarrow> c_number r < 2 ^ 31"
    and "sint oid \<notin> members (tabs dbc) (sint pid) (sint cid)"
  shows "\<exists>d d'. coll_insert dbc pid cid oid number = Some (OSD_OK, d) \<and> tables_ok (tabs d) \<and>
    coll_get_cid d pid oid number out = Some (OSD_OK, if unat number < 2 ^ 31 then cid else out, d')"
proof -
  let ?r = "coll_row_of pid cid oid number"
  obtain d where d: "coll_insert dbc pid cid oid number = Some (OSD_OK, d)" "db_good d" "db_frame dbc d"
    "tabs d = (tabs dbc)\<lparr>t_coll := replace_row coll_slot ?r (t_coll (tabs dbc))\<rparr>"
    using coll_insert_ok [OF assms(1), of pid cid oid number] assms(2,5) by auto
  have clean: "db_clean d" using d(3) assms(2) by (rule db_frame_clean)
  have key: "coll_key ?r \<notin> coll_key ` set (t_coll (tabs dbc))"
    using assms(5) by (force simp: members_def coll_key_def coll_row_of_def)
  then have "insert_coll ?r (t_coll (tabs dbc)) = Some (replace_row coll_slot ?r (t_coll (tabs dbc)))"
    by (simp add: insert_coll_def)
  then have ok: "tables_ok (tabs d)"
    using insert_coll_distinct [OF tables_okD(3,4) [OF assms(3)]] assms(3) unfolding d(4)
    by (blast intro: tables_ok_coll)
  let ?q = "\<lambda>t. map c_cid (filter (\<lambda>r. c_pid r = sint pid \<and> c_oid r = sint oid \<and> c_number r = uint number) (t_coll t))"
  have rows: "?q (tabs d) = (if unat number < 2 ^ 31 then [sint cid] else [])"
  proof (cases "unat number < 2 ^ 31")
    case True
    then have "sint number = uint number" by (simp add: sint_below_31)
    with True show ?thesis
      unfolding d(4) by (auto simp: replace_row_def coll_row_of_def coll_slot_def filter_empty_conv)
  next
    case False
    have "uint number \<ge> 2 ^ 31" using False by (simp only: not_less [symmetric] uint_below_31) simp
    moreover have "sint number < 2 ^ 31" using sint_lt [of number] by simp
    ultimately show ?thesis
      unfolding d(4) using False assms(4)
      by (fastforce simp: replace_row_def coll_row_of_def filter_empty_conv)
  qed
  have "coll_get_cid d pid oid number out = run_query ?q (\<lambda>out v. Some (word_of_int v)) out d"
    using d(2) by (simp add: coll_get_cid_def)
  then obtain ret o' d' where "coll_get_cid d pid oid number out = Some (ret, o', d')"
    "ret = OSD_OK \<and> Some o' = (case ?q (tabs d) of [] \<Rightarrow> Some out | r # _ \<Rightarrow> Some (word_of_int r))"
    using run_query_ok [OF d(2), of ?q "\<lambda>out v. Some (word_of_int v)" out] clean by auto
  then show ?thesis using d(1) ok unfolding rows by (auto split: if_splits)
qed

lemma coll_insert_get_cid_witness:
  "\<exists>d d'. coll_insert (sample_db []) 0x10000 0x10001 0x10002 0x80000001 = Some (OSD_OK, d) \<and>
     coll_get_cid d 0x10000 0x10002 0x80000001 77 = Some (OSD_OK, 77, d')"
proof -
  have "db_clean (sample_db [])" "tables_ok (tabs (sample_db []))"
    by (simp_all add: tables_ok_def)
  then show ?thesis
    using coll_insert_get_cid [of "sample_db []" "0x10002" "0x10000" "0x10001" "0x80000001" 77]
    by (auto simp: members_def)
qed

text \<open>
  C39. Tracking a collection: the statement fails exactly when a member of the source is in the
  destination already; otherwise the members of the source become members of the destination with
  number 0, and every other membership with number 0 of these objects is gone, because only one
  row may hold that slot. In particular a source filled the same way loses all its members.
\<close>

theorem coll_copyoids_effect:
  fixes pid src dest :: u64
  assumes "db_good dbc" and "db_clean dbc" and "tables_ok (tabs dbc)"
  defines "S \<equiv> members (tabs dbc) (sint pid) (sint src)"
  shows "\<exists>d. coll_copyoids dbc pid dest src
       = Some (if S \<inter> members (tabs dbc) (sint pid) (sint dest) = {} then OSD_OK else OSD_ERROR, d) \<and>
     tables_ok (tabs d) \<and>
     (if S \<inter> members (tabs dbc) (sint pid) (sint dest) = {}
      then set (t_coll (tabs d)) =
          {\<lparr>c_pid = sint pid, c_cid = sint dest, c_oid = x, c_number = 0\<rparr> | x. x \<in> S} \<union>
          {r \<in> set (t_coll (tabs dbc)). \<not> (c_pid r = sint pid \<and> c_oid r \<in> S \<and> c_number r = 0)}
      else tabs d = tabs dbc)"
proof -
  let ?rs = "copied_rows pid dest src (t_coll (tabs dbc))"
  let ?eff = "\<lambda>t. map_option (\<lambda>rows. t\<lparr>t_coll := rows\<rparr>)
     (insert_colls (copied_rows pid dest src (t_coll t)) (t_coll t))"
  have eq: "coll_copyoids dbc pid dest src = run_dms ?eff dbc"
    using assms(1) by (simp add: coll_copyoids_def)
  note spec = insert_colls_spec [OF copied_rows_distinct [OF assms(3)], of pid dest src "t_coll (tabs dbc)"]
  have rs: "set ?rs = {\<lparr>c_pid = sint pid, c_cid = sint dest, c_oid = x, c_number = 0\<rparr> | x. x \<in> S}"
    by (auto simp: copied_rows_def S_def members_def)
  have "(\<exists>r \<in> set ?rs. coll_key r \<in> coll_key ` set (t_coll (tabs dbc)))
      \<longleftrightarrow> S \<inter> members (tabs dbc) (sint pid) (sint dest) \<noteq> {}"
    unfolding rs by (force simp: coll_key_def members_def)
  then have none: "insert_colls ?rs (t_coll (tabs dbc)) = None
      \<longleftrightarrow> S \<inter> members (tabs dbc) (sint pid) (sint dest) \<noteq> {}"
    using spec by blast
  have slots: "coll_slot x \<in> coll_slot ` set ?rs \<longleftrightarrow> c_pid x = sint pid \<and> c_oid x \<in> S \<and> c_number x = 0" for x
    unfolding rs by (auto simp: coll_slot_def image_iff)
  obtain ret d where d: "run_dms ?eff dbc = Some (ret, d)"
    "ret = OSD_OK \<and> ?eff (tabs dbc) = Some (tabs d) \<or>
     ret = OSD_ERROR \<and> tabs d = tabs dbc \<and> (db_clean dbc \<longrightarrow> ?eff (tabs dbc) = None)"
    using run_dms_ok [OF assms(1), of ?eff] by blast
  show ?thesis
  proof (cases "S \<inter> members (tabs dbc) (sint pid) (sint dest) = {}")
    case True
    then obtain rows where rows: "insert_colls ?rs (t_coll (tabs dbc)) = Some rows"
      using none by blast
    then have t: "ret = OSD_OK" "tabs d = (tabs dbc)\<lparr>t_coll := rows\<rparr>" using d(2) assms(2) by auto
    have "tables_ok (tabs d)"
      unfolding t(2) using insert_colls_distinct [OF tables_okD(3,4) [OF assms(3)] rows] assms(3)
      by (blast intro: tables_ok_coll)
    moreover have "set rows = set ?rs \<union> {x \<in> set (t_coll (tabs dbc)). coll_slot x \<notin> coll_slot ` set ?rs}"
      using spec rows by blast
    then have "set rows = {\<lparr>c_pid = sint pid, c_cid = sint dest, c_oid = x, c_number = 0\<rparr> | x. x \<in> S} \<union>
        {r \<in> set (t_coll (tabs dbc)). \<not> (c_pid r = sint pid \<and> c_oid r \<in> S \<and> c_number r = 0)}"
      by (simp only: slots) (simp only: rs)
    ultimately show ?thesis
      using True d(1) t unfolding eq by simp
  next
    case False
    then have "ret = OSD_ERROR" "tabs d = tabs dbc" using none d(2) by auto
    then show ?thesis using False d(1) assms(3) unfolding eq by simp
  qed
qed

theorem coll_copyoids_effect_witness:
  "\<exists>d. coll_copyoids (sample_db [EvBusy]) 0x10000 0x10001 0x10002 = Some (OSD_OK, d) \<and> set (t_coll (tabs d)) = {}"
proof -
  have "db_clean (sample_db [EvBusy])" "tables_ok (tabs (sample_db [EvBusy]))"
    by (simp_all add: tables_ok_def)
  then show ?thesis
    using coll_copyoids_effect [of "sample_db [EvBusy]" "0x10000" "0x10001" "0x10002"]
    by (simp add: members_def) blast
qed

end
