(* ===== verification/Attr_Table.thy ===== *)
theory Attr_Table
  imports Obj_Table List_Entry
begin

text \<open>
  \<^verbatim>\<open>osd-target/attr.c\<close>, the part that works on the \<open>attr\<close> table: setting, deleting and
  retrieving attributes. Page and number are bound as signed 32-bit integers and read back as
  unsigned ones. A blob of length 0 reads as a null pointer. Output buffers come from the
  allocator, their address is a multiple of eight.
\<close>

section \<open>The operations\<close>

definition on_attr :: "db_context \<Rightarrow> 'a option \<Rightarrow> 'a option" where
  "on_attr dbc r = (if attr_tab dbc = Prepared then r else None)"

text \<open>\<open>sqlite3_bind_blob\<close> copies \<open>len\<close> bytes; a null pointer binds null.\<close>

definition blob_of :: "bytes option \<Rightarrow> u16 \<Rightarrow> bytes option option" where
  "blob_of val len = (case val of None \<Rightarrow> Some None | Some v \<Rightarrow> map_option Some (buf_get v 0 (unat len)))"

definition attr_row_of :: "u64 \<Rightarrow> u64 \<Rightarrow> u32 \<Rightarrow> u32 \<Rightarrow> bytes option \<Rightarrow> attr_row" where
  "attr_row_of pid oid page number v = \<lparr>a_pid = sint pid, a_oid = sint oid, a_page = sint page,
     a_number = sint number, a_value = v\<rparr>"

text \<open>\<open>_attr_set_attr\<close>.\<close>

definition attr_set_attr_raw ::
  "db_context \<Rightarrow> u64 \<Rightarrow> u64 \<Rightarrow> u32 \<Rightarrow> u32 \<Rightarrow> bytes option \<Rightarrow> u16 \<Rightarrow> (int \<times> db_context) option" where
  "attr_set_attr_raw dbc pid oid page number val len = on_attr dbc (do {
     v \<leftarrow> blob_of val len;
     run_dms (\<lambda>t. Some (t\<lparr>t_attr := replace_row attr_key (attr_row_of pid oid page number v) (t_attr t)\<rparr>)) dbc })"

definition attr_delete_attr :: "db_context \<Rightarrow> u64 \<Rightarrow> u64 \<Rightarrow> u32 \<Rightarrow> u32 \<Rightarrow> (int \<times> db_context) option" where
  "attr_delete_attr dbc pid oid page number = on_attr dbc (run_dms (\<lambda>t.
     Some (t\<lparr>t_attr := delete_rows (\<lambda>r. a_pid r = sint pid \<and> a_oid r = sint oid \<and>
       a_page r = sint page \<and> a_number r = sint number) (t_attr t)\<rparr>)) dbc)"

definition attr_delete_all :: "db_context \<Rightarrow> u64 \<Rightarrow> u64 \<Rightarrow> (int \<times> db_context) option" where
  "attr_delete_all dbc pid oid = on_attr dbc (run_dms (\<lambda>t.
     Some (t\<lparr>t_attr := delete_rows (\<lambda>r. a_pid r = sint pid \<and> a_oid r = sint oid) (t_attr t)\<rparr>)) dbc)"

definition column_bytes :: "bytes option \<Rightarrow> u16" where
  "column_bytes v = (case v of None \<Rightarrow> 0 | Some b \<Rightarrow> of_nat (length b))"

definition column_blob :: "bytes option \<Rightarrow> bytes option" where
  "column_blob v = (case v of None \<Rightarrow> None | Some b \<Rightarrow> if b = [] then None else Some b)"

definition attr_gather_attr ::
  "attr_row \<Rightarrow> bytes \<Rightarrow> nat \<Rightarrow> u32 \<Rightarrow> u64 \<Rightarrow> u8 \<Rightarrow> (int \<times> bytes) option" where
  "attr_gather_attr row m buf buflen oid listfmt =
     (let page = word_of_int (a_page row);
          number = word_of_int (a_number row);
          len = column_bytes (a_value row);
          val = column_blob (a_value row) in
      if listfmt = RTRVD_SET_ATTR_LIST then le_pack_attr 0 m buf buflen page number len val
      else if listfmt = RTRVD_CREATE_MULTIOBJ_LIST
      then le_multiobj_pack_attr 0 m buf buflen oid page number len val
      else Some (- EINVAL, m))"

definition attr_gather_val :: "attr_row \<Rightarrow> bytes \<Rightarrow> nat \<Rightarrow> u32 \<Rightarrow> (int \<times> bytes) option" where
  "attr_gather_val row m buf buflen =
     (let len = column_bytes (a_value row); val = column_blob (a_value row) in
      if buflen < ucast len then Some (- EINVAL, m)
      else do {
        b \<leftarrow> (case val of None \<Rightarrow> if len = 0 then Some [] else None | Some v \<Rightarrow> buf_get v 0 (unat len));
        m \<leftarrow> buf_put m buf b;
        Some (uint len, m)
      })"

definition attr_gather_dir_page ::
  "attr_row \<Rightarrow> bytes \<Rightarrow> nat \<Rightarrow> u32 \<Rightarrow> u64 \<Rightarrow> u32 \<Rightarrow> u8 \<Rightarrow> (int \<times> bytes) option" where
  "attr_gather_dir_page row m outdata outlen oid page listfmt =
     (let number = word_of_int (a_page row);
          len = column_bytes (a_value row);
          val = column_blob (a_value row) in
      if unat len \<noteq> ATTR_PAGE_ID_LEN then Some (- EINVAL, m)
      else if listfmt = RTRVD_SET_ATTR_LIST then le_pack_attr 0 m outdata outlen page number len val
      else if listfmt = RTRVD_CREATE_MULTIOBJ_LIST
      then le_multiobj_pack_attr 0 m outdata outlen oid page number len val
      else Some (- EINVAL, m))"

text \<open>
  The loop of \<open>exec_attr_rtrvl_stmt\<close>. \<open>gather\<close> is the function selected by the retrieval type; its
  length argument is truncated to 32 bits. The state is the position, the room, the length so far
  and whether a row was packed; \<open>inval\<close> is part of the result.
\<close>

function attr_rtrvl_loop ::
  "(attr_row \<Rightarrow> bytes \<Rightarrow> nat \<Rightarrow> u32 \<Rightarrow> (int \<times> bytes) option) \<Rightarrow> attr_row list \<Rightarrow> sq_event list
    \<Rightarrow> bytes \<Rightarrow> nat \<Rightarrow> u64 \<Rightarrow> u32 \<Rightarrow> bool
    \<Rightarrow> (sq_code \<times> sq_event list \<times> bytes \<times> u32 \<times> bool \<times> bool) option" where
  "attr_rtrvl_loop gather rows evs m outdata outlen len found =
     (case next_event EvOk evs of
        (EvOk, evs') \<Rightarrow> (case rows of
            [] \<Rightarrow> Some (SQLITE_DONE, evs', m, len, found, False)
          | row # rows' \<Rightarrow> do {
              (ret, m) \<leftarrow> gather row m outdata (ucast outlen);
              if ret > 0
              then attr_rtrvl_loop gather rows' evs' m (outdata + nat ret) (outlen - word_of_int ret)
                     (len + word_of_int ret) True
              else Some (SQLITE_ROW, evs', m, len, found, ret = - EINVAL) })
      | (EvBusy, evs') \<Rightarrow>
          (if evs = [] then None else attr_rtrvl_loop gather rows evs' m outdata outlen len found)
      | (EvSchema, evs') \<Rightarrow> Some (SQLITE_SCHEMA, evs', m, len, found, False)
      | (EvError, evs') \<Rightarrow> Some (SQLITE_ERROR, evs', m, len, found, False))"
  by pat_completeness auto
termination
proof (relation "measure (\<lambda>(g, rows, evs, _). length rows + length evs)", goal_cases)
  case (2 g rows evs)
  then show ?case by (cases evs) auto
next
  case (3 g rows evs)
  then show ?case by (cases evs) auto
qed simp

text \<open>
  \<open>exec_attr_rtrvl_stmt\<close>. Its callers pass the context where it expects the handle: reporting a
  failed bind reads through the wrong pointer, everything else reaches the context.
\<close>

definition exec_attr_rtrvl_stmt ::
  "db_context \<Rightarrow> attr_row list \<Rightarrow> bool \<Rightarrow> (attr_row \<Rightarrow> bytes \<Rightarrow> nat \<Rightarrow> u32 \<Rightarrow> (int \<times> bytes) option)
    \<Rightarrow> u64 \<Rightarrow> bytes \<Rightarrow> nat \<Rightarrow> (int \<times> (bytes \<times> u32) \<times> db_context) option" where
  "exec_attr_rtrvl_stmt dbc rows bound gather outlen m outdata =
     (if \<not> bound then None
      else do {
        (code, evs, m, len, found, inval) \<leftarrow>
          attr_rtrvl_loop gather (scan_attrs dbc rows) (step_evs dbc) m outdata outlen 0 False;
        (ret, dbc) \<leftarrow> db_reset_stmt (dbc\<lparr>step_evs := evs\<rparr>) bound code;
        Some (if inval then (- EINVAL, (m, 0), dbc)
              else if ret = OSD_OK then (if found then OSD_OK else - ENOENT, (m, len), dbc)
              else (ret, (m, 0), dbc)) })"

text \<open>The body the retrieval functions share: bind, retrieve, repeat.\<close>

definition run_attrs ::
  "(tables \<Rightarrow> attr_row list) \<Rightarrow> (attr_row \<Rightarrow> bytes \<Rightarrow> nat \<Rightarrow> u32 \<Rightarrow> (int \<times> bytes) option)
    \<Rightarrow> u64 \<Rightarrow> nat \<Rightarrow> bytes \<times> u32 \<Rightarrow> db_context \<Rightarrow> (int \<times> (bytes \<times> u32) \<times> db_context) option" where
  "run_attrs query gather outlen outdata = goto_repeat (\<lambda>(m, used) dbc. do {
     let (bound, dbc) = sq_bind dbc;
     exec_attr_rtrvl_stmt dbc (query (tabs dbc)) bound gather outlen m outdata })"

definition attr_rows :: "u64 \<Rightarrow> u64 \<Rightarrow> (attr_row \<Rightarrow> bool) \<Rightarrow> tables \<Rightarrow> attr_row list" where
  "attr_rows pid oid P t = filter (\<lambda>r. a_pid r = sint pid \<and> a_oid r = sint oid \<and> P r) (t_attr t)"

text \<open>\<open>_attr_get_attr\<close>.\<close>

definition attr_get_attr_raw ::
  "db_context \<Rightarrow> u64 \<Rightarrow> u64 \<Rightarrow> u32 \<Rightarrow> u32 \<Rightarrow> u64 \<Rightarrow> nat \<Rightarrow> u8 \<Rightarrow> bytes \<times> u32
    \<Rightarrow> (int \<times> (bytes \<times> u32) \<times> db_context) option" where
  "attr_get_attr_raw dbc pid oid page number outlen outdata listfmt out = on_attr dbc (run_attrs
     (attr_rows pid oid (\<lambda>r. a_page r = sint page \<and> a_number r = sint number))
     (\<lambda>row m buf buflen. attr_gather_attr row m buf buflen oid listfmt) outlen outdata out dbc)"

definition attr_get_val ::
  "db_context \<Rightarrow> u64 \<Rightarrow> u64 \<Rightarrow> u32 \<Rightarrow> u32 \<Rightarrow> u64 \<Rightarrow> nat \<Rightarrow> bytes \<times> u32
    \<Rightarrow> (int \<times> (bytes \<times> u32) \<times> db_context) option" where
  "attr_get_val dbc pid oid page number outlen outdata out = on_attr dbc (run_attrs
     (attr_rows pid oid (\<lambda>r. a_page r = sint page \<and> a_number r = sint number))
     attr_gather_val outlen outdata out dbc)"

definition attr_get_page_as_list ::
  "db_context \<Rightarrow> u64 \<Rightarrow> u64 \<Rightarrow> u32 \<Rightarrow> u64 \<Rightarrow> nat \<Rightarrow> u8 \<Rightarrow> bytes \<times> u32
    \<Rightarrow> (int \<times> (bytes \<times> u32) \<times> db_context) option" where
  "attr_get_page_as_list dbc pid oid page outlen outdata listfmt out = on_attr dbc (run_attrs
     (attr_rows pid oid (\<lambda>r. a_page r = sint page))
     (\<lambda>row m buf buflen. attr_gather_attr row m buf buflen oid listfmt) outlen outdata out dbc)"

definition attr_get_for_all_pages ::
  "db_context \<Rightarrow> u64 \<Rightarrow> u64 \<Rightarrow> u32 \<Rightarrow> u64 \<Rightarrow> nat \<Rightarrow> u8 \<Rightarrow> bytes \<times> u32
    \<Rightarrow> (int \<times> (bytes \<times> u32) \<times> db_context) option" where
  "attr_get_for_all_pages dbc pid oid number outlen outdata listfmt out = on_attr dbc (run_attrs
     (attr_rows pid oid (\<lambda>r. a_number r = sint number))
     (\<lambda>row m buf buflen. attr_gather_attr row m buf buflen oid listfmt) outlen outdata out dbc)"

definition attr_get_all_attrs ::
  "db_context \<Rightarrow> u64 \<Rightarrow> u64 \<Rightarrow> u64 \<Rightarrow> nat \<Rightarrow> u8 \<Rightarrow> bytes \<times> u32
    \<Rightarrow> (int \<times> (bytes \<times> u32) \<times> db_context) option" where
  "attr_get_all_attrs dbc pid oid outlen outdata listfmt out = on_attr dbc (run_attrs
     (attr_rows pid oid (\<lambda>r. True))
     (\<lambda>row m buf buflen. attr_gather_attr row m buf buflen oid listfmt) outlen outdata out dbc)"

text \<open>The 40 bytes of an unidentified page.\<close>

definition unid_page :: bytes where
  "unid_page = map of_char ''        unidentified attributes page   '' @ [0]"

text \<open>
  The directory query: every page of the object without a name attribute (number 0) with the
  unidentified text, and the name attributes of the others.
\<close>

definition dir_rows :: "u64 \<Rightarrow> u64 \<Rightarrow> tables \<Rightarrow> attr_row list" where
  "dir_rows pid oid t =
     (let named = attr_rows pid oid (\<lambda>r. a_number r = 0) t;
          pages = remdups (map a_page (attr_rows pid oid (\<lambda>r. True) t)) in
      map (\<lambda>p. \<lparr>a_pid = sint pid, a_oid = sint oid, a_page = p, a_number = 0, a_value = Some unid_page\<rparr>)
        (filter (\<lambda>p. p \<notin> a_page ` set named) pages) @ named)"

definition attr_get_dir_page ::
  "db_context \<Rightarrow> u64 \<Rightarrow> u64 \<Rightarrow> u32 \<Rightarrow> u64 \<Rightarrow> nat \<Rightarrow> u8 \<Rightarrow> bytes \<times> u32
    \<Rightarrow> (int \<times> (bytes \<times> u32) \<times> db_context) option" where
  "attr_get_dir_page dbc pid oid page outlen outdata listfmt out = on_attr dbc
     (if page \<noteq> USEROBJECT_DIR_PG \<and> page \<noteq> COLLECTION_DIR_PG \<and> page \<noteq> PARTITION_DIR_PG \<and>
         page \<noteq> ROOT_DIR_PG then Some (- EINVAL, out, dbc)
      else run_attrs (dir_rows pid oid)
        (\<lambda>row m buf buflen. attr_gather_dir_page row m buf buflen oid page listfmt) outlen outdata out dbc)"

definition attr_get_conversion ::
  "db_context \<Rightarrow> u64 \<Rightarrow> u64 \<Rightarrow> u32 \<Rightarrow> u32 \<Rightarrow> u64 \<Rightarrow> nat \<Rightarrow> u8 \<Rightarrow> bytes \<times> u32
    \<Rightarrow> (int \<times> (bytes \<times> u32) \<times> db_context) option" where
  "attr_get_conversion dbc pid oid page number outlen outdata listfmt out =
     attr_get_attr_raw dbc pid oid page number outlen outdata listfmt out"

definition attr_set_conversion ::
  "db_context \<Rightarrow> u64 \<Rightarrow> u64 \<Rightarrow> u32 \<Rightarrow> u32 \<Rightarrow> bytes option \<Rightarrow> u16 \<Rightarrow> (int \<times> db_context) option" where
  "attr_set_conversion dbc pid oid page number val len =
     attr_set_attr_raw dbc pid oid page number val len"

section \<open>Retrieval as a list: lemmas\<close>

lemma on_attr_good [simp]: "db_good dbc \<Longrightarrow> on_attr dbc r = r"
  by (simp add: on_attr_def db_good_def)

definition value_ok :: "bytes option \<Rightarrow> bool" where
  "value_ok v = (case v of None \<Rightarrow> True | Some b \<Rightarrow> length b \<le> 65535)"

text \<open>Every value was set with a 16-bit length.\<close>

definition attr_sizes :: "tables \<Rightarrow> bool" where
  "attr_sizes t \<longleftrightarrow> (\<forall>r \<in> set (t_attr t). value_ok (a_value r))"

definition row_entry :: "nat \<Rightarrow> attr_row \<Rightarrow> bytes" where
  "row_entry room r = entry_bytes (word_of_int (a_page r)) (word_of_int (a_number r))
     (column_bytes (a_value r)) (packed_value (room - 16) (column_bytes (a_value r)) (column_blob (a_value r)))"

text \<open>The entries that fit into \<open>room\<close> bytes; the last one may be cut.\<close>

fun packed_rows :: "nat \<Rightarrow> attr_row list \<Rightarrow> bytes" where
  "packed_rows room [] = []"
| "packed_rows room (r # rs) =
     (if room < 16 then []
      else row_entry room r @ packed_rows (room - length (row_entry room r)) rs)"

lemma column_blob_length:
  "value_ok v \<Longrightarrow> column_blob v = Some b \<Longrightarrow> length b = unat (column_bytes v)"
  by (auto simp: value_ok_def column_blob_def column_bytes_def unsigned_of_nat take_bit_nat_eq_self
      split: option.splits if_splits)

lemma row_entry_length:
  assumes "16 \<le> room" and "room mod 8 = 0" and "value_ok (a_value r)"
  shows "length (row_entry room r) mod 8 = 0" and "16 \<le> length (row_entry room r)"
    and "length (row_entry room r) \<le> room"
proof -
  let ?v = "packed_value (room - 16) (column_bytes (a_value r)) (column_blob (a_value r))"
  have l: "length (row_entry room r) = 16 + round8 (length ?v)"
    by (simp add: row_entry_def entry_bytes_length)
  have "length ?v \<le> room - 16"
    using column_blob_length [OF assms(3)] by (intro packed_value_length) simp
  moreover have "(room - 16) mod 8 = 0" using assms(1,2) by presburger
  ultimately have "round8 (length ?v) \<le> room - 16" by (rule round8_mono)
  then show "length (row_entry room r) \<le> room" using assms(1) l by simp
  show "length (row_entry room r) mod 8 = 0" unfolding l using round8_dvd [of "length ?v"] by presburger
  show "16 \<le> length (row_entry room r)" unfolding l by simp
qed

lemma packed_rows_length:
  "room mod 8 = 0 \<Longrightarrow> \<forall>r \<in> set rows. value_ok (a_value r) \<Longrightarrow>
    length (packed_rows room rows) \<le> room \<and> length (packed_rows room rows) mod 8 = 0"
proof (induction room rows rule: packed_rows.induct)
  case (2 room r rs)
  show ?case
  proof (cases "room < 16")
    case False
    let ?n = "length (row_entry room r)"
    have e: "?n mod 8 = 0" "?n \<le> room"
      using row_entry_length [of room r] False "2.prems" by simp_all
    then have m: "(room - ?n) mod 8 = 0" using "2.prems"(1) by presburger
    have "length (packed_rows (room - ?n) rs) \<le> room - ?n \<and> length (packed_rows (room - ?n) rs) mod 8 = 0"
      using "2.IH" [OF False m] "2.prems"(2) by simp
    then show ?thesis using False e by (simp; presburger)
  qed simp
qed simp

lemma attr_gather_list_spec:
  assumes "buf mod 8 = 0" and "unat buflen mod 8 = 0" and "buf + unat buflen \<le> length m"
    and "value_ok (a_value r)"
  shows "if unat buflen < 16
    then attr_gather_attr r m buf buflen oid RTRVD_SET_ATTR_LIST = Some (- EOVERFLOW, m)
    else \<exists>m'. attr_gather_attr r m buf buflen oid RTRVD_SET_ATTR_LIST
        = Some (int (length (row_entry (unat buflen) r)), m') \<and>
      buf_put m buf (row_entry (unat buflen) r) = Some m'"
proof (cases "unat buflen < 16")
  case True
  with assms show ?thesis by (simp add: attr_gather_attr_def le_pack_attr_bad and_7)
next
  case False
  have l: "length (row_entry (unat buflen) r) \<le> unat buflen"
    using row_entry_length [of "unat buflen" r] assms(2,4) False by simp
  obtain m' where m': "buf_put m buf (row_entry (unat buflen) r) = Some m'"
    using mem.put_some [of buf "row_entry (unat buflen) r" m] assms(3) l by auto
  have "le_pack_attr 0 m buf buflen (word_of_int (a_page r)) (word_of_int (a_number r))
      (column_bytes (a_value r)) (column_blob (a_value r))
    = map_option (Pair (int (length (row_entry (unat buflen) r)))) (buf_put m buf (row_entry (unat buflen) r))"
    using assms(1,2) False column_blob_length [OF assms(4)]
    by (subst le_pack_attr_put) (auto simp: and_7 row_entry_def entry_bytes_length)
  then show ?thesis using False m' by (simp add: attr_gather_attr_def)
qed

declare attr_rtrvl_loop.simps [simp del]

definition attr_end :: "sq_event list \<Rightarrow> sq_event list \<Rightarrow> sq_code \<Rightarrow> bool \<Rightarrow> bool" where
  "attr_end evs evs' code done_rows \<longleftrightarrow> set evs' \<subseteq> set evs \<and>
     ((code = SQLITE_DONE \<or> code = SQLITE_ROW) \<and> done_rows \<or>
      code = SQLITE_SCHEMA \<and> length evs' < length evs \<or> code = SQLITE_ERROR \<and> EvError \<in> set evs)"

lemma attr_end_mono:
  "attr_end evs1 evs' code a \<Longrightarrow> set evs1 \<subseteq> set evs \<Longrightarrow> length evs1 \<le> length evs \<Longrightarrow> (a \<Longrightarrow> b)
    \<Longrightarrow> attr_end evs evs' code b"
  unfolding attr_end_def by (meson less_le_trans subsetD subset_trans)

abbreviation list_gather :: "u64 \<Rightarrow> attr_row \<Rightarrow> bytes \<Rightarrow> nat \<Rightarrow> u32 \<Rightarrow> (int \<times> bytes) option" where
  "list_gather oid \<equiv> (\<lambda>row m buf buflen. attr_gather_attr row m buf buflen oid RTRVD_SET_ATTR_LIST)"

text \<open>What changes lies between \<open>lo\<close> and \<open>hi\<close>.\<close>

definition same_outside :: "nat \<Rightarrow> nat \<Rightarrow> bytes \<Rightarrow> bytes \<Rightarrow> bool" where
  "same_outside lo hi m m' \<longleftrightarrow> length m' = length m \<and>
     (\<forall>i n. i + n \<le> lo \<or> hi \<le> i \<longrightarrow> buf_get m' i n = buf_get m i n)"

lemma same_outside_refl [simp]: "same_outside lo hi m m"
  by (simp add: same_outside_def)

lemma same_outside_trans: "same_outside lo hi a b \<Longrightarrow> same_outside lo hi b c \<Longrightarrow> same_outside lo hi a c"
  by (simp add: same_outside_def)

lemma same_outside_put:
  "buf_put m off bs = Some m' \<Longrightarrow> lo \<le> off \<Longrightarrow> off + length bs \<le> hi \<Longrightarrow> same_outside lo hi m m'"
  unfolding same_outside_def by (auto simp: buf_put_length intro: buf_get_put_apart)

lemma same_outside_mono: "same_outside lo hi m m' \<Longrightarrow> lo' \<le> lo \<Longrightarrow> hi \<le> hi' \<Longrightarrow> same_outside lo' hi' m m'"
  by (simp add: same_outside_def)

lemma attr_rtrvl_loop_spec:
  assumes "outdata mod 8 = 0" and "unat outlen mod 8 = 0" and "outdata + unat outlen \<le> length m"
    and "unat len + unat outlen < 2 ^ 32" and "\<forall>r \<in> set rows. value_ok (a_value r)"
  shows "\<exists>code evs' m' len' found'.
    attr_rtrvl_loop (list_gather oid) rows evs m outdata outlen len found
      = Some (code, evs', m', len', found', False) \<and>
    same_outside outdata (outdata + unat outlen) m m' \<and>
    attr_end evs evs' code (buf_put m outdata (packed_rows (unat outlen) rows) = Some m' \<and>
      unat len' = unat len + length (packed_rows (unat outlen) rows) \<and>
      found' = (found \<or> packed_rows (unat outlen) rows \<noteq> []))"
  using assms
proof (induction "length rows + length evs" arbitrary: rows evs m outdata outlen len found rule: less_induct)
  case less
  obtain ev evs1 where ev: "next_event EvOk evs = (ev, evs1)" by (cases "next_event EvOk evs")
  have sub: "set evs1 \<subseteq> set evs" "length evs1 \<le> length evs" "ev \<noteq> EvOk \<Longrightarrow> ev \<in> set evs \<and> length evs1 < length evs"
    using ev by (cases evs; auto)+
  note lf = attr_rtrvl_loop.simps
  show ?case
  proof (cases ev)
    case EvBusy
    then have "evs \<noteq> []" using sub by auto
    then have step: "attr_rtrvl_loop (list_gather oid) rows evs m outdata outlen len found
        = attr_rtrvl_loop (list_gather oid) rows evs1 m outdata outlen len found"
      using ev EvBusy by (subst lf) simp
    obtain code evs' m' len' found' where r:
      "attr_rtrvl_loop (list_gather oid) rows evs1 m outdata outlen len found = Some (code, evs', m', len', found', False)"
      "same_outside outdata (outdata + unat outlen) m m'"
      "attr_end evs1 evs' code (buf_put m outdata (packed_rows (unat outlen) rows) = Some m' \<and>
      unat len' = unat len + length (packed_rows (unat outlen) rows) \<and>
      found' = (found \<or> packed_rows (unat outlen) rows \<noteq> []))"
      using less.hyps [of rows evs1 outdata outlen m len found] less.prems sub EvBusy by auto
    show ?thesis unfolding step using r(1,2) attr_end_mono [OF r(3) sub(1,2)] by blast
  next
    case EvSchema
    then show ?thesis using ev sub by (subst lf) (simp add: attr_end_def)
  next
    case EvError
    then show ?thesis using ev sub by (subst lf) (simp add: attr_end_def)
  next
    case EvOk
    show ?thesis
    proof (cases rows)
      case Nil
      then show ?thesis
        using ev EvOk sub less.prems(3) by (subst lf) (simp add: attr_end_def buf_put_def)
    next
      case (Cons r rows1)
      have b: "unat (ucast outlen :: u32) = unat outlen"
        using less.prems(4) by (simp add: unsigned_ucast_eq take_bit_nat_eq_self)
      have g: "if unat outlen < 16
        then attr_gather_attr r m outdata (ucast outlen) oid RTRVD_SET_ATTR_LIST = Some (- EOVERFLOW, m)
        else \<exists>m'. attr_gather_attr r m outdata (ucast outlen) oid RTRVD_SET_ATTR_LIST
            = Some (int (length (row_entry (unat outlen) r)), m') \<and>
          buf_put m outdata (row_entry (unat outlen) r) = Some m'"
        using attr_gather_list_spec [of outdata "ucast outlen" m r oid] less.prems Cons unfolding b by simp
      show ?thesis
      proof (cases "unat outlen < 16")
        case True
        then show ?thesis
          using g ev EvOk Cons sub less.prems(3)
          by (subst lf) (simp add: attr_end_def osd_consts buf_put_def)
      next
        case False
        let ?e = "row_entry (unat outlen) r"
        obtain m1 where m1: "attr_gather_attr r m outdata (ucast outlen) oid RTRVD_SET_ATTR_LIST
            = Some (int (length ?e), m1)" "buf_put m outdata ?e = Some m1"
          using g False by auto
        have el: "length ?e mod 8 = 0" "16 \<le> length ?e" "length ?e \<le> unat outlen"
          using row_entry_length [of "unat outlen" r] False less.prems Cons by simp_all
        have wi: "unat (of_nat (length ?e) :: u64) = length ?e" "unat (of_nat (length ?e) :: u32) = length ?e"
          using el(3) less.prems(4) by (simp_all add: unsigned_of_nat take_bit_nat_eq_self)
        have ol: "unat (outlen - of_nat (length ?e)) = unat outlen - length ?e"
          using el(3) wi by (simp add: unat_sub word_le_nat_alt)
        have ll: "unat (len + of_nat (length ?e)) = unat len + length ?e"
          using el(3) less.prems(4) wi by (simp add: unat_word_ariths)
        have step: "attr_rtrvl_loop (list_gather oid) rows evs m outdata outlen len found
            = attr_rtrvl_loop (list_gather oid) rows1 evs1 m1 (outdata + length ?e)
                (outlen - of_nat (length ?e)) (len + of_nat (length ?e)) True"
          using ev EvOk Cons m1(1) el(2) by (subst lf) (auto split: if_splits)
        have pr: "(outdata + length ?e) mod 8 = 0" "(unat outlen - length ?e) mod 8 = 0"
          using less.prems(1,2) el(1,3) by presburger+
        obtain code evs' m' len' found' where r':
          "attr_rtrvl_loop (list_gather oid) rows1 evs1 m1 (outdata + length ?e)
             (outlen - of_nat (length ?e)) (len + of_nat (length ?e)) True = Some (code, evs', m', len', found', False)"
          "same_outside (outdata + length ?e) (outdata + length ?e + (unat outlen - length ?e)) m1 m'"
          "attr_end evs1 evs' code (buf_put m1 (outdata + length ?e) (packed_rows (unat outlen - length ?e) rows1) = Some m' \<and>
            unat len' = unat len + length ?e + length (packed_rows (unat outlen - length ?e) rows1) \<and> found')"
          using less.hyps [of rows1 evs1 "outdata + length ?e" "outlen - of_nat (length ?e)" m1
              "len + of_nat (length ?e)" True] less.prems sub(2) Cons pr el(3) buf_put_length [OF m1(2)]
          unfolding ol ll by auto
        have "same_outside outdata (outdata + unat outlen) m m'"
          using same_outside_trans [OF same_outside_put [OF m1(2)] same_outside_mono [OF r'(2)]] el(3) by simp
        moreover have "attr_end evs evs' code (buf_put m outdata (packed_rows (unat outlen) rows) = Some m' \<and>
          unat len' = unat len + length (packed_rows (unat outlen) rows) \<and>
          found' = (found \<or> packed_rows (unat outlen) rows \<noteq> []))"
          by (rule attr_end_mono [OF r'(3) sub(1,2)])
            (use False Cons m1(2) el(2) in \<open>auto simp: buf_put_append\<close>)
        ultimately show ?thesis unfolding step using r'(1) by blast
      qed
    qed
  qed
qed

section \<open>The retrieval functions: lemmas\<close>

text \<open>
  A retrieval returns once the loop over the rows does: \<open>R\<close> relates the buffer a pass over the rows
  started from, the buffer it left, the length and the two flags.
\<close>

lemma run_attrs_rule:
  assumes good: "db_good dbc" and binds: "\<forall>b \<in> set (bind_evs dbc). b"
    and loop: "\<And>m1 evs. length m1 = length m \<Longrightarrow> \<exists>code evs' m' len found inval.
      attr_rtrvl_loop gather (scan_attrs dbc (query (tabs dbc))) evs m1 outdata outlen 0 False
        = Some (code, evs', m', len, found, inval) \<and> same_outside lo hi m1 m' \<and>
      attr_end evs evs' code (R m1 m' len found inval) \<and> (inval \<longrightarrow> code = SQLITE_ROW)"
  shows "\<exists>ret m' used dbc'. run_attrs query gather outlen outdata (m, u) dbc = Some (ret, (m', used), dbc') \<and>
    db_good dbc' \<and> db_frame dbc dbc' \<and> tabs dbc' = tabs dbc \<and> same_outside lo hi m m' \<and>
    (ret = OSD_ERROR \<and> EvError \<in> set (step_evs dbc) \<or>
     (\<exists>m1 len found inval. length m1 = length m \<and> R m1 m' len found inval \<and>
       (ret, used) = (if inval then (- EINVAL, 0) else if found then (OSD_OK, len) else (- ENOENT, len))))"
proof -
  let ?body = "\<lambda>(m, used) dbc. do { let (bound, dbc) = sq_bind dbc;
     exec_attr_rtrvl_stmt dbc (query (tabs dbc)) bound gather outlen m outdata }"
  let ?Inv = "\<lambda>o' d. db_good d \<and> db_frame dbc d \<and> tabs d = tabs dbc \<and> same_outside lo hi m (fst o')"
  let ?Q = "\<lambda>ret o' d. db_good d \<and> db_frame dbc d \<and> tabs d = tabs dbc \<and> same_outside lo hi m (fst o') \<and>
    (ret = OSD_ERROR \<and> EvError \<in> set (step_evs dbc) \<or>
     (\<exists>m1 len found inval. length m1 = length m \<and> R m1 (fst o') len found inval \<and>
       (ret, snd o') = (if inval then (- EINVAL, 0) else if found then (OSD_OK, len) else (- ENOENT, len))))"
  have "\<exists>ret o' d'. goto_repeat ?body (m, u) dbc = Some (ret, o', d') \<and> ?Q ret o' d'"
  proof (rule goto_repeat_rule [where Inv = ?Inv])
    fix o' :: "bytes \<times> u32" and d assume inv: "?Inv o' d"
    obtain m1 u1 where o': "o' = (m1, u1)" by (cases o')
    obtain ok d1 where b: "sq_bind d = (ok, d1)" by (cases "sq_bind d")
    note bf = sq_bind_frame [OF b]
    have ok: "ok"
      using b inv binds by (cases "bind_evs d") (auto simp: sq_bind_def db_frame_def)
    have g1: "db_good d1" and t1: "tabs d1 = tabs dbc" and f1: "db_frame dbc d1"
      using inv bf by (auto intro: db_frame_trans)
    have s1: "scan_attrs d1 = scan_attrs dbc" using f1 by (simp add: db_frame_def)
    have l1: "length m1 = length m" and so: "same_outside lo hi m m1"
      using inv o' by (simp_all add: same_outside_def)
    obtain code evs' m' len found inval where l:
      "attr_rtrvl_loop gather (scan_attrs dbc (query (tabs dbc))) (step_evs d1) m1 outdata outlen 0 False
        = Some (code, evs', m', len, found, inval)" "same_outside lo hi m1 m'"
      "attr_end (step_evs d1) evs' code (R m1 m' len found inval)" "inval \<longrightarrow> code = SQLITE_ROW"
      using loop [OF l1, of "step_evs d1"] by blast
    let ?d = "d1\<lparr>step_evs := evs'\<rparr>"
    have g: "db_good ?d" "db_frame d1 ?d"
      using g1 l(3) by (auto simp: db_good_def db_frame_def attr_end_def)
    obtain r d2 where r: "db_reset_stmt ?d True code = Some (r, d2)" "db_good d2" "tabs d2 = tabs ?d"
      "step_evs d2 = step_evs ?d" "db_frame ?d d2"
      "r = (if \<not> True then OSD_ERROR else if sqlite3_reset code = SQLITE_OK then OSD_OK
        else if sqlite3_reset code = SQLITE_SCHEMA then OSD_REPEAT else OSD_ERROR)"
      by (rule db_reset_stmt_ok [OF g(1)])
    let ?res = "if inval then (- EINVAL, (m', 0::u32), d2)
       else if r = OSD_OK then (if found then OSD_OK else - ENOENT, (m', len), d2) else (r, (m', 0), d2)"
    have body: "?body o' d = Some ?res"
      using l(1) r(1) by (simp add: b o' t1 ok s1 exec_attr_rtrvl_stmt_def)
    have fr: "db_frame dbc d2" using db_frame_trans [OF f1 db_frame_trans [OF g(2) r(5)]] .
    have sub: "set (step_evs d1) \<subseteq> set (step_evs dbc)" using f1 by (simp add: db_frame_def)
    have so': "same_outside lo hi m m'" using same_outside_trans [OF so l(2)] .
    have rep: "fst ?res = OSD_REPEAT \<longleftrightarrow> r = OSD_REPEAT \<and> \<not> inval"
      by (auto simp: osd_consts)
    show "\<exists>ret out' dbc'. ?body o' d = Some (ret, out', dbc') \<and>
      (if ret = OSD_REPEAT then ?Inv out' dbc' \<and> length (step_evs dbc') < length (step_evs d)
       else ?Q ret out' dbc')"
    proof (cases "r = OSD_REPEAT")
      case True
      then have c: "code = SQLITE_SCHEMA" using r(6) by (auto simp: sqlite3_reset_def split: if_splits)
      with l(4) have "\<not> inval" by auto
      moreover have "length evs' < length (step_evs d)"
        using l(3) c bf(4) by (simp add: attr_end_def)
      ultimately show ?thesis
        unfolding body using True r(2,3,4) fr t1 so' by simp
    next
      case False
      have "r = OSD_OK \<and> R m1 m' len found inval \<or> r = OSD_ERROR \<and> \<not> inval \<and> EvError \<in> set (step_evs dbc)"
        using False r(6) l(3,4) sub by (auto simp: attr_end_def sqlite3_reset_def split: if_splits)
      then have "?Q (fst ?res) (fst (snd ?res)) (snd (snd ?res))"
      proof
        assume ok: "r = OSD_OK \<and> R m1 m' len found inval"
        have "(fst ?res, snd (fst (snd ?res)))
            = (if inval then (- EINVAL, 0) else if found then (OSD_OK, len) else (- ENOENT, len))"
          "fst (fst (snd ?res)) = m'" "snd (snd ?res) = d2"
          using ok by simp_all
        then show ?thesis using ok r(2,3) fr t1 so' l1 by (intro conjI disjI2 exI [of _ m1] exI [of _ len] exI [of _ found] exI [of _ inval]) (simp_all split del: if_split)
      next
        assume "r = OSD_ERROR \<and> \<not> inval \<and> EvError \<in> set (step_evs dbc)"
        then show ?thesis using r(2,3) fr t1 so' by simp
      qed
      moreover obtain r1 o1 d3 where res: "?res = (r1, o1, d3)" by (metis prod.exhaust)
      moreover have "r1 \<noteq> OSD_REPEAT" using rep False unfolding res by simp
      ultimately show ?thesis unfolding body res by simp
    qed
  qed (use good in simp)
  then show ?thesis by (auto simp: run_attrs_def)
qed

text \<open>What a retrieval as a list leaves behind.\<close>

definition attrs_listed ::
  "attr_row list \<Rightarrow> u64 \<Rightarrow> bytes \<Rightarrow> nat \<Rightarrow> sq_event list \<Rightarrow> int \<Rightarrow> bytes \<Rightarrow> u32 \<Rightarrow> bool" where
  "attrs_listed rows outlen m outdata evs ret m' used \<longleftrightarrow>
     same_outside outdata (outdata + unat outlen) m m' \<and>
     (ret = OSD_ERROR \<and> EvError \<in> set evs \<or>
      (\<exists>rows'. mset rows' = mset rows \<and>
        (let l = packed_rows (unat outlen) rows' in
         ret = (if l = [] then - ENOENT else OSD_OK) \<and> unat used = length l \<and>
         buf_get m' outdata (length l) = Some l)))"

lemma run_attrs_list:
  assumes "db_good dbc" and "\<forall>b \<in> set (bind_evs dbc). b" and "engine_ok dbc"
    and "outdata mod 8 = 0" and "unat outlen mod 8 = 0" and "outdata + unat outlen \<le> length m"
    and "unat outlen < 2 ^ 32" and "\<forall>r \<in> set (query (tabs dbc)). value_ok (a_value r)"
  shows "\<exists>ret m' used dbc'. run_attrs query (list_gather oid) outlen outdata (m, u) dbc
      = Some (ret, (m', used), dbc') \<and> db_good dbc' \<and> db_frame dbc dbc' \<and> tabs dbc' = tabs dbc \<and>
    attrs_listed (query (tabs dbc)) outlen m outdata (step_evs dbc) ret m' used"
proof -
  let ?rows = "scan_attrs dbc (query (tabs dbc))"
  have ms: "mset ?rows = mset (query (tabs dbc))" using assms(3) by (simp add: engine_ok_def)
  then have vs: "\<forall>r \<in> set ?rows. value_ok (a_value r)" using assms(8) by (metis mset_eq_setD)
  let ?R = "\<lambda>m1 m' (len :: u32) found inval. \<not> inval \<and> (buf_put m1 outdata (packed_rows (unat outlen) ?rows) = Some m' \<and>
      unat len = length (packed_rows (unat outlen) ?rows) \<and>
      found = (packed_rows (unat outlen) ?rows \<noteq> []))"
  have "\<exists>ret m' used dbc'. run_attrs query (list_gather oid) outlen outdata (m, u) dbc
      = Some (ret, (m', used), dbc') \<and>
    db_good dbc' \<and> db_frame dbc dbc' \<and> tabs dbc' = tabs dbc \<and>
    same_outside outdata (outdata + unat outlen) m m' \<and>
    (ret = OSD_ERROR \<and> EvError \<in> set (step_evs dbc) \<or>
     (\<exists>m1 len found inval. length m1 = length m \<and> ?R m1 m' len found inval \<and>
       (ret, used) = (if inval then (- EINVAL, 0) else if found then (OSD_OK, len) else (- ENOENT, len))))"
  proof (rule run_attrs_rule [OF assms(1,2)])
    fix m1 :: bytes and evs assume l: "length m1 = length m"
    obtain code evs' m' len found where
      "attr_rtrvl_loop (list_gather oid) ?rows evs m1 outdata outlen 0 False
        = Some (code, evs', m', len, found, False)"
      "same_outside outdata (outdata + unat outlen) m1 m'"
      "attr_end evs evs' code (buf_put m1 outdata (packed_rows (unat outlen) ?rows) = Some m' \<and>
        unat len = unat (0::u32) + length (packed_rows (unat outlen) ?rows) \<and>
        found = (False \<or> packed_rows (unat outlen) ?rows \<noteq> []))"
      using attr_rtrvl_loop_spec [of outdata outlen m1 0 ?rows oid evs False] assms(4-7) vs l by auto
    then show "\<exists>code evs' m' len found inval.
        attr_rtrvl_loop (list_gather oid) ?rows evs m1 outdata outlen 0 False
          = Some (code, evs', m', len, found, inval) \<and>
        same_outside outdata (outdata + unat outlen) m1 m' \<and>
        attr_end evs evs' code (?R m1 m' len found inval) \<and> (inval \<longrightarrow> code = SQLITE_ROW)"
      by (intro exI [of _ code] exI [of _ evs'] exI [of _ m'] exI [of _ len] exI [of _ found] exI [of _ False]) simp
  qed
  then obtain ret m' used dbc' where r: "run_attrs query (list_gather oid) outlen outdata (m, u) dbc
      = Some (ret, (m', used), dbc')" "db_good dbc'" "db_frame dbc dbc'" "tabs dbc' = tabs dbc"
    "same_outside outdata (outdata + unat outlen) m m'"
    "ret = OSD_ERROR \<and> EvError \<in> set (step_evs dbc) \<or>
     (\<exists>m1 len found inval. length m1 = length m \<and> ?R m1 m' len found inval \<and>
       (ret, used) = (if inval then (- EINVAL, 0) else if found then (OSD_OK, len) else (- ENOENT, len)))"
    by blast
  have "attrs_listed (query (tabs dbc)) outlen m outdata (step_evs dbc) ret m' used"
    unfolding attrs_listed_def
  proof (intro conjI)
    show "ret = OSD_ERROR \<and> EvError \<in> set (step_evs dbc) \<or>
      (\<exists>rows'. mset rows' = mset (query (tabs dbc)) \<and>
        (let l = packed_rows (unat outlen) rows' in
         ret = (if l = [] then - ENOENT else OSD_OK) \<and> unat used = length l \<and>
         buf_get m' outdata (length l) = Some l))"
    proof (cases "ret = OSD_ERROR \<and> EvError \<in> set (step_evs dbc)")
      case False
      let ?l = "packed_rows (unat outlen) ?rows"
      obtain m1 where m1: "buf_put m1 outdata ?l = Some m'" "unat used = length ?l"
        "ret = (if ?l = [] then - ENOENT else OSD_OK)"
        using r(6) False by (auto split: if_splits)
      have "buf_get m' outdata (length ?l) = Some ?l" using m1(1) by (rule mem.get_put)
      with m1(2,3) ms show ?thesis unfolding Let_def by blast
    qed simp
  qed (fact r(5))
  with r(1-4) show ?thesis by blast
qed

section \<open>Reading a single value: lemmas\<close>

lemma attr_loop_no_rows:
  "\<exists>code evs'. attr_rtrvl_loop gather [] evs m outdata outlen len found = Some (code, evs', m, len, found, False) \<and>
    attr_end evs evs' code True"
proof (induction evs)
  case Nil
  show ?case by (subst attr_rtrvl_loop.simps) (simp add: attr_end_def)
next
  case (Cons e evs)
  show ?case
  proof (cases e)
    case EvBusy
    then show ?thesis using Cons by (subst attr_rtrvl_loop.simps) (auto simp: attr_end_def)
  qed (subst attr_rtrvl_loop.simps, simp add: attr_end_def, blast?)+
qed

text \<open>The value of a single row, which has to fit.\<close>

lemma attr_loop_one_value:
  assumes v: "a_value r = Some v" and l: "length v \<le> 65535" and fit: "length v \<le> unat outlen"
    and o: "unat outlen < 2 ^ 32" and room: "outdata + unat outlen \<le> length m"
  shows "\<exists>code evs' m' len found. attr_rtrvl_loop attr_gather_val [r] evs m outdata outlen 0 False
      = Some (code, evs', m', len, found, False) \<and> same_outside outdata (outdata + unat outlen) m m' \<and>
    attr_end evs evs' code (buf_put m outdata v = Some m' \<and> unat len = length v \<and> found = (v \<noteq> []))"
proof -
  obtain m' where m': "buf_put m outdata v = Some m'"
    using mem.put_some [of outdata v m] fit room by auto
  have so: "same_outside outdata (outdata + unat outlen) m m'"
    using same_outside_put [OF m'] fit by simp
  have cb: "unat (column_bytes (Some v)) = length v" "uint (column_bytes (Some v)) = int (length v)"
    using l by (simp_all add: column_bytes_def unsigned_of_nat take_bit_nat_eq_self take_bit_int_eq_self)
  have ol: "\<not> (ucast outlen :: u32) < ucast (column_bytes (Some v))"
    using fit o l cb(1) by (simp add: word_less_nat_alt unsigned_ucast_eq take_bit_nat_eq_self)
  have bg: "v = [] \<or> buf_get v 0 (length v) = Some v" by (simp add: buf_get_def)
  have g: "attr_gather_val r m outdata (ucast outlen) = Some (int (length v), m')"
  proof (cases "v = []")
    case True
    then show ?thesis
      using m' v ol cb by (simp add: attr_gather_val_def column_blob_def Let_def) (simp add: column_bytes_def)
  next
    case False
    then show ?thesis
      using m' v ol cb bg by (simp add: attr_gather_val_def column_blob_def Let_def)
  qed
  have n: "unat (of_nat (length v) :: u32) = length v"
    using l by (simp add: unsigned_of_nat take_bit_nat_eq_self)
  have row: "\<exists>code evs' m2 len found. (if length v = 0 then Some (SQLITE_ROW, es, m', 0, False, False)
       else attr_rtrvl_loop attr_gather_val [] es m' (outdata + length v) (outlen - of_nat (length v))
         (of_nat (length v)) True) = Some (code, evs', m2, len, found, False) \<and>
    same_outside outdata (outdata + unat outlen) m m2 \<and>
    attr_end es evs' code (buf_put m outdata v = Some m2 \<and> unat len = length v \<and> found = (v \<noteq> []))" for es
  proof (cases "v = []")
    case True
    then show ?thesis using m' so by (auto simp: attr_end_def)
  next
    case False
    obtain code evs' where "attr_rtrvl_loop attr_gather_val [] es m' (outdata + length v)
        (outlen - of_nat (length v)) (of_nat (length v)) True = Some (code, evs', m', of_nat (length v), True, False)"
      "attr_end es evs' code True" using attr_loop_no_rows by blast
    then show ?thesis using False m' so n
      by (intro exI [of _ code] exI [of _ evs'] exI [of _ m'] exI [of _ "of_nat (length v)"] exI [of _ True])
        (simp add: attr_end_def)
  qed
  have first: "attr_rtrvl_loop attr_gather_val [r] evs m outdata outlen 0 False
      = (if length v = 0 then Some (SQLITE_ROW, es, m', 0, False, False)
         else attr_rtrvl_loop attr_gather_val [] es m' (outdata + length v) (outlen - of_nat (length v))
           (of_nat (length v)) True)" if "next_event EvOk evs = (EvOk, es)" for evs es
    using g that by (subst attr_rtrvl_loop.simps) (simp add: osd_consts)
  show ?thesis
  proof (induction evs)
    case Nil
    show ?case unfolding first [of "[]" "[]", simplified next_event.simps, OF refl] by (rule row)
  next
    case (Cons e evs)
    show ?case
    proof (cases e)
      case EvOk
      obtain code evs' m2 len found where x: "(if length v = 0 then Some (SQLITE_ROW, evs, m', 0, False, False)
         else attr_rtrvl_loop attr_gather_val [] evs m' (outdata + length v) (outlen - of_nat (length v))
           (of_nat (length v)) True) = Some (code, evs', m2, len, found, False)"
        "same_outside outdata (outdata + unat outlen) m m2"
        "attr_end evs evs' code (buf_put m outdata v = Some m2 \<and> unat len = length v \<and> found = (v \<noteq> []))"
        using row by blast
      have "attr_rtrvl_loop attr_gather_val [r] (e # evs) m outdata outlen 0 False = Some (code, evs', m2, len, found, False)"
        using x(1) EvOk by (subst first [where es = evs]) simp_all
      then show ?thesis using x(2) attr_end_mono [OF x(3), of "e # evs"] by fastforce
    next
      case EvBusy
      obtain code evs' m2 len found where x: "attr_rtrvl_loop attr_gather_val [r] evs m outdata outlen 0 False
          = Some (code, evs', m2, len, found, False)"
        "same_outside outdata (outdata + unat outlen) m m2"
        "attr_end evs evs' code (buf_put m outdata v = Some m2 \<and> unat len = length v \<and> found = (v \<noteq> []))"
        using Cons by blast
      have "attr_rtrvl_loop attr_gather_val [r] (e # evs) m outdata outlen 0 False = Some (code, evs', m2, len, found, False)"
        using x(1) EvBusy by (subst attr_rtrvl_loop.simps) simp
      then show ?thesis using x(2) attr_end_mono [OF x(3), of "e # evs"] by fastforce
    next
      case EvSchema
      then show ?thesis by (subst attr_rtrvl_loop.simps) (simp add: attr_end_def, blast)
    next
      case EvError
      then show ?thesis by (subst attr_rtrvl_loop.simps) (simp add: attr_end_def, blast)
    qed
  qed
qed

lemma run_attrs_one_value:
  assumes "db_good dbc" and "\<forall>b \<in> set (bind_evs dbc). b" and "engine_ok dbc"
    and "outdata + unat outlen \<le> length m" and "unat outlen < 2 ^ 32"
    and "query (tabs dbc) = [r]" and "a_value r = Some v" and "length v \<le> 65535" and "length v \<le> unat outlen"
  shows "\<exists>ret m' used dbc'. run_attrs query attr_gather_val outlen outdata (m, u) dbc
      = Some (ret, (m', used), dbc') \<and> db_good dbc' \<and> db_frame dbc dbc' \<and> tabs dbc' = tabs dbc \<and>
    same_outside outdata (outdata + unat outlen) m m' \<and>
    (ret = OSD_ERROR \<and> EvError \<in> set (step_evs dbc) \<or>
     v \<noteq> [] \<and> ret = OSD_OK \<and> unat used = length v \<and> buf_get m' outdata (length v) = Some v \<or>
     v = [] \<and> ret = - ENOENT)"
proof -
  have sc: "scan_attrs dbc (query (tabs dbc)) = [r]"
  proof -
    have "mset (scan_attrs dbc [r]) = mset [r]" using assms(3) unfolding engine_ok_def by blast
    then have "scan_attrs dbc [r] = [r]" by simp
    then show ?thesis unfolding assms(6) .
  qed
  let ?R = "\<lambda>m1 m' (len :: u32) found inval. \<not> inval \<and> buf_put m1 outdata v = Some m' \<and>
      unat len = length v \<and> found = (v \<noteq> [])"
  have "\<exists>ret m' used dbc'. run_attrs query attr_gather_val outlen outdata (m, u) dbc
      = Some (ret, (m', used), dbc') \<and>
    db_good dbc' \<and> db_frame dbc dbc' \<and> tabs dbc' = tabs dbc \<and>
    same_outside outdata (outdata + unat outlen) m m' \<and>
    (ret = OSD_ERROR \<and> EvError \<in> set (step_evs dbc) \<or>
     (\<exists>m1 len found inval. length m1 = length m \<and> ?R m1 m' len found inval \<and>
       (ret, used) = (if inval then (- EINVAL, 0) else if found then (OSD_OK, len) else (- ENOENT, len))))"
  proof (rule run_attrs_rule [OF assms(1,2)], unfold sc)
    fix m1 :: bytes and evs assume l: "length m1 = length m"
    obtain code evs' m' len found where
      "attr_rtrvl_loop attr_gather_val [r] evs m1 outdata outlen 0 False
        = Some (code, evs', m', len, found, False)"
      "same_outside outdata (outdata + unat outlen) m1 m'"
      "attr_end evs evs' code (buf_put m1 outdata v = Some m' \<and> unat len = length v \<and> found = (v \<noteq> []))"
      using attr_loop_one_value [of r v outlen outdata m1 evs] assms(4,5,7-9) l by auto
    then show "\<exists>code evs' m' len found inval.
        attr_rtrvl_loop attr_gather_val [r] evs m1 outdata outlen 0 False
          = Some (code, evs', m', len, found, inval) \<and>
        same_outside outdata (outdata + unat outlen) m1 m' \<and>
        attr_end evs evs' code (?R m1 m' len found inval) \<and> (inval \<longrightarrow> code = SQLITE_ROW)"
      by (intro exI [of _ code] exI [of _ evs'] exI [of _ m'] exI [of _ len] exI [of _ found] exI [of _ False]) simp
  qed
  then obtain ret m' used dbc' where r: "run_attrs query attr_gather_val outlen outdata (m, u) dbc
      = Some (ret, (m', used), dbc')" "db_good dbc'" "db_frame dbc dbc'" "tabs dbc' = tabs dbc"
    "same_outside outdata (outdata + unat outlen) m m'"
    "ret = OSD_ERROR \<and> EvError \<in> set (step_evs dbc) \<or>
     (\<exists>m1 len found inval. length m1 = length m \<and> ?R m1 m' len found inval \<and>
       (ret, used) = (if inval then (- EINVAL, 0) else if found then (OSD_OK, len) else (- ENOENT, len)))"
    by blast
  have "ret = OSD_ERROR \<and> EvError \<in> set (step_evs dbc) \<or>
     v \<noteq> [] \<and> ret = OSD_OK \<and> unat used = length v \<and> buf_get m' outdata (length v) = Some v \<or>
     v = [] \<and> ret = - ENOENT"
    using r(6) mem.get_put [of _ outdata v m'] by (auto split: if_splits)
  with r(1-5) show ?thesis by blast
qed

lemma sint_eq_iff: "sint a = sint b \<longleftrightarrow> a = b"
  by (auto intro: signed_word_eqI)

lemma attr_rows_after_set:
  "attr_rows pid oid (\<lambda>r. a_page r = sint page \<and> a_number r = sint number)
     (t\<lparr>t_attr := replace_row attr_key (attr_row_of pid oid page number v) (t_attr t)\<rparr>)
    = [attr_row_of pid oid page number v]"
proof -
  have "filter (\<lambda>x. a_pid x = sint pid \<and> a_oid x = sint oid \<and> a_page x = sint page \<and> a_number x = sint number)
      (filter (\<lambda>x. attr_key x \<noteq> attr_key (attr_row_of pid oid page number v)) (t_attr t)) = []"
    by (auto simp: filter_empty_conv attr_key_def attr_row_of_def)
  then show ?thesis by (simp add: attr_rows_def replace_row_def attr_row_of_def)
qed

section \<open>Properties\<close>

text \<open>
  C18. Listing the attributes of an object, or of one of its pages: into an aligned buffer the call
  never writes outside the room it was given and leaves the tables alone. Unless the engine fails
  it has packed a list entry for every selected attribute, in the order of the engine, as long as
  a header of 16 bytes fits, the last value cut if need be; \<open>used\<close> is the length of the list, and the
  answer is \<open>-ENOENT\<close> exactly when the list is empty. This holds however often the engine is busy
  or the schema changes in the middle of the rows.
\<close>

theorem attr_listing_correct:
  assumes "db_good dbc" and "\<forall>b \<in> set (bind_evs dbc). b" and "engine_ok dbc" and "attr_sizes (tabs dbc)"
    and "outdata mod 8 = 0" and "unat outlen mod 8 = 0" and "outdata + unat outlen \<le> length m"
    and "unat outlen < 2 ^ 32"
  shows "(\<exists>ret m' used dbc'. attr_get_all_attrs dbc pid oid outlen outdata RTRVD_SET_ATTR_LIST (m, u)
      = Some (ret, (m', used), dbc') \<and> tabs dbc' = tabs dbc \<and>
      attrs_listed (attr_rows pid oid (\<lambda>_. True) (tabs dbc)) outlen m outdata (step_evs dbc) ret m' used) \<and>
    (\<exists>ret m' used dbc'. attr_get_page_as_list dbc pid oid page outlen outdata RTRVD_SET_ATTR_LIST (m, u)
      = Some (ret, (m', used), dbc') \<and> tabs dbc' = tabs dbc \<and>
      attrs_listed (attr_rows pid oid (\<lambda>r. a_page r = sint page) (tabs dbc)) outlen m outdata
        (step_evs dbc) ret m' used)"
proof -
  have v: "\<forall>r \<in> set (attr_rows pid oid P (tabs dbc)). value_ok (a_value r)" for P
    using assms(4) by (auto simp: attr_rows_def attr_sizes_def)
  note l = run_attrs_list [OF assms(1-3,5-8), of "attr_rows pid oid P" oid u for P, OF v]
  show ?thesis
    unfolding attr_get_all_attrs_def attr_get_page_as_list_def on_attr_good [OF assms(1)]
    using l [of "\<lambda>_. True"] l [of "\<lambda>r. a_page r = sint page"] by blast
qed

definition attr_sample :: "sq_event list \<Rightarrow> db_context" where
  "attr_sample evs = (sample_db evs)\<lparr>tabs := \<lparr>t_obj = [], t_attr =
     [attr_row_of 65536 65537 7 1 (Some [1, 2, 3]), attr_row_of 65536 65537 7 2 (Some [4])], t_coll = []\<rparr>\<rparr>"

lemma attr_sample_good [simp]:
  "db_good (attr_sample evs)" "engine_ok (attr_sample evs)" "bind_evs (attr_sample evs) = []"
  "attr_sizes (tabs (attr_sample evs))"
  by (simp_all add: attr_sample_def sample_db_def db_good_def engine_ok_def attr_sizes_def attr_row_of_def
      value_ok_def)

theorem attr_listing_correct_witness:
  "\<exists>ret m' used dbc'. attr_get_all_attrs (attr_sample [EvOk, EvSchema, EvBusy]) 65536 65537 48 8
      RTRVD_SET_ATTR_LIST (replicate 64 0, 0) = Some (ret, (m', used), dbc') \<and> length m' = 64"
  using attr_listing_correct [of "attr_sample [EvOk, EvSchema, EvBusy]" 8 48 "replicate 64 0" 65536 65537 0 0]
  by (simp add: attrs_listed_def same_outside_def) blast

text \<open>
  C22. A value that has been set is what a retrieval of the value returns, for every length the
  16-bit counter can express, unless the engine fails; except that an attribute of length zero is
  stored and then reported as absent.
\<close>

theorem attr_set_then_get:
  assumes "db_good dbc" and "db_clean dbc" and "engine_ok dbc" and "unat len = length v"
    and "outdata + unat outlen \<le> length m" and "unat outlen < 2 ^ 32" and "length v \<le> unat outlen"
  shows "\<exists>dbc1 ret m' used dbc2. attr_set_attr_raw dbc pid oid page number (Some v) len = Some (OSD_OK, dbc1) \<and>
    attr_get_val dbc1 pid oid page number outlen outdata (m, u) = Some (ret, (m', used), dbc2) \<and>
    same_outside outdata (outdata + unat outlen) m m' \<and>
    (if v = [] then ret = - ENOENT
     else ret = OSD_OK \<and> unat used = length v \<and> buf_get m' outdata (length v) = Some v)"
proof -
  let ?eff = "\<lambda>t. Some (t\<lparr>t_attr := replace_row attr_key (attr_row_of pid oid page number (Some v)) (t_attr t)\<rparr>)"
  have b: "blob_of (Some v) len = Some (Some v)"
    using assms(4) by (simp add: blob_of_def buf_get_def)
  obtain d1 where d1: "run_dms ?eff dbc = Some (OSD_OK, d1)" "db_good d1" "db_frame dbc d1"
    "?eff (tabs dbc) = Some (tabs d1)"
    using run_dms_ok [OF assms(1), of ?eff] assms(2) by auto
  have s: "attr_set_attr_raw dbc pid oid page number (Some v) len = Some (OSD_OK, d1)"
    using d1(1) assms(1) b by (simp add: attr_set_attr_raw_def)
  have c: "db_clean d1" "engine_ok d1" "\<forall>b \<in> set (bind_evs d1). b"
    using d1(3) assms(2,3) by (auto simp: db_frame_def db_clean_def engine_ok_def)
  have lv: "length v \<le> 65535"
    using unsigned_less [of len, where ?'a = nat] assms(4) by simp
  have ev: "EvError \<notin> set (step_evs d1)" using c(1) by (simp add: db_clean_def)
  have q: "attr_rows pid oid (\<lambda>r. a_page r = sint page \<and> a_number r = sint number) (tabs d1)
      = [attr_row_of pid oid page number (Some v)]"
    using attr_rows_after_set d1(4) [symmetric] by simp
  let ?r = "attr_row_of pid oid page number (Some v)"
  have av: "a_value ?r = Some v" by (simp add: attr_row_of_def)
  obtain ret m' used d2 where g: "attr_get_val d1 pid oid page number outlen outdata (m, u) = Some (ret, (m', used), d2)"
    "same_outside outdata (outdata + unat outlen) m m'"
    "ret = OSD_ERROR \<and> EvError \<in> set (step_evs d1) \<or>
     v \<noteq> [] \<and> ret = OSD_OK \<and> unat used = length v \<and> buf_get m' outdata (length v) = Some v \<or>
     v = [] \<and> ret = - ENOENT"
    using run_attrs_one_value [OF d1(2) c(3,2) assms(5,6), of "attr_rows pid oid (\<lambda>r. a_page r = sint page \<and> a_number r = sint number)" ?r v u,
        OF q av lv assms(7)]
    unfolding attr_get_val_def on_attr_good [OF d1(2)] by blast
  have "if v = [] then ret = - ENOENT
     else ret = OSD_OK \<and> unat used = length v \<and> buf_get m' outdata (length v) = Some v"
    using g(3) ev by auto
  with s g(1,2) show ?thesis by blast
qed

theorem attr_set_then_get_witness:
  "\<exists>dbc1 ret m' used dbc2. attr_set_attr_raw (attr_sample [EvSchema]) 65536 65537 7 1 (Some [9, 8]) 2
      = Some (OSD_OK, dbc1) \<and>
    attr_get_val dbc1 65536 65537 7 1 16 0 (replicate 16 0, 0) = Some (ret, (m', used), dbc2) \<and>
    ret = OSD_OK \<and> buf_get m' 0 (length [9 :: u8, 8]) = Some [9, 8]"
proof -
  have "db_clean (attr_sample [EvSchema])" by (simp add: attr_sample_def sample_db_def db_clean_def)
  then show ?thesis
    using attr_set_then_get [of "attr_sample [EvSchema]" 2 "[9, 8]" 0 16 "replicate 16 0" 65536 65537 7 1 0]
    by (simp; blast)
qed

end
