(* ===== verification/Posix_Fs.thy ===== *)
theory Posix_Fs
  imports OSD_Util
begin

text \<open>
  The files of a target: the path names of \<^verbatim>\<open>osd-target/osd.h\<close>, the directory a target works
  in, and the system calls the data commands use on it.

  A file descriptor is represented by the path it was opened with; the state counts the open
  descriptors, and tells for which sizes the allocator answers. What the kernel may answer besides success is a schedule: every call takes one
  event, an exhausted schedule means success, \<open>IoShort n\<close> limits a transfer to \<open>n\<close> bytes. One call
  never transfers more than \<open>rw_max\<close> bytes and offsets are signed, as on Linux.
\<close>

section \<open>Path names\<close>

definition hex_digit :: "nat \<Rightarrow> char" where
  "hex_digit n = ''0123456789abcdef'' ! (n mod 16)"

text \<open>\<open>%llx\<close>, and \<open>%02x\<close> for a byte.\<close>

fun hex_string :: "nat \<Rightarrow> string" where
  "hex_string n = (if n < 16 then [hex_digit n] else hex_string (n div 16) @ [hex_digit n])"

definition hex_byte :: "nat \<Rightarrow> string" where
  "hex_byte n = [hex_digit (n div 16), hex_digit n]"

text \<open>\<open>sprintf\<close> into a path buffer of \<open>MAXNAMELEN\<close> bytes.\<close>

definition path_buf :: "string \<Rightarrow> string option" where
  "path_buf s = (if length s < MAXNAMELEN then Some s else None)"

definition dfiles :: string where "dfiles = ''dfiles''"

definition md :: string where "md = ''md''"

definition dbname :: string where "dbname = ''osd.db''"

text \<open>The build without any of the alternative backends.\<close>

definition get_dfile_name :: "string \<Rightarrow> u64 \<Rightarrow> u64 \<Rightarrow> string option" where
  "get_dfile_name root pid oid =
     (if oid = 0 then path_buf (root @ ''/'' @ dfiles @ ''/'' @ hex_byte (unat (oid AND 0xff)))
      else path_buf (root @ ''/'' @ dfiles @ ''/'' @ hex_byte (unat (oid AND 0xff)) @ ''/'' @
        hex_string (unat pid) @ ''.'' @ hex_string (unat oid)))"

definition get_dbname :: "string \<Rightarrow> string option" where
  "get_dbname root = path_buf (root @ ''/'' @ md @ ''/'' @ dbname)"

section \<open>The file system\<close>

datatype node = RegFile bytes | Directory

datatype io_event = IoOk | IoFail | IoShort nat

record file_times =
  ft_ctime :: "u64 \<times> u64"
  ft_atime :: "u64 \<times> u64"
  ft_mtime :: "u64 \<times> u64"

record fs =
  nodes :: "string \<rightharpoonup> node"
  open_fds :: int
  io_evs :: "io_event list"
  st_times :: "string \<Rightarrow> file_times"
  st_blocks :: "string \<Rightarrow> u64"
  f_blocks :: u64
  f_bfree :: u64
  alloc_ok :: "nat \<Rightarrow> bool"

text \<open>\<open>MAX_RW_COUNT\<close> of the kernel.\<close>

definition rw_max :: nat where
  "rw_max = 0x7ffff000"

definition io_next :: "fs \<Rightarrow> io_event \<times> fs" where
  "io_next s = (case io_evs s of [] \<Rightarrow> (IoOk, s) | e # es \<Rightarrow> (e, s\<lparr>io_evs := es\<rparr>))"

definition transfer :: "io_event \<Rightarrow> nat \<Rightarrow> nat" where
  "transfer ev n = (case ev of IoShort k \<Rightarrow> min k (min n rw_max) | _ \<Rightarrow> min n rw_max)"

definition is_dir :: "fs \<Rightarrow> string \<Rightarrow> bool" where
  "is_dir s p = (case nodes s p of Some Directory \<Rightarrow> True | _ \<Rightarrow> False)"

text \<open>\<open>open\<close> without \<open>O_CREAT\<close>: it fails on what does not exist, and on a directory when writing.\<close>

definition fs_open :: "bool \<Rightarrow> string \<Rightarrow> fs \<Rightarrow> bool \<times> fs" where
  "fs_open writing p s =
     (let (ev, s) = io_next s in
      if ev = IoFail \<or> nodes s p = None \<or> writing \<and> is_dir s p then (False, s)
      else (True, s\<lparr>open_fds := open_fds s + 1\<rparr>))"

text \<open>A failing \<open>close\<close> releases the descriptor all the same.\<close>

definition fs_close :: "fs \<Rightarrow> bool \<times> fs" where
  "fs_close s = (let (ev, s) = io_next s in (ev \<noteq> IoFail, s\<lparr>open_fds := open_fds s - 1\<rparr>))"

definition fs_pread :: "string \<Rightarrow> u64 \<Rightarrow> u64 \<Rightarrow> fs \<Rightarrow> bytes option \<times> fs" where
  "fs_pread p len offset s =
     (let (ev, s) = io_next s in
      if ev = IoFail \<or> sint offset < 0 then (None, s)
      else case nodes s p of
        Some (RegFile c) \<Rightarrow> (Some (take (transfer ev (unat len)) (drop (unat offset) c)), s)
      | _ \<Rightarrow> (None, s))"

text \<open>Writing into the contents of a file: a gap before the offset is filled with zeros.\<close>

definition write_at :: "bytes \<Rightarrow> nat \<Rightarrow> bytes \<Rightarrow> bytes" where
  "write_at c off bs =
     (if bs = [] then c
      else take off c @ replicate (off - length c) 0 @ bs @ drop (off + length bs) c)"

text \<open>\<open>pwrite\<close>: the number of bytes written, \<open>-1\<close> on failure.\<close>

definition fs_pwrite :: "string \<Rightarrow> bytes \<Rightarrow> u64 \<Rightarrow> fs \<Rightarrow> int \<times> fs" where
  "fs_pwrite p bs offset s =
     (let (ev, s) = io_next s in
      if ev = IoFail \<or> sint offset < 0 then (- 1, s)
      else case nodes s p of
        Some (RegFile c) \<Rightarrow>
          (let n = transfer ev (length bs) in
           (int n, s\<lparr>nodes := (nodes s)(p \<mapsto> RegFile (write_at c (unat offset) (take n bs)))\<rparr>))
      | _ \<Rightarrow> (- 1, s))"

text \<open>
  \<open>stat\<close>: the file is missing, the call fails otherwise, or the answer tells whether the file is
  regular and its size; a directory takes a block.
\<close>

datatype stat_answer = StNoEnt | StFail | StOk bool u64

definition fs_stat :: "string \<Rightarrow> fs \<Rightarrow> stat_answer \<times> fs" where
  "fs_stat p s =
     (let (ev, s) = io_next s in
      if ev = IoFail then (StFail, s)
      else case nodes s p of
        None \<Rightarrow> (StNoEnt, s)
      | Some (RegFile c) \<Rightarrow> (StOk True (of_nat (length c)), s)
      | Some Directory \<Rightarrow> (StOk False 4096, s))"

definition fs_truncate :: "string \<Rightarrow> u64 \<Rightarrow> fs \<Rightarrow> bool \<times> fs" where
  "fs_truncate p len s =
     (let (ev, s) = io_next s in
      if ev = IoFail \<or> sint len < 0 then (False, s)
      else case nodes s p of
        Some (RegFile c) \<Rightarrow>
          (True, s\<lparr>nodes := (nodes s)(p \<mapsto>
             RegFile (take (unat len) c @ replicate (unat len - length c) 0))\<rparr>)
      | _ \<Rightarrow> (False, s))"

definition fs_unlink :: "string \<Rightarrow> fs \<Rightarrow> bool \<times> fs" where
  "fs_unlink p s =
     (let (ev, s) = io_next s in
      if ev = IoFail \<or> nodes s p = None \<or> is_dir s p then (False, s)
      else (True, s\<lparr>nodes := (nodes s)(p := None)\<rparr>))"

definition fs_creat :: "string \<Rightarrow> fs \<Rightarrow> bool \<times> fs" where
  "fs_creat p s =
     (let (ev, s) = io_next s in
      if ev = IoFail \<or> is_dir s p then (False, s)
      else (True, s\<lparr>nodes := (nodes s)(p \<mapsto> RegFile []), open_fds := open_fds s + 1\<rparr>))"

text \<open>\<open>lseek (fd, 0, SEEK_END)\<close>.\<close>

definition fs_seek_end :: "string \<Rightarrow> fs \<Rightarrow> u64 option \<times> fs" where
  "fs_seek_end p s =
     (let (ev, s) = io_next s in
      if ev = IoFail then (None, s)
      else case nodes s p of
        Some (RegFile c) \<Rightarrow> (Some (of_nat (length c)), s)
      | _ \<Rightarrow> (None, s))"

text \<open>\<open>fdatasync\<close> and \<open>sync_file_range\<close>.\<close>

definition fs_sync :: "fs \<Rightarrow> bool \<times> fs" where
  "fs_sync s = (let (ev, s) = io_next s in (ev \<noteq> IoFail, s))"

section \<open>Lemmas: path names\<close>

definition hex_value :: "char \<Rightarrow> nat" where
  "hex_value c = (if of_char c < (58 :: nat) then of_char c - 48 else of_char c - 87)"

lemma hex_digit_cases: "(n :: nat) mod 16 < 16" "k < (16 :: nat) \<Longrightarrow> k \<in> set [0..<16]"
  by simp_all

lemma hex_digits_listed: "\<forall>k \<in> set [0..<16]. hex_value (''0123456789abcdef'' ! k) = k \<and> ''0123456789abcdef'' ! k \<noteq> CHR ''.''"
  by code_simp

lemma hex_digit_value [simp]: "hex_value (hex_digit n) = n mod 16"
  and hex_digit_not_dot: "hex_digit n \<noteq> CHR ''.''"
  using hex_digits_listed hex_digit_cases(1) [of n] hex_digit_cases(2) [of "n mod 16"]
  unfolding hex_digit_def by blast+

declare hex_string.simps [simp del]

lemma hex_string_value: "foldl (\<lambda>v c. 16 * v + hex_value c) 0 (hex_string n) = n"
proof (induction n rule: hex_string.induct)
  case (1 n)
  then show ?case by (subst hex_string.simps) simp
qed

lemma hex_string_inj: "hex_string m = hex_string n \<longleftrightarrow> m = n"
  using hex_string_value by metis

lemma hex_string_no_dot: "CHR ''.'' \<notin> set (hex_string n)"
proof (induction n rule: hex_string.induct)
  case (1 n)
  then show ?case using hex_digit_not_dot by (subst hex_string.simps) (simp; metis)
qed

lemma hex_string_length: "n < 16 ^ k \<Longrightarrow> 0 < k \<Longrightarrow> length (hex_string n) \<le> k"
proof (induction n arbitrary: k rule: hex_string.induct)
  case (1 n)
  show ?case
  proof (cases "n < 16")
    case True
    with 1 show ?thesis by (subst hex_string.simps) simp
  next
    case False
    then obtain k' where k: "k = Suc k'" "0 < k'"
      using 1(2,3) by (cases k; cases "k - 1") auto
    have "n div 16 < 16 ^ k'" using 1(2) k by (simp add: less_mult_imp_div_less mult.commute)
    then show ?thesis using 1(1) [OF False] k False by (subst hex_string.simps) simp
  qed
qed

lemma split_at_dot:
  assumes "CHR ''.'' \<notin> set a" and "CHR ''.'' \<notin> set c"
  shows "a @ ''.'' @ b = c @ ''.'' @ d \<longleftrightarrow> a = c \<and> b = d"
  using assms
proof (induction a arbitrary: c)
  case Nil
  then show ?case by (cases c) auto
next
  case (Cons x a)
  then show ?case by (cases c) auto
qed

lemma dfile_name_length:
  assumes "oid \<noteq> 0"
  shows "length (root @ ''/'' @ dfiles @ ''/'' @ hex_byte (unat (oid AND 0xff)) @ ''/'' @
    hex_string (unat (pid :: u64)) @ ''.'' @ hex_string (unat (oid :: u64))) \<le> length root + 44"
proof -
  have b: "unat (w :: u64) < 16 ^ 16" for w
    using unsigned_less [of w, where ?'a = nat] by simp
  show ?thesis
    using hex_string_length [OF b, of pid] hex_string_length [OF b, of oid]
    by (simp add: dfiles_def hex_byte_def)
qed

section \<open>Lemmas: file contents\<close>

text \<open>
  What a writer may rely on, whatever the representation of the contents: a write is read back and
  touches nothing else, the size is the furthest byte written.
\<close>

locale byte_file =
  fixes rd :: "'f \<Rightarrow> nat \<Rightarrow> nat \<Rightarrow> bytes"
    and wr :: "'f \<Rightarrow> nat \<Rightarrow> bytes \<Rightarrow> 'f"
    and sz :: "'f \<Rightarrow> nat"
  assumes rd_wr: "rd (wr f off bs) off (length bs) = bs"
    and rd_wr_apart: "i + n \<le> off \<or> off + length bs \<le> i \<Longrightarrow> i + n \<le> sz f \<Longrightarrow> rd (wr f off bs) i n = rd f i n"
    and sz_wr: "sz (wr f off bs) = (if bs = [] then sz f else max (sz f) (off + length bs))"
begin

lemma sz_wr_ge: "sz f \<le> sz (wr f off bs)"
  by (simp add: sz_wr)

lemma rd_first_of_two:
  assumes "xs \<noteq> []" and "i + length xs \<le> j \<or> j + length ys \<le> i"
  shows "rd (wr (wr f i xs) j ys) i (length xs) = xs"
proof -
  have "i + length xs \<le> sz (wr f i xs)" using assms(1) by (simp add: sz_wr)
  then show ?thesis using rd_wr_apart [OF assms(2)] rd_wr by simp
qed

text \<open>A list of writes, one after the other.\<close>

lemma rd_after_writes:
  assumes "\<And>j ys. (j, ys) \<in> set segs \<Longrightarrow> i + n \<le> j \<or> j + length ys \<le> i" and "i + n \<le> sz f"
  shows "rd (fold (\<lambda>(j, ys) f. wr f j ys) segs f) i n = rd f i n \<and>
    sz f \<le> sz (fold (\<lambda>(j, ys) f. wr f j ys) segs f)"
  using assms
proof (induction segs arbitrary: f)
  case (Cons s segs)
  obtain j ys where s: "s = (j, ys)" by (cases s)
  have "i + n \<le> sz (wr f j ys)" using Cons.prems(2) sz_wr_ge [of f j ys] by simp
  then have "rd (fold (\<lambda>(j, ys) f. wr f j ys) segs (wr f j ys)) i n = rd (wr f j ys) i n \<and>
      sz (wr f j ys) \<le> sz (fold (\<lambda>(j, ys) f. wr f j ys) segs (wr f j ys))"
    using Cons.prems(1) by (intro Cons.IH) auto
  moreover have "rd (wr f j ys) i n = rd f i n"
    using Cons.prems s by (intro rd_wr_apart) auto
  ultimately show ?case using s sz_wr_ge [of f j ys] by simp
qed simp

end

lemma write_at_length: "length (write_at c off bs) = (if bs = [] then length c else max (length c) (off + length bs))"
  by (simp add: write_at_def max_def min_def)

lemma write_at_same: "take (length bs) (drop off (write_at c off bs)) = bs"
  by (simp add: write_at_def)

lemma write_at_before:
  assumes "i + n \<le> off" and "i + n \<le> length c"
  shows "take n (drop i (write_at c off bs)) = take n (drop i c)"
proof (cases "bs = []")
  case False
  have "take n (drop i c) = take n (drop i (take off c))"
  proof -
    have "min n (off - i) = n" using assms(1) by simp
    then show ?thesis by (simp only: drop_take take_take)
  qed
  moreover have "n \<le> length (drop i (take off c))" "i \<le> length (take off c)" using assms by simp_all
  ultimately have "take n (drop i (take off c @ r)) = take n (drop i c)" for r
    by (simp del: length_drop length_take add: drop_append)
  then show ?thesis using False by (simp only: write_at_def if_False)
qed (simp add: write_at_def)

lemma write_at_after:
  assumes "off + length bs \<le> i" and "i + n \<le> length c"
  shows "take n (drop i (write_at c off bs)) = take n (drop i c)"
  using assms by (cases "n = 0") (simp_all add: write_at_def)

interpretation content: byte_file "\<lambda>c off n. take n (drop off c)" write_at length
  by unfold_locales (auto simp: write_at_same write_at_length write_at_before write_at_after)

section \<open>Lemmas: system calls\<close>

text \<open>No event but success is scheduled.\<close>

definition fs_clean :: "fs \<Rightarrow> bool" where
  "fs_clean s \<longleftrightarrow> io_evs s = []"

lemma io_next_clean [simp]: "fs_clean s \<Longrightarrow> io_next s = (IoOk, s)"
  by (simp add: io_next_def fs_clean_def)

lemma fs_clean_update [simp]:
  "fs_clean (s\<lparr>nodes := x\<rparr>) = fs_clean s" "fs_clean (s\<lparr>open_fds := y\<rparr>) = fs_clean s"
  by (simp_all add: fs_clean_def)

lemma transfer_ok [simp]: "transfer IoOk n = min n rw_max"
  by (simp add: transfer_def)

lemma dfile_names:
  assumes "length root \<le> MAXROOTLEN" and "oid \<noteq> 0" and "oid' \<noteq> 0"
  shows "\<exists>p p'. get_dfile_name root pid oid = Some p \<and> get_dfile_name root pid' oid' = Some p' \<and>
    (p = p' \<longleftrightarrow> pid = pid' \<and> oid = oid')"
proof -
  have fits: "\<exists>p. get_dfile_name root a b = Some p" if "b \<noteq> 0" for a b
    using dfile_name_length [OF that, of root a] assms(1) that
    by (simp add: get_dfile_name_def path_buf_def osd_consts)
  have "get_dfile_name root a b = Some p \<Longrightarrow> b \<noteq> 0 \<Longrightarrow> p = root @ ''/'' @ dfiles @ ''/'' @
      hex_byte (unat (b AND 0xff)) @ ''/'' @ hex_string (unat a) @ ''.'' @ hex_string (unat b)" for a b p
    by (auto simp: get_dfile_name_def path_buf_def split: if_splits)
  then have name: "get_dfile_name root a b = Some p \<Longrightarrow> b \<noteq> 0 \<Longrightarrow> \<exists>x y. p = root @ ''/'' @ dfiles @ ''/'' @
      [x, y] @ ''/'' @ hex_string (unat a) @ ''.'' @ hex_string (unat b)" for a b p
    unfolding hex_byte_def by blast
  obtain p p' where p: "get_dfile_name root pid oid = Some p" "get_dfile_name root pid' oid' = Some p'"
    using fits assms(2,3) by blast
  have "pid = pid' \<and> oid = oid'" if "p = p'"
  proof -
    have "hex_string (unat pid) @ ''.'' @ hex_string (unat oid) = hex_string (unat pid') @ ''.'' @ hex_string (unat oid')"
      using name [OF p(1) assms(2)] name [OF p(2) assms(3)] that by auto
    then show ?thesis
      unfolding split_at_dot [OF hex_string_no_dot hex_string_no_dot] hex_string_inj word_unat_eq_iff .
  qed
  moreover have "p = p'" if "pid = pid' \<and> oid = oid'" using p that by simp
  ultimately show ?thesis using p by blast
qed

section \<open>Properties\<close>

text \<open>
  The data file of an object: for a root of at most 200 characters its name fits into the path
  buffer, and two objects never share a data file.
\<close>

lemma dfile_names_fit_and_differ:
  assumes "length root \<le> MAXROOTLEN" and "oid \<noteq> 0" and "oid' \<noteq> 0"
  shows "\<exists>p p'. get_dfile_name root pid oid = Some p \<and> get_dfile_name root pid' oid' = Some p' \<and>
    (p = p' \<longleftrightarrow> pid = pid' \<and> oid = oid')"
  using assms by (rule dfile_names)

lemma dfile_names_fit_and_differ_witness:
  "\<exists>p p'. get_dfile_name ''/tmp/osd'' 0x10000 0x10001 = Some p \<and>
    get_dfile_name ''/tmp/osd'' 0x10000 0x20001 = Some p' \<and> p \<noteq> p'"
  using dfile_names_fit_and_differ [of "''/tmp/osd''" "0x10001" "0x20001" "0x10000" "0x10000"]
  by (simp add: osd_consts)

end
