(* ===== verification/Osd_Device.thy ===== *)
theory Osd_Device
  imports Coll_Table Attr_Table Posix_Fs OSD_Sense
begin

text \<open>
  The device of \<^verbatim>\<open>osd-target/osd-types.h\<close>, the answers of \<^verbatim>\<open>osd-target/osd.c\<close> that carry sense
  data, and the classification of attribute pages. The files are those under the root of the
  device; they are part of the state.
\<close>

section \<open>The device\<close>

record osd_device =
  root :: string
  dbc :: db_context
  ccap :: cur_cmd_attr_pg
  ic :: id_cache
  files :: fs

definition no_ricv :: bytes where
  "no_ricv = replicate OSD_CRYPTO_KEYID_SIZE 0"

definition fill_ccap :: "bytes option \<Rightarrow> u8 \<Rightarrow> u64 \<Rightarrow> u64 \<Rightarrow> u64 \<Rightarrow> cur_cmd_attr_pg" where
  "fill_ccap r ty pid oid off = \<lparr>cdb_srvc_act = 0, ricv = (case r of None \<Rightarrow> no_ricv | Some b \<Rightarrow> b),
     obj_type = ty, ccap_pid = pid, ccap_oid = oid, append_off = off\<rparr>"

definition osd_get_created_oid :: "osd_device \<Rightarrow> u32 \<Rightarrow> u64" where
  "osd_get_created_oid osd numoid =
     (let oid = ccap_oid (ccap osd) in if numoid > 0 then oid - ucast (numoid - 1) else oid)"

definition osd_begin_txn :: "osd_device \<Rightarrow> int \<times> osd_device" where
  "osd_begin_txn osd = (let (ret, d) = db_begin_txn (dbc osd) in (ret, osd\<lparr>dbc := d\<rparr>))"

definition osd_end_txn :: "osd_device \<Rightarrow> int \<times> osd_device" where
  "osd_end_txn osd = (let (ret, d) = db_end_txn (dbc osd) in (ret, osd\<lparr>dbc := d\<rparr>))"

section \<open>Answers with sense data\<close>

text \<open>
  The labels the commands jump to. An answer is the return code, the sense buffer and the device; a
  command with output returns its buffer and the length used in front of them.
\<close>

type_synonym answer = "int \<times> bytes \<times> osd_device"

definition with_sense :: "osd_device \<Rightarrow> bytes \<Rightarrow> u8 \<Rightarrow> u16 \<Rightarrow> u64 \<Rightarrow> u64 \<Rightarrow> answer option" where
  "with_sense osd sense key code pid oid = do {
     (ret, sense) \<leftarrow> sense_build_sdd sense key code pid oid;
     Some (ret, sense, osd) }"

definition out_cdb_err :: "osd_device \<Rightarrow> bytes \<Rightarrow> u64 \<Rightarrow> u64 \<Rightarrow> answer option" where
  "out_cdb_err osd sense pid oid =
     with_sense osd sense OSD_SSK_ILLEGAL_REQUEST OSD_ASC_INVALID_FIELD_IN_CDB pid oid"

definition out_hw_err :: "osd_device \<Rightarrow> bytes \<Rightarrow> u64 \<Rightarrow> u64 \<Rightarrow> answer option" where
  "out_hw_err osd sense pid oid =
     with_sense osd sense OSD_SSK_HARDWARE_ERROR OSD_ASC_INVALID_FIELD_IN_CDB pid oid"

definition out_param_list :: "osd_device \<Rightarrow> bytes \<Rightarrow> u64 \<Rightarrow> u64 \<Rightarrow> answer option" where
  "out_param_list osd sense pid oid =
     with_sense osd sense OSD_SSK_ILLEGAL_REQUEST OSD_ASC_INVALID_FIELD_IN_PARAM_LIST pid oid"

definition out_not_empty :: "osd_device \<Rightarrow> bytes \<Rightarrow> u64 \<Rightarrow> u64 \<Rightarrow> answer option" where
  "out_not_empty osd sense pid oid =
     with_sense osd sense OSD_SSK_ILLEGAL_REQUEST OSD_ASC_PART_OR_COLL_CONTAINS_USER_OBJECTS pid oid"

definition osd_error_unimplemented :: "u16 \<Rightarrow> bytes \<Rightarrow> (int \<times> bytes) option" where
  "osd_error_unimplemented action sense = sense_basic_build sense OSD_SSK_ILLEGAL_REQUEST 0 0 0"

definition osd_error_bad_cdb :: "bytes \<Rightarrow> (int \<times> bytes) option" where
  "osd_error_bad_cdb sense = sense_basic_build sense OSD_SSK_ILLEGAL_REQUEST 0 0 0"

definition out_unimplemented :: "osd_device \<Rightarrow> bytes \<Rightarrow> answer option" where
  "out_unimplemented osd sense = do {
     (ret, sense) \<leftarrow> osd_error_unimplemented 0 sense;
     Some (ret, sense, osd) }"

section \<open>Object types and attribute pages\<close>

text \<open>A failing type query reads as an illegal object.\<close>

definition get_obj_type :: "osd_device \<Rightarrow> u64 \<Rightarrow> u64 \<Rightarrow> (u8 \<times> osd_device) option" where
  "get_obj_type osd pid oid =
     (if pid = ROOT_PID \<and> oid = ROOT_OID then Some (ROOT, osd)
      else if pid \<ge> PARTITION_PID_LB \<and> oid = PARTITION_OID then Some (PARTITION, osd)
      else if pid \<ge> OBJECT_PID_LB \<and> oid \<ge> OBJECT_OID_LB
      then do {
        (ret, ty, d) \<leftarrow> obj_get_type (dbc osd) pid oid;
        Some (if ret = OSD_OK then ty else ILLEGAL_OBJ, osd\<lparr>dbc := d\<rparr>) }
      else Some (ILLEGAL_OBJ, osd))"

text \<open>The unsigned difference read as an \<open>int\<close>.\<close>

definition get_rel_page :: "u8 \<Rightarrow> u32 \<Rightarrow> int" where
  "get_rel_page ty page =
     (if ty = ROOT then sint (page - ROOT_PG)
      else if ty = PARTITION then sint (page - PARTITION_PG)
      else if ty = COLLECTION then sint (page - COLLECTION_PG)
      else if ty = USEROBJECT then sint (page - USEROBJECT_PG)
      else - 1)"

definition check_valid_pg :: "u8 \<Rightarrow> u32 \<Rightarrow> bool" where
  "check_valid_pg ty page =
     (if ty = USEROBJECT then page < PARTITION_PG
      else if ty = COLLECTION then COLLECTION_PG \<le> page \<and> page < ROOT_PG
      else if ty = PARTITION then PARTITION_PG \<le> page \<and> page < COLLECTION_PG
      else if ty = ROOT then ROOT_PG \<le> page \<and> page < RESERVED_PG
      else False)"

definition issettable_page :: "u8 \<Rightarrow> u32 \<Rightarrow> bool" where
  "issettable_page ty page =
     (if \<not> check_valid_pg ty page then page \<ge> ANY_PG
      else let rel_page = get_rel_page ty page in
        STD_PG_LB \<le> rel_page \<and> rel_page \<le> STD_PG_UB \<or>
        LUN_PG_LB \<le> rel_page \<and> rel_page \<le> LUN_PG_UB)"

definition isgettable_page :: "u8 \<Rightarrow> u32 \<Rightarrow> bool" where
  "isgettable_page ty page =
     (if \<not> check_valid_pg ty page then page \<ge> ANY_PG
      else let rel_page = get_rel_page ty page in
        \<not> (RSRV_PG_LB \<le> rel_page \<and> rel_page \<le> RSRV_PG_UB \<or> rel_page > VEND_PG_UB))"

section \<open>Lemmas: attribute pages\<close>

lemma sint_diff:
  assumes "b \<le> p" and "unat p - unat b < 2 ^ 31"
  shows "sint (p - b :: u32) = int (unat p - unat b)"
proof -
  have u: "uint (p - b) = int (unat p - unat b)"
    using unat_sub [OF assms(1)] by (simp add: uint_nat)
  then have "uint (p - b) < 2 ^ 31" using assms(2) by simp
  then have "signed_take_bit 31 (uint (p - b)) = uint (p - b)"
    by (intro signed_take_bit_int_eq_self) (auto intro: order_trans [OF _ uint_ge_0])
  then show ?thesis using u by (simp add: sint_uint)
qed

text \<open>The first page of each type of object.\<close>

definition page_base :: "u8 \<Rightarrow> u32 option" where
  "page_base ty = (if ty = ROOT then Some ROOT_PG else if ty = PARTITION then Some PARTITION_PG
     else if ty = COLLECTION then Some COLLECTION_PG else if ty = USEROBJECT then Some USEROBJECT_PG else None)"

lemma page_base_simps:
  "page_base ty = None \<Longrightarrow> \<not> check_valid_pg ty p"
  "page_base ty = Some b \<Longrightarrow> check_valid_pg ty p \<longleftrightarrow> unat b \<le> unat p \<and> unat p < unat b + 0x30000000"
  "page_base ty = Some b \<Longrightarrow> get_rel_page ty p = sint (p - b)"
  "page_base ty = Some b \<Longrightarrow> unat b \<le> 0x90000000"
  unfolding page_base_def check_valid_pg_def get_rel_page_def
  by (auto simp: osd_consts word_less_nat_alt word_le_nat_alt split: if_splits)

lemma page_ranges:
  assumes "page_base ty = Some b"
  shows "issettable_page ty p \<longleftrightarrow> unat p \<in> {unat b..unat b + 0x7f} \<union> {unat b + 0x10000..unat b + 0x1fffffff} \<union> {0xf0000000..}"
    and "isgettable_page ty p \<longleftrightarrow> unat p \<in> {unat b..unat b + 0x7f} \<union> {unat b + 0x8000..unat b + 0x2fffffff} \<union> {0xf0000000..}"
proof -
  have any: "p \<ge> ANY_PG \<longleftrightarrow> 0xf0000000 \<le> unat p" by (simp add: osd_consts word_le_nat_alt)
  note s = page_base_simps(2-4) [OF assms]
  have r: "get_rel_page ty p = int (unat p - unat b)" if "check_valid_pg ty p"
  proof -
    have "b \<le> p" "unat p - unat b < 2 ^ 31" using that unfolding s(1) by (auto simp: word_le_nat_alt)
    then show ?thesis unfolding s(2) by (rule sint_diff)
  qed
  show "issettable_page ty p \<longleftrightarrow> unat p \<in> {unat b..unat b + 0x7f} \<union> {unat b + 0x10000..unat b + 0x1fffffff} \<union> {0xf0000000..}"
  proof (cases "check_valid_pg ty p")
    case True
    obtain k where k: "unat p = unat b + k" "k < 0x30000000" using True unfolding s(1) by (auto simp: le_iff_add)
    then have "get_rel_page ty p = int k" using r [OF True] by simp
    then show ?thesis using True k s(3) unfolding issettable_page_def Let_def
      by (simp add: STD_PG_LB_def STD_PG_UB_def LUN_PG_LB_def LUN_PG_UB_def)
  next
    case False
    then have "unat p < unat b \<or> unat b + 0x30000000 \<le> unat p" unfolding s(1) by linarith
    moreover have "issettable_page ty p \<longleftrightarrow> 0xf0000000 \<le> unat p" using False any by (simp add: issettable_page_def)
    ultimately show ?thesis using s(3) by auto
  qed
  show "isgettable_page ty p \<longleftrightarrow> unat p \<in> {unat b..unat b + 0x7f} \<union> {unat b + 0x8000..unat b + 0x2fffffff} \<union> {0xf0000000..}"
  proof (cases "check_valid_pg ty p")
    case True
    obtain k where k: "unat p = unat b + k" "k < 0x30000000" using True unfolding s(1) by (auto simp: le_iff_add)
    then have "get_rel_page ty p = int k" using r [OF True] by simp
    then show ?thesis using True k s(3) unfolding isgettable_page_def Let_def
      by (simp add: RSRV_PG_LB_def RSRV_PG_UB_def VEND_PG_UB_def) arith
  next
    case False
    then have "unat p < unat b \<or> unat b + 0x30000000 \<le> unat p" unfolding s(1) by linarith
    moreover have "isgettable_page ty p \<longleftrightarrow> 0xf0000000 \<le> unat p" using False any by (simp add: isgettable_page_def)
    ultimately show ?thesis using s(3) by auto
  qed
qed

section \<open>Properties\<close>

text \<open>
  The page classification as ranges of page numbers: relative to the first page of the object's
  type, the standard pages and those of the logical unit can be set, and all but the reserved ones
  can be read; pages from \<open>0xf0000000\<close> on belong to every type, and an object of an unknown type
  has no others.
\<close>

lemma page_classification:
  "case page_base ty of
     Some b \<Rightarrow>
       (issettable_page ty p \<longleftrightarrow>
         unat p \<in> {unat b..unat b + 0x7f} \<union> {unat b + 0x10000..unat b + 0x1fffffff} \<union> {0xf0000000..}) \<and>
       (isgettable_page ty p \<longleftrightarrow>
         unat p \<in> {unat b..unat b + 0x7f} \<union> {unat b + 0x8000..unat b + 0x2fffffff} \<union> {0xf0000000..})
   | None \<Rightarrow> (issettable_page ty p \<longleftrightarrow> 0xf0000000 \<le> unat p) \<and> (isgettable_page ty p \<longleftrightarrow> 0xf0000000 \<le> unat p)"
proof (cases "page_base ty")
  case None
  then show ?thesis
    using page_base_simps(1) [of ty p]
    by (simp add: issettable_page_def isgettable_page_def ANY_PG_def word_le_nat_alt)
next
  case (Some b)
  then show ?thesis using page_ranges by simp
qed

end
