(* ===== verification/Osd_Data.thy ===== *)
theory Osd_Data
  imports Osd_Device
begin

text \<open>
  \<^verbatim>\<open>osd-target/io.c\<close> and the data commands of \<^verbatim>\<open>osd-target/osd.c\<close>: reading and writing
  user objects contiguously, by scatter/gather list and by stride, appending, clearing, punching,
  flushing and mapping.

  Buffers are a byte list and an offset. A pointer to a header is read big-endian. \<open>None\<close> is an
  access outside a buffer; for the strided transfers also a loop that does not end.
\<close>

section \<open>Reading\<close>

text \<open>An answer with output: the buffer and the length used.\<close>

type_synonym out_answer = "int \<times> (bytes \<times> u64) \<times> bytes \<times> osd_device"

definition with_out :: "bytes \<Rightarrow> u64 \<Rightarrow> answer option \<Rightarrow> out_answer option" where
  "with_out m used r = map_option (\<lambda>(ret, sense, osd). (ret, (m, used), sense, osd)) r"

definition user_object :: "u64 \<Rightarrow> u64 \<Rightarrow> bool" where
  "user_object pid oid \<longleftrightarrow> pid \<ge> USEROBJECT_PID_LB \<and> oid \<ge> USEROBJECT_OID_LB"

definition contig_read ::
  "osd_device \<Rightarrow> u64 \<Rightarrow> u64 \<Rightarrow> u64 \<Rightarrow> u64 \<Rightarrow> bytes \<Rightarrow> nat \<Rightarrow> u64 \<Rightarrow> bytes \<Rightarrow> out_answer option" where
  "contig_read osd pid oid len offset m outdata used sense =
     (if \<not> user_object pid oid then with_out m used (out_cdb_err osd sense pid oid)
      else do {
        path \<leftarrow> get_dfile_name (root osd) pid oid;
        let (opened, f) = fs_open False path (files osd);
        if \<not> opened then with_out m used (out_cdb_err (osd\<lparr>files := f\<rparr>) sense pid oid)
        else do {
          let (data, f) = fs_pread path len offset f;
          m \<leftarrow> (case data of None \<Rightarrow> Some m | Some bs \<Rightarrow> buf_put m outdata bs);
          let (closed, f) = fs_close f;
          let osd = osd\<lparr>files := f\<rparr>;
          (case data of
             None \<Rightarrow> with_out m used (out_hw_err osd sense pid oid)
           | Some bs \<Rightarrow>
               if \<not> closed then with_out m used (out_hw_err osd sense pid oid)
               else do {
                 let readlen = length bs;
                 (ret, m, sense) \<leftarrow>
                   (if readlen < unat len
                    then do {
                      m \<leftarrow> buf_zero m (outdata + readlen) (unat len - readlen);
                      (ret, sense) \<leftarrow> sense_build_sdd_csi sense OSD_SSK_RECOVERED_ERROR
                        OSD_ASC_READ_PAST_END_OF_USER_OBJECT pid oid (of_nat readlen);
                      Some (ret, m, sense) }
                    else Some (0, m, sense));
                 Some (ret, (m, len), sense, osd\<lparr>ccap := fill_ccap None USEROBJECT pid oid 0\<rparr>) })
        }
      })"

text \<open>
  The loop of \<open>sgl_read\<close>. \<open>readlen\<close> and \<open>data_offset\<close> are the same number; after a short read the
  next segment is placed where the short one ended. The flag is false when a read failed.
\<close>

fun sgl_read_loop ::
  "string \<Rightarrow> u64 \<Rightarrow> nat \<Rightarrow> sg_list_entry list \<Rightarrow> bytes \<Rightarrow> u64 \<Rightarrow> fs \<Rightarrow> (bool \<times> bytes \<times> u64 \<times> fs) option" where
  "sgl_read_loop path offset outdata [] m data_offset f = Some (True, m, data_offset, f)"
| "sgl_read_loop path offset outdata (e # es) m data_offset f = do {
     let len = bytes_to_transfer e;
     let (data, f) = fs_pread path len (sg_offset e + offset) f;
     (case data of
        None \<Rightarrow> Some (False, m, data_offset, f)
      | Some bs \<Rightarrow> do {
          m \<leftarrow> buf_put m (outdata + unat data_offset) bs;
          m \<leftarrow> (if length bs < unat len
                 then buf_zero m (outdata + unat data_offset + length bs) (unat len - length bs)
                 else Some m);
          sgl_read_loop path offset outdata es m (data_offset + of_nat (length bs)) f }) }"

definition sgl_read ::
  "osd_device \<Rightarrow> u64 \<Rightarrow> u64 \<Rightarrow> u64 \<Rightarrow> u64 \<Rightarrow> sg_list_entry list \<Rightarrow> bytes \<Rightarrow> nat \<Rightarrow> u64 \<Rightarrow> bytes
    \<Rightarrow> out_answer option" where
  "sgl_read osd pid oid len offset sglist m outdata used sense =
     (if \<not> user_object pid oid then with_out m used (out_cdb_err osd sense pid oid)
      else do {
        path \<leftarrow> get_dfile_name (root osd) pid oid;
        let (opened, f) = fs_open False path (files osd);
        if \<not> opened then with_out m used (out_cdb_err (osd\<lparr>files := f\<rparr>) sense pid oid)
        else do {
          (ok, m, readlen, f) \<leftarrow> sgl_read_loop path offset outdata sglist m 0 f;
          if \<not> ok then with_out m used (out_hw_err (osd\<lparr>files := f\<rparr>) sense pid oid)
          else do {
            let (closed, f) = fs_close f;
            let osd = osd\<lparr>files := f\<rparr>;
            if \<not> closed then with_out m used (out_hw_err osd sense pid oid)
            else do {
              (ret, sense) \<leftarrow>
                (if readlen < len
                 then sense_build_sdd_csi sense OSD_SSK_RECOVERED_ERROR
                   OSD_ASC_READ_PAST_END_OF_USER_OBJECT pid oid readlen
                 else Some (0, sense));
              Some (ret, (m, readlen), sense, osd\<lparr>ccap := fill_ccap None USEROBJECT pid oid 0\<rparr>) }
          }
        }
      })"

text \<open>
  The loop of \<open>vec_read\<close>. The flag is false after a failed or short read. Nothing makes the element
  length positive or bounds it by the bytes left before the first round.
\<close>

partial_function (option) vec_read_loop ::
  "string \<Rightarrow> u64 \<Rightarrow> u64 \<Rightarrow> nat \<Rightarrow> u64 \<Rightarrow> u64 \<Rightarrow> u64 \<Rightarrow> u64 \<Rightarrow> bytes \<Rightarrow> fs
    \<Rightarrow> (bool \<times> bytes \<times> u64 \<times> fs) option" where
  "vec_read_loop path offset stride outdata bytes len data_offset offset_val m f =
     (if bytes = 0 then Some (True, m, data_offset, f)
      else do {
        let (data, f) = fs_pread path len (offset_val + offset) f;
        (case data of
           None \<Rightarrow> Some (False, m, data_offset, f)
         | Some bs \<Rightarrow> do {
             m \<leftarrow> buf_put m (outdata + unat data_offset) bs;
             if length bs \<noteq> unat len then Some (False, m, data_offset, f)
             else do {
               let bytes' = bytes - len;
               vec_read_loop path offset stride outdata bytes' (if bytes' < len then bytes' else len)
                 (data_offset + len) (offset_val + stride) m f } }) })"

definition vec_read ::
  "osd_device \<Rightarrow> u64 \<Rightarrow> u64 \<Rightarrow> u64 \<Rightarrow> u64 \<Rightarrow> bytes \<Rightarrow> nat \<Rightarrow> bytes \<Rightarrow> nat \<Rightarrow> u64 \<Rightarrow> bytes
    \<Rightarrow> out_answer option" where
  "vec_read osd pid oid len offset hdr indata m outdata used sense = do {
     stride \<leftarrow> get_ntohll hdr indata;
     elem \<leftarrow> get_ntohll hdr (indata + 8);
     if \<not> user_object pid oid then with_out m used (out_cdb_err osd sense pid oid)
     else do {
       path \<leftarrow> get_dfile_name (root osd) pid oid;
       let (opened, f) = fs_open False path (files osd);
       if \<not> opened then with_out m used (out_cdb_err (osd\<lparr>files := f\<rparr>) sense pid oid)
       else do {
         (ok, m, readlen, f) \<leftarrow> vec_read_loop path offset stride outdata len elem 0 0 m f;
         if \<not> ok then with_out m used (out_hw_err (osd\<lparr>files := f\<rparr>) sense pid oid)
         else do {
           let (closed, f) = fs_close f;
           let osd = osd\<lparr>files := f\<rparr>;
           if \<not> closed then with_out m used (out_hw_err osd sense pid oid)
           else do {
             (ret, sense) \<leftarrow>
               (if readlen < len
                then sense_build_sdd_csi sense OSD_SSK_RECOVERED_ERROR
                  OSD_ASC_READ_PAST_END_OF_USER_OBJECT pid oid readlen
                else Some (0, sense));
             Some (ret, (m, readlen), sense, osd\<lparr>ccap := fill_ccap None USEROBJECT pid oid 0\<rparr>) }
         }
       }
     }
   }"

definition osd_read_device ::
  "osd_device \<Rightarrow> u64 \<Rightarrow> u64 \<Rightarrow> u64 \<Rightarrow> u64 \<Rightarrow> bytes \<Rightarrow> nat \<Rightarrow> bytes \<Rightarrow> nat \<Rightarrow> u64 \<Rightarrow> sg_list_entry list
    \<Rightarrow> bytes \<Rightarrow> u8 \<Rightarrow> out_answer option" where
  "osd_read_device osd pid oid len offset hdr indata m outdata used sglist sense ddt =
     (if ddt = DDT_CONTIG then contig_read osd pid oid len offset m outdata used sense
      else if ddt = DDT_SGL then sgl_read osd pid oid len offset sglist m outdata used sense
      else if ddt = DDT_VEC then vec_read osd pid oid len offset hdr indata m outdata used sense
      else with_out m used (out_cdb_err osd sense pid oid))"

section \<open>Writing\<close>

text \<open>The bytes a \<open>pwrite\<close> takes from its source have to be there.\<close>

definition pwrite_from :: "string \<Rightarrow> bytes \<Rightarrow> nat \<Rightarrow> u64 \<Rightarrow> u64 \<Rightarrow> fs \<Rightarrow> (int \<times> fs) option" where
  "pwrite_from path data src len offset f = do {
     bs \<leftarrow> buf_get data src (unat len);
     Some (fs_pwrite path bs offset f) }"

definition contig_write ::
  "osd_device \<Rightarrow> u64 \<Rightarrow> u64 \<Rightarrow> u64 \<Rightarrow> u64 \<Rightarrow> bytes \<Rightarrow> nat \<Rightarrow> bytes \<Rightarrow> answer option" where
  "contig_write osd pid oid len offset data dinbuf sense =
     (if \<not> user_object pid oid then out_cdb_err osd sense pid oid
      else do {
        path \<leftarrow> get_dfile_name (root osd) pid oid;
        let (opened, f) = fs_open True path (files osd);
        if \<not> opened then out_cdb_err (osd\<lparr>files := f\<rparr>) sense pid oid
        else do {
          (ret, f) \<leftarrow> pwrite_from path data dinbuf len offset f;
          if ret < 0 \<or> ret \<noteq> uint len then out_hw_err (osd\<lparr>files := f\<rparr>) sense pid oid
          else do {
            let (closed, f) = fs_close f;
            let osd = osd\<lparr>files := f\<rparr>;
            if \<not> closed then out_hw_err osd sense pid oid
            else Some (OSD_OK, sense, osd\<lparr>ccap := fill_ccap None USEROBJECT pid oid 0\<rparr>) }
        }
      })"

fun sgl_write_loop ::
  "string \<Rightarrow> u64 \<Rightarrow> bytes \<Rightarrow> nat \<Rightarrow> sg_list_entry list \<Rightarrow> u64 \<Rightarrow> fs \<Rightarrow> (bool \<times> fs) option" where
  "sgl_write_loop path offset data dinbuf [] data_offset f = Some (True, f)"
| "sgl_write_loop path offset data dinbuf (e # es) data_offset f = do {
     let len = bytes_to_transfer e;
     (ret, f) \<leftarrow> pwrite_from path data (dinbuf + unat data_offset) len (sg_offset e + offset) f;
     if ret < 0 \<or> ret \<noteq> uint len then Some (False, f)
     else sgl_write_loop path offset data dinbuf es (data_offset + len) f }"

definition sgl_write ::
  "osd_device \<Rightarrow> u64 \<Rightarrow> u64 \<Rightarrow> u64 \<Rightarrow> u64 \<Rightarrow> bytes \<Rightarrow> nat \<Rightarrow> sg_list_entry list \<Rightarrow> bytes \<Rightarrow> answer option" where
  "sgl_write osd pid oid len offset data dinbuf sglist sense =
     (if \<not> user_object pid oid then out_cdb_err osd sense pid oid
      else do {
        path \<leftarrow> get_dfile_name (root osd) pid oid;
        let (opened, f) = fs_open True path (files osd);
        if \<not> opened then out_cdb_err (osd\<lparr>files := f\<rparr>) sense pid oid
        else do {
          (ok, f) \<leftarrow> sgl_write_loop path offset data dinbuf sglist 0 f;
          if \<not> ok then out_hw_err (osd\<lparr>files := f\<rparr>) sense pid oid
          else do {
            let (closed, f) = fs_close f;
            let osd = osd\<lparr>files := f\<rparr>;
            if \<not> closed then out_hw_err osd sense pid oid
            else Some (OSD_OK, sense, osd\<lparr>ccap := fill_ccap None USEROBJECT pid oid 0\<rparr>) }
        }
      })"

text \<open>The loop of \<open>vec_write\<close> and of \<open>vec_append\<close>.\<close>

partial_function (option) vec_write_loop ::
  "string \<Rightarrow> u64 \<Rightarrow> u64 \<Rightarrow> bytes \<Rightarrow> nat \<Rightarrow> u64 \<Rightarrow> u64 \<Rightarrow> u64 \<Rightarrow> u64 \<Rightarrow> fs \<Rightarrow> (bool \<times> fs) option" where
  "vec_write_loop path offset stride data dinbuf bytes len data_offset offset_val f =
     (if bytes = 0 then Some (True, f)
      else do {
        (ret, f) \<leftarrow> pwrite_from path data (dinbuf + unat data_offset) len (offset_val + offset) f;
        if ret < 0 \<or> ret \<noteq> uint len then Some (False, f)
        else do {
          let bytes' = bytes - len;
          vec_write_loop path offset stride data dinbuf bytes' (if bytes' < len then bytes' else len)
            (data_offset + len) (offset_val + stride) f } })"

definition vec_write ::
  "osd_device \<Rightarrow> u64 \<Rightarrow> u64 \<Rightarrow> u64 \<Rightarrow> u64 \<Rightarrow> bytes \<Rightarrow> nat \<Rightarrow> bytes \<Rightarrow> answer option" where
  "vec_write osd pid oid len offset data dinbuf sense = do {
     stride \<leftarrow> get_ntohll data dinbuf;
     elem \<leftarrow> get_ntohll data (dinbuf + 8);
     if \<not> user_object pid oid then out_cdb_err osd sense pid oid
     else do {
       path \<leftarrow> get_dfile_name (root osd) pid oid;
       let (opened, f) = fs_open True path (files osd);
       if \<not> opened then out_cdb_err (osd\<lparr>files := f\<rparr>) sense pid oid
       else do {
         (ok, f) \<leftarrow> vec_write_loop path offset stride data dinbuf (len - 16) elem 16 0 f;
         if \<not> ok then out_hw_err (osd\<lparr>files := f\<rparr>) sense pid oid
         else do {
           let (closed, f) = fs_close f;
           let osd = osd\<lparr>files := f\<rparr>;
           if \<not> closed then out_hw_err osd sense pid oid
           else Some (OSD_OK, sense, osd\<lparr>ccap := fill_ccap None USEROBJECT pid oid 0\<rparr>) }
       }
     }
   }"

definition osd_write ::
  "osd_device \<Rightarrow> u64 \<Rightarrow> u64 \<Rightarrow> u64 \<Rightarrow> u64 \<Rightarrow> bytes \<Rightarrow> nat \<Rightarrow> sg_list_entry list \<Rightarrow> bytes \<Rightarrow> u8
    \<Rightarrow> answer option" where
  "osd_write osd pid oid len offset data dinbuf sglist sense ddt =
     (if ddt = DDT_CONTIG then contig_write osd pid oid len offset data dinbuf sense
      else if ddt = DDT_SGL then sgl_write osd pid oid len offset data dinbuf sglist sense
      else if ddt = DDT_VEC then vec_write osd pid oid len offset data dinbuf sense
      else out_cdb_err osd sense pid oid)"

section \<open>Appending\<close>

definition contig_append ::
  "osd_device \<Rightarrow> u64 \<Rightarrow> u64 \<Rightarrow> u64 \<Rightarrow> bytes \<Rightarrow> nat \<Rightarrow> bytes \<Rightarrow> answer option" where
  "contig_append osd pid oid len data appenddata sense =
     (if \<not> user_object pid oid then out_cdb_err osd sense pid oid
      else do {
        path \<leftarrow> get_dfile_name (root osd) pid oid;
        let (opened, f) = fs_open True path (files osd);
        if \<not> opened then out_cdb_err (osd\<lparr>files := f\<rparr>) sense pid oid
        else do {
          let (pos, f) = fs_seek_end path f;
          (case pos of
             None \<Rightarrow> out_hw_err (osd\<lparr>files := f\<rparr>) sense pid oid
           | Some off \<Rightarrow> do {
               (ret, f) \<leftarrow> pwrite_from path data appenddata len off f;
               if ret < 0 \<or> ret \<noteq> uint len then out_hw_err (osd\<lparr>files := f\<rparr>) sense pid oid
               else do {
                 let (closed, f) = fs_close f;
                 let osd = osd\<lparr>files := f\<rparr>;
                 if \<not> closed then out_hw_err osd sense pid oid
                 else Some (OSD_OK, sense, osd\<lparr>ccap := fill_ccap None USEROBJECT pid oid off\<rparr>) } })
        }
      })"

text \<open>
  The pairs of a scatter/gather append stand in front of the data, in network byte order. The
  number of rounds is the count of pairs; the counter has 32 bits, which is enough for every buffer
  of less than 64 GiB.
\<close>

fun sgl_append_loop ::
  "nat \<Rightarrow> string \<Rightarrow> u64 \<Rightarrow> bytes \<Rightarrow> nat \<Rightarrow> u64 \<Rightarrow> u64 \<Rightarrow> fs \<Rightarrow> (bool \<times> fs) option" where
  "sgl_append_loop 0 path off data appenddata hdr_offset data_offset f = Some (True, f)"
| "sgl_append_loop (Suc n) path off data appenddata hdr_offset data_offset f = do {
     offset_val \<leftarrow> get_ntohll data (appenddata + unat hdr_offset);
     let hdr_offset = hdr_offset + 8;
     len \<leftarrow> get_ntohll data (appenddata + unat hdr_offset);
     let hdr_offset = hdr_offset + 8;
     (ret, f) \<leftarrow> pwrite_from path data (appenddata + unat data_offset) len (offset_val + off) f;
     if ret < 0 \<or> ret \<noteq> uint len then Some (False, f)
     else sgl_append_loop n path off data appenddata hdr_offset (data_offset + len) f }"

definition sgl_append ::
  "osd_device \<Rightarrow> u64 \<Rightarrow> u64 \<Rightarrow> u64 \<Rightarrow> bytes \<Rightarrow> nat \<Rightarrow> bytes \<Rightarrow> answer option" where
  "sgl_append osd pid oid len data appenddata sense = do {
     pairs \<leftarrow> get_ntohll data appenddata;
     let data_offset = pairs * 8 * 2 + 8;
     if \<not> user_object pid oid then out_cdb_err osd sense pid oid
     else do {
       path \<leftarrow> get_dfile_name (root osd) pid oid;
       let (opened, f) = fs_open True path (files osd);
       if \<not> opened then out_cdb_err (osd\<lparr>files := f\<rparr>) sense pid oid
       else do {
         let (pos, f) = fs_seek_end path f;
         (case pos of
            None \<Rightarrow> out_hw_err (osd\<lparr>files := f\<rparr>) sense pid oid
          | Some off \<Rightarrow> do {
              (ok, f) \<leftarrow> sgl_append_loop (unat pairs) path off data appenddata 8 data_offset f;
              if \<not> ok then out_hw_err (osd\<lparr>files := f\<rparr>) sense pid oid
              else do {
                let (closed, f) = fs_close f;
                let osd = osd\<lparr>files := f\<rparr>;
                if \<not> closed then out_hw_err osd sense pid oid
                else Some (OSD_OK, sense, osd\<lparr>ccap := fill_ccap None USEROBJECT pid oid off\<rparr>) } })
       }
     }
   }"

definition vec_append ::
  "osd_device \<Rightarrow> u64 \<Rightarrow> u64 \<Rightarrow> u64 \<Rightarrow> bytes \<Rightarrow> nat \<Rightarrow> bytes \<Rightarrow> answer option" where
  "vec_append osd pid oid len data appenddata sense = do {
     stride \<leftarrow> get_ntohll data appenddata;
     elem \<leftarrow> get_ntohll data (appenddata + 8);
     if \<not> user_object pid oid then out_cdb_err osd sense pid oid
     else do {
       path \<leftarrow> get_dfile_name (root osd) pid oid;
       let (opened, f) = fs_open True path (files osd);
       if \<not> opened then out_cdb_err (osd\<lparr>files := f\<rparr>) sense pid oid
       else do {
         let (pos, f) = fs_seek_end path f;
         (case pos of
            None \<Rightarrow> out_hw_err (osd\<lparr>files := f\<rparr>) sense pid oid
          | Some off \<Rightarrow> do {
              (ok, f) \<leftarrow> vec_write_loop path off stride data appenddata (len - 16) elem 16 0 f;
              if \<not> ok then out_hw_err (osd\<lparr>files := f\<rparr>) sense pid oid
              else do {
                let (closed, f) = fs_close f;
                let osd = osd\<lparr>files := f\<rparr>;
                if \<not> closed then out_hw_err osd sense pid oid
                else Some (OSD_OK, sense, osd\<lparr>ccap := fill_ccap None USEROBJECT pid oid off\<rparr>) } })
       }
     }
   }"

definition osd_append ::
  "osd_device \<Rightarrow> u64 \<Rightarrow> u64 \<Rightarrow> u64 \<Rightarrow> bytes \<Rightarrow> nat \<Rightarrow> u32 \<Rightarrow> bytes \<Rightarrow> u8 \<Rightarrow> answer option" where
  "osd_append osd pid oid len data appenddata cdb_cont_len sense ddt =
     (if ddt = DDT_CONTIG then contig_append osd pid oid len data (appenddata + unat cdb_cont_len) sense
      else if ddt = DDT_SGL then sgl_append osd pid oid len data (appenddata + unat cdb_cont_len) sense
      else if ddt = DDT_VEC then vec_append osd pid oid len data appenddata sense
      else out_cdb_err osd sense pid oid)"

section \<open>Clearing, punching, flushing and mapping\<close>

text \<open>The labels that close the descriptor if there is one.\<close>

definition close_after :: "answer option \<Rightarrow> answer option" where
  "close_after r = do {
     (ret, sense, osd) \<leftarrow> r;
     let (_, f) = fs_close (files osd);
     Some (ret, sense, osd\<lparr>files := f\<rparr>) }"

text \<open>\<open>calloc\<close> comes first; a failing \<open>close\<close> leads to a label that closes once more.\<close>

definition osd_clear ::
  "osd_device \<Rightarrow> u64 \<Rightarrow> u64 \<Rightarrow> u64 \<Rightarrow> u64 \<Rightarrow> bytes \<Rightarrow> answer option" where
  "osd_clear osd pid oid len offset sense =
     (if \<not> alloc_ok (files osd) (unat len) then out_hw_err osd sense pid oid
      else if \<not> user_object pid oid then out_cdb_err osd sense pid oid
      else do {
        path \<leftarrow> get_dfile_name (root osd) pid oid;
        let (opened, f) = fs_open True path (files osd);
        if \<not> opened then out_cdb_err (osd\<lparr>files := f\<rparr>) sense pid oid
        else do {
          (ret, f) \<leftarrow> pwrite_from path (replicate (unat len) 0) 0 len offset f;
          if ret < 0 \<or> ret \<noteq> uint len then close_after (out_hw_err (osd\<lparr>files := f\<rparr>) sense pid oid)
          else do {
            let (closed, f) = fs_close f;
            let osd = osd\<lparr>files := f\<rparr>;
            if \<not> closed then close_after (out_hw_err osd sense pid oid)
            else Some (OSD_OK, sense, osd\<lparr>ccap := fill_ccap None USEROBJECT pid oid 0\<rparr>) }
        }
      })"

text \<open>
  \<open>osd_punch\<close>. The size comes from \<open>stat\<close>; when that fails the command answers \<open>OSD_ERROR\<close> without
  sense data. The bytes after a short read are not initialised.
\<close>

definition osd_punch ::
  "osd_device \<Rightarrow> u64 \<Rightarrow> u64 \<Rightarrow> u64 \<Rightarrow> u64 \<Rightarrow> bytes \<Rightarrow> answer option" where
  "osd_punch osd pid oid len offset sense =
     (if \<not> user_object pid oid then out_cdb_err osd sense pid oid
      else do {
        path \<leftarrow> get_dfile_name (root osd) pid oid;
        let (opened, f) = fs_open True path (files osd);
        if \<not> opened then out_cdb_err (osd\<lparr>files := f\<rparr>) sense pid oid
        else do {
          let new_offset = len + offset;
          let (st, f) = fs_stat path f;
          (case st of
             StOk _ sz \<Rightarrow>
               if offset > sz then close_after (out_cdb_err (osd\<lparr>files := f\<rparr>) sense pid oid)
               else if new_offset > sz
               then do {
                 let (ok, f) = fs_truncate path offset f;
                 if \<not> ok then close_after (out_hw_err (osd\<lparr>files := f\<rparr>) sense pid oid)
                 else do {
                   let (closed, f) = fs_close f;
                   let osd = osd\<lparr>files := f\<rparr>;
                   if \<not> closed then close_after (out_hw_err osd sense pid oid)
                   else Some (OSD_OK, sense, osd) } }
               else do {
                 let new_len = sz - new_offset;
                 if \<not> alloc_ok f (unat new_len)
                 then close_after (out_hw_err (osd\<lparr>files := f\<rparr>) sense pid oid)
                 else do {
                   let (data, f) = fs_pread path new_len new_offset f;
                   (case data of
                      None \<Rightarrow> close_after (out_hw_err (osd\<lparr>files := f\<rparr>) sense pid oid)
                    | Some bs \<Rightarrow> do {
                        (ret, f) \<leftarrow> pwrite_from path bs 0 new_len offset f;
                        if ret < 0 \<or> ret \<noteq> uint new_len
                        then close_after (out_hw_err (osd\<lparr>files := f\<rparr>) sense pid oid)
                        else do {
                          let (ok, f) = fs_truncate path (offset + new_len) f;
                          if \<not> ok then close_after (out_hw_err (osd\<lparr>files := f\<rparr>) sense pid oid)
                          else do {
                            let (closed, f) = fs_close f;
                            let osd = osd\<lparr>files := f\<rparr>;
                            if \<not> closed then close_after (out_hw_err osd sense pid oid)
                            else Some (OSD_OK, sense, osd) } } }) } }
           | _ \<Rightarrow> (let (_, f) = fs_close f in Some (OSD_ERROR, sense, osd\<lparr>files := f\<rparr>)))
        }
      })"

text \<open>
  \<open>osd_flush\<close>. The answer for a scope that is not implemented leaves the descriptor open.
\<close>

definition osd_flush ::
  "osd_device \<Rightarrow> u64 \<Rightarrow> u64 \<Rightarrow> u64 \<Rightarrow> u64 \<Rightarrow> int \<Rightarrow> bytes \<Rightarrow> answer option" where
  "osd_flush osd pid oid len offset flush_scope sense =
     (if \<not> user_object pid oid then out_cdb_err osd sense pid oid
      else do {
        path \<leftarrow> get_dfile_name (root osd) pid oid;
        let (opened, f) = fs_open True path (files osd);
        let finish = (\<lambda>synced f.
          if \<not> synced then close_after (out_hw_err (osd\<lparr>files := f\<rparr>) sense pid oid)
          else let (closed, f) = fs_close f; osd = osd\<lparr>files := f\<rparr> in
            if \<not> closed then close_after (out_hw_err osd sense pid oid)
            else Some (OSD_OK, sense, osd\<lparr>ccap := fill_ccap None USEROBJECT pid oid 0\<rparr>));
        if \<not> opened then out_cdb_err (osd\<lparr>files := f\<rparr>) sense pid oid
        else if flush_scope = 0 then (let (synced, f) = fs_sync f in finish synced f)
        else if flush_scope = 2
        then (case fs_stat path f of
            (StOk _ sz, f) \<Rightarrow>
              if offset > sz then close_after (out_cdb_err (osd\<lparr>files := f\<rparr>) sense pid oid)
              else if len > sz - offset
              then (let (synced, f) = fs_sync f in
                if \<not> synced then close_after (out_hw_err (osd\<lparr>files := f\<rparr>) sense pid oid)
                else let (_, f) = fs_close f in Some (OSD_OK, sense, osd\<lparr>files := f\<rparr>))
              else (let (synced, f) = fs_sync f in finish synced f)
          | (_, f) \<Rightarrow> (let (_, f) = fs_close f in Some (OSD_ERROR, sense, osd\<lparr>files := f\<rparr>)))
        else out_unimplemented (osd\<lparr>files := f\<rparr>) sense
      })"

definition osd_flush_collection :: "osd_device \<Rightarrow> bytes \<Rightarrow> answer option" where
  "osd_flush_collection osd sense = out_unimplemented osd sense"

definition osd_flush_osd :: "osd_device \<Rightarrow> bytes \<Rightarrow> answer option" where
  "osd_flush_osd osd sense = out_unimplemented osd sense"

definition osd_flush_partition :: "osd_device \<Rightarrow> bytes \<Rightarrow> answer option" where
  "osd_flush_partition osd sense = out_unimplemented osd sense"

definition set_dscptr :: "bytes \<Rightarrow> u16 \<Rightarrow> u32 \<Rightarrow> u64 \<Rightarrow> nat \<Rightarrow> bytes option" where
  "set_dscptr m dscptr_type data_len byte_offset p = do {
     m \<leftarrow> set_htons m (p + 2) dscptr_type;
     m \<leftarrow> set_htonl m (p + 4) data_len;
     set_htonll m (p + 8) byte_offset }"

text \<open>One descriptor for every four bytes of the file. The result counts the descriptors.\<close>

function read_map_loop :: "u16 \<Rightarrow> u64 \<Rightarrow> u64 \<Rightarrow> nat \<Rightarrow> u64 \<Rightarrow> bytes \<Rightarrow> (bytes \<times> u64) option" where
  "read_map_loop map_type file_size byte_offset p add_len m =
     (if file_size = 0 then Some (m, add_len)
      else do {
        let (data_len, file_size') =
          (if file_size \<le> 4 then (file_size, 0) else (4, file_size - 4));
        m \<leftarrow> set_dscptr m map_type (ucast data_len) byte_offset p;
        read_map_loop map_type file_size' (byte_offset + 16) (p + 16) (add_len + 1) m })"
  by pat_completeness auto
termination
proof (relation "measure (\<lambda>(_, file_size, _). unat file_size)", simp, goal_cases)
  case (1 map_type file_size byte_offset p add_len m x xa y m')
  show ?case
  proof (cases "file_size \<le> 4")
    case True
    with 1 show ?thesis by (simp add: unat_gt_0)
  next
    case False
    then have "unat (file_size - 4) < unat file_size"
      by (simp add: word_le_nat_alt unat_sub)
    with False 1 show ?thesis by simp
  qed
qed

declare read_map_loop.simps [simp del]

definition osd_read_map ::
  "osd_device \<Rightarrow> u64 \<Rightarrow> u64 \<Rightarrow> u64 \<Rightarrow> u64 \<Rightarrow> u16 \<Rightarrow> bytes \<Rightarrow> nat \<Rightarrow> u64 \<Rightarrow> bytes \<Rightarrow> out_answer option" where
  "osd_read_map osd pid oid alloc_len offset map_type m outdata used sense =
     (if alloc_len = 0 then Some (0, (m, used), sense, osd)
      else if alloc_len < 24 then with_out m used (out_cdb_err osd sense pid oid)
      else do {
        m \<leftarrow> buf_zero m outdata (unat alloc_len);
        if \<not> user_object pid oid then with_out m used (out_cdb_err osd sense pid oid)
        else do {
          path \<leftarrow> get_dfile_name (root osd) pid oid;
          let (opened, f) = fs_open False path (files osd);
          if \<not> opened then with_out m used (out_cdb_err (osd\<lparr>files := f\<rparr>) sense pid oid)
          else (case fs_stat path f of
            (StOk _ sz, f) \<Rightarrow>
              if offset > sz then with_out m used (out_cdb_err (osd\<lparr>files := f\<rparr>) sense pid oid)
              else if map_type = WRITTEN_DATA
              then do {
                (m, add_len) \<leftarrow> read_map_loop map_type (sz - offset) 8 (outdata + 8) 0 m;
                let used = 8 + add_len * 16;
                m \<leftarrow> (if add_len * 16 > 0xffffffff then set_htonll m outdata 0xffffffff
                       else set_htonll m outdata (add_len * 16));
                let (closed, f) = fs_close f;
                let osd = osd\<lparr>files := f\<rparr>;
                if \<not> closed then with_out m used (out_hw_err osd sense pid oid)
                else Some (OSD_OK, (m, used), sense, osd) }
              else with_out m used (out_unimplemented (osd\<lparr>files := f\<rparr>) sense)
          | (_, f) \<Rightarrow> (let (_, f) = fs_close f in
              Some (OSD_ERROR, (m, used), sense, osd\<lparr>files := f\<rparr>))) }
      })"

section \<open>Lemmas: the undisturbed system calls\<close>

lemma sint_nonneg: "unat (w :: u64) < 2 ^ 63 \<Longrightarrow> 0 \<le> sint w"
proof -
  assume "unat w < 2 ^ 63"
  then have "uint w < 2 ^ 63" unfolding uint_nat using of_nat_less_iff [of "unat w" "2 ^ 63", where ?'a = int] by simp
  then have "sint w = uint w"
    using signed_take_bit_int_eq_self [of 63 "uint w"] by (simp add: sint_uint order_trans [OF _ uint_ge_0])
  then show ?thesis by simp
qed

lemma fs_open_clean:
  "fs_clean f \<Longrightarrow> nodes f p = Some (RegFile c) \<Longrightarrow> fs_open w p f = (True, f\<lparr>open_fds := open_fds f + 1\<rparr>)"
  by (simp add: fs_open_def is_dir_def)

lemma fs_close_clean: "fs_clean f \<Longrightarrow> fs_close f = (True, f\<lparr>open_fds := open_fds f - 1\<rparr>)"
  by (simp add: fs_close_def)

lemma fs_pread_clean:
  "fs_clean f \<Longrightarrow> nodes f p = Some (RegFile c) \<Longrightarrow> unat off < 2 ^ 63 \<Longrightarrow> unat len \<le> rw_max \<Longrightarrow>
    fs_pread p len off f = (Some (take (unat len) (drop (unat off) c)), f)"
  using sint_nonneg [of off] by (simp add: fs_pread_def)

lemma fs_pwrite_clean:
  "fs_clean f \<Longrightarrow> nodes f p = Some (RegFile c) \<Longrightarrow> unat off < 2 ^ 63 \<Longrightarrow> length bs \<le> rw_max \<Longrightarrow>
    fs_pwrite p bs off f = (int (length bs), f\<lparr>nodes := (nodes f)(p \<mapsto> RegFile (write_at c (unat off) bs))\<rparr>)"
  using sint_nonneg [of off] by (simp add: fs_pwrite_def Let_def)

lemma fs_truncate_clean:
  "fs_clean f \<Longrightarrow> nodes f p = Some (RegFile c) \<Longrightarrow> unat n < 2 ^ 63 \<Longrightarrow>
    fs_truncate p n f = (True, f\<lparr>nodes := (nodes f)(p \<mapsto> RegFile (take (unat n) c @ replicate (unat n - length c) 0))\<rparr>)"
  using sint_nonneg [of n] by (simp add: fs_truncate_def)

lemma fs_stat_clean:
  "fs_clean f \<Longrightarrow> nodes f p = Some (RegFile c) \<Longrightarrow> fs_stat p f = (StOk True (of_nat (length c)), f)"
  by (simp add: fs_stat_def)

lemma fs_seek_end_clean:
  "fs_clean f \<Longrightarrow> nodes f p = Some (RegFile c) \<Longrightarrow> fs_seek_end p f = (Some (of_nat (length c)), f)"
  by (simp add: fs_seek_end_def)

lemmas fs_clean_calls = fs_open_clean fs_close_clean fs_pread_clean fs_pwrite_clean fs_truncate_clean
  fs_stat_clean fs_seek_end_clean

lemma uint_of_length: "buf_get data src (unat (len :: u64)) = Some bs \<Longrightarrow> int (length bs) = uint len"
  by (drule buf_get_length) (simp only: uint_nat)

text \<open>The data file of an object, and a device on which nothing else goes wrong.\<close>

definition object_file :: "osd_device \<Rightarrow> u64 \<Rightarrow> u64 \<Rightarrow> string \<Rightarrow> bytes \<Rightarrow> bool" where
  "object_file osd pid oid path c \<longleftrightarrow> user_object pid oid \<and> get_dfile_name (root osd) pid oid = Some path \<and>
     fs_clean (files osd) \<and> nodes (files osd) path = Some (RegFile c)"

text \<open>The device after a command that has replaced the contents of a data file.\<close>

definition file_replaced :: "osd_device \<Rightarrow> string \<Rightarrow> bytes \<Rightarrow> cur_cmd_attr_pg \<Rightarrow> osd_device" where
  "file_replaced osd path c cc =
     osd\<lparr>files := (files osd)\<lparr>nodes := (nodes (files osd))(path \<mapsto> RegFile c)\<rparr>, ccap := cc\<rparr>"

lemma object_file_replaced:
  "object_file osd pid oid path c \<Longrightarrow> object_file (file_replaced osd path c' cc) pid oid path c'"
  by (simp add: object_file_def file_replaced_def)

lemma contig_write_ok:
  assumes "object_file osd pid oid path c" and "unat len \<le> rw_max" and "unat offset < 2 ^ 63"
    and "buf_get data dinbuf (unat len) = Some bs"
  shows "contig_write osd pid oid len offset data dinbuf sense = Some (OSD_OK, sense,
    file_replaced osd path (write_at c (unat offset) bs) (fill_ccap None USEROBJECT pid oid 0))"
  using assms buf_get_length [OF assms(4)] uint_of_length [OF assms(4)]
  by (simp add: contig_write_def object_file_def fs_clean_calls pwrite_from_def file_replaced_def)

lemma contig_append_ok:
  assumes "object_file osd pid oid path c" and "unat len \<le> rw_max" and "length c < 2 ^ 63"
    and "buf_get data src (unat len) = Some bs"
  shows "contig_append osd pid oid len data src sense = Some (OSD_OK, sense,
    file_replaced osd path (c @ bs) (fill_ccap None USEROBJECT pid oid (of_nat (length c))))"
proof -
  have n: "unat (of_nat (length c) :: u64) = length c"
    using assms(3) by (simp add: unsigned_of_nat take_bit_nat_eq_self)
  have w: "write_at c (length c) bs = c @ bs" by (simp add: write_at_def)
  show ?thesis
    using assms n w buf_get_length [OF assms(4)] uint_of_length [OF assms(4)]
    by (simp add: contig_append_def object_file_def fs_clean_calls pwrite_from_def file_replaced_def)
qed

lemma osd_clear_ok:
  assumes "object_file osd pid oid path c" and "unat len \<le> rw_max" and "unat offset < 2 ^ 63"
    and "alloc_ok (files osd) (unat len)"
  shows "osd_clear osd pid oid len offset sense = Some (OSD_OK, sense,
    file_replaced osd path (write_at c (unat offset) (replicate (unat len) 0)) (fill_ccap None USEROBJECT pid oid 0))"
proof -
  have b: "buf_get (replicate (unat len) (0 :: u8)) 0 (unat len) = Some (replicate (unat len) 0)"
    by (simp add: buf_get_def)
  show ?thesis
    using assms b uint_of_length [OF b]
    by (simp add: osd_clear_def object_file_def fs_clean_calls pwrite_from_def file_replaced_def)
qed

lemma contig_read_ok:
  assumes "object_file osd pid oid path c" and "unat len \<le> rw_max" and "unat offset < 2 ^ 63"
    and "unat offset + unat len \<le> length c" and "outdata + unat len \<le> length m"
  shows "\<exists>m'. buf_put m outdata (take (unat len) (drop (unat offset) c)) = Some m' \<and>
    contig_read osd pid oid len offset m outdata used sense
      = Some (OSD_OK, (m', len), sense, osd\<lparr>ccap := fill_ccap None USEROBJECT pid oid 0\<rparr>)"
proof -
  have l: "length (take (unat len) (drop (unat offset) c)) = unat len" using assms(4) by simp
  obtain m' where "buf_put m outdata (take (unat len) (drop (unat offset) c)) = Some m'"
    using mem.put_some [of outdata "take (unat len) (drop (unat offset) c)" m] assms(5) l by auto
  then show ?thesis
    using assms l by (simp add: contig_read_def object_file_def fs_clean_calls osd_consts)
qed

lemma osd_punch_ok:
  assumes f: "object_file osd pid oid path c" and c: "length c < 2 ^ 63" "length c \<le> rw_max"
    and off: "unat offset \<le> length c" and nw: "unat offset + unat len < 2 ^ 64" and al: "\<And>n. alloc_ok (files osd) n"
  shows "osd_punch osd pid oid len offset sense = Some (OSD_OK, sense,
    file_replaced osd path (take (unat offset) c @ drop (unat offset + unat len) c) (ccap osd))"
proof -
  have n: "unat (of_nat (length c) :: u64) = length c"
    using c(1) by (simp add: unsigned_of_nat take_bit_nat_eq_self)
  have le: "\<not> offset > of_nat (length c)" using off n by (simp add: word_less_nat_alt)
  have s: "unat (len + offset) = unat offset + unat len"
    using nw unat_add_lem [of len offset] by simp
  have o63: "unat offset < 2 ^ 63" using off c(1) by simp
  show ?thesis
  proof (cases "len + offset > of_nat (length c)")
    case True
    then have gt: "length c < unat offset + unat len" using n s by (simp add: word_less_nat_alt)
    have t: "take (unat offset) c @ replicate (unat offset - length c) 0 = take (unat offset) c @ drop (unat offset + unat len) c"
      using off gt by simp
    show ?thesis
      using f True le o63 t
      by (simp add: osd_punch_def object_file_def fs_clean_calls file_replaced_def)
  next
    case False
    then have ge: "unat offset + unat len \<le> length c" using n s by (simp add: word_less_nat_alt)
    let ?n = "of_nat (length c) - (len + offset) :: u64"
    let ?tail = "drop (unat offset + unat len) c"
    have un: "unat ?n = length c - (unat offset + unat len)"
      using ge n s by (simp add: unat_sub word_le_nat_alt)
    have data: "take (unat ?n) (drop (unat (len + offset)) c) = ?tail"
      using un s by simp
    have b: "buf_get ?tail 0 (unat ?n) = Some ?tail" using un by (simp add: buf_get_def)
    have e: "unat (offset + ?n) = unat offset + unat ?n"
    proof (rule unat_add_lem [THEN iffD1])
      show "unat offset + unat ?n < 2 ^ LENGTH(64)" unfolding un using ge c(1) by simp
    qed
    have w: "take (unat offset + length ?tail) (write_at c (unat offset) ?tail) = take (unat offset) c @ ?tail"
      and z: "unat offset + length ?tail \<le> length (write_at c (unat offset) ?tail)"
      using off by (simp_all add: write_at_def write_at_length)
    have tr: "take (unat (offset + ?n)) (write_at c (unat offset) ?tail) @
        replicate (unat (offset + ?n) - length (write_at c (unat offset) ?tail)) 0 = take (unat offset) c @ ?tail"
      using w z e un by simp
    have "unat (len + offset) < 2 ^ 63" "unat ?n \<le> rw_max" "unat (offset + ?n) < 2 ^ 63" "length ?tail \<le> rw_max"
      using s ge c un e by simp_all
    then show ?thesis
      using f False le o63 data b uint_of_length [OF b] tr al
      by (simp add: osd_punch_def object_file_def fs_clean_calls file_replaced_def pwrite_from_def)
  qed
qed

lemma with_sense_ok:
  assumes "252 \<le> length sense"
  shows "\<exists>s. with_sense osd sense key code pid oid = Some (40, s, osd) \<and> length s = length sense \<and>
    buf_get s 0 4 = Some [0x72, key, ASC code, ASCQ code]"
proof -
  obtain s where "sense_build_sdd sense key code pid oid = Some (40, s)" "length s = length sense"
    "buf_get s 0 4 = Some [0x72, key, ASC code, ASCQ code]"
    by (rule sense_build_sdd_ok [OF assms])
  then show ?thesis by (simp add: with_sense_def)
qed

end
