(* ===== verification/Osd_Attr.thy ===== *)
theory Osd_Attr
  imports Osd_Data
begin

text \<open>
  Attributes as the device serves them: the pages of \<^verbatim>\<open>osd-target/attr.c\<close> that are computed
  from the device and its files, and the attribute commands of \<^verbatim>\<open>osd-target/osd.c\<close>.

  A pointer to an attribute value is the list of bytes from there to the end of its buffer, or
  none. The functions that pack a computed value copy it from local buffers they do not clear:
  \<open>locals\<close> is what the two buffers hold on entry.
\<close>

section \<open>Setting attributes\<close>

definition with_dbc :: "osd_device \<Rightarrow> (int \<times> db_context) option \<Rightarrow> (int \<times> osd_device) option" where
  "with_dbc osd r = map_option (\<lambda>(ret, d). (ret, osd\<lparr>dbc := d\<rparr>)) r"

text \<open>A string literal in memory.\<close>

definition cstr :: "string \<Rightarrow> bytes" where
  "cstr s = map of_char s @ [0]"

text \<open>The data file is cut or extended to the length \<open>val\<close> points to, given in 64 bits.\<close>

definition truncate_data :: "osd_device \<Rightarrow> u64 \<Rightarrow> u64 \<Rightarrow> u64 \<Rightarrow> (int \<times> osd_device) option" where
  "truncate_data osd pid oid len = do {
     path \<leftarrow> get_dfile_name (root osd) pid oid;
     let (ok, f) = fs_truncate path len (files osd);
     Some (if ok then OSD_OK else OSD_ERROR, osd\<lparr>files := f\<rparr>) }"

definition pointed_ll :: "bytes option \<Rightarrow> u64 option" where
  "pointed_ll val = (case val of None \<Rightarrow> None | Some v \<Rightarrow> get_ntohll v 0)"

text \<open>
  A system identifier shorter than its field is copied into an array whose block ends before the
  array is read: no result. The name of the device is printed up to its first zero byte.
\<close>

definition attr_set_attr ::
  "osd_device \<Rightarrow> u64 \<Rightarrow> u64 \<Rightarrow> u32 \<Rightarrow> u32 \<Rightarrow> bytes option \<Rightarrow> u16 \<Rightarrow> (int \<times> osd_device) option" where
  "attr_set_attr osd pid oid page number val len =
     (let stored = with_dbc osd (attr_set_attr_raw (dbc osd) pid oid page number val len) in
      if page = USER_INFO_PG then
        (if number = UIAP_USERNAME then stored
         else if number = UIAP_LOGICAL_LEN then do {
           len \<leftarrow> pointed_ll val;
           truncate_data osd pid oid len }
         else Some (OSD_OK, osd))
      else if page = ROOT_INFO_PG then
        (if number = RIAP_OSD_SYSTEM_ID then
           (if cdb_srvc_act (ccap osd) = OSD_FORMAT_OSD then
              (if unat len > RIAP_OSD_SYSTEM_ID_LEN then Some (- EINVAL, osd)
               else if unat len < RIAP_OSD_SYSTEM_ID_LEN then None
               else stored)
            else Some (OSD_ERROR, osd))
         else if number = RIAP_OSD_NAME then
           (case val of None \<Rightarrow> None | Some v \<Rightarrow> if 0 \<in> set v then stored else None)
         else Some (OSD_OK, osd))
      else stored)"

section \<open>Computed attributes\<close>

type_synonym locals = "bytes \<times> bytes"

text \<open>\<open>statfs\<close> and the block count of \<open>stat\<close>.\<close>

definition fs_statfs :: "string \<Rightarrow> fs \<Rightarrow> (u64 \<times> u64) option \<times> fs" where
  "fs_statfs p s =
     (let (ev, s) = io_next s in
      if ev = IoFail \<or> nodes s p = None then (None, s) else (Some (f_blocks s, f_bfree s), s))"

definition stat_size :: "string \<Rightarrow> fs \<Rightarrow> u64 option \<times> fs" where
  "stat_size p s = (case fs_stat p s of (StOk _ sz, s) \<Rightarrow> (Some sz, s) | (_, s) \<Rightarrow> (None, s))"

text \<open>
  Where the value of an attribute comes from: bytes and the length that is announced, the table
  (under a number), the table with bytes to fall back on, or an error.
\<close>

datatype attr_source = Computed bytes nat | Stored u32 | StoredOr u32 bytes nat | NoSource

definition page_name :: "locals \<Rightarrow> string \<Rightarrow> attr_source option" where
  "page_name ls s = do {
     name \<leftarrow> buf_put (fst ls) 0 (cstr s);
     Some (Computed name ATTR_PAGE_ID_LEN) }"

definition number_ll :: "locals \<Rightarrow> u64 \<Rightarrow> nat \<Rightarrow> attr_source option" where
  "number_ll ls v len = do {
     ll \<leftarrow> set_htonll (snd ls) 0 v;
     Some (Computed ll len) }"

definition number_l :: "locals \<Rightarrow> u32 \<Rightarrow> nat \<Rightarrow> attr_source option" where
  "number_l ls v len = do {
     ll \<leftarrow> set_htonl (snd ls) 0 v;
     Some (Computed ll len) }"

text \<open>The user object information page. The identifier of the object reads as that of the partition.\<close>

definition user_info :: "locals \<Rightarrow> osd_device \<Rightarrow> u64 \<Rightarrow> u64 \<Rightarrow> u32 \<Rightarrow> (attr_source \<times> osd_device) option" where
  "user_info ls osd pid oid number =
     (let on = (\<lambda>v f. map_option (\<lambda>s. (s, osd\<lparr>files := f\<rparr>)) v) in
      if number = 0 then on (page_name ls ''INCITS  T10 User Object Information'') (files osd)
      else if number = UIAP_PID then on (number_ll ls pid UIAP_PID_LEN) (files osd)
      else if number = UIAP_OID then on (number_ll ls pid UIAP_OID_LEN) (files osd)
      else if number = UIAP_USED_CAPACITY then do {
        path \<leftarrow> get_dfile_name (root osd) pid oid;
        (if oid = 0
         then (case fs_statfs path (files osd) of
             (None, f) \<Rightarrow> on (Some NoSource) f
           | (Some (blocks, bfree), f) \<Rightarrow>
               on (number_ll ls ((blocks - bfree) * BLOCK_SZ) UIAP_USED_CAPACITY_LEN) f)
         else (case stat_size path (files osd) of
             (None, f) \<Rightarrow> on (Some NoSource) f
           | (Some _, f) \<Rightarrow> on (number_ll ls (st_blocks f path * BLOCK_SZ) UIAP_USED_CAPACITY_LEN) f)) }
      else if number = UIAP_LOGICAL_LEN then do {
        path \<leftarrow> get_dfile_name (root osd) pid oid;
        (case stat_size path (files osd) of
           (None, f) \<Rightarrow> on (Some NoSource) f
         | (Some sz, f) \<Rightarrow> on (number_ll ls sz UIAP_LOGICAL_LEN_LEN) f) }
      else if number = PARTITION_CAPACITY_QUOTA then do {
        path \<leftarrow> get_dfile_name (root osd) pid oid;
        (case fs_statfs path (files osd) of
           (None, f) \<Rightarrow> on (Some NoSource) f
         | (Some (blocks, _), f) \<Rightarrow> on (number_ll ls (blocks * BLOCK_SZ) UIAP_USED_CAPACITY_LEN) f) }
      else if number = UIAP_USERNAME then on (Some (Stored UIAP_USERNAME)) (files osd)
      else on (Some NoSource) (files osd))"

text \<open>
  The root information page. The stored system identifier is looked up under the number that is the
  length of the field.
\<close>

definition default_system_id :: bytes where
  "default_system_id = [0xf1, 0x81, 0x00, 0x0e] @ map of_char ''OSC     OSDEMU'' @ [0, 0]"

definition root_info_attr :: "locals \<Rightarrow> u32 \<Rightarrow> attr_source option" where
  "root_info_attr ls number =
     (if number = 0 then page_name ls ''INCITS  T10 Root Information''
      else if number = RIAP_OSD_SYSTEM_ID
      then Some (StoredOr (of_nat RIAP_OSD_SYSTEM_ID_LEN) default_system_id RIAP_OSD_SYSTEM_ID_LEN)
      else if number = RIAP_VENDOR_IDENTIFICATION then Some (Computed (cstr ''OSC'') 4)
      else if number = RIAP_PRODUCT_IDENTIFICATION then Some (Computed (cstr ''OSDEMU'') 7)
      else if number = RIAP_PRODUCT_MODEL then Some (Computed (cstr ''OSD2r05'') 8)
      else if number = RIAP_PRODUCT_REVISION_LEVEL then number_l ls 117 RIAP_PRODUCT_REVISION_LEVEL_LEN
      else if number = RIAP_PRODUCT_SERIAL_NUMBER then Some (Computed (cstr ''2'') 2)
      else if number = RIAP_TOTAL_CAPACITY then number_ll ls (- 1) RIAP_TOTAL_CAPACITY_LEN
      else if number = RIAP_USED_CAPACITY then number_ll ls (- 1) RIAP_USED_CAPACITY_LEN
      else if number = RIAP_NUMBER_OF_PARTITIONS then number_ll ls 17 RIAP_NUMBER_OF_PARTITIONS_LEN
      else if number = RIAP_CLOCK then number_l ls 0 RIAP_CLOCK_LEN
      else if number = RIAP_OSD_NAME then Some (Stored RIAP_OSD_NAME)
      else Some NoSource)"

text \<open>Packing what was found, in the format asked for.\<close>

definition used_of :: "int \<Rightarrow> u32 \<Rightarrow> int \<times> u32" where
  "used_of ret used =
     (if ret = - EOVERFLOW then (OSD_OK, 0) else if ret > 0 then (OSD_OK, word_of_int ret) else (ret, used))"

definition pack_computed ::
  "u64 \<Rightarrow> u32 \<Rightarrow> u32 \<Rightarrow> nat \<Rightarrow> bytes option \<Rightarrow> u64 \<Rightarrow> nat \<Rightarrow> u8 \<Rightarrow> bytes \<times> u32 \<Rightarrow> (int \<times> bytes \<times> u32) option" where
  "pack_computed oid page number len val outlen outdata listfmt = (\<lambda>(m, used).
     if listfmt = RTRVD_SET_ATTR_LIST then do {
       (ret, m) \<leftarrow> le_pack_attr 0 m outdata (ucast outlen) page number (of_nat len) val;
       let (ret, used) = used_of ret used;
       Some (ret, m, used) }
     else if listfmt = RTRVD_CREATE_MULTIOBJ_LIST then do {
       (ret, m) \<leftarrow> le_multiobj_pack_attr 0 m outdata (ucast outlen) oid page number (of_nat len) val;
       let (ret, used) = used_of ret used;
       Some (ret, m, used) }
     else Some (OSD_ERROR, m, used))"

text \<open>A page that is neither of the two is packed as an attribute of length 0.\<close>

definition attr_get_attr ::
  "locals \<Rightarrow> osd_device \<Rightarrow> u64 \<Rightarrow> u64 \<Rightarrow> u32 \<Rightarrow> u32 \<Rightarrow> u64 \<Rightarrow> nat \<Rightarrow> u8 \<Rightarrow> bytes \<times> u32
    \<Rightarrow> (int \<times> (bytes \<times> u32) \<times> osd_device) option" where
  "attr_get_attr ls osd pid oid page number outlen outdata listfmt out = do {
     (source, osd) \<leftarrow>
       (if page = USER_INFO_PG then user_info ls osd pid oid number
        else if page = ROOT_INFO_PG then map_option (\<lambda>s. (s, osd)) (root_info_attr ls number)
        else Some (Computed [] 0, osd));
     let stored = (\<lambda>number. attr_get_attr_raw (dbc osd) pid oid page number outlen outdata listfmt out);
     (case source of
        NoSource \<Rightarrow> Some (OSD_ERROR, out, osd)
      | Stored number \<Rightarrow> do {
          (ret, out, d) \<leftarrow> stored number;
          Some (ret, out, osd\<lparr>dbc := d\<rparr>) }
      | StoredOr own val len \<Rightarrow> do {
          (ret, out, d) \<leftarrow> stored own;
          if ret = - ENOENT
          then do {
            (ret, out) \<leftarrow> pack_computed oid page number len (Some val) outlen outdata listfmt out;
            Some (ret, out, osd\<lparr>dbc := d\<rparr>) }
          else Some (ret, out, osd\<lparr>dbc := d\<rparr>) }
      | Computed val len \<Rightarrow> do {
          (ret, out) \<leftarrow> pack_computed oid page number len (if len = 0 then None else Some val)
            outlen outdata listfmt out;
          Some (ret, out, osd) }) }"

section \<open>The current command and the time stamps\<close>

text \<open>\<open>get_ccap\<close>: the whole page, or nothing when it does not fit.\<close>

definition get_ccap :: "osd_device \<Rightarrow> nat \<Rightarrow> u64 \<Rightarrow> bytes \<Rightarrow> (int \<times> bytes \<times> u32) option" where
  "get_ccap osd outbuf outlen m =
     (if unat outlen < CCAP_TOTAL_LEN then Some (OSD_OK, m, 0)
      else do {
        m \<leftarrow> buf_zero m outbuf CCAP_TOTAL_LEN;
        m \<leftarrow> set_htonl m outbuf CUR_CMD_ATTR_PG;
        m \<leftarrow> set_htonl m (outbuf + 4) (of_nat (CCAP_TOTAL_LEN - 8));
        m \<leftarrow> buf_put m (outbuf + CCAP_RICV_OFF) (ricv (ccap osd));
        m \<leftarrow> buf_put m (outbuf + CCAP_OBJT_OFF) [obj_type (ccap osd)];
        m \<leftarrow> set_htonll m (outbuf + CCAP_PID_OFF) (ccap_pid (ccap osd));
        m \<leftarrow> set_htonll m (outbuf + CCAP_OID_OFF) (ccap_oid (ccap osd));
        m \<leftarrow> set_htonll m (outbuf + CCAP_APPADDR_OFF) (append_off (ccap osd));
        Some (OSD_OK, m, of_nat CCAP_TOTAL_LEN) })"

text \<open>A buffer of \<open>ATTR_PAGE_ID_LEN\<close> zero bytes with a name in it.\<close>

definition cleared_name :: "string \<Rightarrow> bytes option" where
  "cleared_name s = buf_put (replicate ATTR_PAGE_ID_LEN 0) 0 (cstr s)"

definition ccap_value :: "cur_cmd_attr_pg \<Rightarrow> u32 \<Rightarrow> (bytes \<times> nat) option option" where
  "ccap_value c number =
     (if number = 0 then map_option (\<lambda>n. Some (n, ATTR_PAGE_ID_LEN)) (cleared_name ''INCITS  T10 Current Command'')
      else if number = CCAP_RICV then Some (Some (ricv c, CCAP_RICV_LEN))
      else if number = CCAP_OBJT then Some (Some ([obj_type c], CCAP_OBJT_LEN))
      else if number = CCAP_PID then map_option (\<lambda>ll. Some (ll, CCAP_PID_LEN)) (set_htonll (replicate 8 0) 0 (ccap_pid c))
      else if number = CCAP_OID then map_option (\<lambda>ll. Some (ll, CCAP_OID_LEN)) (set_htonll (replicate 8 0) 0 (ccap_oid c))
      else if number = CCAP_APPADDR
      then map_option (\<lambda>ll. Some (ll, CCAP_APPADDR_LEN)) (set_htonll (replicate 8 0) 0 (append_off c))
      else Some None)"

definition get_ccap_aslist ::
  "osd_device \<Rightarrow> u32 \<Rightarrow> nat \<Rightarrow> u64 \<Rightarrow> bytes \<times> u32 \<Rightarrow> (int \<times> bytes \<times> u32) option" where
  "get_ccap_aslist osd number outbuf outlen out = do {
     v \<leftarrow> ccap_value (ccap osd) number;
     (case v of
        None \<Rightarrow> Some (OSD_ERROR, out)
      | Some (val, len) \<Rightarrow>
          pack_computed 0 CUR_CMD_ATTR_PG number len (Some val) outlen outbuf RTRVD_SET_ATTR_LIST out) }"

text \<open>
  Milliseconds since 1970 in six bytes. The product is signed; a time that needs more than 48 bits
  is refused and nothing is written.
\<close>

definition set_hton_time :: "bytes \<Rightarrow> nat \<Rightarrow> u64 \<times> u64 \<Rightarrow> (int \<times> bytes) option" where
  "set_hton_time m x = (\<lambda>(sec, nsec).
     let t = sint sec * 1000 + sint nsec div 1000000 in
     if t < - (2 ^ 63) \<or> 2 ^ 63 \<le> t then None
     else
       let time = word_of_int t :: u64 in
       if time AND 0xffff000000000000 \<noteq> 0 then Some (OSD_ERROR, m)
       else do {
         m \<leftarrow> set_htontime m x time;
         Some (OSD_OK, m) })"

text \<open>One time after the other, up to the first that is refused.\<close>

fun set_times :: "(nat \<times> u64 \<times> u64) list \<Rightarrow> nat \<Rightarrow> bytes \<Rightarrow> (int \<times> bytes) option" where
  "set_times [] outbuf m = Some (OSD_OK, m)"
| "set_times ((off, t) # ts) outbuf m = do {
     (ret, m) \<leftarrow> set_hton_time m (outbuf + off) t;
     if ret \<noteq> OSD_OK then Some (ret, m) else set_times ts outbuf m }"

text \<open>\<open>get_utsap\<close>: the data times of the file and the attribute times of the whole database.\<close>

definition get_utsap ::
  "osd_device \<Rightarrow> u64 \<Rightarrow> u64 \<Rightarrow> nat \<Rightarrow> u64 \<Rightarrow> bytes \<times> u32 \<Rightarrow> (int \<times> (bytes \<times> u32) \<times> osd_device) option" where
  "get_utsap osd pid oid outbuf outlen = (\<lambda>(m, used).
     if unat outlen < UTSAP_TOTAL_LEN then Some (OSD_OK, (m, 0), osd)
     else do {
       m \<leftarrow> buf_zero m outbuf UTSAP_TOTAL_LEN;
       m \<leftarrow> set_htonl m outbuf USER_TMSTMP_PG;
       m \<leftarrow> set_htonl m (outbuf + 4) (of_nat (UTSAP_TOTAL_LEN - 8));
       path \<leftarrow> get_dfile_name (root osd) pid oid;
       (case stat_size path (files osd) of
          (None, f) \<Rightarrow> Some (OSD_ERROR, (m, used), osd\<lparr>files := f\<rparr>)
        | (Some _, f) \<Rightarrow> do {
            dbpath \<leftarrow> get_dbname (root osd);
            (case stat_size dbpath f of
               (None, f) \<Rightarrow> Some (OSD_ERROR, (m, used), osd\<lparr>files := f\<rparr>)
             | (Some _, f) \<Rightarrow> do {
                 let d = st_times f path;
                 let a = st_times f dbpath;
                 (ret, m) \<leftarrow> set_times [(UTSAP_CTIME_OFF, ft_ctime d), (UTSAP_ATTR_ATIME_OFF, ft_atime a),
                   (UTSAP_ATTR_MTIME_OFF, ft_mtime a), (UTSAP_DATA_ATIME_OFF, ft_atime d),
                   (UTSAP_DATA_MTIME_OFF, ft_mtime d)] outbuf m;
                 if ret \<noteq> OSD_OK then Some (ret, (m, used), osd\<lparr>files := f\<rparr>)
                 else Some (OSD_OK, (m, of_nat UTSAP_TOTAL_LEN), osd\<lparr>files := f\<rparr>) }) }) })"

text \<open>The times one by one. A time that is refused reads as 0.\<close>

definition time_value :: "u64 \<times> u64 \<Rightarrow> bytes option" where
  "time_value t = map_option snd (set_hton_time (replicate 8 0) 0 t)"

definition get_utsap_aslist ::
  "osd_device \<Rightarrow> u64 \<Rightarrow> u64 \<Rightarrow> u32 \<Rightarrow> nat \<Rightarrow> u64 \<Rightarrow> u8 \<Rightarrow> bytes \<times> u32
    \<Rightarrow> (int \<times> (bytes \<times> u32) \<times> osd_device) option" where
  "get_utsap_aslist osd pid oid number outbuf outlen listfmt out =
     (let pack = (\<lambda>val len f. do {
            (ret, out) \<leftarrow> pack_computed oid USER_TMSTMP_PG number len (Some val) outlen outbuf
              (if listfmt = RTRVD_CREATE_MULTIOBJ_LIST then listfmt else RTRVD_SET_ATTR_LIST) out;
            Some (ret, out, osd\<lparr>files := f\<rparr>) });
          timed = (\<lambda>path time. (case stat_size path (files osd) of
              (None, f) \<Rightarrow> Some (OSD_ERROR, out, osd\<lparr>files := f\<rparr>)
            | (Some _, f) \<Rightarrow> do {
                val \<leftarrow> time_value (time (st_times f path));
                pack val 6 f }))
      in
      if number = 0 then do {
        name \<leftarrow> cleared_name ''INCITS  T10 User Object Timestamps'';
        pack name ATTR_PAGE_ID_LEN (files osd) }
      else if number = UTSAP_CTIME \<or> number = UTSAP_DATA_MTIME \<or> number = UTSAP_DATA_ATIME then do {
        path \<leftarrow> get_dfile_name (root osd) pid oid;
        timed path (if number = UTSAP_CTIME then ft_ctime
          else if number = UTSAP_DATA_ATIME then ft_atime else ft_mtime) }
      else if number = UTSAP_ATTR_ATIME \<or> number = UTSAP_ATTR_MTIME then do {
        path \<leftarrow> get_dbname (root osd);
        timed path (if number = UTSAP_ATTR_ATIME then ft_atime else ft_mtime) }
      else Some (OSD_ERROR, out, osd))"

section \<open>The information and collection pages\<close>

definition get_uiap ::
  "locals \<Rightarrow> osd_device \<Rightarrow> u64 \<Rightarrow> u64 \<Rightarrow> u32 \<Rightarrow> u32 \<Rightarrow> nat \<Rightarrow> u64 \<Rightarrow> u8 \<Rightarrow> bytes \<times> u32
    \<Rightarrow> (int \<times> (bytes \<times> u32) \<times> osd_device) option" where
  "get_uiap ls osd pid oid page number outbuf outlen listfmt out = do {
     (ret, out, osd) \<leftarrow> attr_get_attr ls osd pid oid page number outlen outbuf listfmt out;
     Some (if ret \<noteq> 0 then OSD_ERROR else OSD_OK, out, osd) }"

text \<open>The logical length goes through a 16-bit variable.\<close>

definition set_uiap :: "osd_device \<Rightarrow> u64 \<Rightarrow> u64 \<Rightarrow> u32 \<Rightarrow> bytes option \<Rightarrow> u16 \<Rightarrow> (int \<times> osd_device) option" where
  "set_uiap osd pid oid number val len =
     (if number = UIAP_USERNAME
      then with_dbc osd (attr_set_conversion (dbc osd) pid oid USER_INFO_PG number val len)
      else if number = UIAP_LOGICAL_LEN then do {
        v \<leftarrow> pointed_ll val;
        truncate_data osd pid oid (ucast (ucast v :: u16)) }
      else Some (OSD_ERROR, osd))"

definition get_riap ::
  "locals \<Rightarrow> osd_device \<Rightarrow> u64 \<Rightarrow> u64 \<Rightarrow> u32 \<Rightarrow> u32 \<Rightarrow> nat \<Rightarrow> u64 \<Rightarrow> u8 \<Rightarrow> bytes \<times> u32
    \<Rightarrow> (int \<times> (bytes \<times> u32) \<times> osd_device) option" where
  "get_riap ls osd pid oid page number outbuf outlen listfmt out =
     attr_get_attr ls osd pid oid page number outlen outbuf listfmt out"

text \<open>
  A system identifier while formatting: too long and exactly fitting ones are refused, a shorter one
  is copied into an array whose block ends before it is read.
\<close>

definition set_riap :: "osd_device \<Rightarrow> u64 \<Rightarrow> u64 \<Rightarrow> u32 \<Rightarrow> bytes option \<Rightarrow> u16 \<Rightarrow> (int \<times> osd_device) option" where
  "set_riap osd pid oid number val len =
     (if number = RIAP_OSD_SYSTEM_ID \<and> cdb_srvc_act (ccap osd) = OSD_FORMAT_OSD
      then if unat len > RIAP_OSD_SYSTEM_ID_LEN then Some (- EINVAL, osd)
           else if unat len < RIAP_OSD_SYSTEM_ID_LEN then None
           else Some (OSD_ERROR, osd)
      else attr_set_attr osd pid oid ROOT_INFO_PG number val len)"

text \<open>Membership through the collection page of the object: length 0 leaves the collection.\<close>

definition set_cap :: "osd_device \<Rightarrow> u64 \<Rightarrow> u64 \<Rightarrow> u32 \<Rightarrow> bytes option \<Rightarrow> u16 \<Rightarrow> (int \<times> osd_device) option" where
  "set_cap osd pid oid number val len =
     (if number < UCAP_COLL_PTR_LB \<or> number > UCAP_COLL_PTR_UB then Some (OSD_ERROR, osd)
      else if len = 0 then do {
        (ret, cid, d) \<leftarrow> coll_get_cid (dbc osd) pid oid number 0;
        if ret \<noteq> 0 then Some (OSD_ERROR, osd\<lparr>dbc := d\<rparr>)
        else do {
          (ret, d) \<leftarrow> coll_delete d pid cid oid;
          Some (if ret \<noteq> 0 then OSD_ERROR else OSD_OK, osd\<lparr>dbc := d\<rparr>) } }
      else if len \<noteq> 8 then Some (OSD_ERROR, osd)
      else do {
        cid \<leftarrow> pointed_ll val;
        (ret, present, d) \<leftarrow> obj_ispresent (dbc osd) pid cid;
        if ret \<noteq> OSD_OK \<or> present = 0 then Some (OSD_ERROR, osd\<lparr>dbc := d\<rparr>)
        else do {
          (ret, d) \<leftarrow> coll_insert d pid cid oid number;
          Some (if ret \<noteq> 0 then OSD_ERROR else OSD_OK, osd\<lparr>dbc := d\<rparr>) } })"

section \<open>Getting attributes\<close>

definition mutiplex_getattr_list ::
  "osd_device \<Rightarrow> u64 \<Rightarrow> u64 \<Rightarrow> u32 \<Rightarrow> u32 \<Rightarrow> nat \<Rightarrow> u32 \<Rightarrow> u8 \<Rightarrow> bytes \<times> u32
    \<Rightarrow> (int \<times> (bytes \<times> u32) \<times> osd_device) option" where
  "mutiplex_getattr_list osd pid oid page number outbuf outlen listfmt out = do {
     (ret, out, d) \<leftarrow>
       (if page = GETALLATTR_PG \<and> number = ATTRNUM_GETALL
        then attr_get_all_attrs (dbc osd) pid oid (ucast outlen) outbuf listfmt out
        else if number = ATTRNUM_GETALL
        then attr_get_page_as_list (dbc osd) pid oid page (ucast outlen) outbuf listfmt out
        else if page = GETALLATTR_PG
        then attr_get_for_all_pages (dbc osd) pid oid number (ucast outlen) outbuf listfmt out
        else attr_get_conversion (dbc osd) pid oid page number (ucast outlen) outbuf listfmt out);
     Some (ret, out, osd\<lparr>dbc := d\<rparr>) }"

definition fill_null_attr ::
  "u64 \<Rightarrow> u32 \<Rightarrow> u32 \<Rightarrow> bytes \<Rightarrow> nat \<Rightarrow> u32 \<Rightarrow> u8 \<Rightarrow> (int \<times> bytes) option" where
  "fill_null_attr oid page number m outbuf outlen listfmt =
     (if page \<noteq> GETALLATTR_PG \<and> number \<noteq> ATTRNUM_GETALL
      then if listfmt = RTRVD_CREATE_MULTIOBJ_LIST
        then le_multiobj_pack_attr 0 m outbuf outlen oid page number 0 None
        else le_pack_attr 0 m outbuf outlen page number 0 None
      else Some (0, m))"

definition page_id :: "string \<Rightarrow> bytes" where
  "page_id s = take 40 (map of_char s @ replicate 40 0)"

definition user_tmstmp_page :: bytes where
  "user_tmstmp_page = page_id ''INCITS  T10 User Object Timestamps     ''"

definition user_atomic_page :: bytes where
  "user_atomic_page = page_id ''INCITS  T10 User Atomics               ''"

definition lazy_init_attr :: "osd_device \<Rightarrow> u64 \<Rightarrow> u64 \<Rightarrow> u32 \<Rightarrow> u32 \<Rightarrow> (int \<times> osd_device) option" where
  "lazy_init_attr osd pid oid page number =
     (if page \<noteq> GETALLATTR_PG \<and> number \<noteq> ATTRNUM_GETALL \<or>
         page \<le> USER_ATOMICS_PG \<and> number > 0 \<or>
         page > USER_ATOMICS_PG \<and> page \<noteq> GETALLATTR_PG
      then Some (OSD_OK, osd)
      else do {
        (ret, _, d) \<leftarrow> attr_get_val (dbc osd) pid oid USER_TMSTMP_PG 0 40 0 (replicate 40 0, 0);
        let osd = osd\<lparr>dbc := d\<rparr>;
        if ret = OSD_OK then Some (OSD_OK, osd)
        else if ret \<noteq> - ENOENT then Some (ret, osd)
        else do {
          (ret, osd) \<leftarrow> attr_set_attr osd pid oid USER_TMSTMP_PG 0 (Some user_tmstmp_page) 40;
          if ret \<noteq> OSD_OK then Some (ret, osd)
          else attr_set_attr osd pid oid USER_ATOMICS_PG 0 (Some user_atomic_page) 40 } })"

text \<open>An answer with a buffer and a 32-bit length.\<close>

type_synonym attr_answer = "int \<times> (bytes \<times> u32) \<times> bytes \<times> osd_device"

definition with_attrs :: "bytes \<times> u32 \<Rightarrow> answer option \<Rightarrow> attr_answer option" where
  "with_attrs out r = map_option (\<lambda>(ret, sense, osd). (ret, out, sense, osd)) r"

definition osd_getattr_list ::
  "locals \<Rightarrow> osd_device \<Rightarrow> u64 \<Rightarrow> u64 \<Rightarrow> u32 \<Rightarrow> u32 \<Rightarrow> nat \<Rightarrow> u32 \<Rightarrow> bool \<Rightarrow> u8 \<Rightarrow> bytes \<times> u32 \<Rightarrow> bytes
    \<Rightarrow> attr_answer option" where
  "osd_getattr_list ls osd pid oid page number outbuf outlen isembedded listfmt out sense = do {
     (ty, osd) \<leftarrow> get_obj_type osd pid oid;
     if ty = ILLEGAL_OBJ then with_attrs out (out_cdb_err osd sense pid oid)
     else if \<not> isgettable_page ty page then with_attrs out (out_param_list osd sense pid oid)
     else do {
       (ret, osd) \<leftarrow> lazy_init_attr osd pid oid page number;
       if ret \<noteq> OSD_OK then with_attrs out (out_hw_err osd sense pid oid)
       else do {
         (ret, out, osd) \<leftarrow>
           (if page = CUR_CMD_ATTR_PG
            then map_option (\<lambda>(ret, out). (ret, out, osd)) (get_ccap_aslist osd number outbuf (ucast outlen) out)
            else if page = PARTITION_DIR_PG + USER_TMSTMP_PG \<or> page = USER_TMSTMP_PG
            then get_utsap_aslist osd pid oid number outbuf (ucast outlen) listfmt out
            else if page = PARTITION_DIR_PG + USER_QUOTA_PG \<or> page = PARTITION_DIR_PG + USER_INFO_PG \<or>
              page = USER_INFO_PG
            then get_uiap ls osd pid oid page number outbuf (ucast outlen) listfmt out
            else if page = ROOT_INFO_PG
            then get_riap ls osd pid oid page number outbuf (ucast outlen) listfmt out
            else mutiplex_getattr_list osd pid oid page number outbuf outlen listfmt out);
         if ret = - EIO \<or> ret = - EINVAL \<or> ret = - ENOMEM \<or> ret = OSD_ERROR
         then with_attrs out (out_param_list osd sense pid oid)
         else do {
           (ok, out) \<leftarrow>
             (if ret = - ENOENT then do {
                (ret, m) \<leftarrow> fill_null_attr oid page number (fst out) outbuf outlen listfmt;
                Some (if ret = - EOVERFLOW then (True, m, 0)
                  else if ret \<ge> 0 then (True, m, word_of_int ret)
                  else (False, m, snd out)) }
              else Some (True, out));
           if \<not> ok then with_attrs out (out_param_list osd sense pid oid)
           else Some (OSD_OK, out, sense,
             if isembedded then osd else osd\<lparr>ccap := fill_ccap None ty pid oid 0\<rparr>) } } } }"

text \<open>A missing attribute (\<open>-ENOENT\<close>, \<open>-ENOMEM\<close>) is no error when a whole page is asked for.\<close>

definition osd_getattr_page ::
  "osd_device \<Rightarrow> u64 \<Rightarrow> u64 \<Rightarrow> u32 \<Rightarrow> nat \<Rightarrow> u64 \<Rightarrow> bool \<Rightarrow> bytes \<times> u32 \<Rightarrow> bytes \<Rightarrow> attr_answer option" where
  "osd_getattr_page osd pid oid page outbuf outlen isembedded out sense = do {
     (ty, osd) \<leftarrow> get_obj_type osd pid oid;
     if ty = ILLEGAL_OBJ then with_attrs out (out_cdb_err osd sense pid oid)
     else if \<not> isgettable_page ty page then with_attrs out (out_param_list osd sense pid oid)
     else do {
       let osd = (if isembedded then osd else osd\<lparr>ccap := fill_ccap None ty pid oid 0\<rparr>);
       let finish = (\<lambda>ret out osd.
         if ret = - EIO \<or> ret = - EINVAL \<or> ret = OSD_ERROR then with_attrs out (out_param_list osd sense pid oid)
         else Some (OSD_OK, out, sense, osd));
       if page = CUR_CMD_ATTR_PG then do {
         (ret, out) \<leftarrow> get_ccap osd outbuf outlen (fst out);
         finish ret out osd }
       else if page = USER_TMSTMP_PG then do {
         (ret, out, osd) \<leftarrow> get_utsap osd pid oid outbuf outlen out;
         finish ret out osd }
       else if page = GETALLATTR_PG then do {
         (ret, osd) \<leftarrow> lazy_init_attr osd pid oid page 0;
         if ret \<noteq> OSD_OK then with_attrs out (out_hw_err osd sense pid oid)
         else do {
           (ret, out, d) \<leftarrow> attr_get_all_attrs (dbc osd) pid oid outlen outbuf RTRVD_SET_ATTR_LIST out;
           finish ret out (osd\<lparr>dbc := d\<rparr>) } }
       else with_attrs out (out_cdb_err osd sense pid oid) } }"

definition osd_get_member_attributes :: "osd_device \<Rightarrow> bytes \<Rightarrow> answer option" where
  "osd_get_member_attributes osd sense = out_unimplemented osd sense"

section \<open>Setting attributes of objects\<close>

text \<open>Whether a zero byte is among the first \<open>len\<close> bytes.\<close>

definition terminated :: "bytes option \<Rightarrow> nat \<Rightarrow> bool option" where
  "terminated val len = (case val of
     None \<Rightarrow> if len = 0 then Some False else None
   | Some v \<Rightarrow> if 0 \<in> set (take len v) then Some True else if len \<le> length v then Some False else None)"

text \<open>The build without PVFS. A page of its own answers with its own error, always as a bad CDB.\<close>

definition osd_set_attributes ::
  "osd_device \<Rightarrow> u64 \<Rightarrow> u64 \<Rightarrow> u32 \<Rightarrow> u32 \<Rightarrow> bytes option \<Rightarrow> u16 \<Rightarrow> bool \<Rightarrow> bytes \<Rightarrow> answer option" where
  "osd_set_attributes osd pid oid page number val len isembedded sense = do {
     (ret, present, d) \<leftarrow> obj_ispresent (dbc osd) pid oid;
     let osd = osd\<lparr>dbc := d\<rparr>;
     if ret \<noteq> OSD_OK \<or> present = 0 then out_cdb_err osd sense pid oid
     else do {
       (ty, osd) \<leftarrow> get_obj_type osd pid oid;
       let success = (\<lambda>osd. Some (OSD_OK, sense,
         if isembedded then osd else osd\<lparr>ccap := fill_ccap None ty pid oid 0\<rparr>));
       let own_page = (\<lambda>(ret, osd). if ret = OSD_OK then success osd else out_cdb_err osd sense pid oid);
       if ty = ILLEGAL_OBJ then out_cdb_err osd sense pid oid
       else if \<not> issettable_page ty page then out_param_list osd sense pid oid
       else if number = ATTRNUM_UNMODIFIABLE then out_param_list osd sense pid oid
       else if val = None \<and> len \<noteq> 0 \<or> val \<noteq> None \<and> len = 0 then out_cdb_err osd sense pid oid
       else do {
         named \<leftarrow> (if number \<noteq> ATTRNUM_INFO then Some True
           else if unat len > ATTR_PAGE_ID_LEN then Some False
           else terminated val (unat len));
         if \<not> named then out_cdb_err osd sense pid oid
         else if len > ATTR_LEN_UB then out_param_list osd sense pid oid
         else if page = USER_INFO_PG then set_uiap osd pid oid number val len \<bind> own_page
         else if page = ROOT_INFO_PG then set_riap osd pid oid number val len \<bind> own_page
         else if page = USER_COLL_PG then set_cap osd pid oid number val len \<bind> own_page
         else if len = 0 then do {
           (ret, d) \<leftarrow> attr_delete_attr (dbc osd) pid oid page number;
           let osd = osd\<lparr>dbc := d\<rparr>;
           if ret = 0 then success osd else out_cdb_err osd sense pid oid }
         else do {
           (ret, d) \<leftarrow> attr_set_conversion (dbc osd) pid oid page number val len;
           let osd = osd\<lparr>dbc := d\<rparr>;
           if ret \<noteq> 0 then out_hw_err osd sense pid oid else success osd } } } }"

definition osd_set_key :: "osd_device \<Rightarrow> bytes \<Rightarrow> answer option" where
  "osd_set_key osd sense = out_unimplemented osd sense"

definition osd_set_master_key :: "osd_device \<Rightarrow> bytes \<Rightarrow> answer option" where
  "osd_set_master_key osd sense = out_unimplemented osd sense"

section \<open>A new database\<close>

definition root_info :: "(u32 \<times> u32 \<times> string) list" where
  "root_info =
     [(ROOT_PG + 0, 0, ''INCITS  T10 Root Directory             ''),
      (ROOT_PG + 0, ROOT_PG + 1, ''INCITS  T10 Root Information           ''),
      (ROOT_PG + 0, ROOT_PG + 2, ''INCITS  T10 Root Quotas                ''),
      (ROOT_PG + 2, 0, ''INCITS  T10 Root Quotas                ''),
      (ROOT_PG + 0, ROOT_PG + 3, ''INCITS  T10 Root Timestamps            ''),
      (ROOT_PG + 3, 0, ''INCITS  T10 Root Timestamps            ''),
      (ROOT_PG + 0, ROOT_PG + 5, ''INCITS  T10 Root Policy/Security       ''),
      (ROOT_PG + 5, 0, ''INCITS  T10 Root Policy/Security       '')]"

definition partition_info :: "(u32 \<times> u32 \<times> string) list" where
  "partition_info =
     [(PARTITION_PG + 0, 0, ''INCITS  T10 Partition Directory''),
      (PARTITION_PG + 0, PARTITION_PG + 1, ''INCITS  T10 Partition Information''),
      (PARTITION_PG + 1, 0, ''INCITS  T10 Partition Information'')]"

text \<open>The loop over a table of names, up to the first error.\<close>

fun set_names :: "(u32 \<times> u32 \<times> string) list \<Rightarrow> db_context \<Rightarrow> (int \<times> db_context) option" where
  "set_names [] d = Some (0, d)"
| "set_names ((page, number, s) # ias) d = do {
     (ret, d) \<leftarrow> attr_set_attr_raw d ROOT_PID ROOT_OID page number (Some (cstr s)) (of_nat (length s + 1));
     if ret \<noteq> 0 then Some (ret, d) else set_names ias d }"

definition no_ccap :: cur_cmd_attr_pg where
  "no_ccap = \<lparr>cdb_srvc_act = 0, ricv = no_ricv, obj_type = 0, ccap_pid = 0, ccap_oid = 0, append_off = 0\<rparr>"

definition osd_initialize_db :: "osd_device \<Rightarrow> (int \<times> osd_device) option" where
  "osd_initialize_db osd = do {
     let osd = osd\<lparr>ccap := no_ccap, ic := \<lparr>cur_pid = 0, next_id = 0\<rparr>\<rparr>;
     (ret, d) \<leftarrow> obj_insert (dbc osd) ROOT_PID ROOT_OID (ucast ROOT);
     if ret \<noteq> 0 then Some (ret, osd\<lparr>dbc := d\<rparr>)
     else do {
       (ret, d) \<leftarrow> set_names root_info d;
       if ret \<noteq> 0 then Some (ret, osd\<lparr>dbc := d\<rparr>)
       else do {
         (ret, d) \<leftarrow> set_names partition_info d;
         if ret \<noteq> 0 then Some (ret, osd\<lparr>dbc := d\<rparr>)
         else attr_set_attr (osd\<lparr>dbc := d\<rparr>) ROOT_PID ROOT_OID (PARTITION_PG + 1) 1 (Some (replicate 8 0)) 8 } } }"

text \<open>The name is stored without its terminating zero.\<close>

definition osd_set_name :: "osd_device \<Rightarrow> string \<Rightarrow> (int \<times> osd_device) option" where
  "osd_set_name osd osdname =
     attr_set_attr osd 0 0 ROOT_INFO_PG RIAP_OSD_NAME (Some (cstr osdname)) (of_nat (length osdname))"

section \<open>Atomic operations on attributes\<close>

text \<open>
  A 64-bit attribute of the atomics page, created with the value 0 when it is missing. The variable
  is read and stored in host byte order; \<open>host\<close> is what it holds when the query fails or the
  stored value is shorter.
\<close>

definition host_ll :: "u64 \<Rightarrow> bytes" where
  "host_ll v = rev (store_be64 v)"

definition ll_of_host :: "bytes \<Rightarrow> u64 option" where
  "ll_of_host b = get_ntohll (rev (take 8 b)) 0"

text \<open>The eager initialisation of the attributes of an object, which the code no longer calls.\<close>

definition osd_init_attr :: "osd_device \<Rightarrow> u64 \<Rightarrow> u64 \<Rightarrow> (int \<times> osd_device) option" where
  "osd_init_attr osd pid oid = do {
     (ret, osd) \<leftarrow> attr_set_attr osd pid oid USER_TMSTMP_PG 0 (Some user_tmstmp_page) 40;
     if ret \<noteq> 0 then Some (ret, osd)
     else do {
       (ret, osd) \<leftarrow> attr_set_attr osd pid oid USER_ATOMICS_PG 0 (Some user_atomic_page) 40;
       if ret \<noteq> 0 then Some (ret, osd)
       else do {
         (ret, osd) \<leftarrow> attr_set_attr osd pid oid USER_ATOMICS_PG UAP_CAS (Some (host_ll 0)) 8;
         if ret \<noteq> 0 then Some (ret, osd)
         else do {
           (ret, osd) \<leftarrow> attr_set_attr osd pid oid USER_ATOMICS_PG UAP_FA (Some (host_ll 0)) 8;
           if ret \<noteq> 0 then Some (ret, osd) else Some (OSD_OK, osd) } } } }"

definition atomic_value ::
  "bytes \<Rightarrow> osd_device \<Rightarrow> u64 \<Rightarrow> u64 \<Rightarrow> u32 \<Rightarrow> (bool \<times> u64 \<times> osd_device) option" where
  "atomic_value host osd pid oid number = do {
     (ret, (m, _), d) \<leftarrow> attr_get_val (dbc osd) pid oid USER_ATOMICS_PG number 8 0 (host, 0);
     let osd = osd\<lparr>dbc := d\<rparr>;
     val \<leftarrow> ll_of_host m;
     if ret \<noteq> - ENOENT \<and> ret \<noteq> OSD_OK then Some (False, val, osd)
     else if ret = - ENOENT then do {
       (ret, osd) \<leftarrow> attr_set_attr osd pid oid USER_ATOMICS_PG number (Some (host_ll 0)) 8;
       Some (ret = OSD_OK, 0, osd) }
     else Some (True, val, osd) }"

text \<open>The object of an atomic operation: present and a user object.\<close>

definition atomic_target :: "osd_device \<Rightarrow> u64 \<Rightarrow> u64 \<Rightarrow> (bool \<times> osd_device) option" where
  "atomic_target osd pid oid = do {
     (ret, present, d) \<leftarrow> obj_ispresent (dbc osd) pid oid;
     let osd = osd\<lparr>dbc := d\<rparr>;
     if ret \<noteq> OSD_OK \<or> present = 0 then Some (False, osd)
     else do {
       (ty, osd) \<leftarrow> get_obj_type osd pid oid;
       Some (ty = USEROBJECT, osd) } }"

definition osd_cas ::
  "bytes \<Rightarrow> osd_device \<Rightarrow> u64 \<Rightarrow> u64 \<Rightarrow> u64 \<Rightarrow> u64 \<Rightarrow> bytes \<Rightarrow> nat \<Rightarrow> u64 \<Rightarrow> bytes \<Rightarrow> out_answer option" where
  "osd_cas host osd pid oid cmp swap m doutbuf used sense = do {
     (ok, osd) \<leftarrow> atomic_target osd pid oid;
     if \<not> ok then with_out m used (out_cdb_err osd sense pid oid)
     else do {
       (ok, val, osd) \<leftarrow> atomic_value host osd pid oid UAP_CAS;
       if \<not> ok then with_out m used (out_hw_err osd sense pid oid)
       else do {
         (ret, osd) \<leftarrow> (if val = cmp
           then attr_set_attr osd pid oid USER_ATOMICS_PG UAP_CAS (Some (host_ll swap)) 8
           else Some (OSD_OK, osd));
         if ret \<noteq> OSD_OK then with_out m used (out_hw_err osd sense pid oid)
         else do {
           m \<leftarrow> set_htonll m doutbuf val;
           Some (OSD_OK, (m, 8), sense, osd) } } } }"

text \<open>The sum is a signed addition that wraps around.\<close>

definition osd_fa ::
  "bytes \<Rightarrow> osd_device \<Rightarrow> u64 \<Rightarrow> u64 \<Rightarrow> u64 \<Rightarrow> bytes \<Rightarrow> nat \<Rightarrow> u64 \<Rightarrow> bytes \<Rightarrow> out_answer option" where
  "osd_fa host osd pid oid add m doutbuf used sense = do {
     (ok, osd) \<leftarrow> atomic_target osd pid oid;
     if \<not> ok then with_out m used (out_cdb_err osd sense pid oid)
     else do {
       (ok, val, osd) \<leftarrow> atomic_value host osd pid oid UAP_FA;
       if \<not> ok then with_out m used (out_hw_err osd sense pid oid)
       else do {
         (ret, osd) \<leftarrow> attr_set_attr osd pid oid USER_ATOMICS_PG UAP_FA (Some (host_ll (add + val))) 8;
         if ret \<noteq> OSD_OK then with_out m used (out_hw_err osd sense pid oid)
         else do {
           m \<leftarrow> set_htonll m doutbuf val;
           Some (OSD_OK, (m, 8), sense, osd) } } } }"

text \<open>
  The generalised form on any attribute. \<open>val\<close> is an allocated buffer of \<open>ATTR_LEN_UB\<close> bytes, \<open>valen\<close> a
  variable without initial value; both are arguments of the model. The original value is none when the
  attribute was missing. \<open>memcmp\<close> compares the bytes the pointers lead to.
\<close>

definition same_bytes :: "bytes option \<Rightarrow> bytes \<Rightarrow> nat \<Rightarrow> bool option" where
  "same_bytes cmp val n = do {
     c \<leftarrow> (case cmp of None \<Rightarrow> if n = 0 then Some [] else None | Some b \<Rightarrow> buf_get b 0 n);
     v \<leftarrow> buf_get val 0 n;
     Some (c = v) }"

type_synonym gen_answer = "int \<times> (bytes \<times> nat) option \<times> bytes \<times> osd_device"

definition osd_gen_cas ::
  "bytes \<Rightarrow> u32 \<Rightarrow> osd_device \<Rightarrow> u64 \<Rightarrow> u64 \<Rightarrow> u32 \<Rightarrow> u32 \<Rightarrow> bytes option \<Rightarrow> u16 \<Rightarrow> bytes option \<Rightarrow> u16
    \<Rightarrow> bytes \<Rightarrow> gen_answer option" where
  "osd_gen_cas val valen osd pid oid page number cmp cmp_len swap swap_len sense = do {
     let failed = map_option (\<lambda>(ret, sense, osd). (ret, None, sense, osd));
     (ok, osd) \<leftarrow> atomic_target osd pid oid;
     if \<not> ok then failed (out_cdb_err osd sense pid oid)
     else do {
       (ret, (val, valen), d) \<leftarrow> attr_get_val (dbc osd) pid oid page number (ucast ATTR_LEN_UB) 0 (val, valen);
       let osd = osd\<lparr>dbc := d\<rparr>;
       if ret \<noteq> OSD_OK \<and> ret \<noteq> - ENOENT then failed (out_hw_err osd sense pid oid)
       else do {
         let same = (if valen = ucast cmp_len then same_bytes cmp val (unat valen) else Some False);
         set \<leftarrow> (if swap_len > 0 \<and> swap \<noteq> None then if ret = - ENOENT then Some True else same else Some False);
         remove \<leftarrow> (if \<not> set \<and> swap_len = 0 \<and> swap = None then same else Some False);
         (ret, osd) \<leftarrow>
           (if set
            then attr_set_attr osd pid oid page number swap swap_len
            else if remove then do {
              (ret, d) \<leftarrow> attr_delete_attr (dbc osd) pid oid page number;
              Some (ret, osd\<lparr>dbc := d\<rparr>) }
            else Some (ret, osd));
         if ret \<noteq> OSD_OK \<and> ret \<noteq> - ENOENT then failed (out_hw_err osd sense pid oid)
         else Some (OSD_OK, if ret = - ENOENT then None else Some (val, unat (ucast valen :: u16)), sense, osd) } } }"

end
