(* ===== verification/Osd_Objects.thy ===== *)
theory Osd_Objects
  imports Osd_Data
begin

text \<open>
  The commands of \<^verbatim>\<open>osd-target/osd.c\<close> that create and remove objects, collections and
  partitions, with the cache of the next identifier, and \<open>osd_create_datafile\<close> of
  \<^verbatim>\<open>osd-target/io.c\<close>. Lemmas: each command preserves the invariant of the device under every
  schedule of the database engine and of the file system.
\<close>

section \<open>Data files\<close>

text \<open>
  A path that is no regular file and a failing \<open>stat\<close> both return the answer of \<open>stat\<close>: 0 in the
  first case. The descriptor of \<open>creat\<close> is positive, as the standard streams are open.
\<close>

definition osd_create_datafile :: "osd_device \<Rightarrow> u64 \<Rightarrow> u64 \<Rightarrow> (int \<times> osd_device) option" where
  "osd_create_datafile osd pid oid = do {
     path \<leftarrow> get_dfile_name (root osd) pid oid;
     let (st, f) = fs_stat path (files osd);
     (case st of
        StOk True _ \<Rightarrow> Some (- EEXIST, osd\<lparr>files := f\<rparr>)
      | StOk False _ \<Rightarrow> Some (0, osd\<lparr>files := f\<rparr>)
      | StFail \<Rightarrow> Some (- 1, osd\<lparr>files := f\<rparr>)
      | StNoEnt \<Rightarrow> (let (created, f) = fs_creat path f in
          if \<not> created then Some (- 1, osd\<lparr>files := f\<rparr>)
          else let (_, f) = fs_close f in Some (0, osd\<lparr>files := f\<rparr>))) }"

section \<open>Removing objects\<close>

definition no_cache :: id_cache where
  "no_cache = \<lparr>cur_pid = 0, next_id = 0\<rparr>"

text \<open>The cache goes first; the answer of \<open>unlink\<close> is ignored.\<close>

definition osd_remove :: "osd_device \<Rightarrow> u64 \<Rightarrow> u64 \<Rightarrow> bytes \<Rightarrow> answer option" where
  "osd_remove osd pid oid sense =
     (if \<not> user_object pid oid then out_cdb_err osd sense pid oid
      else do {
        let osd = osd\<lparr>ic := no_cache\<rparr>;
        path \<leftarrow> get_dfile_name (root osd) pid oid;
        let (_, f) = fs_unlink path (files osd);
        let osd = osd\<lparr>files := f\<rparr>;
        (ret, d) \<leftarrow> attr_delete_all (dbc osd) pid oid;
        let osd = osd\<lparr>dbc := d\<rparr>;
        if ret \<noteq> 0 then out_hw_err osd sense pid oid
        else do {
          (ret, d) \<leftarrow> coll_delete_oid (dbc osd) pid oid;
          let osd = osd\<lparr>dbc := d\<rparr>;
          if ret \<noteq> 0 then out_hw_err osd sense pid oid
          else do {
            (ret, d) \<leftarrow> obj_delete (dbc osd) pid oid;
            let osd = osd\<lparr>dbc := d\<rparr>;
            if ret \<noteq> 0 then out_hw_err osd sense pid oid
            else Some (OSD_OK, sense, osd\<lparr>ccap := fill_ccap None USEROBJECT pid oid 0\<rparr>) } }
      })"

lemma word_Suc: "j < (e :: u64) \<Longrightarrow> unat (j + 1) = Suc (unat j)"
  using unat_add_lem [of j 1] unsigned_less [of e, where ?'a = nat] by (simp add: word_less_nat_alt)

lemma closer: "j < (e :: u64) \<Longrightarrow> unat (e - (j + 1)) < unat (e - j)"
  using word_Suc [of j e] by (simp add: unat_sub word_le_nat_alt word_less_nat_alt)

text \<open>The removal of what a failed command has created; the answers are ignored.\<close>

function osd_remove_tmp_objects ::
  "osd_device \<Rightarrow> u64 \<Rightarrow> u64 \<Rightarrow> u64 \<Rightarrow> bytes \<Rightarrow> (bytes \<times> osd_device) option" where
  "osd_remove_tmp_objects osd pid j end_oid sense =
     (if j < end_oid
      then do {
        (_, sense, osd) \<leftarrow> osd_remove osd pid j sense;
        osd_remove_tmp_objects osd pid (j + 1) end_oid sense }
      else Some (sense, osd))"
  by pat_completeness auto
termination
  by (relation "measure (\<lambda>(_, _, j, end_oid, _). unat (end_oid - j))") (auto simp: closer)

declare osd_remove_tmp_objects.simps [simp del]

section \<open>Creating objects\<close>

text \<open>
  The next identifier of a partition: from the cache when it belongs to the partition, else one
  more than the largest in use. The first identifier of a partition is \<open>lb\<close>. The flag is false when
  the query fails.
\<close>

definition next_id_for :: "osd_device \<Rightarrow> u64 \<Rightarrow> u64 \<Rightarrow> (bool \<times> u64 \<times> osd_device) option" where
  "next_id_for osd pid lb = do {
     (ok, oid, osd) \<leftarrow>
       (if cur_pid (ic osd) = pid
        then let oid = next_id (ic osd) in Some (True, oid, osd\<lparr>ic := (ic osd)\<lparr>next_id := oid + 1\<rparr>\<rparr>)
        else do {
          (ret, oid, d) \<leftarrow> obj_get_nextoid (dbc osd) pid 0;
          let osd = osd\<lparr>dbc := d\<rparr>;
          Some (if ret \<noteq> 0 then (False, oid, osd)
            else (True, oid, osd\<lparr>ic := \<lparr>cur_pid = pid, next_id = oid + 1\<rparr>\<rparr>)) });
     Some (if ok \<and> oid = 1 then (ok, lb, osd\<lparr>ic := (ic osd)\<lparr>next_id := lb + 1\<rparr>\<rparr>) else (ok, oid, osd)) }"

text \<open>The loop of \<open>osd_create\<close>. The flag is false after an error, with everything created removed.\<close>

function create_loop ::
  "osd_device \<Rightarrow> u64 \<Rightarrow> u64 \<Rightarrow> u64 \<Rightarrow> u64 \<Rightarrow> bytes \<Rightarrow> (bool \<times> bytes \<times> osd_device) option" where
  "create_loop osd pid oid i end_oid sense =
     (if i < end_oid
      then do {
        (ret, d) \<leftarrow> obj_insert (dbc osd) pid i (ucast USEROBJECT);
        let osd = osd\<lparr>dbc := d\<rparr>;
        if ret \<noteq> 0
        then do {
          (sense, osd) \<leftarrow> osd_remove_tmp_objects osd pid oid i sense;
          Some (False, sense, osd) }
        else do {
          (ret, osd) \<leftarrow> osd_create_datafile osd pid i;
          if ret \<noteq> 0
          then do {
            (_, d) \<leftarrow> obj_delete (dbc osd) pid i;
            (sense, osd) \<leftarrow> osd_remove_tmp_objects (osd\<lparr>dbc := d\<rparr>) pid oid i sense;
            Some (False, sense, osd) }
          else create_loop osd pid oid (i + 1) end_oid sense } }
      else Some (True, sense, osd))"
  by pat_completeness auto
termination
  by (relation "measure (\<lambda>(_, _, _, i, end_oid, _). unat (end_oid - i))") (auto simp: closer)

declare create_loop.simps [simp del]

text \<open>Whether an object is there: the presence test as the commands read it.\<close>

definition is_present :: "osd_device \<Rightarrow> u64 \<Rightarrow> u64 \<Rightarrow> (int \<times> bool \<times> osd_device) option" where
  "is_present osd pid oid = do {
     (ret, present, d) \<leftarrow> obj_ispresent (dbc osd) pid oid;
     Some (ret, present \<noteq> 0, osd\<lparr>dbc := d\<rparr>) }"

text \<open>
  The choice of an identifier, the same in all commands that create something in a partition: the
  next one for the request 0, else the requested one if it is free, which empties the cache. The
  result is a branch of the command: go on, \<open>out_cdb_err\<close>, or \<open>out_hw_err\<close> with the cache emptied.
\<close>

datatype chosen = Chosen u64 | ChosenTaken | ChosenFailed

definition choose_id :: "osd_device \<Rightarrow> u64 \<Rightarrow> u64 \<Rightarrow> u64 \<Rightarrow> (chosen \<times> osd_device) option" where
  "choose_id osd pid requested lb =
     (if requested = 0
      then do {
        (ok, oid, osd) \<leftarrow> next_id_for osd pid lb;
        Some (if ok then (Chosen oid, osd) else (ChosenFailed, osd\<lparr>ic := no_cache\<rparr>)) }
      else do {
        (ret, present, osd) \<leftarrow> is_present osd pid requested;
        Some (if ret \<noteq> OSD_OK \<or> present then (ChosenTaken, osd)
          else (Chosen requested, osd\<lparr>ic := no_cache\<rparr>)) })"

definition osd_create :: "osd_device \<Rightarrow> u64 \<Rightarrow> u64 \<Rightarrow> u16 \<Rightarrow> bytes \<Rightarrow> answer option" where
  "osd_create osd pid requested_oid numoid sense =
     (if pid = 0 \<or> pid < USEROBJECT_PID_LB then out_cdb_err osd sense pid requested_oid
      else if requested_oid \<noteq> 0 \<and> requested_oid < USEROBJECT_OID_LB
      then out_cdb_err osd sense pid requested_oid
      else do {
        (ret, present, osd) \<leftarrow> is_present osd pid PARTITION_OID;
        if ret \<noteq> OSD_OK \<or> \<not> present then out_cdb_err osd sense pid requested_oid
        else if numoid > 1 \<and> requested_oid \<noteq> 0 then out_cdb_err osd sense pid requested_oid
        else do {
          (c, osd) \<leftarrow> choose_id osd pid requested_oid USEROBJECT_OID_LB;
          (case c of
             ChosenTaken \<Rightarrow> out_cdb_err osd sense pid requested_oid
           | ChosenFailed \<Rightarrow> out_hw_err osd sense pid requested_oid
           | Chosen oid \<Rightarrow> do {
               let numoid = (if numoid = 0 then 1 else numoid);
               (ok, sense, osd) \<leftarrow> create_loop osd pid oid oid (oid + ucast numoid) sense;
               if \<not> ok then out_hw_err (osd\<lparr>ic := no_cache\<rparr>) sense pid requested_oid
               else Some (OSD_OK, sense, osd\<lparr>
                 ic := (ic osd)\<lparr>next_id := next_id (ic osd) + ucast (numoid - 1)\<rparr>,
                 ccap := fill_ccap None USEROBJECT pid (oid + ucast numoid - 1) 0\<rparr>) })
        }
      })"

text \<open>The identifier of the request goes on to \<open>osd_write\<close>, also when it is 0.\<close>

definition osd_create_and_write ::
  "osd_device \<Rightarrow> u64 \<Rightarrow> u64 \<Rightarrow> u64 \<Rightarrow> u64 \<Rightarrow> bytes \<Rightarrow> nat \<Rightarrow> sg_list_entry list \<Rightarrow> bytes \<Rightarrow> u8
    \<Rightarrow> answer option" where
  "osd_create_and_write osd pid oid len offset data dinbuf sglist sense ddt = do {
     (ret, sense, osd) \<leftarrow> osd_create osd pid oid 1 sense;
     if ret \<noteq> 0 then Some (ret, sense, osd)
     else do {
       (ret, sense, osd) \<leftarrow> osd_write osd pid oid len offset data dinbuf sglist sense ddt;
       if ret \<noteq> 0
       then do {
         (_, sense, osd) \<leftarrow> osd_remove osd pid oid sense;
         Some (ret, sense, osd) }
       else Some (ret, sense, osd) } }"

text \<open>
  Copying a user object: the source is looked up, the destination identifier is chosen, nothing is
  copied. \<open>cpy_attr\<close> and the method of duplication have no effect.
\<close>

definition osd_copy_user_objects ::
  "osd_device \<Rightarrow> u64 \<Rightarrow> u64 \<Rightarrow> u64 \<Rightarrow> u64 \<Rightarrow> bytes \<Rightarrow> answer option" where
  "osd_copy_user_objects osd pid requested_oid source_pid source_oid sense =
     (if pid = 0 \<or> pid < COLLECTION_PID_LB then out_cdb_err osd sense pid requested_oid
      else if requested_oid \<noteq> 0 \<and> requested_oid < USEROBJECT_OID_LB
      then out_cdb_err osd sense pid requested_oid
      else do {
        (ret, present, osd) \<leftarrow> is_present osd source_pid PARTITION_OID;
        if ret \<noteq> OSD_OK \<or> \<not> present then out_cdb_err osd sense pid requested_oid
        else do {
          (ret, present, osd) \<leftarrow> is_present osd source_pid source_oid;
          if ret \<noteq> OSD_OK \<or> \<not> present then out_cdb_err osd sense pid requested_oid
          else do {
            (ret, present, osd) \<leftarrow> is_present osd pid PARTITION_OID;
            if ret \<noteq> OSD_OK \<or> \<not> present then out_cdb_err osd sense pid requested_oid
            else do {
              (c, osd) \<leftarrow> choose_id osd pid requested_oid USEROBJECT_OID_LB;
              (case c of
                 ChosenTaken \<Rightarrow> out_cdb_err osd sense pid requested_oid
               | ChosenFailed \<Rightarrow> out_hw_err osd sense pid requested_oid
               | Chosen oid \<Rightarrow>
                   Some (OSD_OK, sense, osd\<lparr>ccap := fill_ccap None USEROBJECT pid oid 0\<rparr>)) } } } })"

section \<open>Collections and partitions\<close>

text \<open>The sense data name the requested collection in the place of the partition.\<close>

definition osd_create_collection :: "osd_device \<Rightarrow> u64 \<Rightarrow> u64 \<Rightarrow> bytes \<Rightarrow> answer option" where
  "osd_create_collection osd pid requested_cid sense =
     (if pid = 0 \<or> pid < COLLECTION_PID_LB then out_cdb_err osd sense requested_cid 0
      else if requested_cid \<noteq> 0 \<and> requested_cid < COLLECTION_OID_LB
      then out_cdb_err osd sense requested_cid 0
      else do {
        (ret, present, osd) \<leftarrow> is_present osd pid PARTITION_OID;
        if ret \<noteq> OSD_OK \<or> \<not> present then out_cdb_err osd sense requested_cid 0
        else do {
          (c, osd) \<leftarrow> choose_id osd pid requested_cid COLLECTION_OID_LB;
          (case c of
             ChosenTaken \<Rightarrow> out_cdb_err osd sense requested_cid 0
           | ChosenFailed \<Rightarrow> out_hw_err osd sense requested_cid 0
           | Chosen cid \<Rightarrow> do {
               (ret, d) \<leftarrow> obj_insert (dbc osd) pid cid (ucast COLLECTION);
               let osd = osd\<lparr>dbc := d\<rparr>;
               if ret \<noteq> 0 then out_cdb_err osd sense requested_cid 0
               else Some (OSD_OK, sense, osd\<lparr>ccap := fill_ccap None COLLECTION pid cid 0\<rparr>) })
        }
      })"

definition osd_create_partition :: "osd_device \<Rightarrow> u64 \<Rightarrow> bytes \<Rightarrow> answer option" where
  "osd_create_partition osd requested_pid sense =
     (if requested_pid \<noteq> 0 \<and> requested_pid < PARTITION_PID_LB then out_cdb_err osd sense requested_pid 0
      else do {
        (ret, pid, osd) \<leftarrow>
          (if requested_pid = 0
           then do {
             (ret, pid, d) \<leftarrow> obj_get_nextpid (dbc osd) 0;
             Some (ret, if pid = 1 then PARTITION_PID_LB else pid, osd\<lparr>dbc := d\<rparr>) }
           else Some (0, requested_pid, osd));
        if ret \<noteq> 0 then out_hw_err osd sense requested_pid 0
        else do {
          (ret, d) \<leftarrow> obj_insert (dbc osd) pid PARTITION_OID (ucast PARTITION);
          let osd = osd\<lparr>dbc := d\<rparr>;
          if ret \<noteq> 0 then out_cdb_err osd sense requested_pid 0
          else Some (OSD_OK, sense, osd\<lparr>ccap := fill_ccap None PARTITION pid PARTITION_OID 0\<rparr>)
        }
      })"

definition is_linked_coll :: "u64 \<Rightarrow> bool" where
  "is_linked_coll source_cid \<longleftrightarrow> source_cid > LINKED_COLLECTION_OID_LB"

text \<open>The code assigns where it means to compare, so the answer is the number, which is not 0.\<close>

definition is_tracking_coll :: "u64 \<Rightarrow> bool" where
  "is_tracking_coll source_cid \<longleftrightarrow> (0x1082 :: u64) \<noteq> 0"

definition is_spontaneous_coll :: "u64 \<Rightarrow> bool" where
  "is_spontaneous_coll source_cid \<longleftrightarrow> source_cid < TRACKING_COLLECTION_OID_LB"

text \<open>The conditions marked as to do in the code are 0. The members are copied before the collection exists.\<close>

definition osd_create_user_tracking_collection ::
  "osd_device \<Rightarrow> u64 \<Rightarrow> u64 \<Rightarrow> u64 \<Rightarrow> u32 \<Rightarrow> bytes \<Rightarrow> answer option" where
  "osd_create_user_tracking_collection osd pid requested_cid source_cid cdb_cont_len sense =
     (if pid = 0 \<or> pid < COLLECTION_PID_LB then out_cdb_err osd sense requested_cid 0
      else if requested_cid \<noteq> 0 \<and> requested_cid < COLLECTION_OID_LB
      then out_cdb_err osd sense requested_cid 0
      else do {
        (ret, present, osd) \<leftarrow> is_present osd pid PARTITION_OID;
        if ret \<noteq> OSD_OK \<or> \<not> present then out_cdb_err osd sense requested_cid 0
        else do {
          (ret, present, osd) \<leftarrow> is_present osd pid source_cid;
          if ret \<noteq> OSD_OK \<or> \<not> present then out_cdb_err osd sense requested_cid 0
          else if source_cid \<noteq> 0 \<and> cdb_cont_len = 0 \<or> source_cid = 0 \<and> cdb_cont_len \<noteq> 0
          then out_cdb_err osd sense requested_cid 0
          else if source_cid \<noteq> 0 \<and> \<not> is_linked_coll source_cid \<and> \<not> is_tracking_coll source_cid \<and>
            \<not> is_spontaneous_coll source_cid
          then out_cdb_err osd sense requested_cid 0
          else do {
            (c, osd) \<leftarrow> choose_id osd pid requested_cid COLLECTION_OID_LB;
            (case c of
               ChosenTaken \<Rightarrow> out_cdb_err osd sense requested_cid 0
             | ChosenFailed \<Rightarrow> out_hw_err osd sense requested_cid 0
             | Chosen cid \<Rightarrow> do {
                 (ret, d) \<leftarrow> (if source_cid \<noteq> 0 then coll_copyoids (dbc osd) pid cid source_cid
                   else Some (0, dbc osd));
                 let osd = osd\<lparr>dbc := d\<rparr>;
                 if ret \<noteq> 0 then out_hw_err (osd\<lparr>ic := no_cache\<rparr>) sense requested_cid 0
                 else do {
                   (ret, d) \<leftarrow> obj_insert (dbc osd) pid cid (ucast COLLECTION);
                   let osd = osd\<lparr>dbc := d\<rparr>;
                   if ret \<noteq> 0 then out_cdb_err osd sense requested_cid 0
                   else Some (OSD_OK, sense, osd\<lparr>ccap := fill_ccap None COLLECTION pid cid 0\<rparr>) } })
          }
        }
      })"

definition osd_remove_collection :: "osd_device \<Rightarrow> u64 \<Rightarrow> u64 \<Rightarrow> u8 \<Rightarrow> bytes \<Rightarrow> answer option" where
  "osd_remove_collection osd pid cid fcr sense =
     (if pid = 0 \<or> pid < COLLECTION_PID_LB then out_cdb_err osd sense pid cid
      else if cid < COLLECTION_OID_LB then out_cdb_err osd sense pid cid
      else do {
        (ret, present, osd) \<leftarrow> is_present osd pid cid;
        if ret \<noteq> OSD_OK \<or> \<not> present then out_cdb_err osd sense pid cid
        else do {
          (ret, isempty, d) \<leftarrow> coll_isempty_cid (dbc osd) pid cid;
          let osd = osd\<lparr>ic := no_cache, dbc := d\<rparr>;
          if ret \<noteq> OSD_OK then out_hw_err osd sense pid cid
          else if \<not> isempty \<and> fcr = 0 then out_not_empty osd sense pid cid
          else do {
            (ret, d) \<leftarrow> (if \<not> isempty then coll_delete_cid (dbc osd) pid cid else Some (0, dbc osd));
            let osd = osd\<lparr>dbc := d\<rparr>;
            if ret \<noteq> 0 then out_hw_err osd sense pid cid
            else do {
              (ret, d) \<leftarrow> attr_delete_all (dbc osd) pid cid;
              let osd = osd\<lparr>dbc := d\<rparr>;
              if ret \<noteq> 0 then out_hw_err osd sense pid cid
              else do {
                (ret, d) \<leftarrow> obj_delete (dbc osd) pid cid;
                let osd = osd\<lparr>dbc := d\<rparr>;
                if ret \<noteq> 0 then out_hw_err osd sense pid cid
                else Some (OSD_OK, sense, osd\<lparr>ccap := fill_ccap None COLLECTION pid cid 0\<rparr>) } }
          }
        }
      })"

definition osd_remove_member_objects :: "osd_device \<Rightarrow> bytes \<Rightarrow> answer option" where
  "osd_remove_member_objects osd sense = out_unimplemented osd sense"

definition osd_remove_partition :: "osd_device \<Rightarrow> u64 \<Rightarrow> bytes \<Rightarrow> answer option" where
  "osd_remove_partition osd pid sense =
     (if pid = 0 then out_cdb_err osd sense pid PARTITION_OID
      else do {
        (ret, isempty, d) \<leftarrow> obj_isempty_pid (dbc osd) pid;
        let osd = osd\<lparr>dbc := d\<rparr>;
        if ret \<noteq> OSD_OK \<or> \<not> isempty then out_not_empty osd sense pid PARTITION_OID
        else do {
          (ret, d) \<leftarrow> attr_delete_all (dbc osd) pid PARTITION_OID;
          let osd = osd\<lparr>ic := no_cache, dbc := d\<rparr>;
          if ret \<noteq> 0 then out_hw_err osd sense pid PARTITION_OID
          else do {
            (ret, d) \<leftarrow> obj_delete (dbc osd) pid PARTITION_OID;
            let osd = osd\<lparr>dbc := d\<rparr>;
            if ret \<noteq> 0 then out_hw_err osd sense pid PARTITION_OID
            else Some (OSD_OK, sense, osd\<lparr>ccap := fill_ccap None PARTITION pid PARTITION_OID 0\<rparr>) }
        }
      })"

section \<open>Lemmas: statements\<close>

lemma ret_codes [simp]: "OSD_OK = 0" "OSD_ERROR \<noteq> 0"
  by (simp_all add: osd_consts)

text \<open>What a statement leaves: its effect, or the tables as they were, which needs a scheduled error or a conflict.\<close>

definition stored :: "db_context \<Rightarrow> (tables \<Rightarrow> tables option) \<Rightarrow> int \<times> db_context \<Rightarrow> bool" where
  "stored d eff r \<longleftrightarrow> db_good (snd r) \<and> db_frame d (snd r) \<and>
     (fst r = 0 \<and> eff (tabs d) = Some (tabs (snd r)) \<or>
      fst r \<noteq> 0 \<and> tabs (snd r) = tabs d \<and> (db_clean d \<longrightarrow> eff (tabs d) = None))"

lemma run_dms_stored: "db_good d \<Longrightarrow> total (stored d eff) (run_dms eff d)"
  using run_dms_ok [of d eff] unfolding total_def stored_def by fastforce

definition add_obj :: "u64 \<Rightarrow> u64 \<Rightarrow> u32 \<Rightarrow> tables \<Rightarrow> tables option" where
  "add_obj pid oid ty t = (if obj_map t (okey pid oid) = None
     then Some (t\<lparr>t_obj := t_obj t @ [obj_row_of pid oid ty]\<rparr>) else None)"

definition del_obj :: "u64 \<Rightarrow> u64 \<Rightarrow> tables \<Rightarrow> tables" where
  "del_obj pid oid t = t\<lparr>t_obj := delete_rows (\<lambda>r. o_pid r = sint pid \<and> o_oid r = sint oid) (t_obj t)\<rparr>"

definition del_attrs :: "u64 \<Rightarrow> u64 \<Rightarrow> tables \<Rightarrow> tables" where
  "del_attrs pid oid t = t\<lparr>t_attr := delete_rows (\<lambda>r. a_pid r = sint pid \<and> a_oid r = sint oid) (t_attr t)\<rparr>"

definition del_memberships :: "u64 \<Rightarrow> u64 \<Rightarrow> tables \<Rightarrow> tables" where
  "del_memberships pid oid t = t\<lparr>t_coll := delete_rows (\<lambda>r. c_pid r = sint pid \<and> c_oid r = sint oid) (t_coll t)\<rparr>"

definition del_members :: "u64 \<Rightarrow> u64 \<Rightarrow> tables \<Rightarrow> tables" where
  "del_members pid cid t = t\<lparr>t_coll := delete_rows (\<lambda>r. c_pid r = sint pid \<and> c_cid r = sint cid) (t_coll t)\<rparr>"

definition add_members :: "u64 \<Rightarrow> u64 \<Rightarrow> u64 \<Rightarrow> tables \<Rightarrow> tables option" where
  "add_members pid dest src t = map_option (\<lambda>rows. t\<lparr>t_coll := rows\<rparr>)
     (insert_colls (copied_rows pid dest src (t_coll t)) (t_coll t))"

lemma obj_insert_stored:
  assumes "db_good d"
  shows "total (stored d (add_obj pid oid ty)) (obj_insert d pid oid ty)"
  using obj_insert_ok [OF assms, of pid oid ty] unfolding total_def stored_def add_obj_def by fastforce

lemma statements_stored:
  assumes "db_good d"
  shows "total (stored d (\<lambda>t. Some (del_obj pid oid t))) (obj_delete d pid oid)"
    and "total (stored d (\<lambda>t. Some (del_attrs pid oid t))) (attr_delete_all d pid oid)"
    and "total (stored d (\<lambda>t. Some (del_memberships pid oid t))) (coll_delete_oid d pid oid)"
    and "total (stored d (\<lambda>t. Some (del_members pid oid t))) (coll_delete_cid d pid oid)"
    and "total (stored d (add_members pid oid src)) (coll_copyoids d pid oid src)"
  unfolding obj_delete_def attr_delete_all_def coll_delete_oid_def coll_delete_cid_def coll_copyoids_def
    on_obj_good [OF assms] on_attr_good [OF assms] on_coll_good [OF assms]
  by (simp_all only: run_dms_stored [OF assms] del_obj_def [symmetric] del_attrs_def [symmetric]
      del_memberships_def [symmetric] del_members_def [symmetric] add_members_def [symmetric])

text \<open>Queries leave the tables as they are.\<close>

definition asked :: "db_context \<Rightarrow> db_context \<Rightarrow> bool" where
  "asked d d' \<longleftrightarrow> db_good d' \<and> db_frame d d' \<and> tabs d' = tabs d"

lemma is_present_total:
  assumes "db_good (dbc osd)" and "tables_ok (tabs (dbc osd))"
  shows "total (\<lambda>(ret, present, osd'). osd' = osd\<lparr>dbc := dbc osd'\<rparr> \<and> asked (dbc osd) (dbc osd') \<and>
      (ret = 0 \<and> (present \<longleftrightarrow> obj_map (tabs (dbc osd)) (okey pid oid) \<noteq> None) \<or>
       ret \<noteq> 0 \<and> \<not> db_clean (dbc osd)))
    (is_present osd pid oid)"
  using obj_ispresent_ok [OF assms, of pid oid] unfolding is_present_def total_def asked_def
  by (auto split: if_splits)

lemma column_int_zero: "0 \<le> v \<Longrightarrow> v < 2 ^ 31 \<Longrightarrow> column_int v = 0 \<longleftrightarrow> v = 0"
  by (simp add: column_int_def signed_of_int signed_take_bit_int_eq_self)

lemma obj_isempty_pid_total:
  assumes "db_good d" and "length (t_obj (tabs d)) < 2 ^ 31"
  shows "total (\<lambda>(ret, isempty, d'). asked d d' \<and>
      (ret = 0 \<and> (isempty \<longleftrightarrow> (\<forall>r \<in> set (t_obj (tabs d)). o_pid r = sint pid \<longrightarrow> o_oid r = 0)) \<or>
       ret \<noteq> 0 \<and> \<not> db_clean d))
    (obj_isempty_pid d pid)"
proof -
  let ?rows = "filter (\<lambda>r. o_pid r = sint pid \<and> o_oid r \<noteq> 0) (t_obj (tabs d))"
  have eq: "obj_isempty_pid d pid = run_query
     (\<lambda>t. [int (length (filter (\<lambda>r. o_pid r = sint pid \<and> o_oid r \<noteq> 0) (t_obj t)))])
     (\<lambda>out v. Some (0 = column_int v)) False d"
    using assms(1) by (simp add: obj_isempty_pid_def)
  have "length ?rows < 2 ^ 31" using assms(2) length_filter_le le_less_trans by blast
  then have z: "column_int (int (length ?rows)) = 0 \<longleftrightarrow> ?rows = []"
    using column_int_zero [of "int (length ?rows)"] by simp
  show ?thesis
    using run_query_ok [OF assms(1), of "\<lambda>t. [int (length (filter (\<lambda>r. o_pid r = sint pid \<and> o_oid r \<noteq> 0) (t_obj t)))]"
        "\<lambda>out v. Some (0 = column_int v)" False]
    unfolding eq total_def asked_def by (auto simp: z filter_empty_conv eq_commute [of "0 :: int"])
qed

lemma coll_isempty_cid_total:
  assumes "db_good d" and "length (t_coll (tabs d)) < 2 ^ 31"
  shows "total (\<lambda>(ret, isempty, d'). asked d d' \<and>
      (ret = 0 \<and> (isempty \<longleftrightarrow> members (tabs d) (sint pid) (sint cid) = {}) \<or>
       ret \<noteq> 0 \<and> \<not> db_clean d))
    (coll_isempty_cid d pid cid)"
proof -
  let ?rows = "filter (\<lambda>r. c_pid r = sint pid \<and> c_cid r = sint cid) (t_coll (tabs d))"
  have eq: "coll_isempty_cid d pid cid = run_query
     (\<lambda>t. [int (length (filter (\<lambda>r. c_pid r = sint pid \<and> c_cid r = sint cid) (t_coll t)))])
     (\<lambda>out v. Some (0 = column_int v)) False d"
    using assms(1) by (simp add: coll_isempty_cid_def)
  have "length ?rows < 2 ^ 31" using assms(2) length_filter_le le_less_trans by blast
  then have z: "column_int (int (length ?rows)) = 0 \<longleftrightarrow> ?rows = []"
    using column_int_zero [of "int (length ?rows)"] by simp
  show ?thesis
    using run_query_ok [OF assms(1), of "\<lambda>t. [int (length (filter (\<lambda>r. c_pid r = sint pid \<and> c_cid r = sint cid) (t_coll t)))]"
        "\<lambda>out v. Some (0 = column_int v)" False]
    unfolding eq total_def asked_def by (auto simp: z filter_empty_conv members_def eq_commute [of "0 :: int"])
qed

section \<open>Lemmas: the invariant of the tables\<close>

text \<open>
  The type of an object agrees with its identifiers: the root and the partitions have the object
  identifier 0, and nothing else has; user objects and collections have the identifier of a partition.
\<close>

definition typed_row :: "obj_row \<Rightarrow> bool" where
  "typed_row r \<longleftrightarrow> o_type r = uint ROOT \<and> o_pid r = 0 \<and> o_oid r = 0 \<or>
     o_type r = uint PARTITION \<and> o_oid r = 0 \<or>
     (o_type r = uint USEROBJECT \<or> o_type r = uint COLLECTION) \<and> 0x10000 \<le> (word_of_int (o_pid r) :: u64) \<and> o_oid r \<noteq> 0"

lemma typed_new:
  "typed_row (obj_row_of pid 0 (ucast PARTITION))" "typed_row (obj_row_of 0 0 (ucast ROOT))"
  "user_object pid k \<Longrightarrow> oid \<noteq> 0 \<Longrightarrow> typed_row (obj_row_of pid oid (ucast USEROBJECT))"
  "user_object pid k \<Longrightarrow> oid \<noteq> 0 \<Longrightarrow> typed_row (obj_row_of pid oid (ucast COLLECTION))"
  using signed_word_eqI [of oid 0] by (auto simp: typed_row_def obj_row_of_def osd_consts user_object_def)

text \<open>
  The constraints of the schema, identifiers in the range of a signed 64-bit integer, objects with the
  type their identifiers ask for, and every object, collection or user object, in a partition that exists.
\<close>

definition tables_inv :: "tables \<Rightarrow> bool" where
  "tables_inv t \<longleftrightarrow> tables_ok t \<and>
     (\<forall>r \<in> set (t_obj t). - (2 ^ 63) \<le> o_oid r \<and> o_oid r < 2 ^ 63 \<and> typed_row r) \<and>
     (\<forall>r \<in> set (t_obj t). o_oid r \<noteq> 0 \<longrightarrow> (\<exists>q \<in> set (t_obj t). o_pid q = o_pid r \<and> o_oid q = 0))"

lemma obj_map_some: "obj_map t (p, q) \<noteq> None \<longleftrightarrow> (\<exists>r \<in> set (t_obj t). o_pid r = p \<and> o_oid r = q)"
  unfolding obj_map_dom by (force simp: obj_key_def)

lemma sint_range_64: "- (2 ^ 63) \<le> sint (w :: u64) \<and> sint w < 2 ^ 63"
  using sint_ge [of w] sint_lt [of w] by simp

lemma tables_inv_add:
  assumes "tables_inv t" and "add_obj pid oid ty t = Some t'"
    and "oid = 0 \<or> obj_map t (okey pid 0) \<noteq> None" and "typed_row (obj_row_of pid oid ty)"
  shows "tables_inv t'"
proof -
  have t': "t' = t\<lparr>t_obj := t_obj t @ [obj_row_of pid oid ty]\<rparr>" and n: "obj_map t (okey pid oid) = None"
    using assms(2) by (auto simp: add_obj_def split: if_splits)
  have "tables_ok t'" using assms(1) n unfolding t' tables_inv_def by (simp add: tables_ok_insert_obj)
  moreover have "\<exists>q \<in> set (t_obj t'). o_pid q = sint pid \<and> o_oid q = 0"
    using assms(3) obj_map_some [of t "sint pid" 0] unfolding t' by (auto simp: obj_row_of_def)
  ultimately show ?thesis
    using assms(1,4) sint_range_64 [of oid] unfolding tables_inv_def t' by (auto simp: obj_row_of_def)
qed

lemma tables_inv_del_obj:
  assumes "tables_inv t" and "oid \<noteq> 0 \<or> (\<forall>r \<in> set (t_obj t). o_pid r = sint pid \<longrightarrow> o_oid r = 0)"
  shows "tables_inv (del_obj pid oid t)"
proof -
  let ?rows = "delete_rows (\<lambda>r. o_pid r = sint pid \<and> o_oid r = sint oid) (t_obj t)"
  have "\<exists>q \<in> set ?rows. o_pid q = o_pid r \<and> o_oid q = 0" if r: "r \<in> set ?rows" "o_oid r \<noteq> 0" for r
  proof -
    obtain q where q: "q \<in> set (t_obj t)" "o_pid q = o_pid r" "o_oid q = 0"
      using assms(1) r unfolding tables_inv_def delete_rows_def by auto
    have "\<not> (o_pid q = sint pid \<and> o_oid q = sint oid)"
    proof
      assume a: "o_pid q = sint pid \<and> o_oid q = sint oid"
      then have "oid = 0" using q(3) sint_eq [of oid 0] by simp
      then show False using assms(2) a q(2) r by (auto simp: delete_rows_def)
    qed
    then show ?thesis using q by (auto simp: delete_rows_def)
  qed
  moreover have "set ?rows \<subseteq> set (t_obj t)" by (auto simp: delete_rows_def)
  ultimately show ?thesis
    using assms(1) unfolding tables_inv_def del_obj_def by (auto simp: tables_ok_delete_obj)
qed

lemma delete_rows_distinct_map: "distinct (map k rows) \<Longrightarrow> distinct (map k (delete_rows P rows))"
  by (rule delete_rows_distinct)

lemma tables_inv_others [simp]:
  "tables_inv t \<Longrightarrow> tables_inv (del_attrs pid oid t)"
  "tables_inv t \<Longrightarrow> tables_inv (del_memberships pid oid t)"
  "tables_inv t \<Longrightarrow> tables_inv (del_members pid oid t)"
  by (simp_all add: tables_inv_def tables_ok_def del_attrs_def del_memberships_def del_members_def delete_rows_distinct)

lemma tables_inv_add_members: "tables_inv t \<Longrightarrow> add_members pid dest src t = Some t' \<Longrightarrow> tables_inv t'"
  unfolding add_members_def tables_inv_def
  by (auto intro!: tables_ok_coll dest: tables_okD insert_colls_distinct [OF tables_okD(3,4)])

lemma same_objects [simp]:
  "t_obj (del_attrs pid oid t) = t_obj t" "t_obj (del_memberships pid oid t) = t_obj t"
  "t_obj (del_members pid oid t) = t_obj t"
  by (simp_all add: del_attrs_def del_memberships_def del_members_def)

lemma add_members_objects: "add_members pid dest src t = Some t' \<Longrightarrow> t_obj t' = t_obj t"
  by (auto simp: add_members_def)

lemma obj_map_of_rows: "t_obj t = t_obj t' \<Longrightarrow> obj_map t = obj_map t'"
  by (simp add: obj_map_def)

section \<open>Lemmas: answers and paths\<close>

text \<open>A root for which every path fits into its buffer, and a sense buffer of full size.\<close>

definition root_fits :: "osd_device \<Rightarrow> bool" where
  "root_fits osd \<longleftrightarrow> length (root osd) \<le> MAXROOTLEN"

lemma root_fits_path: "root_fits osd \<Longrightarrow> oid \<noteq> 0 \<Longrightarrow> \<exists>path. get_dfile_name (root osd) pid oid = Some path"
  using dfile_names [of "root osd" oid oid pid pid] by (auto simp: root_fits_def)

definition answered :: "osd_device \<Rightarrow> bytes \<Rightarrow> int \<times> bytes \<times> osd_device \<Rightarrow> bool" where
  "answered osd sense r \<longleftrightarrow> (case r of (ret, s, osd') \<Rightarrow> ret \<noteq> 0 \<and> length s = length sense \<and> osd' = osd)"

lemma error_answers_total:
  assumes "252 \<le> length sense"
  shows "total (answered osd sense) (out_cdb_err osd sense pid oid)"
    and "total (answered osd sense) (out_hw_err osd sense pid oid)"
    and "total (answered osd sense) (out_not_empty osd sense pid oid)"
proof -
  have "total (answered osd sense) (with_sense osd sense key code pid oid)" for key code
    using with_sense_ok [OF assms, of osd key code pid oid] by (auto simp: total_def answered_def)
  then show "total (answered osd sense) (out_cdb_err osd sense pid oid)"
    "total (answered osd sense) (out_hw_err osd sense pid oid)"
    "total (answered osd sense) (out_not_empty osd sense pid oid)"
    by (simp_all add: out_cdb_err_def out_hw_err_def out_not_empty_def)
qed

section \<open>Lemmas: removing and creating user objects\<close>

text \<open>A statement and the test of its answer.\<close>

lemma total_stored:
  assumes "total (stored d eff) m"
    and "\<And>d'. db_good d' \<Longrightarrow> db_frame d d' \<Longrightarrow> tabs d' = tabs d \<Longrightarrow> (db_clean d \<Longrightarrow> eff (tabs d) = None) \<Longrightarrow>
      total Q (bad d')"
    and "\<And>d'. db_good d' \<Longrightarrow> db_frame d d' \<Longrightarrow> Some (tabs d') = eff (tabs d) \<Longrightarrow> total Q (good d')"
  shows "total Q (m \<bind> (\<lambda>(ret, d'). if ret \<noteq> 0 then bad d' else good d'))"
  using assms(1) by (rule total_pair_bind) (auto simp: stored_def intro: assms(2,3))

text \<open>A device the commands work on: prepared statements, the invariant of the tables, a root that fits.\<close>

definition sound :: "osd_device \<Rightarrow> bool" where
  "sound osd \<longleftrightarrow> db_good (dbc osd) \<and> tables_inv (tabs (dbc osd)) \<and> root_fits osd"

lemma sound_simps [simp]:
  "sound (osd\<lparr>ic := c\<rparr>) = sound osd" "sound (osd\<lparr>files := f\<rparr>) = sound osd" "sound (osd\<lparr>ccap := cc\<rparr>) = sound osd"
  by (simp_all add: sound_def root_fits_def)

lemma sound_dbc:
  "sound osd \<Longrightarrow> db_good d \<Longrightarrow> tables_inv (tabs d) \<Longrightarrow> sound (osd\<lparr>dbc := d\<rparr>)"
  by (simp add: sound_def root_fits_def)

lemma soundD: "sound osd \<Longrightarrow> db_good (dbc osd)" "sound osd \<Longrightarrow> tables_inv (tabs (dbc osd))"
  "sound osd \<Longrightarrow> tables_ok (tabs (dbc osd))" "sound osd \<Longrightarrow> root_fits osd"
  by (simp_all add: sound_def tables_inv_def)

lemma user_object_nonzero: "user_object pid oid \<Longrightarrow> oid \<noteq> 0 \<and> pid \<noteq> 0"
  by (auto simp: user_object_def osd_consts word_le_nat_alt)

definition removed :: "u64 \<Rightarrow> u64 \<Rightarrow> tables \<Rightarrow> tables" where
  "removed pid oid t = del_obj pid oid (del_memberships pid oid (del_attrs pid oid t))"

text \<open>Removing under any schedule, and what it does when no error is scheduled.\<close>

definition remove_post :: "osd_device \<Rightarrow> u64 \<Rightarrow> u64 \<Rightarrow> bytes \<Rightarrow> int \<times> bytes \<times> osd_device \<Rightarrow> bool" where
  "remove_post osd pid oid sense = (\<lambda>(ret, s, osd'). sound osd' \<and> length s = length sense \<and> ic osd' = no_cache \<and>
     root osd' = root osd \<and> db_frame (dbc osd) (dbc osd') \<and>
     set (t_obj (tabs (dbc osd'))) \<subseteq> set (t_obj (tabs (dbc osd))) \<and>
     (\<exists>path. get_dfile_name (root osd) pid oid = Some path \<and> files osd' = snd (fs_unlink path (files osd))) \<and>
     (db_clean (dbc osd) \<longrightarrow> ret = 0 \<and> s = sense \<and> tabs (dbc osd') = removed pid oid (tabs (dbc osd)) \<and>
       ccap osd' = fill_ccap None USEROBJECT pid oid 0))"

lemma osd_remove_total:
  assumes "sound osd" and "user_object pid oid" and "252 \<le> length sense"
  shows "total (remove_post osd pid oid sense) (osd_remove osd pid oid sense)"
proof -
  note nz = user_object_nonzero [OF assms(2)]
  obtain path where path: "get_dfile_name (root osd) pid oid = Some path"
    using root_fits_path soundD(4) [OF assms(1)] nz by blast
  let ?f = "snd (fs_unlink path (files osd))"
  let ?o = "\<lambda>d. osd\<lparr>ic := no_cache, files := ?f, dbc := d\<rparr>"
  have err: "total (remove_post osd pid oid sense) (out_hw_err (?o d) sense pid oid)"
    if "db_good d" "tables_inv (tabs d)" "db_frame (dbc osd) d" "t_obj (tabs d) = t_obj (tabs (dbc osd))"
      "\<not> db_clean (dbc osd)" for d
    using that assms(1) path
    by (intro total_mono [OF error_answers_total(2) [OF assms(3)]])
      (auto simp: answered_def remove_post_def sound_def root_fits_def)
  let ?t = "tabs (dbc osd)"
  have "total (remove_post osd pid oid sense) (do {
      (ret, d) \<leftarrow> attr_delete_all (dbc osd) pid oid;
      if ret \<noteq> 0 then out_hw_err (?o d) sense pid oid
      else do {
        (ret, d) \<leftarrow> coll_delete_oid d pid oid;
        if ret \<noteq> 0 then out_hw_err (?o d) sense pid oid
        else do {
          (ret, d) \<leftarrow> obj_delete d pid oid;
          if ret \<noteq> 0 then out_hw_err (?o d) sense pid oid
          else Some (OSD_OK, sense, (?o d)\<lparr>ccap := fill_ccap None USEROBJECT pid oid 0\<rparr>) } } })"
  proof (rule total_stored [OF statements_stored(2) [OF soundD(1) [OF assms(1)]]], goal_cases)
    case (1 d)
    then show ?case using soundD(2) [OF assms(1)] by (intro err) auto
  next
    case (2 d1)
    then have t1: "tabs d1 = del_attrs pid oid ?t" "tables_inv (tabs d1)" using soundD(2) [OF assms(1)] by auto
    show ?case
    proof (rule total_stored [OF statements_stored(3) [OF 2(1)]], goal_cases)
      case (1 d)
      then show ?case using t1 2 by (intro err) (auto intro: db_frame_trans dest: db_frame_clean)
    next
      case d2: (2 d2)
      then have t2: "tabs d2 = del_memberships pid oid (del_attrs pid oid ?t)" "tables_inv (tabs d2)"
        "db_frame (dbc osd) d2" using t1 2 by (auto intro: db_frame_trans)
      show ?case
      proof (rule total_stored [OF statements_stored(1) [OF d2(1)]], goal_cases)
        case (1 d)
        then show ?case using t2 by (intro err) (auto intro: db_frame_trans dest: db_frame_clean)
      next
        case (2 d3)
        then have t3: "tabs d3 = removed pid oid ?t" "db_frame (dbc osd) d3"
          using t2 by (auto simp: removed_def intro: db_frame_trans)
        have "tables_inv (tabs d3)"
          using tables_inv_del_obj [OF t2(2)] nz t2(1) unfolding t3 removed_def by simp
        moreover have "set (t_obj (tabs d3)) \<subseteq> set (t_obj ?t)"
          unfolding t3 removed_def by (auto simp: del_obj_def delete_rows_def)
        ultimately show ?case
          using 2(1) t3 path assms(1) by (simp add: remove_post_def sound_def root_fits_def)
      qed
    qed
  qed
  then show ?thesis
    using assms(2) path by (simp add: osd_remove_def split_def Let_def cong: if_cong)
qed

lemma total_call:
  assumes "total P m" and "\<And>r. m = Some r \<Longrightarrow> P r \<Longrightarrow> total Q (k r)"
  shows "total Q (m \<bind> k)"
  using assms by (cases m) auto

lemma osd_create_datafile_total:
  assumes "root_fits osd" and "oid \<noteq> 0"
  shows "total (\<lambda>(ret, osd'). osd' = osd\<lparr>files := files osd'\<rparr>) (osd_create_datafile osd pid oid)"
  using root_fits_path [OF assms, of pid]
  by (auto simp: osd_create_datafile_def Let_def split: stat_answer.splits bool.splits prod.splits)

text \<open>The identifiers \<open>j, \<dots>, e - 1\<close>.\<close>

definition id_range :: "u64 \<Rightarrow> u64 \<Rightarrow> u64 list" where
  "id_range j e = map of_nat [unat j..<unat e]"

lemma id_range_Cons: "j < e \<Longrightarrow> id_range j e = j # id_range (j + 1) e"
  using word_Suc [of j e] by (simp add: id_range_def word_less_nat_alt upt_rec [of "unat j"])

lemma id_range_Nil: "\<not> j < e \<Longrightarrow> id_range j e = []"
  by (simp add: id_range_def word_less_nat_alt)

lemma set_id_range: "set (id_range j e) = {i. j \<le> i \<and> i < e}"
proof -
  have "i \<in> set (id_range j e)" if "j \<le> i" "i < e" for i
  proof -
    have "unat i \<in> set [unat j..<unat e]" using that by (simp add: word_le_nat_alt word_less_nat_alt)
    then have "of_nat (unat i) \<in> set (id_range j e)" unfolding id_range_def by (metis image_eqI list.set_map)
    then show ?thesis by simp
  qed
  moreover have "j \<le> i \<and> i < e" if mem: "i \<in> set (id_range j e)" for i
  proof -
    obtain n where n: "i = of_nat n" "unat j \<le> n" "n < unat e" using mem by (auto simp: id_range_def)
    then have "n < 2 ^ LENGTH(64)" using unsigned_less [of e, where ?'a = nat] by simp
    then have "unat i = n" using n(1) by (simp add: unsigned_of_nat take_bit_nat_eq_self)
    then show ?thesis using n by (simp add: word_le_nat_alt word_less_nat_alt)
  qed
  ultimately show ?thesis by blast
qed

definition unlink_object :: "string \<Rightarrow> u64 \<Rightarrow> u64 \<Rightarrow> fs \<Rightarrow> fs" where
  "unlink_object rt pid oid f = (case get_dfile_name rt pid oid of None \<Rightarrow> f
     | Some path \<Rightarrow> snd (fs_unlink path f))"

definition tmp_post :: "osd_device \<Rightarrow> u64 \<Rightarrow> u64 list \<Rightarrow> bytes \<Rightarrow> bytes \<times> osd_device \<Rightarrow> bool" where
  "tmp_post osd pid ids sense = (\<lambda>(s, osd'). sound osd' \<and> length s = length sense \<and>
     root osd' = root osd \<and> db_frame (dbc osd) (dbc osd') \<and>
     set (t_obj (tabs (dbc osd'))) \<subseteq> set (t_obj (tabs (dbc osd))) \<and>
     files osd' = fold (unlink_object (root osd) pid) ids (files osd) \<and>
     (db_clean (dbc osd) \<longrightarrow> s = sense \<and> tabs (dbc osd') = fold (removed pid) ids (tabs (dbc osd))))"

lemma osd_remove_tmp_objects_total:
  assumes "sound osd" and "user_object pid j" and "252 \<le> length sense"
  shows "total (tmp_post osd pid (id_range j e) sense) (osd_remove_tmp_objects osd pid j e sense)"
  using assms
proof (induction osd pid j e sense rule: osd_remove_tmp_objects.induct)
  case (1 osd pid j e sense)
  show ?case
  proof (cases "j < e")
    case True
    have uo: "user_object pid (j + 1)"
      using 1(3) word_Suc [OF True] by (simp add: user_object_def word_le_nat_alt)
    have "total (tmp_post osd pid (id_range j e) sense)
      (osd_remove osd pid j sense \<bind> (\<lambda>(_, sense, osd). osd_remove_tmp_objects osd pid (j + 1) e sense))"
    proof (rule total_call [OF osd_remove_total [OF 1(2-4)]], clarify)
      fix ret s osd1
      assume r: "osd_remove osd pid j sense = Some (ret, s, osd1)" and p: "remove_post osd pid j sense (ret, s, osd1)"
      then have IH: "total (tmp_post osd1 pid (id_range (j + 1) e) s) (osd_remove_tmp_objects osd1 pid (j + 1) e s)"
        using uo 1(4) by (intro 1(1) [OF True r refl refl]) (auto simp: remove_post_def)
      show "total (tmp_post osd pid (id_range j e) sense) (osd_remove_tmp_objects osd1 pid (j + 1) e s)"
        by (rule total_mono [OF IH])
          (use p True in \<open>auto simp: remove_post_def tmp_post_def id_range_Cons unlink_object_def
            intro: db_frame_trans db_frame_clean\<close>)
    qed
    then show ?thesis using True by (subst osd_remove_tmp_objects.simps) simp
  next
    case False
    then show ?thesis using 1(2)
      by (subst osd_remove_tmp_objects.simps) (simp add: tmp_post_def id_range_Nil)
  qed
qed

abbreviation user_row :: "u64 \<Rightarrow> u64 \<Rightarrow> obj_row" where
  "user_row pid oid \<equiv> obj_row_of pid oid (ucast USEROBJECT)"

definition loop_post :: "osd_device \<Rightarrow> u64 \<Rightarrow> u64 \<Rightarrow> u64 \<Rightarrow> bytes \<Rightarrow> bool \<times> bytes \<times> osd_device \<Rightarrow> bool" where
  "loop_post osd pid i e sense = (\<lambda>(ok, s, osd'). sound osd' \<and> length s = length sense \<and> root osd' = root osd \<and>
     db_frame (dbc osd) (dbc osd') \<and>
     set (t_obj (tabs (dbc osd'))) \<subseteq> set (t_obj (tabs (dbc osd))) \<union> user_row pid ` {j. i \<le> j \<and> j < e} \<and>
     (ok \<longrightarrow> ic osd' = ic osd))"

lemma add_obj_rows: "add_obj pid oid ty t = Some t' \<Longrightarrow> t_obj t' = t_obj t @ [obj_row_of pid oid ty]"
  by (auto simp: add_obj_def split: if_splits)

lemma obj_map_mono: "set (t_obj t) \<subseteq> set (t_obj t') \<Longrightarrow> obj_map t (p, q) \<noteq> None \<Longrightarrow> obj_map t' (p, q) \<noteq> None"
  unfolding obj_map_some by blast

lemma create_rollback_total:
  assumes "sound osd1" and "user_object pid oid" and "252 \<le> length sense" and "root osd1 = root osd"
    and "db_frame (dbc osd) (dbc osd1)"
    and "set (t_obj (tabs (dbc osd1))) \<subseteq> set (t_obj (tabs (dbc osd))) \<union> user_row pid ` {j. i \<le> j \<and> j < e}"
  shows "total (loop_post osd pid i e sense) (do {
    (sense, osd) \<leftarrow> osd_remove_tmp_objects osd1 pid oid i sense; Some (False, sense, osd) })"
  by (rule total_pair_bind [OF osd_remove_tmp_objects_total [OF assms(1-3)]])
    (use assms(4-6) in \<open>auto simp: tmp_post_def loop_post_def intro: db_frame_trans\<close>)

lemma del_obj_subset: "set (t_obj (del_obj pid oid t)) \<subseteq> set (t_obj t)"
  by (auto simp: del_obj_def delete_rows_def)

text \<open>The branch without a data file: the row goes again, then everything before it.\<close>

lemma create_undo_total:
  assumes "sound osd1" and "user_object pid oid" and "oid \<le> i" and "252 \<le> length sense" and "root osd1 = root osd"
    and "db_frame (dbc osd) (dbc osd1)"
    and "set (t_obj (tabs (dbc osd1))) \<subseteq> set (t_obj (tabs (dbc osd))) \<union> user_row pid ` {j. i \<le> j \<and> j < e}"
  shows "total (loop_post osd pid i e sense) (do {
    (_, d) \<leftarrow> obj_delete (dbc osd1) pid i;
    (sense, osd) \<leftarrow> osd_remove_tmp_objects (osd1\<lparr>dbc := d\<rparr>) pid oid i sense;
    Some (False, sense, osd) })"
proof (rule total_pair_bind [OF statements_stored(1) [OF soundD(1) [OF assms(1)]]])
  fix r d2
  assume "stored (dbc osd1) (\<lambda>t. Some (del_obj pid i t)) (r, d2)"
  then have d2: "db_good d2" "db_frame (dbc osd1) d2"
    "tabs d2 = tabs (dbc osd1) \<or> tabs d2 = del_obj pid i (tabs (dbc osd1))"
    by (auto simp: stored_def)
  have i0: "i \<noteq> 0" using user_object_nonzero [OF assms(2)] assms(3) by auto
  have "tables_inv (tabs d2)"
    using d2(3) soundD(2) [OF assms(1)] tables_inv_del_obj [of "tabs (dbc osd1)" i pid] i0 by auto
  then have "sound (osd1\<lparr>dbc := d2\<rparr>)" using assms(1) d2(1) by (intro sound_dbc)
  moreover have "set (t_obj (tabs d2)) \<subseteq> set (t_obj (tabs (dbc osd1)))"
    using d2(3) del_obj_subset [of pid i "tabs (dbc osd1)"] by auto
  ultimately show "total (loop_post osd pid i e sense) (do {
      (sense, osd) \<leftarrow> osd_remove_tmp_objects (osd1\<lparr>dbc := d2\<rparr>) pid oid i sense;
      Some (False, sense, osd) })"
    using assms(2,4-7) d2(2) by (intro create_rollback_total) (auto intro: db_frame_trans)
qed

lemma create_loop_total:
  assumes "sound osd" and "user_object pid oid" and "oid \<le> i" and "252 \<le> length sense"
    and "obj_map (tabs (dbc osd)) (okey pid 0) \<noteq> None"
  shows "total (loop_post osd pid i e sense) (create_loop osd pid oid i e sense)"
  using assms
proof (induction osd pid oid i e sense rule: create_loop.induct)
  case (1 osd pid oid i e sense)
  let ?t = "tabs (dbc osd)" and ?R = "user_row pid ` {j. i \<le> j \<and> j < e}"
  show ?case
  proof (cases "i < e")
    case True
    have i0: "i \<noteq> 0" using user_object_nonzero [OF 1(3)] 1(4) by auto
    have le: "i \<le> i + 1" using word_Suc [OF True] by (simp add: word_le_nat_alt)
    let ?bad = "\<lambda>d. do { (sense, osd) \<leftarrow> osd_remove_tmp_objects (osd\<lparr>dbc := d\<rparr>) pid oid i sense; Some (False, sense, osd) }"
    let ?good = "\<lambda>d. do {
          (ret, osd) \<leftarrow> osd_create_datafile (osd\<lparr>dbc := d\<rparr>) pid i;
          if ret \<noteq> 0
          then do {
            (_, d) \<leftarrow> obj_delete (dbc osd) pid i;
            (sense, osd) \<leftarrow> osd_remove_tmp_objects (osd\<lparr>dbc := d\<rparr>) pid oid i sense;
            Some (False, sense, osd) }
          else create_loop osd pid oid (i + 1) e sense }"
    have "total (loop_post osd pid i e sense)
      (obj_insert (dbc osd) pid i (ucast USEROBJECT) \<bind> (\<lambda>(ret, d). if ret \<noteq> 0 then ?bad d else ?good d))"
    proof (rule total_call [OF obj_insert_stored [OF soundD(1) [OF 1(2)]]], clarify)
      fix ret d
      assume ins: "obj_insert (dbc osd) pid i (ucast USEROBJECT) = Some (ret, d)"
        and st: "stored (dbc osd) (add_obj pid i (ucast USEROBJECT)) (ret, d)"
      show "total (loop_post osd pid i e sense) (if ret \<noteq> 0 then ?bad d else ?good d)"
      proof (rule total_if)
        assume "ret \<noteq> 0"
        then show "total (loop_post osd pid i e sense) (?bad d)"
          using st 1(2,3,5) soundD(2) [OF 1(2)]
          by (intro create_rollback_total) (auto simp: stored_def intro: sound_dbc)
      next
        assume z: "\<not> ret \<noteq> 0"
        then have s1: "db_good d" "db_frame (dbc osd) d" "add_obj pid i (ucast USEROBJECT) ?t = Some (tabs d)"
          using st by (auto simp: stored_def)
        note rows = add_obj_rows [OF s1(3)]
        have inv1: "tables_inv (tabs d)"
          using tables_inv_add [OF soundD(2) [OF 1(2)] s1(3)] 1(6) typed_new(3) [OF 1(3) i0] by simp
        then have sound1: "sound (osd\<lparr>dbc := d\<rparr>)" using 1(2) s1(1) by (intro sound_dbc)
        show "total (loop_post osd pid i e sense) (?good d)"
        proof (rule total_call [OF osd_create_datafile_total [OF soundD(4) [OF sound1] i0]], clarify)
          fix ret2 osd1
          assume dat: "osd_create_datafile (osd\<lparr>dbc := d\<rparr>) pid i = Some (ret2, osd1)"
            and o1: "osd1 = osd\<lparr>dbc := d, files := files osd1\<rparr>"
          obtain f where f: "osd1 = osd\<lparr>dbc := d, files := f\<rparr>" using o1 by blast
          have sound2: "sound osd1" using sound1 unfolding f by (simp add: sound_def root_fits_def)
          show "total (loop_post osd pid i e sense) (if ret2 \<noteq> 0
            then do {
              (_, d) \<leftarrow> obj_delete (dbc osd1) pid i;
              (sense, osd) \<leftarrow> osd_remove_tmp_objects (osd1\<lparr>dbc := d\<rparr>) pid oid i sense;
              Some (False, sense, osd) }
            else create_loop osd1 pid oid (i + 1) e sense)"
          proof (rule total_if)
            show "total (loop_post osd pid i e sense) (do {
              (_, d) \<leftarrow> obj_delete (dbc osd1) pid i;
              (sense, osd) \<leftarrow> osd_remove_tmp_objects (osd1\<lparr>dbc := d\<rparr>) pid oid i sense;
              Some (False, sense, osd) })"
              by (rule create_undo_total [OF sound2 1(3-5)]) (use s1(2) rows True in \<open>auto simp: f\<close>)
          next
            assume z2: "\<not> ret2 \<noteq> 0"
            have "total (loop_post osd1 pid (i + 1) e sense) (create_loop osd1 pid oid (i + 1) e sense)"
              using sound2 1(3,5,6) order_trans [OF 1(4) le] obj_map_mono [of ?t "tabs d" "sint pid" 0] rows
              by (intro 1(1) [OF True ins refl refl z dat refl z2]) (auto simp: f)
            then show "total (loop_post osd pid i e sense) (create_loop osd1 pid oid (i + 1) e sense)"
            proof (rule total_mono, clarify)
              fix ok s osd2
              assume p: "loop_post osd1 pid (i + 1) e sense (ok, s, osd2)"
              have "{j. i + 1 \<le> j \<and> j < e} \<subseteq> {j. i \<le> j \<and> j < e}" using le by (auto intro: order_trans)
              then have "user_row pid ` {j. i + 1 \<le> j \<and> j < e} \<subseteq> ?R" by blast
              moreover have "user_row pid i \<in> ?R" using True by blast
              moreover have "set (t_obj (tabs (dbc osd2))) \<subseteq>
                  insert (user_row pid i) (set (t_obj ?t) \<union> user_row pid ` {j. i + 1 \<le> j \<and> j < e})"
                using p rows unfolding loop_post_def f by simp
              ultimately have "set (t_obj (tabs (dbc osd2))) \<subseteq> set (t_obj ?t) \<union> ?R" by blast
              then show "loop_post osd pid i e sense (ok, s, osd2)"
                using p s1(2) unfolding loop_post_def f by (auto intro: db_frame_trans)
            qed
          qed
        qed
      qed
    qed
    then show ?thesis using True by (subst create_loop.simps) (simp add: Let_def)
  next
    case False
    then show ?thesis using 1(2) by (subst create_loop.simps) (simp add: loop_post_def)
  qed
qed

end
