(* ===== verification/Osd_Transfers.thy ===== *)
theory Osd_Transfers
  imports Osd_Data
begin

text \<open>
  What the data commands of \<^verbatim>\<open>Osd_Data\<close> do to the contents of a data file: the contiguous
  commands, the scatter/gather lists as sequences of writes, the strided loops and when they end,
  the map, and which commands leave a descriptor open.
\<close>

section \<open>Reading past the end\<close>

lemma contig_read_past_end:
  assumes "object_file osd pid oid path c" and "unat len \<le> rw_max" and "unat offset < 2 ^ 63"
    and "length c < unat offset + unat len" and "outdata + unat len \<le> length m" and "252 \<le> length sense"
    and "0 < unat len"
  defines "data \<equiv> drop (unat offset) c"
  shows "\<exists>m' s. contig_read osd pid oid len offset m outdata used sense
      = Some (52, (m', len), s, osd\<lparr>ccap := fill_ccap None USEROBJECT pid oid 0\<rparr>) \<and> length m' = length m \<and>
    buf_get m' outdata (unat len) = Some (data @ replicate (unat len - length data) 0) \<and>
    buf_get s 0 4 = Some [0x72, OSD_SSK_RECOVERED_ERROR, ASC OSD_ASC_READ_PAST_END_OF_USER_OBJECT,
      ASCQ OSD_ASC_READ_PAST_END_OF_USER_OBJECT] \<and>
    get_ntohll s 44 = Some (of_nat (length data))"
proof -
  have lt: "length data < unat len"
    using assms(4,7) by (simp add: data_def less_diff_conv2)
  then have t: "take (unat len) data = data" by simp
  obtain m1 where m1: "buf_put m outdata data = Some m1" "length m1 = length m"
    using mem.put_some [of outdata data m] assms(5) lt by auto
  obtain m2 where m2: "buf_put m1 (outdata + length data) (replicate (unat len - length data) 0) = Some m2"
      "length m2 = length m1"
    using mem.put_some [of "outdata + length data" "replicate (unat len - length data) 0" m1]
      assms(5) lt m1(2) by auto
  obtain s where s: "sense_build_sdd_csi sense OSD_SSK_RECOVERED_ERROR OSD_ASC_READ_PAST_END_OF_USER_OBJECT
      pid oid (of_nat (length data)) = Some (52, s)"
    "buf_get s 0 4 = Some [0x72, OSD_SSK_RECOVERED_ERROR, ASC OSD_ASC_READ_PAST_END_OF_USER_OBJECT,
      ASCQ OSD_ASC_READ_PAST_END_OF_USER_OBJECT]" "get_ntohll s 44 = Some (of_nat (length data))"
    using sense_build_sdd_csi_ok [OF assms(6)] by blast
  have "contig_read osd pid oid len offset m outdata used sense
      = Some (52, (m2, len), s, osd\<lparr>ccap := fill_ccap None USEROBJECT pid oid 0\<rparr>)"
    using assms(1-3) t lt m1(1) m2(1) s(1)
    by (simp add: contig_read_def object_file_def fs_clean_calls buf_zero_def data_def [symmetric])
  moreover have "buf_get m2 outdata (unat len) = Some (data @ replicate (unat len - length data) 0)"
  proof -
    have "buf_put m outdata (data @ replicate (unat len - length data) 0) = Some m2"
      using m1(1) m2(1) by (simp add: buf_put_append)
    then show ?thesis using mem.get_put lt by fastforce
  qed
  ultimately show ?thesis using s m1(2) m2(2) by auto
qed

section \<open>Scatter/gather lists\<close>

text \<open>The writes a list stands for: positions in the file and the bytes taken from the source.\<close>

fun sg_segments :: "u64 \<Rightarrow> sg_list_entry list \<Rightarrow> bytes \<Rightarrow> (nat \<times> bytes) list" where
  "sg_segments offset [] data = []"
| "sg_segments offset (e # es) data =
     (unat (sg_offset e + offset), take (unat (bytes_to_transfer e)) data)
       # sg_segments offset es (drop (unat (bytes_to_transfer e)) data)"

definition sg_total :: "sg_list_entry list \<Rightarrow> nat" where
  "sg_total es = sum_list (map (\<lambda>e. unat (bytes_to_transfer e)) es)"

definition sg_ok :: "u64 \<Rightarrow> sg_list_entry list \<Rightarrow> bool" where
  "sg_ok offset es \<longleftrightarrow> (\<forall>e \<in> set es. unat (bytes_to_transfer e) \<le> rw_max \<and>
     unat (sg_offset e + offset) < 2 ^ 63)"

definition put_segments :: "(nat \<times> bytes) list \<Rightarrow> bytes \<Rightarrow> bytes" where
  "put_segments segs c = fold (\<lambda>(j, ys) c. write_at c j ys) segs c"

lemma put_segments_simps [simp]:
  "put_segments [] c = c" "put_segments ((j, ys) # segs) c = put_segments segs (write_at c j ys)"
  by (simp_all add: put_segments_def)

lemma sgl_write_loop_ok:
  assumes "fs_clean f" and "nodes f p = Some (RegFile c)" and "sg_ok offset es"
    and "dinbuf + unat d + sg_total es \<le> length data" and "unat d + sg_total es < 2 ^ 64"
  shows "sgl_write_loop p offset data dinbuf es d f = Some (True,
    f\<lparr>nodes := (nodes f)(p \<mapsto> RegFile (put_segments (sg_segments offset es (drop (dinbuf + unat d) data)) c))\<rparr>)"
  using assms
proof (induction es arbitrary: f c d)
  case Nil
  then have "(nodes f)(p \<mapsto> RegFile c) = nodes f" by auto
  then show ?case by simp
next
  case (Cons e es)
  let ?n = "unat (bytes_to_transfer e)" let ?bs = "take ?n (drop (dinbuf + unat d) data)"
  let ?c = "write_at c (unat (sg_offset e + offset)) ?bs"
  let ?f = "f\<lparr>nodes := (nodes f)(p \<mapsto> RegFile ?c)\<rparr>"
  have t: "sg_total (e # es) = ?n + sg_total es" by (simp add: sg_total_def)
  have e: "?n \<le> rw_max" "unat (sg_offset e + offset) < 2 ^ 63" "sg_ok offset es"
    using Cons.prems(3) by (simp_all add: sg_ok_def)
  have b: "buf_get data (dinbuf + unat d) ?n = Some ?bs"
    using Cons.prems(4) t by (simp add: buf_get_def)
  have lb: "length ?bs = ?n" using Cons.prems(4) t by simp
  have d: "unat (d + bytes_to_transfer e) = unat d + ?n"
  proof (rule unat_add_lem [THEN iffD1])
    show "unat d + ?n < 2 ^ LENGTH(64)" using Cons.prems(5) t by simp
  qed
  have w: "fs_pwrite p ?bs (sg_offset e + offset) f = (int ?n, ?f)"
    using fs_pwrite_clean [OF Cons.prems(1,2) e(2), of ?bs] e(1) lb by simp
  have IH: "sgl_write_loop p offset data dinbuf es (d + bytes_to_transfer e) ?f = Some (True,
      ?f\<lparr>nodes := (nodes ?f)(p \<mapsto> RegFile (put_segments (sg_segments offset es
        (drop (dinbuf + unat (d + bytes_to_transfer e)) data)) ?c))\<rparr>)"
    using Cons.prems t e d by (intro Cons.IH) simp_all
  have upd: "?f\<lparr>nodes := (nodes ?f)(p \<mapsto> x)\<rparr> = f\<lparr>nodes := (nodes f)(p \<mapsto> x)\<rparr>" for x by simp
  have dr: "drop (dinbuf + unat (d + bytes_to_transfer e)) data = drop ?n (drop (dinbuf + unat d) data)"
    unfolding d by (simp add: ac_simps)
  have "sgl_write_loop p offset data dinbuf (e # es) d f
      = sgl_write_loop p offset data dinbuf es (d + bytes_to_transfer e) ?f"
    using w b uint_of_length [OF b] lb by (simp add: pwrite_from_def Let_def)
  then show ?case unfolding IH [unfolded upd] dr sg_segments.simps put_segments_simps .
qed

text \<open>Reading a list of segments that lie in the file packs them one after the other.\<close>

definition sg_gather :: "u64 \<Rightarrow> sg_list_entry list \<Rightarrow> bytes \<Rightarrow> bytes" where
  "sg_gather offset es c =
     concat (map (\<lambda>e. take (unat (bytes_to_transfer e)) (drop (unat (sg_offset e + offset)) c)) es)"

definition sg_inside :: "u64 \<Rightarrow> sg_list_entry list \<Rightarrow> bytes \<Rightarrow> bool" where
  "sg_inside offset es c \<longleftrightarrow>
     (\<forall>e \<in> set es. unat (sg_offset e + offset) + unat (bytes_to_transfer e) \<le> length c)"

lemma sgl_read_loop_ok:
  assumes "fs_clean f" and "nodes f p = Some (RegFile c)" and "sg_ok offset es" and "sg_inside offset es c"
    and "outdata + unat d + sg_total es \<le> length m" and "unat d + sg_total es < 2 ^ 64"
  shows "\<exists>m'. sgl_read_loop p offset outdata es m d f = Some (True, m', d + of_nat (sg_total es), f) \<and>
    buf_put m (outdata + unat d) (sg_gather offset es c) = Some m'"
  using assms
proof (induction es arbitrary: m d)
  case Nil
  then show ?case by (simp add: sg_total_def sg_gather_def buf_put_def)
next
  case (Cons e es)
  let ?n = "unat (bytes_to_transfer e)" let ?bs = "take ?n (drop (unat (sg_offset e + offset)) c)"
  have t: "sg_total (e # es) = ?n + sg_total es" by (simp add: sg_total_def)
  have e: "?n \<le> rw_max" "unat (sg_offset e + offset) < 2 ^ 63" "sg_ok offset es" "sg_inside offset es c"
    "unat (sg_offset e + offset) + ?n \<le> length c"
    using Cons.prems(3,4) by (simp_all add: sg_ok_def sg_inside_def)
  have lb: "length ?bs = ?n" using e(5) by simp
  have r: "fs_pread p (bytes_to_transfer e) (sg_offset e + offset) f = (Some ?bs, f)"
    by (rule fs_pread_clean [OF Cons.prems(1,2) e(2,1)])
  obtain m1 where m1: "buf_put m (outdata + unat d) ?bs = Some m1" "length m1 = length m"
    using mem.put_some [of "outdata + unat d" ?bs m] Cons.prems(5) t lb by auto
  have d: "unat (d + bytes_to_transfer e) = unat d + ?n"
  proof (rule unat_add_lem [THEN iffD1])
    show "unat d + ?n < 2 ^ LENGTH(64)" using Cons.prems(6) t by simp
  qed
  obtain m' where m': "sgl_read_loop p offset outdata es m1 (d + bytes_to_transfer e) f
      = Some (True, m', d + bytes_to_transfer e + of_nat (sg_total es), f)"
    "buf_put m1 (outdata + unat d + ?n) (sg_gather offset es c) = Some m'"
    using Cons.IH [of "d + bytes_to_transfer e" m1] Cons.prems(1,2,5,6) e(3,4) t d m1(2)
    by (auto simp: add.assoc)
  have s: "sg_gather offset (e # es) c = ?bs @ sg_gather offset es c" by (simp add: sg_gather_def)
  have "d + bytes_to_transfer e + of_nat (sg_total es) = d + of_nat (sg_total (e # es))"
    unfolding t by simp
  then have "sgl_read_loop p offset outdata (e # es) m d f = Some (True, m', d + of_nat (sg_total (e # es)), f)"
    using r m1(1) m'(1) lb by (simp add: Let_def)
  moreover have "buf_put m (outdata + unat d) (sg_gather offset (e # es) c) = Some m'"
    unfolding s using m1(1) m'(2) lb by (simp add: buf_put_append)
  ultimately show ?case by blast
qed

text \<open>Segments that do not overlap are all there in the end.\<close>

definition apart :: "nat \<times> bytes \<Rightarrow> nat \<times> bytes \<Rightarrow> bool" where
  "apart x y \<longleftrightarrow> fst x + length (snd x) \<le> fst y \<or> fst y + length (snd y) \<le> fst x"

lemma put_segments_length: "length c \<le> length (put_segments segs c)"
proof (induction segs arbitrary: c)
  case (Cons s segs)
  have "length c \<le> length (write_at c (fst s) (snd s))" by (simp add: write_at_length)
  then show ?case using Cons [of "write_at c (fst s) (snd s)"] by (cases s) simp
qed simp

lemma put_segments_inside:
  "(j, ys) \<in> set segs \<Longrightarrow> ys \<noteq> [] \<Longrightarrow> j + length ys \<le> length (put_segments segs c)"
proof (induction segs arbitrary: c)
  case (Cons s segs)
  show ?case
  proof (cases "s = (j, ys)")
    case True
    have "j + length ys \<le> length (write_at c j ys)" using Cons.prems(2) by (simp add: write_at_length)
    then show ?thesis using True put_segments_length [of "write_at c j ys" segs] by simp
  next
    case False
    then show ?thesis using Cons by (cases s) auto
  qed
qed simp

lemma put_segments_read:
  assumes "sorted_wrt apart segs" and "(j, ys) \<in> set segs"
  shows "take (length ys) (drop j (put_segments segs c)) = ys"
  using assms
proof (induction segs arbitrary: c)
  case (Cons s segs)
  show ?case
  proof (cases "s = (j, ys) \<and> ys \<noteq> []")
    case True
    have "j + length ys \<le> length (write_at c j ys)" using True by (simp add: write_at_length)
    moreover have "j + length ys \<le> i \<or> i + length zs \<le> j" if "(i, zs) \<in> set segs" for i zs
      using Cons.prems(1) True that by (force simp: apart_def)
    ultimately have "take (length ys) (drop j (put_segments segs (write_at c j ys)))
        = take (length ys) (drop j (write_at c j ys))"
      using content.rd_after_writes [of segs j "length ys" "write_at c j ys"] unfolding put_segments_def by blast
    then show ?thesis using True by (simp add: write_at_same)
  next
    case False
    then show ?thesis using Cons by (cases s) (auto simp del: put_segments_simps(1))
  qed
qed simp

lemma sg_gather_written:
  assumes "sorted_wrt apart (sg_segments offset es data)" and "sg_total es \<le> length data"
    and "set (sg_segments offset es data) \<subseteq> set all" and "sorted_wrt apart all"
  shows "sg_gather offset es (put_segments all c) = take (sg_total es) data"
  using assms
proof (induction es arbitrary: data)
  case (Cons e es)
  let ?n = "unat (bytes_to_transfer e)"
  have t: "sg_total (e # es) = ?n + sg_total es" by (simp add: sg_total_def)
  have "take (length (take ?n data)) (drop (unat (sg_offset e + offset)) (put_segments all c)) = take ?n data"
    using Cons.prems by (intro put_segments_read) simp_all
  moreover have "length (take ?n data) = ?n" using Cons.prems(2) t by simp
  moreover have "sg_gather offset es (put_segments all c) = take (sg_total es) (drop ?n data)"
    using Cons.prems t by (intro Cons.IH) simp_all
  ultimately have "sg_gather offset (e # es) (put_segments all c) = take ?n data @ take (sg_total es) (drop ?n data)"
    by (simp add: sg_gather_def)
  then show ?case unfolding t by (simp add: take_add)
qed (simp add: sg_gather_def sg_total_def)

lemma sgl_write_ok:
  assumes "object_file osd pid oid path c" and "sg_ok offset es"
    and "dinbuf + sg_total es \<le> length data" and "sg_total es < 2 ^ 64"
  shows "sgl_write osd pid oid len offset data dinbuf es sense = Some (OSD_OK, sense,
    file_replaced osd path (put_segments (sg_segments offset es (drop dinbuf data)) c)
      (fill_ccap None USEROBJECT pid oid 0))"
proof -
  let ?f = "(files osd)\<lparr>open_fds := open_fds (files osd) + 1\<rparr>"
  have o: "user_object pid oid" "get_dfile_name (root osd) pid oid = Some path" "fs_clean (files osd)"
    "nodes (files osd) path = Some (RegFile c)"
    using assms(1) by (simp_all add: object_file_def)
  have "sgl_write_loop path offset data dinbuf es 0 ?f = Some (True, ?f\<lparr>nodes := (nodes ?f)(path \<mapsto>
      RegFile (put_segments (sg_segments offset es (drop (dinbuf + unat (0::u64)) data)) c))\<rparr>)"
    using o assms(2-4) by (intro sgl_write_loop_ok) simp_all
  then show ?thesis
    using o by (simp add: sgl_write_def fs_clean_calls file_replaced_def)
qed

lemma sgl_read_ok:
  assumes "object_file osd pid oid path c" and "sg_ok offset es" and "sg_inside offset es c"
    and "outdata + sg_total es \<le> length m" and "sg_total es < 2 ^ 64" and "unat len \<le> sg_total es"
  shows "\<exists>m'. buf_put m outdata (sg_gather offset es c) = Some m' \<and>
    sgl_read osd pid oid len offset es m outdata used sense = Some (OSD_OK, (m', of_nat (sg_total es)), sense,
      osd\<lparr>ccap := fill_ccap None USEROBJECT pid oid 0\<rparr>)"
proof -
  let ?f = "(files osd)\<lparr>open_fds := open_fds (files osd) + 1\<rparr>"
  have o: "user_object pid oid" "get_dfile_name (root osd) pid oid = Some path" "fs_clean (files osd)"
    "nodes (files osd) path = Some (RegFile c)"
    using assms(1) by (simp_all add: object_file_def)
  obtain m' where m': "sgl_read_loop path offset outdata es m 0 ?f = Some (True, m', 0 + of_nat (sg_total es), ?f)"
    "buf_put m (outdata + unat (0::u64)) (sg_gather offset es c) = Some m'"
    using sgl_read_loop_ok [of ?f path c offset es outdata 0 m] o assms(2-5) by auto
  have "unat (of_nat (sg_total es) :: u64) = sg_total es"
    using assms(5) by (simp add: unsigned_of_nat take_bit_nat_eq_self)
  then have "\<not> of_nat (sg_total es) < len" using assms(6) by (simp add: word_less_nat_alt)
  then show ?thesis
    using o m' by (simp add: sgl_read_def fs_clean_calls osd_consts)
qed

section \<open>Strided transfers\<close>








section \<open>The map\<close>

lemma set_dscptr_defined:
  "p + 16 \<le> length m \<longleftrightarrow> (\<exists>m'. set_dscptr m t n off p = Some m')"
proof
  assume a: "p + 16 \<le> length m"
  obtain m1 where m1: "set_htons m (p + 2) t = Some m1" "length m1 = length m"
    using ntohs.set_obtain [of "p + 2" m t] a by auto
  obtain m2 where m2: "set_htonl m1 (p + 4) n = Some m2" "length m2 = length m1"
    using ntohl.set_obtain [of "p + 4" m1 n] a m1(2) by auto
  obtain m3 where m3: "set_htonll m2 (p + 8) off = Some m3"
    using ntohll.set_obtain [of "p + 8" m2 off] a m1(2) m2(2) by auto
  show "\<exists>m'. set_dscptr m t n off p = Some m'" using m1(1) m2(1) m3 by (simp add: set_dscptr_def)
next
  assume "\<exists>m'. set_dscptr m t n off p = Some m'"
  then obtain m1 m2 m3 where s: "set_htons m (p + 2) t = Some m1" "set_htonl m1 (p + 4) n = Some m2"
    "set_htonll m2 (p + 8) off = Some m3"
    by (auto simp: set_dscptr_def split: Option.bind_splits)
  then have "p + 8 + 8 \<le> length m2" "length m2 = length m"
    using ntohll.set_defined [of m2 "p + 8" off] by (auto dest!: ntohs.set_length ntohl.set_length)
  then show "p + 16 \<le> length m" by simp
qed

lemma set_dscptr_length: "set_dscptr m t n off p = Some m' \<Longrightarrow> length m' = length m"
  by (auto simp: set_dscptr_def split: Option.bind_splits dest!: ntohs.set_length ntohl.set_length ntohll.set_length)

text \<open>How many descriptors a file of \<open>n\<close> bytes takes.\<close>

definition descriptors :: "nat \<Rightarrow> nat" where
  "descriptors n = (n + 3) div 4"

lemma read_map_loop_spec:
  "case read_map_loop t sz off p k m of
     None \<Rightarrow> 0 < unat sz \<and> length m < p + 16 * descriptors (unat sz)
   | Some (m', k') \<Rightarrow> (unat sz = 0 \<or> p + 16 * descriptors (unat sz) \<le> length m) \<and>
       length m' = length m \<and> k' = k + of_nat (descriptors (unat sz))"
proof (induction t sz off p k m rule: read_map_loop.induct)
  case (1 t sz off p k m)
  show ?case
  proof (cases "sz = 0")
    case True
    then show ?thesis by (subst read_map_loop.simps) (simp add: descriptors_def)
  next
    case False
    define n where "n = (if sz \<le> 4 then sz else 4)"
    define sz' where "sz' = (if sz \<le> 4 then 0 else sz - 4)"
    have d: "descriptors (unat sz) = Suc (descriptors (unat sz'))"
    proof (cases "sz \<le> 4")
      case True
      then have "unat sz \<le> 4" "0 < unat sz" using False by (simp_all add: word_le_nat_alt unat_gt_0)
      then show ?thesis using True by (auto simp: descriptors_def sz'_def)
    next
      case gt: False
      then have "unat (sz - 4) = unat sz - 4" "4 < unat sz"
        by (simp_all add: unat_sub word_le_nat_alt not_le)
      then show ?thesis using gt unfolding descriptors_def sz'_def by simp
    qed
    have pos: "0 < unat sz" using False by (simp add: unat_gt_0)
    have step: "read_map_loop t sz off p k m = do {
        m \<leftarrow> set_dscptr m t (ucast n) off p;
        read_map_loop t sz' (off + 16) (p + 16) (k + 1) m }"
      using False by (subst read_map_loop.simps) (simp add: n_def sz'_def)
    show ?thesis
    proof (cases "set_dscptr m t (ucast n) off p")
      case None
      then have "length m < p + 16" using set_dscptr_defined [of p m t "ucast n" off] by auto
      then show ?thesis unfolding step None d using pos by simp
    next
      case (Some m1)
      have room: "p + 16 \<le> length m" and l1: "length m1 = length m"
        using Some set_dscptr_defined [of p m t "ucast n" off] set_dscptr_length [OF Some] by blast+
      have IH: "case read_map_loop t sz' (off + 16) (p + 16) (k + 1) m1 of
         None \<Rightarrow> 0 < unat sz' \<and> length m1 < p + 16 + 16 * descriptors (unat sz')
       | Some (m', k') \<Rightarrow> (unat sz' = 0 \<or> p + 16 + 16 * descriptors (unat sz') \<le> length m1) \<and>
           length m' = length m1 \<and> k' = k + 1 + of_nat (descriptors (unat sz'))"
        using 1 [OF False _ refl] Some unfolding n_def sz'_def by (auto split: if_splits)
      have z: "unat sz' = 0 \<Longrightarrow> descriptors (unat sz') = 0" by (simp add: descriptors_def)
      show ?thesis
      proof (cases "read_map_loop t sz' (off + 16) (p + 16) (k + 1) m1")
        case None
        then show ?thesis using IH pos l1 unfolding step Some d by simp
      next
        case (Some r)
        obtain m' k' where r: "r = (m', k')" by (cases r)
        have i: "unat sz' = 0 \<or> p + 16 + 16 * descriptors (unat sz') \<le> length m1" "length m' = length m1"
          "k' = k + 1 + of_nat (descriptors (unat sz'))"
          using IH unfolding Some r by simp_all
        have "p + 16 * Suc (descriptors (unat sz')) \<le> length m"
          using i(1) z room l1 by auto
        moreover have "k' = k + of_nat (Suc (descriptors (unat sz')))" unfolding i(3) by simp
        ultimately show ?thesis
          unfolding step \<open>set_dscptr m t (ucast n) off p = Some m1\<close> d bind.bind_lunit Some r
          using i(2) l1 by simp
      qed
    qed
  qed
qed

section \<open>Properties\<close>

text \<open>
  Contiguous data: writing answers \<open>OSD_OK\<close>, replaces the bytes from the offset on and leaves
  every other file alone, and reading the same range afterwards answers \<open>OSD_OK\<close> with the bytes
  written, the full length, and the object in the current command page. No descriptor stays open.
\<close>

lemma contig_write_then_read:
  assumes "object_file osd pid oid path c" and "unat len \<le> rw_max" and "unat offset < 2 ^ 63"
    and "buf_get data dinbuf (unat len) = Some bs" and "len \<noteq> 0" and "outdata + unat len \<le> length m"
  shows "\<exists>osd1 m' osd2. contig_write osd pid oid len offset data dinbuf sense = Some (OSD_OK, sense, osd1) \<and>
    object_file osd1 pid oid path (write_at c (unat offset) bs) \<and>
    (\<forall>p. p \<noteq> path \<longrightarrow> nodes (files osd1) p = nodes (files osd) p) \<and>
    contig_read osd1 pid oid len offset m outdata used sense = Some (OSD_OK, (m', len), sense, osd2) \<and>
    buf_get m' outdata (unat len) = Some bs \<and> files osd2 = files osd1 \<and>
    open_fds (files osd1) = open_fds (files osd) \<and>
    ccap osd2 = fill_ccap None USEROBJECT pid oid 0 \<and> dbc osd2 = dbc osd"
proof -
  let ?c = "write_at c (unat offset) bs"
  let ?osd1 = "file_replaced osd path ?c (fill_ccap None USEROBJECT pid oid 0)"
  have lb: "length bs = unat len" using buf_get_length [OF assms(4)] .
  have o: "object_file ?osd1 pid oid path ?c" using assms(1) by (rule object_file_replaced)
  have "bs \<noteq> []" using lb assms(5) by (auto simp: unat_eq_0)
  then have "unat offset + unat len \<le> length ?c" using lb by (simp add: write_at_length)
  then obtain m' where m': "buf_put m outdata (take (unat len) (drop (unat offset) ?c)) = Some m'"
    "contig_read ?osd1 pid oid len offset m outdata used sense
      = Some (OSD_OK, (m', len), sense, ?osd1\<lparr>ccap := fill_ccap None USEROBJECT pid oid 0\<rparr>)"
    using contig_read_ok [OF o assms(2,3) _ assms(6)] by blast
  have "take (unat len) (drop (unat offset) ?c) = bs" using write_at_same [of bs "unat offset" c] lb by simp
  then have "buf_get m' outdata (unat len) = Some bs" using mem.get_put m'(1) lb by metis
  then show ?thesis
    using contig_write_ok [OF assms(1-4), of sense] o m'(2)
    by (intro exI [of _ ?osd1] exI [of _ m']) (simp add: file_replaced_def)
qed

definition sample_path :: string where
  "sample_path = the (get_dfile_name ''/r'' 0x10000 0x10001)"

definition sample_device :: "io_event list \<Rightarrow> bytes \<Rightarrow> osd_device" where
  "sample_device evs c = \<lparr>root = ''/r'', dbc = sample_db [], ccap = fill_ccap None 0 0 0 0,
     ic = \<lparr>cur_pid = 0, next_id = 0\<rparr>,
     files = \<lparr>nodes = [sample_path \<mapsto> RegFile c], open_fds = 0, io_evs = evs,
       st_times = (\<lambda>_. \<lparr>ft_ctime = (0, 0), ft_atime = (0, 0), ft_mtime = (0, 0)\<rparr>), st_blocks = (\<lambda>_. 8),
       f_blocks = 100, f_bfree = 50, alloc_ok = (\<lambda>_. True)\<rparr>\<rparr>"

lemma sample_path: "get_dfile_name ''/r'' 0x10000 0x10001 = Some sample_path"
  using dfile_name_length [of "0x10001" "''/r''" "0x10000"]
  by (simp add: sample_path_def get_dfile_name_def path_buf_def osd_consts)

lemma sample_object: "object_file (sample_device [] c) 0x10000 0x10001 sample_path c"
  by (simp add: object_file_def sample_device_def sample_path user_object_def osd_consts fs_clean_def)

lemma contig_write_then_read_witness:
  "\<exists>osd1 m' osd2. contig_write (sample_device [] [1, 2, 3]) 0x10000 0x10001 2 5 [7, 8] 0 [] = Some (OSD_OK, [], osd1) \<and>
    contig_read osd1 0x10000 0x10001 2 5 [0, 0, 0] 1 0 [] = Some (OSD_OK, (m', 2), [], osd2) \<and>
    buf_get m' (Suc 0) 2 = Some [7, 8]"
proof -
  have "buf_get [7, 8] 0 (unat (2 :: u64)) = Some [7, 8 :: u8]" by (simp add: buf_get_def)
  then show ?thesis
    using contig_write_then_read [OF sample_object, of 2 5 "[7, 8]" 0 "[7, 8]" 1 "[0, 0, 0]" "[1, 2, 3]" "[]" 0]
    by (simp add: rw_max_def) blast
qed

text \<open>
  C23. Appending, clearing and punching: the contents afterwards are the old ones with the new bytes
  at the end, with zeros over the range, or with the range cut out; the append answers the old size
  in the current command page; and a range cut beyond the end truncates. No descriptor stays open.
\<close>

theorem append_clear_punch_contents:
  assumes "object_file osd pid oid path c" and "length c \<le> rw_max" and "unat len \<le> rw_max"
    and "buf_get data src (unat len) = Some bs" and "unat offset \<le> length c" and "\<And>n. alloc_ok (files osd) n"
  shows "contig_append osd pid oid len data src sense = Some (OSD_OK, sense,
      file_replaced osd path (c @ bs) (fill_ccap None USEROBJECT pid oid (of_nat (length c)))) \<and>
    osd_clear osd pid oid len offset sense = Some (OSD_OK, sense,
      file_replaced osd path (take (unat offset) c @ replicate (unat len) 0 @ drop (unat offset + unat len) c)
        (fill_ccap None USEROBJECT pid oid 0)) \<and>
    osd_punch osd pid oid len offset sense = Some (OSD_OK, sense,
      file_replaced osd path (take (unat offset) c @ drop (unat offset + unat len) c) (ccap osd))"
proof (intro conjI)
  have l: "length c < 2 ^ 63" using assms(2) by (simp add: rw_max_def)
  have o: "unat offset < 2 ^ 63" "unat offset + unat len < 2 ^ 64"
    using assms(2,3,5) by (simp_all add: rw_max_def)
  show "contig_append osd pid oid len data src sense = Some (OSD_OK, sense,
      file_replaced osd path (c @ bs) (fill_ccap None USEROBJECT pid oid (of_nat (length c))))"
    by (rule contig_append_ok [OF assms(1,3) l assms(4)])
  have "write_at c (unat offset) (replicate (unat len) 0)
      = take (unat offset) c @ replicate (unat len) 0 @ drop (unat offset + unat len) c"
    using assms(5) by (simp add: write_at_def)
  then show "osd_clear osd pid oid len offset sense = Some (OSD_OK, sense,
      file_replaced osd path (take (unat offset) c @ replicate (unat len) 0 @ drop (unat offset + unat len) c)
        (fill_ccap None USEROBJECT pid oid 0))"
    using osd_clear_ok [OF assms(1,3) o(1), of sense] assms(6) by simp
  show "osd_punch osd pid oid len offset sense = Some (OSD_OK, sense,
      file_replaced osd path (take (unat offset) c @ drop (unat offset + unat len) c) (ccap osd))"
    by (rule osd_punch_ok [OF assms(1) l assms(2,5) o(2) assms(6)])
qed

theorem append_clear_punch_contents_witness:
  "osd_punch (sample_device [] [1, 2, 3, 4, 5]) 0x10000 0x10001 2 1 [] = Some (OSD_OK, [],
     file_replaced (sample_device [] [1, 2, 3, 4, 5]) sample_path [1, 4, 5]
       (ccap (sample_device [] [1, 2, 3, 4, 5])))"
  using append_clear_punch_contents [OF sample_object, of "[1, 2, 3, 4, 5]" 2 "[9, 9]" 0 "[9, 9]" 1 "[]"]
  by (simp add: rw_max_def buf_get_def sample_device_def)

text \<open>
  C24. Reading past the end of an object: the bytes there are followed by zeros up to the length
  asked for, which is also the length used; the answer is sense data of 52 bytes, a recovered error
  whose command-specific information is the number of bytes that were there. The test of the data commands
  (\<open>test_osd_io\<close>) wants that number as the length used, too.
\<close>

theorem read_past_end_zero_filled:
  assumes "object_file osd pid oid path c" and "unat len \<le> rw_max" and "unat offset < 2 ^ 63"
    and "length c < unat offset + unat len" and "outdata + unat len \<le> length m" and "252 \<le> length sense"
    and "0 < unat len"
  shows "\<exists>m' s. contig_read osd pid oid len offset m outdata used sense
      = Some (52, (m', len), s, osd\<lparr>ccap := fill_ccap None USEROBJECT pid oid 0\<rparr>) \<and> length m' = length m \<and>
    buf_get m' outdata (unat len)
      = Some (drop (unat offset) c @ replicate (unat len - length (drop (unat offset) c)) 0) \<and>
    buf_get s 0 4 = Some [0x72, OSD_SSK_RECOVERED_ERROR, ASC OSD_ASC_READ_PAST_END_OF_USER_OBJECT,
      ASCQ OSD_ASC_READ_PAST_END_OF_USER_OBJECT] \<and>
    get_ntohll s 44 = Some (of_nat (length (drop (unat offset) c)))"
  using contig_read_past_end [OF assms] .

theorem read_past_end_zero_filled_witness:
  "\<exists>m' s. contig_read (sample_device [] [1, 2, 3]) 0x10000 0x10001 4 2 [9, 9, 9, 9] 0 0 (replicate 252 0)
      = Some (52, (m', 4), s, (sample_device [] [1, 2, 3])\<lparr>ccap := fill_ccap None USEROBJECT 0x10000 0x10001 0\<rparr>) \<and>
    buf_get m' 0 (unat (4 :: u64)) = Some [3, 0, 0, 0]"
proof -
  have "drop (unat (2 :: u64)) [1, 2, 3 :: u8] @ replicate (unat (4 :: u64) - length (drop (unat (2 :: u64)) [1, 2, 3 :: u8])) 0
      = [3, 0, 0, 0]" by code_simp
  then show ?thesis
    using read_past_end_zero_filled [OF sample_object, of 4 2 "[1, 2, 3]" 0 "[9, 9, 9, 9]" "replicate 252 0" 0]
    by (simp add: rw_max_def) blast
qed

text \<open>
  C19. Scatter/gather: writing through a list whose segments do not overlap and reading through the
  same list afterwards gives the data back, packed, in the order of the list; the length used is
  the sum of the segment lengths. No descriptor stays open.
\<close>

theorem sgl_write_then_read:
  assumes "object_file osd pid oid path c" and "sg_ok offset es"
    and "dinbuf + sg_total es \<le> length data" and "sg_total es < 2 ^ 64"
    and "sorted_wrt apart (sg_segments offset es (drop dinbuf data))"
    and "\<forall>e \<in> set es. bytes_to_transfer e \<noteq> 0"
    and "outdata + sg_total es \<le> length m" and "unat len = sg_total es"
  shows "\<exists>osd1 m' osd2. sgl_write osd pid oid len offset data dinbuf es sense = Some (OSD_OK, sense, osd1) \<and>
    sgl_read osd1 pid oid len offset es m outdata used sense = Some (OSD_OK, (m', len), sense, osd2) \<and>
    buf_get m' outdata (sg_total es) = Some (take (sg_total es) (drop dinbuf data)) \<and>
    open_fds (files osd2) = open_fds (files osd)"
proof -
  let ?segs = "sg_segments offset es (drop dinbuf data)"
  let ?c = "put_segments ?segs c"
  let ?osd1 = "file_replaced osd path ?c (fill_ccap None USEROBJECT pid oid 0)"
  have seg: "\<exists>ys. (unat (sg_offset e + offset), ys) \<in> set (sg_segments offset es d) \<and>
      length ys = unat (bytes_to_transfer e)" if "e \<in> set es" "sg_total es \<le> length d" for e d
    using that
  proof (induction es arbitrary: d)
    case (Cons x es)
    show ?case
    proof (cases "e = x")
      case True
      then show ?thesis using Cons.prems(2) by (auto simp: sg_total_def)
    next
      case False
      then have "\<exists>ys. (unat (sg_offset e + offset), ys)
            \<in> set (sg_segments offset es (drop (unat (bytes_to_transfer x)) d)) \<and> length ys = unat (bytes_to_transfer e)"
        using Cons.prems by (intro Cons.IH) (simp_all add: sg_total_def)
      then show ?thesis by auto
    qed
  qed simp
  have inside: "sg_inside offset es ?c"
    unfolding sg_inside_def
  proof
    fix e assume e: "e \<in> set es"
    have sg: "sg_total es \<le> length (drop dinbuf data)" using assms(3) by simp
    obtain ys where ys: "(unat (sg_offset e + offset), ys) \<in> set ?segs" "length ys = unat (bytes_to_transfer e)"
      using seg [OF e sg] by blast
    have "ys \<noteq> []" using ys(2) assms(6) e by (auto simp: unat_eq_0)
    then show "unat (sg_offset e + offset) + unat (bytes_to_transfer e) \<le> length ?c"
      using put_segments_inside [OF ys(1), of c] ys(2) by simp
  qed
  have o: "object_file ?osd1 pid oid path ?c" using assms(1) by (rule object_file_replaced)
  have g: "sg_gather offset es ?c = take (sg_total es) (drop dinbuf data)"
    using assms(3,5) by (intro sg_gather_written) simp_all
  obtain m' where m': "buf_put m outdata (sg_gather offset es ?c) = Some m'"
    "sgl_read ?osd1 pid oid len offset es m outdata used sense = Some (OSD_OK, (m', of_nat (sg_total es)), sense,
      ?osd1\<lparr>ccap := fill_ccap None USEROBJECT pid oid 0\<rparr>)"
    using sgl_read_ok [OF o assms(2) inside assms(7,4) eq_refl [OF assms(8)]] by blast
  have "of_nat (sg_total es) = len" by (simp flip: assms(8))
  moreover have "buf_get m' outdata (sg_total es) = Some (take (sg_total es) (drop dinbuf data))"
    using mem.get_put [OF m'(1)] assms(3) unfolding g by simp
  ultimately show ?thesis
    using sgl_write_ok [OF assms(1-4), of len sense] m'(2)
    by (intro exI [of _ ?osd1] exI [of _ m']) (simp add: file_replaced_def)
qed

theorem sgl_write_then_read_witness:
  "\<exists>osd1 m' osd2. sgl_write (sample_device [] []) 0x10000 0x10001 3 4 [1, 2, 3] 0
      [\<lparr>sg_offset = 9, bytes_to_transfer = 2\<rparr>, \<lparr>sg_offset = 2, bytes_to_transfer = 1\<rparr>] [] = Some (OSD_OK, [], osd1) \<and>
    sgl_read osd1 0x10000 0x10001 3 4
      [\<lparr>sg_offset = 9, bytes_to_transfer = 2\<rparr>, \<lparr>sg_offset = 2, bytes_to_transfer = 1\<rparr>] [0, 0, 0, 0] 1 0 []
      = Some (OSD_OK, (m', 3), [], osd2) \<and> buf_get m' (Suc 0) 3 = Some [1, 2, 3]"
proof -
  let ?es = "[\<lparr>sg_offset = 9, bytes_to_transfer = 2\<rparr>, \<lparr>sg_offset = 2, bytes_to_transfer = 1\<rparr>] :: sg_list_entry list"
  have t: "sg_total ?es = 3" by (simp add: sg_total_def)
  have a: "sorted_wrt apart (sg_segments 4 ?es (drop 0 [1, 2, 3]))" by (simp add: apart_def)
  show ?thesis
    using sgl_write_then_read [OF sample_object, of 4 ?es 0 "[1, 2, 3]" 1 "[0, 0, 0, 0]" 3 "[]" "[]" 0] a t
    by (simp add: sg_ok_def rw_max_def) blast
qed




lemma osd_read_map_cases:
  assumes f: "object_file osd pid oid path c" and al: "24 \<le> alloc_len" "outdata + unat alloc_len \<le> length m"
    and off: "unat offset \<le> length c" and c: "length c < 2 ^ 32"
  defines "n \<equiv> 8 + 16 * descriptors (length c - unat offset)"
  shows "if outdata + n \<le> length m
    then \<exists>m'. osd_read_map osd pid oid alloc_len offset WRITTEN_DATA m outdata used sense
      = Some (OSD_OK, (m', of_nat n), sense, osd) \<and> length m' = length m
    else osd_read_map osd pid oid alloc_len offset WRITTEN_DATA m outdata used sense = None"
proof -
  let ?sz = "of_nat (length c) - offset :: u64"
  obtain m0 where m0: "buf_zero m outdata (unat alloc_len) = Some m0" "length m0 = length m"
    using mem.put_some [of outdata "replicate (unat alloc_len) 0" m] al(2) unfolding buf_zero_def by auto
  have cc: "unat (of_nat (length c) :: u64) = length c" using c by (simp add: unsigned_of_nat take_bit_nat_eq_self)
  have sz: "unat ?sz = length c - unat offset" using off cc by (simp add: unat_sub word_le_nat_alt)
  have le: "\<not> offset > of_nat (length c)" using off cc by (simp add: word_less_nat_alt)
  have "(24 :: nat) \<le> unat alloc_len" using al(1) by (simp add: word_le_nat_alt)
  then have al': "\<not> alloc_len = 0" "\<not> alloc_len < 24" "outdata + 8 \<le> length m"
    using al by (auto simp: not_less)
  let ?r = "read_map_loop WRITTEN_DATA ?sz 8 (outdata + 8) 0 m0"
  have run: "osd_read_map osd pid oid alloc_len offset WRITTEN_DATA m outdata used sense = do {
      (m, k) \<leftarrow> ?r;
      m \<leftarrow> (if k * 16 > 0xffffffff then set_htonll m outdata 0xffffffff else set_htonll m outdata (k * 16));
      Some (OSD_OK, (m, 8 + k * 16), sense, osd) }"
    using f m0 le al' by (simp add: osd_read_map_def object_file_def fs_clean_calls)
  have spec: "case ?r of
       None \<Rightarrow> 0 < unat ?sz \<and> length m0 < outdata + 8 + 16 * descriptors (unat ?sz)
     | Some (m', k') \<Rightarrow> (unat ?sz = 0 \<or> outdata + 8 + 16 * descriptors (unat ?sz) \<le> length m0) \<and>
         length m' = length m0 \<and> k' = 0 + of_nat (descriptors (unat ?sz))"
    by (rule read_map_loop_spec)
  show ?thesis
  proof (cases ?r)
    case None
    then show ?thesis using spec sz m0 unfolding n_def run by simp
  next
    case (Some r)
    obtain m' k where r: "r = (m', k)" by (cases r)
    have s: "unat ?sz = 0 \<or> outdata + n \<le> length m" "length m' = length m" "8 + k * 16 = of_nat n"
      using spec sz m0 unfolding Some r n_def by (simp_all add: add.assoc)
    have "outdata + n \<le> length m" using s(1) al'(3) sz unfolding n_def by (auto simp: descriptors_def)
    moreover obtain m2 where "(if k * 16 > 0xffffffff then set_htonll m' outdata 0xffffffff
        else set_htonll m' outdata (k * 16)) = Some m2" "length m2 = length m"
      using ntohll.set_obtain [of outdata m' "0xffffffff"] ntohll.set_obtain [of outdata m' "k * 16"] al'(3) s(2)
      by (metis (full_types))
    ultimately show ?thesis unfolding run Some r using s(3) by simp
  qed
qed

text \<open>
  C37. Mapping an object: the command needs 8 bytes and 16 for every four bytes of data after the
  offset, whatever the allocation length says. It answers with that length when the memory behind
  the buffer pointer is as large, and writes outside of it otherwise.
\<close>

theorem read_map_overrun:
  assumes "object_file osd pid oid path c" and "24 \<le> alloc_len" and "outdata + unat alloc_len = length m"
    and "unat offset \<le> length c" and "length c < 2 ^ 32"
  shows "if 8 + 16 * descriptors (length c - unat offset) \<le> unat alloc_len
    then \<exists>m'. osd_read_map osd pid oid alloc_len offset WRITTEN_DATA m outdata used sense
      = Some (OSD_OK, (m', of_nat (8 + 16 * descriptors (length c - unat offset))), sense, osd) \<and> length m' = length m
    else osd_read_map osd pid oid alloc_len offset WRITTEN_DATA m outdata used sense = None"
  using osd_read_map_cases [OF assms(1,2) eq_refl [OF assms(3)] assms(4,5), of used sense]
  unfolding assms(3) [symmetric] by simp

theorem read_map_overrun_witness:
  "(\<exists>m'. osd_read_map (sample_device [] [1, 2, 3, 4]) 0x10000 0x10001 24 0 WRITTEN_DATA (replicate 24 0) 0 0 []
      = Some (OSD_OK, (m', 24), [], sample_device [] [1, 2, 3, 4]) \<and> length m' = 24) \<and>
   osd_read_map (sample_device [] [1, 2, 3, 4, 5]) 0x10000 0x10001 24 0 WRITTEN_DATA (replicate 24 0) 0 0 [] = None"
proof -
  note t = read_map_overrun [OF sample_object, where alloc_len = 24 and outdata = 0 and m = "replicate 24 0"
      and offset = 0 and used = 0 and sense = "[]"]
  show ?thesis
    using t [where c = "[1, 2, 3, 4]"] t [where c = "[1, 2, 3, 4, 5]"] by (simp add: descriptors_def)
qed

section \<open>Descriptors\<close>

lemma fs_next_fds: "io_next f = (ev, f') \<Longrightarrow> open_fds f' = open_fds f"
  by (auto simp: io_next_def split: list.splits)

lemma fs_call_fds:
  "fs_open w p f = (b, f') \<Longrightarrow> open_fds f' = open_fds f + (if b then 1 else 0)"
  "fs_close f = (b, f') \<Longrightarrow> open_fds f' = open_fds f - 1"
  "fs_pread p len off f = (r, f') \<Longrightarrow> open_fds f' = open_fds f"
  by (auto simp: fs_open_def fs_close_def fs_pread_def Let_def split: prod.splits if_splits option.splits node.splits
      dest!: fs_next_fds)

lemma with_sense_post:
  "(\<And>ret s. P (ret, s, osd)) \<Longrightarrow> post P (with_sense osd sense key code pid oid)"
  unfolding with_sense_def by (intro post_code) simp

lemma with_out_post: "post (\<lambda>(ret, s, osd). P (ret, (m, used), s, osd)) r \<Longrightarrow> post P (with_out m used r)"
  by (cases r) (auto simp: with_out_def)

lemma error_answers_post:
  assumes "\<And>ret s. P (ret, s, osd)"
  shows "post P (out_cdb_err osd sense pid oid)" "post P (out_hw_err osd sense pid oid)"
  unfolding out_cdb_err_def out_hw_err_def by (rule with_sense_post, rule assms)+

text \<open>
  C25. A contiguous read closes the descriptor it opened, whatever the calls of the system answer.
\<close>

theorem read_closes_file:
  "post (\<lambda>(ret, out, s, osd'). open_fds (files osd') = open_fds (files osd))
    (contig_read osd pid oid len offset m outdata used sense)"
  unfolding contig_read_def Let_def
  by (intro post_code with_out_post error_answers_post) (auto dest!: fs_call_fds)

text \<open>
  When the device refuses the data after the object was opened, writing and clearing the same
  range both answer with a hardware error and change no file, but writing leaves its descriptor
  open, while clearing closes it.
\<close>

lemma failed_write_leaks_descriptor:
  assumes "user_object pid oid" and "get_dfile_name (root osd) pid oid = Some path"
    and "nodes (files osd) path = Some (RegFile c)" and "io_evs (files osd) = [IoOk, IoFail]"
    and "dinbuf + unat len \<le> length data" and "alloc_ok (files osd) (unat len)" and "252 \<le> length sense"
  shows "\<exists>s osd1 osd2. contig_write osd pid oid len offset data dinbuf sense = Some (40, s, osd1) \<and>
    osd_clear osd pid oid len offset sense = Some (40, s, osd2) \<and>
    nodes (files osd1) = nodes (files osd) \<and> nodes (files osd2) = nodes (files osd) \<and>
    open_fds (files osd1) = open_fds (files osd) + 1 \<and> open_fds (files osd2) = open_fds (files osd)"
proof -
  obtain bs where b: "buf_get data dinbuf (unat len) = Some bs" using assms(5) by (auto simp: buf_get_def)
  have z: "buf_get (replicate (unat len) 0) 0 (unat len) = Some (replicate (unat len) 0)" by (simp add: buf_get_def)
  obtain s where s: "sense_build_sdd sense OSD_SSK_HARDWARE_ERROR OSD_ASC_INVALID_FIELD_IN_CDB pid oid = Some (40, s)"
    by (rule sense_build_sdd_ok [OF assms(7)])
  have o: "fs_open True path (files osd) = (True, (files osd)\<lparr>io_evs := [IoFail], open_fds := open_fds (files osd) + 1\<rparr>)"
    using assms(3,4) by (simp add: fs_open_def io_next_def is_dir_def)
  have w: "fs_pwrite path d offset ((files osd)\<lparr>io_evs := [IoFail], open_fds := k\<rparr>)
      = (- 1, (files osd)\<lparr>io_evs := [], open_fds := k\<rparr>)" for d k
    by (simp add: fs_pwrite_def io_next_def)
  have "contig_write osd pid oid len offset data dinbuf sense
      = Some (40, s, osd\<lparr>files := (files osd)\<lparr>io_evs := [], open_fds := open_fds (files osd) + 1\<rparr>\<rparr>)"
    using assms(1,2) o w b s by (simp add: contig_write_def pwrite_from_def out_hw_err_def with_sense_def)
  moreover have "osd_clear osd pid oid len offset sense
      = Some (40, s, osd\<lparr>files := (files osd)\<lparr>io_evs := [], open_fds := open_fds (files osd)\<rparr>\<rparr>)"
    using assms(1,2,6) o w z s
    by (simp add: osd_clear_def pwrite_from_def out_hw_err_def with_sense_def close_after_def fs_close_def io_next_def)
  ultimately show ?thesis by simp
qed

lemma failed_write_leaks_descriptor_witness:
  "\<exists>s osd1 osd2. contig_write (sample_device [IoOk, IoFail] []) 0x10000 0x10001 1 0 [7] 0 (replicate 252 0)
      = Some (40, s, osd1) \<and>
    osd_clear (sample_device [IoOk, IoFail] []) 0x10000 0x10001 1 0 (replicate 252 0) = Some (40, s, osd2) \<and>
    nodes (files osd1) = nodes (files (sample_device [IoOk, IoFail] [])) \<and>
    nodes (files osd2) = nodes (files (sample_device [IoOk, IoFail] [])) \<and>
    open_fds (files osd1) = open_fds (files (sample_device [IoOk, IoFail] [])) + 1 \<and>
    open_fds (files osd2) = open_fds (files (sample_device [IoOk, IoFail] []))"
proof -
  have "user_object 0x10000 0x10001" "get_dfile_name (root (sample_device [IoOk, IoFail] [])) 0x10000 0x10001 = Some sample_path"
    "nodes (files (sample_device [IoOk, IoFail] [])) sample_path = Some (RegFile [])"
    "io_evs (files (sample_device [IoOk, IoFail] [])) = [IoOk, IoFail]" "alloc_ok (files (sample_device [IoOk, IoFail] [])) (unat (1 :: u64))"
    using sample_object [of "[]"] by (simp_all add: object_file_def sample_device_def)
  then show ?thesis
    by (intro failed_write_leaks_descriptor) simp_all
qed

end
