(* ===== verification/Osd_Atomics.thy ===== *)
theory Osd_Atomics
  imports Osd_Attr Osd_Objects Osd_Transfers
begin

text \<open>
  What the attribute commands do when the database does not fail: the atomic operations as
  operations on a register, setting an attribute and getting it back, and the places where the
  attribute pages answer with something else than the attribute.
\<close>

section \<open>A database that is ready\<close>

definition ready :: "db_context \<Rightarrow> bool" where
  "ready d \<longleftrightarrow> db_good d \<and> db_clean d \<and> engine_ok d \<and> tables_ok (tabs d)"

lemma ready_binds: "ready d \<Longrightarrow> (\<forall>b \<in> set (bind_evs d). b) \<and> EvError \<notin> set (step_evs d)"
  by (auto simp: ready_def db_clean_def)

lemma ready_frame: "ready d \<Longrightarrow> db_frame d d' \<Longrightarrow> db_good d' \<Longrightarrow> tables_ok (tabs d') \<Longrightarrow> ready d'"
  by (simp add: ready_def db_frame_def db_clean_def engine_ok_def) blast

text \<open>The rows of one attribute: none or one.\<close>

definition attr_at :: "tables \<Rightarrow> u64 \<Rightarrow> u64 \<Rightarrow> u32 \<Rightarrow> u32 \<Rightarrow> bytes option option" where
  "attr_at t pid oid page number =
     (case attr_rows pid oid (\<lambda>r. a_page r = sint page \<and> a_number r = sint number) t of
        [] \<Rightarrow> None | r # _ \<Rightarrow> Some (a_value r))"

lemma distinct_filter_key:
  "distinct (map k rows) \<Longrightarrow> length (filter (\<lambda>r. k r = x) rows) \<le> 1"
  by (induction rows) (auto simp: filter_empty_conv image_iff)

lemma attr_rows_unique:
  assumes "tables_ok t"
  shows "length (attr_rows pid oid (\<lambda>r. a_page r = sint page \<and> a_number r = sint number) t) \<le> 1"
proof -
  have "(\<lambda>r. a_pid r = sint pid \<and> a_oid r = sint oid \<and> a_page r = sint page \<and> a_number r = sint number) =
      (\<lambda>r. attr_key r = (sint pid, sint oid, sint page, sint number))"
    by (simp add: attr_key_def fun_eq_iff)
  then show ?thesis
    using assms distinct_filter_key [of attr_key "t_attr t" "(sint pid, sint oid, sint page, sint number)"]
    by (simp add: attr_rows_def tables_ok_def)
qed

lemma attr_at_cases:
  assumes "tables_ok t"
  shows "attr_at t pid oid page number = None \<and> attr_rows pid oid (\<lambda>r. a_page r = sint page \<and> a_number r = sint number) t = [] \<or>
    (\<exists>r. attr_at t pid oid page number = Some (a_value r) \<and>
      attr_rows pid oid (\<lambda>r. a_page r = sint page \<and> a_number r = sint number) t = [r])"
  using attr_rows_unique [OF assms, of pid oid page number]
  by (cases "attr_rows pid oid (\<lambda>r. a_page r = sint page \<and> a_number r = sint number) t")
    (auto simp: attr_at_def Suc_le_eq)

text \<open>Reading a value.\<close>

lemma same_outside_empty:
  assumes "same_outside 0 0 m m'"
  shows "m' = m"
proof -
  have "buf_get m' 0 (length m) = buf_get m 0 (length m)" "length m' = length m" using assms by (simp_all add: same_outside_def)
  then show ?thesis by (simp add: buf_get_def)
qed

lemma get_val_missing:
  assumes "ready d" and "attr_at (tabs d) pid oid page number = None"
  shows "\<exists>d'. attr_get_val d pid oid page number outlen outdata (m, u) = Some (- ENOENT, (m, 0), d') \<and>
    db_good d' \<and> db_frame d d' \<and> tabs d' = tabs d"
proof -
  have ok: "tables_ok (tabs d)" "db_good d" "engine_ok d" using assms(1) by (simp_all add: ready_def)
  let ?q = "attr_rows pid oid (\<lambda>r. a_page r = sint page \<and> a_number r = sint number)"
  have q: "?q (tabs d) = []" using attr_at_cases [OF ok(1), of pid oid page number] assms(2) by auto
  have sc: "scan_attrs d (?q (tabs d)) = []"
  proof -
    have "mset (scan_attrs d []) = mset []" using ok(3) unfolding engine_ok_def by blast
    then show ?thesis unfolding q by simp
  qed
  let ?R = "\<lambda>(m1 :: bytes) (m' :: bytes) (len :: u32) found inval. \<not> inval \<and> len = 0 \<and> \<not> found"
  have "\<exists>ret m' used d'. run_attrs ?q attr_gather_val outlen outdata (m, u) d = Some (ret, (m', used), d') \<and>
    db_good d' \<and> db_frame d d' \<and> tabs d' = tabs d \<and> same_outside 0 0 m m' \<and>
    (ret = OSD_ERROR \<and> EvError \<in> set (step_evs d) \<or>
     (\<exists>m1 len found inval. length m1 = length m \<and> ?R m1 m' len found inval \<and>
       (ret, used) = (if inval then (- EINVAL, 0) else if found then (OSD_OK, len) else (- ENOENT, len))))"
  proof (rule run_attrs_rule [where R = ?R and lo = 0 and hi = 0, OF ok(2)])
    show "\<forall>b \<in> set (bind_evs d). b" using ready_binds [OF assms(1)] by (rule conjunct1)
    fix m1 :: bytes and evs
    obtain code evs' where "attr_rtrvl_loop attr_gather_val [] evs m1 outdata outlen 0 False = Some (code, evs', m1, 0, False, False)"
      "attr_end evs evs' code True"
      using attr_loop_no_rows by blast
    then show "\<exists>code evs' m' len found inval.
        attr_rtrvl_loop attr_gather_val (scan_attrs d (?q (tabs d))) evs m1 outdata outlen 0 False
          = Some (code, evs', m', len, found, inval) \<and> same_outside 0 0 m1 m' \<and>
        attr_end evs evs' code (?R m1 m' len found inval) \<and> (inval \<longrightarrow> code = SQLITE_ROW)"
      unfolding sc
      by (intro exI [of _ code] exI [of _ evs'] exI [of _ m1] exI [of _ 0] exI [of _ False] exI [of _ False]) simp
  qed
  then obtain ret m' used d' where r: "run_attrs ?q attr_gather_val outlen outdata (m, u) d = Some (ret, (m', used), d')"
    "db_good d'" "db_frame d d'" "tabs d' = tabs d" "same_outside 0 0 m m'" and
    c: "ret = OSD_ERROR \<and> EvError \<in> set (step_evs d) \<or>
      (\<exists>m1 len found inval. length m1 = length m \<and> ?R m1 m' len found inval \<and>
       (ret, used) = (if inval then (- EINVAL, 0) else if found then (OSD_OK, len) else (- ENOENT, len)))"
    by (elim exE conjE)
  have "ret = - ENOENT \<and> used = 0" using c conjunct2 [OF ready_binds [OF assms(1)]] by auto
  then show ?thesis
    using r same_outside_empty [OF r(5)] ok(2) by (simp add: attr_get_val_def)
qed

lemma get_val_present:
  assumes "ready d" and "attr_at (tabs d) pid oid page number = Some (Some v)" and "v \<noteq> []"
    and "length v \<le> 65535" and "length v \<le> unat outlen" and "outdata + unat outlen \<le> length m" and "unat outlen < 2 ^ 32"
  shows "\<exists>m' used d'. attr_get_val d pid oid page number outlen outdata (m, u) = Some (OSD_OK, (m', used), d') \<and>
    unat used = length v \<and> buf_get m' outdata (length v) = Some v \<and> length m' = length m \<and>
    db_good d' \<and> db_frame d d' \<and> tabs d' = tabs d"
proof -
  have ok: "tables_ok (tabs d)" "db_good d" "engine_ok d" using assms(1) by (simp_all add: ready_def)
  let ?q = "attr_rows pid oid (\<lambda>r. a_page r = sint page \<and> a_number r = sint number)"
  obtain r where r: "?q (tabs d) = [r]" "a_value r = Some v"
    using attr_at_cases [OF ok(1), of pid oid page number] assms(2) by auto
  note b = ready_binds [OF assms(1)]
  show ?thesis
    using run_attrs_one_value [where query = ?q, OF ok(2) conjunct1 [OF b] ok(3) assms(6,7) r assms(4,5), of u] assms(3) conjunct2 [OF b] ok(2)
    by (auto simp: attr_get_val_def same_outside_def)
qed

text \<open>Storing a value.\<close>

lemma tables_ok_attr:
  assumes "tables_ok t"
  shows "tables_ok (t\<lparr>t_attr := replace_row attr_key r (t_attr t)\<rparr>)"
  using assms replace_row_distinct [of attr_key "t_attr t" r] by (simp add: tables_ok_def)

lemma attr_at_after_set:
  "attr_at (t\<lparr>t_attr := replace_row attr_key (attr_row_of pid oid page number v) (t_attr t)\<rparr>) pid oid page number = Some v"
  unfolding attr_at_def attr_rows_after_set by (simp add: attr_row_of_def)

lemma attr_at_other:
  assumes "(pid', oid', page', number') \<noteq> (pid, oid, page, number)"
  shows "attr_at (t\<lparr>t_attr := replace_row attr_key (attr_row_of pid oid page number v) (t_attr t)\<rparr>) pid' oid' page' number' =
    attr_at t pid' oid' page' number'"
proof -
  let ?P = "\<lambda>r. a_pid r = sint pid' \<and> a_oid r = sint oid' \<and> a_page r = sint page' \<and> a_number r = sint number'"
  let ?k = "attr_key (attr_row_of pid oid page number v)"
  have "filter ?P (filter (\<lambda>x. attr_key x \<noteq> ?k) rows) = filter ?P rows" for rows
    using assms by (induction rows) (auto simp: attr_key_def attr_row_of_def)
  moreover have "\<not> ?P (attr_row_of pid oid page number v)" using assms by (auto simp: attr_row_of_def)
  ultimately have "attr_rows pid' oid' (\<lambda>r. a_page r = sint page' \<and> a_number r = sint number')
      (t\<lparr>t_attr := replace_row attr_key (attr_row_of pid oid page number v) (t_attr t)\<rparr>) =
      attr_rows pid' oid' (\<lambda>r. a_page r = sint page' \<and> a_number r = sint number') t"
    unfolding attr_rows_def replace_row_def tables.simps filter_append by simp
  then show ?thesis by (simp add: attr_at_def)
qed

lemma set_raw_ready:
  assumes "ready d" and "length v = unat len"
  shows "\<exists>d'. attr_set_attr_raw d pid oid page number (Some v) len = Some (OSD_OK, d') \<and> ready d' \<and> db_frame d d' \<and>
    tabs d' = (tabs d)\<lparr>t_attr := replace_row attr_key (attr_row_of pid oid page number (Some v)) (t_attr (tabs d))\<rparr>"
proof -
  have ok: "tables_ok (tabs d)" "db_good d" "db_clean d" using assms(1) by (simp_all add: ready_def)
  let ?eff = "\<lambda>t. Some (t\<lparr>t_attr := replace_row attr_key (attr_row_of pid oid page number (Some v)) (t_attr t)\<rparr>)"
  obtain d' where d: "run_dms ?eff d = Some (OSD_OK, d')" "db_good d'" "db_frame d d'" "?eff (tabs d) = Some (tabs d')"
    using run_dms_ok [OF ok(2), of ?eff] ok(3) by auto
  have "blob_of (Some v) len = Some (Some v)" using assms(2) by (simp add: blob_of_def buf_get_def)
  then have "attr_set_attr_raw d pid oid page number (Some v) len = Some (OSD_OK, d')"
    using d(1) ok(2) by (simp add: attr_set_attr_raw_def)
  moreover have "ready d'"
    using ready_frame [OF assms(1) d(3,2)] d(4) tables_ok_attr [OF ok(1)] by (metis option.inject)
  ultimately show ?thesis using d(3,4) by auto
qed

section \<open>The atomics as operations on a register\<close>

lemma host_ll_length [simp]: "length (host_ll v) = 8"
  by (simp add: host_ll_def store_be64_def store_be32_def)

lemma ll_of_host_ll [simp]: "ll_of_host (host_ll v) = Some v"
proof -
  have "rev (take 8 (host_ll v)) = store_be64 v" by (simp add: host_ll_def store_be64_def store_be32_def)
  moreover have "length (store_be64 v) = 8" by (simp add: store_be64_def store_be32_def)
  then have "get_ntohll (store_be64 v) 0 = Some v"
    using ntohll.getv_eq [of "store_be64 v" 0] load_store_be64 [of v] by (simp add: buf_get_def)
  ultimately show ?thesis by (simp add: ll_of_host_def)
qed

text \<open>The abstract register: the stored number, 0 when there is none.\<close>

definition reg :: "tables \<Rightarrow> u64 \<Rightarrow> u64 \<Rightarrow> u32 \<Rightarrow> u64" where
  "reg t pid oid number = (case attr_at t pid oid USER_ATOMICS_PG number of
     Some (Some v) \<Rightarrow> the (ll_of_host v) | _ \<Rightarrow> 0)"

definition reg_ok :: "tables \<Rightarrow> u64 \<Rightarrow> u64 \<Rightarrow> u32 \<Rightarrow> bool" where
  "reg_ok t pid oid number \<longleftrightarrow> (case attr_at t pid oid USER_ATOMICS_PG number of
     Some (Some v) \<Rightarrow> length v = 8 | Some None \<Rightarrow> False | None \<Rightarrow> True)"

text \<open>Nothing but one attribute differs.\<close>

definition only_attr :: "tables \<Rightarrow> tables \<Rightarrow> u64 \<Rightarrow> u64 \<Rightarrow> u32 \<Rightarrow> u32 \<Rightarrow> bool" where
  "only_attr t t' pid oid page number \<longleftrightarrow> t_obj t' = t_obj t \<and> t_coll t' = t_coll t \<and>
     (\<forall>p q g n. (p, q, g, n) \<noteq> (pid, oid, page, number) \<longrightarrow> attr_at t' p q g n = attr_at t p q g n)"

lemma only_attr_refl [simp]: "only_attr t t pid oid page number"
  by (simp add: only_attr_def)

lemma only_attr_trans:
  "only_attr a b pid oid page number \<Longrightarrow> only_attr b c pid oid page number \<Longrightarrow> only_attr a c pid oid page number"
  by (simp add: only_attr_def)

lemma only_attr_set:
  "only_attr t (t\<lparr>t_attr := replace_row attr_key (attr_row_of pid oid page number v) (t_attr t)\<rparr>) pid oid page number"
  using attr_at_other by (simp add: only_attr_def)

definition stored_reg :: "osd_device \<Rightarrow> osd_device \<Rightarrow> u64 \<Rightarrow> u64 \<Rightarrow> u32 \<Rightarrow> u64 \<Rightarrow> bool" where
  "stored_reg osd osd' pid oid number v \<longleftrightarrow> osd' = osd\<lparr>dbc := dbc osd'\<rparr> \<and> ready (dbc osd') \<and>
     only_attr (tabs (dbc osd)) (tabs (dbc osd')) pid oid USER_ATOMICS_PG number \<and>
     reg (tabs (dbc osd')) pid oid number = v \<and> reg_ok (tabs (dbc osd')) pid oid number"

lemma set_reg:
  assumes "ready (dbc osd)"
  shows "\<exists>osd'. attr_set_attr osd pid oid USER_ATOMICS_PG number (Some (host_ll v)) 8 = Some (OSD_OK, osd') \<and>
    stored_reg osd osd' pid oid number v"
proof -
  obtain d where d: "attr_set_attr_raw (dbc osd) pid oid USER_ATOMICS_PG number (Some (host_ll v)) 8 = Some (OSD_OK, d)"
    "ready d" "tabs d = (tabs (dbc osd))\<lparr>t_attr := replace_row attr_key
      (attr_row_of pid oid USER_ATOMICS_PG number (Some (host_ll v))) (t_attr (tabs (dbc osd)))\<rparr>"
    using set_raw_ready [OF assms, of "host_ll v" 8 pid oid USER_ATOMICS_PG number] by auto
  have pg: "USER_ATOMICS_PG \<noteq> USER_INFO_PG" "USER_ATOMICS_PG \<noteq> ROOT_INFO_PG" by (simp_all add: osd_consts)
  have "attr_set_attr osd pid oid USER_ATOMICS_PG number (Some (host_ll v)) 8 = Some (OSD_OK, osd\<lparr>dbc := d\<rparr>)"
    using d(1) pg by (simp add: attr_set_attr_def with_dbc_def)
  moreover have "stored_reg osd (osd\<lparr>dbc := d\<rparr>) pid oid number v"
    using d(2,3) only_attr_set by (simp add: stored_reg_def reg_def reg_ok_def attr_at_after_set)
  ultimately show ?thesis by blast
qed

text \<open>The page identifications do not touch the registers, and both registers start at 0.\<close>

lemma set_page_id:
  assumes "ready (dbc osd)" and "page \<in> {USER_TMSTMP_PG, USER_ATOMICS_PG}" and "length v = 40"
  shows "\<exists>d. attr_set_attr osd pid oid page 0 (Some v) 40 = Some (OSD_OK, osd\<lparr>dbc := d\<rparr>) \<and> ready d"
proof -
  have "page \<noteq> USER_INFO_PG" "page \<noteq> ROOT_INFO_PG" using assms(2) by (auto simp: osd_consts)
  then show ?thesis
    using set_raw_ready [OF assms(1), of v 40 pid oid page 0] assms(3) by (auto simp: attr_set_attr_def with_dbc_def)
qed

lemma init_attr_registers:
  assumes "ready (dbc osd)"
  shows "\<exists>osd'. osd_init_attr osd pid oid = Some (OSD_OK, osd') \<and> ready (dbc osd') \<and>
    reg (tabs (dbc osd')) pid oid UAP_CAS = 0 \<and> reg (tabs (dbc osd')) pid oid UAP_FA = 0"
proof -
  have len: "length user_tmstmp_page = 40" "length user_atomic_page = 40"
    by (simp_all add: user_tmstmp_page_def user_atomic_page_def page_id_def)
  obtain d1 where 1: "attr_set_attr osd pid oid USER_TMSTMP_PG 0 (Some user_tmstmp_page) 40 = Some (OSD_OK, osd\<lparr>dbc := d1\<rparr>)" "ready d1"
    using set_page_id [OF assms, of USER_TMSTMP_PG] len by blast
  obtain d2 where 2: "attr_set_attr (osd\<lparr>dbc := d1\<rparr>) pid oid USER_ATOMICS_PG 0 (Some user_atomic_page) 40 = Some (OSD_OK, osd\<lparr>dbc := d2\<rparr>)" "ready d2"
    using set_page_id [of "osd\<lparr>dbc := d1\<rparr>" USER_ATOMICS_PG user_atomic_page pid oid] 1(2) len by auto
  obtain o3 where 3: "attr_set_attr (osd\<lparr>dbc := d2\<rparr>) pid oid USER_ATOMICS_PG UAP_CAS (Some (host_ll 0)) 8 = Some (OSD_OK, o3)"
    "stored_reg (osd\<lparr>dbc := d2\<rparr>) o3 pid oid UAP_CAS 0"
    using set_reg [of "osd\<lparr>dbc := d2\<rparr>" pid oid UAP_CAS 0] 2(2) by auto
  have r3: "ready (dbc o3)" using 3(2) by (simp add: stored_reg_def)
  obtain o4 where 4: "attr_set_attr o3 pid oid USER_ATOMICS_PG UAP_FA (Some (host_ll 0)) 8 = Some (OSD_OK, o4)"
    "stored_reg o3 o4 pid oid UAP_FA 0"
    using set_reg [OF r3, of pid oid UAP_FA 0] by auto
  have "attr_at (tabs (dbc o4)) pid oid USER_ATOMICS_PG UAP_CAS = attr_at (tabs (dbc o3)) pid oid USER_ATOMICS_PG UAP_CAS"
    using 4(2) by (auto simp: stored_reg_def only_attr_def osd_consts)
  then have "reg (tabs (dbc o4)) pid oid UAP_CAS = 0" using 3(2) by (simp add: stored_reg_def reg_def)
  then show ?thesis using 1(1) 2(1) 3(1) 4 by (simp add: osd_init_attr_def stored_reg_def OSD_OK_def)
qed

lemma atomic_value_ready:
  assumes "ready (dbc osd)" and "reg_ok (tabs (dbc osd)) pid oid number" and "length host = 8"
  shows "\<exists>osd'. atomic_value host osd pid oid number = Some (True, reg (tabs (dbc osd)) pid oid number, osd') \<and>
    stored_reg osd osd' pid oid number (reg (tabs (dbc osd)) pid oid number)"
proof (cases "attr_at (tabs (dbc osd)) pid oid USER_ATOMICS_PG number")
  case None
  obtain d where d: "attr_get_val (dbc osd) pid oid USER_ATOMICS_PG number 8 0 (host, 0) = Some (- ENOENT, (host, 0), d)"
    "db_good d" "db_frame (dbc osd) d" "tabs d = tabs (dbc osd)"
    using get_val_missing [OF assms(1) None] by blast
  have rd: "ready d" using ready_frame [OF assms(1) d(3,2)] d(4) assms(1) by (simp add: ready_def)
  obtain osd' where s: "attr_set_attr (osd\<lparr>dbc := d\<rparr>) pid oid USER_ATOMICS_PG number (Some (host_ll 0)) 8 = Some (OSD_OK, osd')"
    "stored_reg (osd\<lparr>dbc := d\<rparr>) osd' pid oid number 0"
    using set_reg [of "osd\<lparr>dbc := d\<rparr>" pid oid number 0] rd by auto
  obtain h where h: "ll_of_host host = Some h" using assms(3) ntohll.getv_eq [of "rev host" 0] by (auto simp: ll_of_host_def buf_get_def)
  have "reg (tabs (dbc osd)) pid oid number = 0" by (simp add: reg_def None)
  moreover have "atomic_value host osd pid oid number = Some (True, 0, osd')"
    using d(1) h s(1) by (simp add: atomic_value_def osd_consts)
  moreover have "stored_reg osd osd' pid oid number 0" using s(2) d(4) by (simp add: stored_reg_def)
  ultimately show ?thesis by simp
next
  case (Some w)
  then obtain v where v: "w = Some v" "length v = 8" using assms(2) by (auto simp: reg_ok_def split: option.splits)
  obtain m' used d where d: "attr_get_val (dbc osd) pid oid USER_ATOMICS_PG number 8 0 (host, 0) = Some (OSD_OK, (m', used), d)"
    "buf_get m' 0 8 = Some v" "db_good d" "db_frame (dbc osd) d" "tabs d = tabs (dbc osd)"
    using get_val_present [OF assms(1), of pid oid USER_ATOMICS_PG number v 8 0 host 0] Some v assms(3)
    by (cases "v = []") (simp_all, metis)
  have rd: "ready d" using ready_frame [OF assms(1) d(4,3)] d(5) assms(1) by (simp add: ready_def)
  have m: "take 8 m' = v" using d(2) by (simp add: buf_get_def split: if_splits)
  obtain h where h: "ll_of_host v = Some h" using v(2) ntohll.getv_eq [of "rev v" 0] by (auto simp: ll_of_host_def buf_get_def)
  have r: "reg (tabs (dbc osd)) pid oid number = h" by (simp add: reg_def Some v(1) h)
  have "ll_of_host m' = Some h" using h m v(2) by (simp add: ll_of_host_def)
  then have "atomic_value host osd pid oid number = Some (True, h, osd\<lparr>dbc := d\<rparr>)"
    using d(1) by (simp add: atomic_value_def osd_consts)
  then show ?thesis using r rd d(5) assms(2) by (auto simp: stored_reg_def)
qed

definition user_present :: "tables \<Rightarrow> u64 \<Rightarrow> u64 \<Rightarrow> bool" where
  "user_present t pid oid \<longleftrightarrow> pid \<ge> OBJECT_PID_LB \<and> oid \<ge> OBJECT_OID_LB \<and> obj_map t (okey pid oid) = Some (uint USEROBJECT)"

lemma ready_asked: "ready d \<Longrightarrow> asked d d' \<Longrightarrow> ready d'"
  using ready_frame [of d d'] by (simp add: asked_def ready_def)

lemma user_present_type:
  assumes "ready (dbc osd)" and "user_present (tabs (dbc osd)) pid oid"
  shows "\<exists>d. get_obj_type osd pid oid = Some (USEROBJECT, osd\<lparr>dbc := d\<rparr>) \<and> asked (dbc osd) d"
proof -
  have ok: "db_good (dbc osd)" "tables_ok (tabs (dbc osd))" "db_clean (dbc osd)" using assms(1) by (simp_all add: ready_def)
  have t: "(word_of_int (column_int (uint USEROBJECT)) :: u8) = USEROBJECT" by (simp add: osd_consts column_int_def)
  obtain d where d: "obj_get_type (dbc osd) pid oid = Some (0, USEROBJECT, d)" "asked (dbc osd) d"
    using obj_get_type_ok [OF ok(1,2), of pid oid] assms(2) ok(3) t by (auto simp: user_present_def asked_def)
  have "\<not> (pid = ROOT_PID \<and> oid = ROOT_OID)" "\<not> (pid \<ge> PARTITION_PID_LB \<and> oid = PARTITION_OID)"
    using assms(2) by (auto simp: user_present_def osd_consts)
  then show ?thesis using d assms(2) by (auto simp: get_obj_type_def user_present_def)
qed

lemma atomic_target_ready:
  assumes "ready (dbc osd)" and "user_present (tabs (dbc osd)) pid oid"
  shows "\<exists>d. atomic_target osd pid oid = Some (True, osd\<lparr>dbc := d\<rparr>) \<and> asked (dbc osd) d"
proof -
  have ok: "db_good (dbc osd)" "tables_ok (tabs (dbc osd))" "db_clean (dbc osd)" using assms(1) by (simp_all add: ready_def)
  obtain d where d: "obj_ispresent (dbc osd) pid oid = Some (0, 1, d)" "asked (dbc osd) d"
    using obj_ispresent_ok [OF ok(1,2), of pid oid] assms(2) ok(3) by (auto simp: user_present_def asked_def)
  have "ready d" "tabs d = tabs (dbc osd)" using ready_asked [OF assms(1) d(2)] d(2) by (simp_all add: asked_def)
  then obtain d' where "get_obj_type (osd\<lparr>dbc := d\<rparr>) pid oid = Some (USEROBJECT, osd\<lparr>dbc := d'\<rparr>)" "asked d d'"
    using user_present_type [of "osd\<lparr>dbc := d\<rparr>" pid oid] assms(2) by auto
  moreover have "asked (dbc osd) d'" using d(2) calculation(2) by (auto simp: asked_def intro: db_frame_trans)
  ultimately show ?thesis using d(1) by (auto simp: atomic_target_def)
qed

text \<open>The operations of the register: the answer and the new value.\<close>

definition cas_spec :: "u64 \<Rightarrow> u64 \<Rightarrow> u64 \<Rightarrow> u64 \<times> u64" where
  "cas_spec cmp swap r = (r, if r = cmp then swap else r)"

definition fa_spec :: "u64 \<Rightarrow> u64 \<Rightarrow> u64 \<times> u64" where
  "fa_spec add r = (r, r + add)"

definition performs :: "u64 \<times> u64 \<Rightarrow> osd_device \<Rightarrow> u64 \<Rightarrow> u64 \<Rightarrow> u32 \<Rightarrow> bytes \<Rightarrow> nat \<Rightarrow> bytes \<Rightarrow> out_answer option \<Rightarrow> bool" where
  "performs spec osd pid oid number m doutbuf sense r \<longleftrightarrow> (\<exists>m' osd'. r = Some (OSD_OK, (m', 8), sense, osd') \<and>
     get_ntohll m' doutbuf = Some (fst spec) \<and> length m' = length m \<and> stored_reg osd osd' pid oid number (snd spec))"

lemma stored_reg_trans:
  "stored_reg osd osd1 pid oid number v \<Longrightarrow> stored_reg osd1 osd2 pid oid number w \<Longrightarrow> stored_reg osd osd2 pid oid number w"
  unfolding stored_reg_def by (metis only_attr_trans osd_device.select_convs(2) osd_device.surjective osd_device.update_convs(2))

lemma stored_reg_asked:
  "asked (dbc osd) d \<Longrightarrow> stored_reg (osd\<lparr>dbc := d\<rparr>) osd' pid oid number v \<Longrightarrow> stored_reg osd osd' pid oid number v"
  by (simp add: stored_reg_def asked_def)

lemma cas_performs:
  assumes "ready (dbc osd)" and "user_present (tabs (dbc osd)) pid oid" and "reg_ok (tabs (dbc osd)) pid oid UAP_CAS"
    and "length host = 8" and "doutbuf + 8 \<le> length m"
  shows "performs (cas_spec cmp swap (reg (tabs (dbc osd)) pid oid UAP_CAS)) osd pid oid UAP_CAS m doutbuf sense
    (osd_cas host osd pid oid cmp swap m doutbuf used sense)"
proof -
  let ?r = "reg (tabs (dbc osd)) pid oid UAP_CAS"
  obtain d where d: "atomic_target osd pid oid = Some (True, osd\<lparr>dbc := d\<rparr>)" "asked (dbc osd) d"
    using atomic_target_ready [OF assms(1,2)] by blast
  have rd: "ready d" "tabs d = tabs (dbc osd)" using ready_asked [OF assms(1) d(2)] d(2) by (simp_all add: asked_def)
  obtain o1 where o1: "atomic_value host (osd\<lparr>dbc := d\<rparr>) pid oid UAP_CAS = Some (True, ?r, o1)"
    "stored_reg (osd\<lparr>dbc := d\<rparr>) o1 pid oid UAP_CAS ?r"
    using atomic_value_ready [of "osd\<lparr>dbc := d\<rparr>" pid oid UAP_CAS host] rd assms(3,4) by auto
  have s1: "stored_reg osd o1 pid oid UAP_CAS ?r" by (rule stored_reg_asked [OF d(2) o1(2)])
  obtain m' where m: "set_htonll m doutbuf ?r = Some m'" "get_ntohll m' doutbuf = Some ?r" "length m' = length m"
    using ntohll.write_read [of doutbuf m ?r] assms(5) by auto
  show ?thesis
  proof (cases "?r = cmp")
    case True
    obtain o2 where o2: "attr_set_attr o1 pid oid USER_ATOMICS_PG UAP_CAS (Some (host_ll swap)) 8 = Some (OSD_OK, o2)"
      "stored_reg o1 o2 pid oid UAP_CAS swap"
      using set_reg [of o1 pid oid UAP_CAS swap] s1 by (auto simp: stored_reg_def)
    have "osd_cas host osd pid oid cmp swap m doutbuf used sense = Some (OSD_OK, (m', 8), sense, o2)"
      using True d(1) o1(1) o2(1) m(1) by (simp add: osd_cas_def)
    then show ?thesis using stored_reg_trans [OF s1 o2(2)] m True by (simp add: performs_def cas_spec_def)
  next
    case False
    then have "osd_cas host osd pid oid cmp swap m doutbuf used sense = Some (OSD_OK, (m', 8), sense, o1)"
      using d(1) o1(1) m(1) by (simp add: osd_cas_def)
    then show ?thesis using s1 m False by (simp add: performs_def cas_spec_def)
  qed
qed

lemma fa_performs:
  assumes "ready (dbc osd)" and "user_present (tabs (dbc osd)) pid oid" and "reg_ok (tabs (dbc osd)) pid oid UAP_FA"
    and "length host = 8" and "doutbuf + 8 \<le> length m"
  shows "performs (fa_spec add (reg (tabs (dbc osd)) pid oid UAP_FA)) osd pid oid UAP_FA m doutbuf sense
    (osd_fa host osd pid oid add m doutbuf used sense)"
proof -
  let ?r = "reg (tabs (dbc osd)) pid oid UAP_FA"
  obtain d where d: "atomic_target osd pid oid = Some (True, osd\<lparr>dbc := d\<rparr>)" "asked (dbc osd) d"
    using atomic_target_ready [OF assms(1,2)] by blast
  have rd: "ready d" "tabs d = tabs (dbc osd)" using ready_asked [OF assms(1) d(2)] d(2) by (simp_all add: asked_def)
  obtain o1 where o1: "atomic_value host (osd\<lparr>dbc := d\<rparr>) pid oid UAP_FA = Some (True, ?r, o1)"
    "stored_reg (osd\<lparr>dbc := d\<rparr>) o1 pid oid UAP_FA ?r"
    using atomic_value_ready [of "osd\<lparr>dbc := d\<rparr>" pid oid UAP_FA host] rd assms(3,4) by auto
  have s1: "stored_reg osd o1 pid oid UAP_FA ?r" by (rule stored_reg_asked [OF d(2) o1(2)])
  obtain m' where m: "set_htonll m doutbuf ?r = Some m'" "get_ntohll m' doutbuf = Some ?r" "length m' = length m"
    using ntohll.write_read [of doutbuf m ?r] assms(5) by auto
  obtain o2 where o2: "attr_set_attr o1 pid oid USER_ATOMICS_PG UAP_FA (Some (host_ll (add + ?r))) 8 = Some (OSD_OK, o2)"
    "stored_reg o1 o2 pid oid UAP_FA (add + ?r)"
    using set_reg [of o1 pid oid UAP_FA "add + ?r"] s1 by (auto simp: stored_reg_def)
  have "osd_fa host osd pid oid add m doutbuf used sense = Some (OSD_OK, (m', 8), sense, o2)"
    using d(1) o1(1) o2(1) m(1) by (simp add: osd_fa_def)
  then show ?thesis using stored_reg_trans [OF s1 o2(2)] m by (simp add: performs_def fa_spec_def add.commute)
qed

section \<open>Properties\<close>

text \<open>
  C13. On a user object, and with a database that does not fail, compare-and-swap and fetch-and-add
  are operations of a 64-bit register that starts at 0: each answers with the old value in the reply
  buffer, leaves the value its specification gives, and changes nothing else in the database.
\<close>

theorem atomics_refine_register:
  assumes "ready (dbc osd)" and "user_present (tabs (dbc osd)) pid oid"
    and "reg_ok (tabs (dbc osd)) pid oid UAP_CAS" and "reg_ok (tabs (dbc osd)) pid oid UAP_FA"
    and "length host = 8" and "doutbuf + 8 \<le> length m"
  shows "performs (cas_spec cmp swap (reg (tabs (dbc osd)) pid oid UAP_CAS)) osd pid oid UAP_CAS m doutbuf sense
      (osd_cas host osd pid oid cmp swap m doutbuf used sense) \<and>
    performs (fa_spec add (reg (tabs (dbc osd)) pid oid UAP_FA)) osd pid oid UAP_FA m doutbuf sense
      (osd_fa host osd pid oid add m doutbuf used sense)"
  using cas_performs fa_performs assms by blast

definition atomic_device :: osd_device where
  "atomic_device = (sample_device [] [])\<lparr>dbc := (sample_db [EvSchema, EvBusy])\<lparr>tabs :=
     \<lparr>t_obj = [obj_row_of 0x10000 0 (ucast PARTITION), obj_row_of 0x10000 0x10001 (ucast USEROBJECT)],
      t_attr = [attr_row_of 0x10000 0x10001 USER_ATOMICS_PG UAP_FA (Some (host_ll 41))], t_coll = []\<rparr>\<rparr>\<rparr>"

theorem atomics_refine_register_witness:
  "\<exists>m osd'. osd_fa (replicate 8 0) atomic_device 0x10000 0x10001 1 (replicate 8 0) 0 0 [] = Some (OSD_OK, (m, 8), [], osd') \<and>
    get_ntohll m 0 = Some 41 \<and> reg (tabs (dbc osd')) 0x10000 0x10001 UAP_FA = 42"
proof -
  have r: "reg (tabs (dbc atomic_device)) 0x10000 0x10001 UAP_FA = 41" "reg_ok (tabs (dbc atomic_device)) 0x10000 0x10001 UAP_FA"
    "reg_ok (tabs (dbc atomic_device)) 0x10000 0x10001 UAP_CAS"
    by (simp_all add: reg_def reg_ok_def attr_at_def attr_rows_def atomic_device_def attr_row_of_def osd_consts)
  have "ready (dbc atomic_device)" "user_present (tabs (dbc atomic_device)) 0x10000 0x10001"
    by (simp_all add: ready_def user_present_def atomic_device_def sample_db_def db_good_def db_clean_def engine_ok_def tables_ok_def
      obj_map_def obj_key_def obj_row_of_def osd_consts)
  from atomics_refine_register [OF this r(3,2), of "replicate 8 0" 0 "replicate 8 0" 0 0 "[]" 0 1]
  show ?thesis by (auto simp: performs_def stored_reg_def r(1) fa_spec_def)
qed

section \<open>Setting an attribute and getting it\<close>

lemma lun_page:
  assumes "0x10000 \<le> page" and "page < 0x20000000"
  shows "issettable_page USEROBJECT page" and "isgettable_page USEROBJECT page"
    and "page \<noteq> GETALLATTR_PG" "page \<noteq> CUR_CMD_ATTR_PG" "page \<noteq> USER_INFO_PG" "page \<noteq> ROOT_INFO_PG" "page \<noteq> USER_COLL_PG"
    and "page \<noteq> USER_TMSTMP_PG" "page \<noteq> PARTITION_DIR_PG + USER_TMSTMP_PG" "page \<noteq> PARTITION_DIR_PG + USER_QUOTA_PG"
    and "page \<noteq> PARTITION_DIR_PG + USER_INFO_PG"
proof -
  have u: "0x10000 \<le> unat page" "unat page < 0x20000000" using assms by (simp_all add: word_le_nat_alt word_less_nat_alt)
  have b: "page_base USEROBJECT = Some USEROBJECT_PG" by (simp add: page_base_def osd_consts)
  show "issettable_page USEROBJECT page" "isgettable_page USEROBJECT page"
    using page_ranges [OF b, of page] u by (simp_all add: osd_consts)
  show "page \<noteq> GETALLATTR_PG" "page \<noteq> CUR_CMD_ATTR_PG" "page \<noteq> USER_INFO_PG" "page \<noteq> ROOT_INFO_PG" "page \<noteq> USER_COLL_PG"
    "page \<noteq> USER_TMSTMP_PG" "page \<noteq> PARTITION_DIR_PG + USER_TMSTMP_PG" "page \<noteq> PARTITION_DIR_PG + USER_QUOTA_PG"
    "page \<noteq> PARTITION_DIR_PG + USER_INFO_PG"
    using u by (auto simp: osd_consts)
qed

text \<open>Listing one attribute.\<close>

lemma get_raw_ready:
  assumes "ready d" and "outbuf mod 8 = 0" and "unat outlen mod 8 = 0" and "16 \<le> unat outlen" and "unat outlen < 2 ^ 32"
    and "outbuf + unat outlen \<le> length m"
    and "case attr_at (tabs d) pid oid page number of None \<Rightarrow> v = [] \<and> k = - ENOENT
      | Some w \<Rightarrow> w = Some v \<and> v \<noteq> [] \<and> length v \<le> 65535 \<and> 16 + length v \<le> unat outlen \<and> k = OSD_OK"
  shows "\<exists>m' used d'. attr_get_attr_raw d pid oid page number outlen outbuf RTRVD_SET_ATTR_LIST (m, u) = Some (k, (m', used), d') \<and>
    asked d d' \<and> length m' = length m \<and>
    (v \<noteq> [] \<longrightarrow> unat used = length (entry_bytes page number (of_nat (length v)) v) \<and>
      buf_get m' outbuf (unat used) = Some (entry_bytes page number (of_nat (length v)) v))"
proof -
  have ok: "tables_ok (tabs d)" "db_good d" "engine_ok d" using assms(1) by (simp_all add: ready_def)
  note b = ready_binds [OF assms(1)]
  let ?q = "attr_rows pid oid (\<lambda>r. a_page r = sint page \<and> a_number r = sint number)"
  have vs: "\<forall>r \<in> set (?q (tabs d)). value_ok (a_value r)"
    using attr_at_cases [OF ok(1), of pid oid page number] assms(7) by (auto simp: value_ok_def)
  obtain ret m' used d' where r: "run_attrs ?q (list_gather oid) outlen outbuf (m, u) d = Some (ret, (m', used), d')"
    "db_good d'" "db_frame d d'" "tabs d' = tabs d" "attrs_listed (?q (tabs d)) outlen m outbuf (step_evs d) ret m' used"
    using run_attrs_list [where query = ?q, OF ok(2) conjunct1 [OF b] ok(3) assms(2,3,6,5) vs, of oid u] by blast
  have g: "attr_get_attr_raw d pid oid page number outlen outbuf RTRVD_SET_ATTR_LIST (m, u) = Some (ret, (m', used), d')"
    using r(1) ok(2) by (simp add: attr_get_attr_raw_def)
  have a: "asked d d'" "length m' = length m"
    using r(2-5) by (auto simp: asked_def attrs_listed_def same_outside_def)
  obtain rows where rows: "mset rows = mset (?q (tabs d))" "ret = (if packed_rows (unat outlen) rows = [] then - ENOENT else OSD_OK)"
    "unat used = length (packed_rows (unat outlen) rows)"
    "buf_get m' outbuf (length (packed_rows (unat outlen) rows)) = Some (packed_rows (unat outlen) rows)"
    using r(5) conjunct2 [OF b] by (auto simp: attrs_listed_def Let_def)
  show ?thesis
  proof (cases "attr_at (tabs d) pid oid page number")
    case None
    then have "rows = []" using attr_at_cases [OF ok(1), of pid oid page number] rows(1) by auto
    then show ?thesis using g a rows(2) assms(7) None by auto
  next
    case (Some w)
    then obtain x where x: "?q (tabs d) = [x]" "a_value x = Some v" and v: "v \<noteq> []" "length v \<le> 65535" "16 + length v \<le> unat outlen" "k = OSD_OK"
      using attr_at_cases [OF ok(1), of pid oid page number] assms(7) by auto
    have rx: "rows = [x]" using rows(1) x(1) by simp
    have "x \<in> set (?q (tabs d))" using x(1) by simp
    then have px: "a_page x = sint page" "a_number x = sint number" by (simp_all add: attr_rows_def)
    have cb: "column_bytes (a_value x) = of_nat (length v)" "column_blob (a_value x) = Some v" using x(2) v(1) by (simp_all add: column_bytes_def column_blob_def)
    have "unat (of_nat (length v) :: u16) = length v" using v(2) by (simp add: unsigned_of_nat take_bit_nat_eq_self)
    then have e: "row_entry (unat outlen) x = entry_bytes page number (of_nat (length v)) v"
      using v(3) by (simp add: row_entry_def px cb packed_value_def)
    have "packed_rows (unat outlen) rows = entry_bytes page number (of_nat (length v)) v"
    proof -
      have "unat outlen - length (row_entry (unat outlen) x) < 16 \<or> packed_rows (unat outlen - length (row_entry (unat outlen) x)) [] = []" by simp
      then show ?thesis using assms(4) e by (simp add: rx)
    qed
    moreover have "entry_bytes page number (of_nat (length v)) v \<noteq> []" using entry_bytes_length [of page number "of_nat (length v)" v] by auto
    ultimately show ?thesis using g a rows v(4) by auto
  qed
qed

lemma attr_at_after_delete:
  "attr_at (t\<lparr>t_attr := delete_rows (\<lambda>r. a_pid r = sint pid \<and> a_oid r = sint oid \<and> a_page r = sint page \<and> a_number r = sint number) (t_attr t)\<rparr>)
     pid oid page number = None"
proof -
  have "attr_rows pid oid (\<lambda>r. a_page r = sint page \<and> a_number r = sint number)
      (t\<lparr>t_attr := delete_rows (\<lambda>r. a_pid r = sint pid \<and> a_oid r = sint oid \<and> a_page r = sint page \<and> a_number r = sint number) (t_attr t)\<rparr>) = []"
    by (simp add: attr_rows_def delete_rows_def filter_empty_conv)
  then show ?thesis by (simp add: attr_at_def)
qed

lemma only_attr_delete:
  "only_attr t (t\<lparr>t_attr := delete_rows (\<lambda>r. a_pid r = sint pid \<and> a_oid r = sint oid \<and> a_page r = sint page \<and> a_number r = sint number) (t_attr t)\<rparr>)
     pid oid page number"
proof -
  have other: "filter (\<lambda>r. a_pid r = sint p \<and> a_oid r = sint q \<and> a_page r = sint g \<and> a_number r = sint n)
      (delete_rows (\<lambda>r. a_pid r = sint pid \<and> a_oid r = sint oid \<and> a_page r = sint page \<and> a_number r = sint number) rows) =
    filter (\<lambda>r. a_pid r = sint p \<and> a_oid r = sint q \<and> a_page r = sint g \<and> a_number r = sint n) rows"
    if "(p, q, g, n) \<noteq> (pid, oid, page, number)" for p q g n rows
    using that by (induction rows) (auto simp: delete_rows_def)
  show ?thesis
    unfolding only_attr_def
  proof (intro conjI allI impI)
    fix p q g n assume "(p, q, g, n) \<noteq> (pid, oid, page, number)"
    from other [OF this, of "t_attr t"] show "attr_at (t\<lparr>t_attr := delete_rows (\<lambda>r. a_pid r = sint pid \<and> a_oid r = sint oid \<and>
        a_page r = sint page \<and> a_number r = sint number) (t_attr t)\<rparr>) p q g n = attr_at t p q g n"
      by (simp add: attr_at_def attr_rows_def)
  qed simp_all
qed

lemma delete_ready:
  assumes "ready d"
  shows "\<exists>d'. attr_delete_attr d pid oid page number = Some (OSD_OK, d') \<and> ready d' \<and>
    attr_at (tabs d') pid oid page number = None \<and> only_attr (tabs d) (tabs d') pid oid page number"
proof -
  have ok: "tables_ok (tabs d)" "db_good d" "db_clean d" using assms(1) by (simp_all add: ready_def)
  let ?t = "\<lambda>t. t\<lparr>t_attr := delete_rows (\<lambda>r. a_pid r = sint pid \<and> a_oid r = sint oid \<and> a_page r = sint page \<and> a_number r = sint number) (t_attr t)\<rparr>"
  obtain d' where d: "run_dms (\<lambda>t. Some (?t t)) d = Some (OSD_OK, d')" "db_good d'" "db_frame d d'" "tabs d' = ?t (tabs d)"
    using run_dms_ok [OF ok(2), of "\<lambda>t. Some (?t t)"] ok(3) by auto
  have "tables_ok (tabs d')" unfolding d(4) using ok(1) delete_rows_distinct [of attr_key "t_attr (tabs d)"] by (simp add: tables_ok_def)
  then have "ready d'" by (rule ready_frame [OF assms d(3,2)])
  moreover have "attr_at (tabs d') pid oid page number = None" "only_attr (tabs d) (tabs d') pid oid page number"
    unfolding d(4) by (rule attr_at_after_delete only_attr_delete)+
  ultimately show ?thesis using d(1) ok(2) by (auto simp: attr_delete_attr_def)
qed

definition attr_value :: "bytes \<Rightarrow> bytes option" where
  "attr_value v = (if v = [] then None else Some v)"

lemma set_attributes_ready:
  assumes "ready (dbc osd)" and "user_present (tabs (dbc osd)) pid oid" and "0x10000 \<le> page" "page < 0x20000000"
    and "number \<noteq> ATTRNUM_INFO" "number \<noteq> ATTRNUM_UNMODIFIABLE" and "length v \<le> 0xfffe"
  shows "\<exists>osd'. osd_set_attributes osd pid oid page number (attr_value v) (of_nat (length v)) emb sense = Some (OSD_OK, sense, osd') \<and>
    ready (dbc osd') \<and> attr_at (tabs (dbc osd')) pid oid page number = map_option Some (attr_value v) \<and>
    only_attr (tabs (dbc osd)) (tabs (dbc osd')) pid oid page number"
proof -
  have ok: "db_good (dbc osd)" "tables_ok (tabs (dbc osd))" "db_clean (dbc osd)" using assms(1) by (simp_all add: ready_def)
  obtain d where d: "obj_ispresent (dbc osd) pid oid = Some (0, 1, d)" "asked (dbc osd) d"
    using obj_ispresent_ok [OF ok(1,2), of pid oid] assms(2) ok(3) by (auto simp: user_present_def asked_def)
  have rd: "ready d" "tabs d = tabs (dbc osd)" using ready_asked [OF assms(1) d(2)] d(2) by (simp_all add: asked_def)
  obtain d1 where d1: "get_obj_type (osd\<lparr>dbc := d\<rparr>) pid oid = Some (USEROBJECT, osd\<lparr>dbc := d1\<rparr>)" "asked d d1"
    using user_present_type [of "osd\<lparr>dbc := d\<rparr>" pid oid] assms(2) rd by auto
  have rd1: "ready d1" "tabs d1 = tabs (dbc osd)" using ready_asked [OF rd(1) d1(2)] d1(2) rd(2) by (simp_all add: asked_def)
  note pg = lun_page [OF assms(3,4)]
  have ub: "unat (of_nat (length v) :: u16) = length v" using assms(7) by (simp add: unsigned_of_nat take_bit_nat_eq_self)
  then have len: "(of_nat (length v) :: u16) = 0 \<longleftrightarrow> v = []" "\<not> (of_nat (length v) :: u16) > ATTR_LEN_UB"
    using assms(7) by (auto simp: word_unat_eq_iff word_less_nat_alt osd_consts)
  have ty: "USEROBJECT \<noteq> ILLEGAL_OBJ" by (simp add: osd_consts)
  show ?thesis
  proof (cases "v = []")
    case True
    obtain d2 where "attr_delete_attr d1 pid oid page number = Some (OSD_OK, d2)" "ready d2"
      "attr_at (tabs d2) pid oid page number = None" "only_attr (tabs d1) (tabs d2) pid oid page number"
      using delete_ready [OF rd1(1)] by blast
    then show ?thesis
      using d(1) d1(1) pg ty assms(5,6) rd1(2) True
      by (auto simp: osd_set_attributes_def attr_value_def Let_def)
  next
    case False
    obtain d2 where "attr_set_attr_raw d1 pid oid page number (Some v) (of_nat (length v)) = Some (OSD_OK, d2)" "ready d2"
      "tabs d2 = (tabs d1)\<lparr>t_attr := replace_row attr_key (attr_row_of pid oid page number (Some v)) (t_attr (tabs d1))\<rparr>"
      using set_raw_ready [OF rd1(1) ub [symmetric]] by blast
    then show ?thesis
      using d(1) d1(1) pg ty assms(5,6) rd1(2) False len
      by (auto simp: osd_set_attributes_def attr_value_def Let_def attr_set_conversion_def attr_at_after_set only_attr_set)
  qed
qed

lemma getattr_ready:
  assumes "ready (dbc osd)" and "user_present (tabs (dbc osd)) pid oid" and "0x10000 \<le> page" "page < 0x20000000"
    and "number \<noteq> ATTRNUM_GETALL" and at: "attr_at (tabs (dbc osd)) pid oid page number = map_option Some (attr_value v)"
    and "length v \<le> 65535" and "16 + length v \<le> unat outlen"
    and "outbuf mod 8 = 0" and "unat outlen mod 8 = 0" and "outbuf + unat outlen \<le> length m"
  shows "\<exists>m' used osd'. osd_getattr_list ls osd pid oid page number outbuf outlen emb RTRVD_SET_ATTR_LIST (m, u) sense =
      Some (OSD_OK, (m', used), sense, osd') \<and> tabs (dbc osd') = tabs (dbc osd) \<and>
    unat used = length (entry_bytes page number (of_nat (length v)) v) \<and>
    buf_get m' outbuf (unat used) = Some (entry_bytes page number (of_nat (length v)) v)"
proof -
  let ?e = "entry_bytes page number (of_nat (length v)) v"
  obtain d where d: "get_obj_type osd pid oid = Some (USEROBJECT, osd\<lparr>dbc := d\<rparr>)" "asked (dbc osd) d"
    using user_present_type [OF assms(1,2)] by blast
  have rd: "ready d" "tabs d = tabs (dbc osd)" using ready_asked [OF assms(1) d(2)] d(2) by (simp_all add: asked_def)
  note pg = lun_page [OF assms(3,4)]
  have ty: "USEROBJECT \<noteq> ILLEGAL_OBJ" by (simp add: osd_consts)
  have lazy: "lazy_init_attr (osd\<lparr>dbc := d\<rparr>) pid oid page number = Some (OSD_OK, osd\<lparr>dbc := d\<rparr>)"
    using pg(3) assms(5) by (simp add: lazy_init_attr_def)
  have uo: "unat (ucast outlen :: u64) = unat outlen" by (simp add: unsigned_ucast_eq take_bit_nat_eq_self unsigned_less order_less_le_trans [OF unsigned_less])
  have lt: "unat outlen < 2 ^ 32" using unsigned_less [of outlen, where ?'a = nat] by simp
  let ?k = "if v = [] then - ENOENT else OSD_OK"
  have w: "case attr_at (tabs d) pid oid page number of None \<Rightarrow> v = [] \<and> ?k = - ENOENT
      | Some w \<Rightarrow> w = Some v \<and> v \<noteq> [] \<and> length v \<le> 65535 \<and> 16 + length v \<le> unat (ucast outlen :: u64) \<and> ?k = OSD_OK"
    using at rd(2) assms(7,8) uo by (simp add: attr_value_def)
  obtain m1 used1 d1 where g: "attr_get_attr_raw d pid oid page number (ucast outlen) outbuf RTRVD_SET_ATTR_LIST (m, u) = Some (?k, (m1, used1), d1)"
    "asked d d1" "length m1 = length m"
    "v \<noteq> [] \<longrightarrow> unat used1 = length ?e \<and> buf_get m1 outbuf (unat used1) = Some ?e"
    using get_raw_ready [where outlen = "ucast outlen" and m = m and v = v and k = ?k and u = u, OF rd(1) assms(9) _ _ _ _ w] assms(8,10,11) uo lt by auto
  have mg: "mutiplex_getattr_list (osd\<lparr>dbc := d\<rparr>) pid oid page number outbuf outlen RTRVD_SET_ATTR_LIST (m, u) =
      Some (?k, (m1, used1), osd\<lparr>dbc := d1\<rparr>)"
    using g(1) pg(3) assms(5) by (simp add: mutiplex_getattr_list_def attr_get_conversion_def)
  have t1: "tabs d1 = tabs (dbc osd)" using g(2) rd(2) by (simp add: asked_def)
  show ?thesis
  proof (cases "v = []")
    case True
    obtain m2 where m2: "buf_put m1 outbuf ?e = Some m2"
      using mem.put_some [of outbuf ?e m1] assms(8,11) g(3) True entry_bytes_length [of page number "of_nat (length v)" v]
      by (auto simp: round8_def)
    have "le_pack_attr 0 m1 outbuf outlen page number 0 None = Some (int (length ?e), m2)"
      using le_pack_attr_put [where base = 0 and off = outbuf and buflen = outlen and valen = 0 and val = None and m = m1 and page = page and number = number] assms(8,9,10) m2 True
      by (simp add: and_7 packed_value_def entry_bytes_length)
    then have "fill_null_attr oid page number m1 outbuf outlen RTRVD_SET_ATTR_LIST = Some (int (length ?e), m2)"
      using pg(3) assms(5) by (simp add: fill_null_attr_def osd_consts)
    moreover have "length ?e = 16" using True by (simp add: entry_bytes_length round8_def)
    moreover have "buf_get m2 outbuf 16 = Some ?e" using mem.get_put [OF m2] calculation(2) by simp
    ultimately show ?thesis
      using d(1) ty pg lazy mg True t1 by (auto simp: osd_getattr_list_def osd_consts)
  next
    case False
    then show ?thesis
      using d(1) ty pg lazy mg t1 g(4) by (auto simp: osd_getattr_list_def osd_consts)
  qed
qed

text \<open>
  C14. SET ATTRIBUTES on a user object followed by GET ATTRIBUTES as a list, for any attribute of the
  logical unit pages: the answer is one list entry with exactly the value that was set, an
  entry of length 0 after the attribute was removed by setting length 0. No other attribute, object
  or membership changes.
\<close>

theorem set_then_getattr:
  assumes "ready (dbc osd)" and "user_present (tabs (dbc osd)) pid oid" and "0x10000 \<le> page" "page < 0x20000000"
    and "number \<noteq> ATTRNUM_INFO" "number \<noteq> ATTRNUM_UNMODIFIABLE" and "length v \<le> 0xfffe" and "16 + length v \<le> unat outlen"
    and "outbuf mod 8 = 0" and "unat outlen mod 8 = 0" and "outbuf + unat outlen \<le> length m"
  shows "\<exists>osd1 m' used osd2. osd_set_attributes osd pid oid page number (attr_value v) (of_nat (length v)) emb sense =
      Some (OSD_OK, sense, osd1) \<and>
    osd_getattr_list ls osd1 pid oid page number outbuf outlen emb' RTRVD_SET_ATTR_LIST (m, u) sense' =
      Some (OSD_OK, (m', used), sense', osd2) \<and>
    buf_get m' outbuf (unat used) = Some (entry_bytes page number (of_nat (length v)) v) \<and>
    only_attr (tabs (dbc osd)) (tabs (dbc osd2)) pid oid page number"
proof -
  obtain osd1 where s: "osd_set_attributes osd pid oid page number (attr_value v) (of_nat (length v)) emb sense = Some (OSD_OK, sense, osd1)"
    "ready (dbc osd1)" "attr_at (tabs (dbc osd1)) pid oid page number = map_option Some (attr_value v)"
    "only_attr (tabs (dbc osd)) (tabs (dbc osd1)) pid oid page number"
    using set_attributes_ready [OF assms(1-7)] by blast
  have "user_present (tabs (dbc osd1)) pid oid"
    using assms(2) s(4) obj_map_of_rows [of "tabs (dbc osd1)" "tabs (dbc osd)"] by (simp add: user_present_def only_attr_def)
  moreover have "number \<noteq> ATTRNUM_GETALL" using assms(6) by (simp add: osd_consts)
  ultimately show ?thesis
    using getattr_ready [OF s(2) _ assms(3,4) _ s(3) _ assms(8-11), of ls emb' u sense'] s(1,4) assms(7) by auto
qed

lemma atomic_device:
  "ready (dbc atomic_device)" "user_present (tabs (dbc atomic_device)) 0x10000 0x10001"
  by (simp_all add: ready_def user_present_def atomic_device_def sample_db_def db_good_def db_clean_def engine_ok_def tables_ok_def
      obj_map_def obj_key_def obj_row_of_def osd_consts)

theorem set_then_getattr_witness:
  "\<exists>osd1 m' used osd2. osd_set_attributes atomic_device 0x10000 0x10001 0x10005 7 (Some [1, 2, 3]) 3 False [] = Some (OSD_OK, [], osd1) \<and>
    osd_getattr_list ([], []) osd1 0x10000 0x10001 0x10005 7 8 24 False RTRVD_SET_ATTR_LIST (replicate 32 0, 0) [] =
      Some (OSD_OK, (m', used), [], osd2) \<and>
    buf_get m' 8 (unat used) = Some (entry_bytes 0x10005 7 3 [1, 2, 3])"
proof -
  have "unat (24 :: u32) = 24" by simp
  then show ?thesis
    using set_then_getattr [OF atomic_device, of "0x10005" 7 "[1, 2, 3]" 24 8 "replicate 32 0" False "[]" "([], [])" False 0 "[]"]
    by (auto simp: osd_consts attr_value_def)
qed

text \<open>
  The name of the user information page and that of the root information page are sent with 40
  bytes taken from a local buffer that holds only the name: the last 4 bytes of the one, and the
  last 11 of the other, are what was on the stack.
\<close>

lemma page_name_leaks_stack:
  assumes "256 \<le> length (fst ls)" and "outbuf mod 8 = 0" and "outlen = 56" and "outbuf + 56 \<le> length m"
  shows "\<exists>m1 m2. attr_get_attr ls osd pid oid USER_INFO_PG 0 outlen outbuf RTRVD_SET_ATTR_LIST (m, u) = Some (OSD_OK, (m1, 56), osd) \<and>
    buf_get m1 (outbuf + 16) 40 = Some (cstr ''INCITS  T10 User Object Information'' @ take 4 (drop 36 (fst ls))) \<and>
    attr_get_attr ls osd pid oid ROOT_INFO_PG 0 outlen outbuf RTRVD_SET_ATTR_LIST (m, u) = Some (OSD_OK, (m2, 56), osd) \<and>
    buf_get m2 (outbuf + 16) 40 = Some (cstr ''INCITS  T10 Root Information'' @ take 11 (drop 29 (fst ls)))"
proof -
  have packed: "\<exists>m'. pack_computed oid page 0 40 (Some b) outlen outbuf RTRVD_SET_ATTR_LIST (m, u) = Some (OSD_OK, m', 56) \<and>
      buf_get m' (outbuf + 16) 40 = Some (take 40 b)" if b: "40 \<le> length b" for b page
  proof -
    let ?e = "entry_bytes page 0 40 (take 40 b)"
    have le: "length ?e = 56" using b by (simp add: entry_bytes_length round8_def min_def)
    obtain m' where m': "buf_put m outbuf ?e = Some m'" using mem.put_some [of outbuf ?e m] assms(4) le by auto
    have "le_pack_attr 0 m outbuf 56 page 0 40 (Some b) = Some (56, m')"
      using le_pack_attr_put [where base = 0 and off = outbuf and buflen = 56 and valen = 40 and val = "Some b" and m = m and
          page = page and number = 0] assms(2) b m' by (simp add: packed_value_def and_7 round8_def min_def)
    moreover have "buf_get m' (outbuf + 16) 40 = Some (take 40 b)"
    proof -
      have "?e = (store_be32 page @ store_be32 0 @ replicate 6 0 @ store_be16 40) @ take 40 b"
        using b by (simp add: entry_bytes_def round8_def min_def)
      moreover have "length (store_be32 page @ store_be32 0 @ replicate 6 0 @ store_be16 40) = 16"
        by (simp add: store_be32_def store_be16_def)
      ultimately have "buf_get ?e 16 40 = Some (take 40 b)" using b by (simp add: buf_get_def min_def)
      then show ?thesis
        using m' le b assms(4) by (auto simp: buf_put_def buf_get_def min_def split: if_splits)
    qed
    ultimately show ?thesis using assms(3) by (simp add: pack_computed_def used_of_def osd_consts)
  qed
  have named: "\<exists>m'. page_name ls s = Some (Computed (cstr s @ drop (length s + 1) (fst ls)) 40) \<and>
      pack_computed oid page 0 40 (Some (cstr s @ drop (length s + 1) (fst ls))) outlen outbuf RTRVD_SET_ATTR_LIST (m, u) = Some (OSD_OK, m', 56) \<and>
      buf_get m' (outbuf + 16) 40 = Some (cstr s @ take (39 - length s) (drop (length s + 1) (fst ls)))" if s: "length s < 40" for s page
  proof -
    have "40 \<le> length (cstr s @ drop (length s + 1) (fst ls))" "length (cstr s) = length s + 1" using s assms(1) by (simp_all add: cstr_def)
    moreover have "page_name ls s = Some (Computed (cstr s @ drop (length s + 1) (fst ls)) 40)"
      using s assms(1) by (simp add: page_name_def buf_put_def cstr_def osd_consts)
    ultimately show ?thesis using packed [of "cstr s @ drop (length s + 1) (fst ls)" page] s by auto
  qed
  let ?n1 = "''INCITS  T10 User Object Information''" and ?n2 = "''INCITS  T10 Root Information''"
  have len: "length ?n1 = 35" "length ?n2 = 28" by simp_all
  have arith: "(35 :: nat) < 40" "(28 :: nat) < 40" "39 - 35 = (4 :: nat)" "39 - 28 = (11 :: nat)" "35 + 1 = (36 :: nat)" "28 + 1 = (29 :: nat)" by simp_all
  have ne: "(ROOT_INFO_PG = USER_INFO_PG) = False" "((40 :: nat) = 0) = False" by (simp_all add: osd_consts)
  obtain m1 where m1: "attr_get_attr ls osd pid oid USER_INFO_PG 0 outlen outbuf RTRVD_SET_ATTR_LIST (m, u) = Some (OSD_OK, (m1, 56), osd)"
    "buf_get m1 (outbuf + 16) 40 = Some (cstr ?n1 @ take 4 (drop 36 (fst ls)))"
    using named [of ?n1 USER_INFO_PG, unfolded len arith(3-6), OF arith(1)]
    by (auto simp: attr_get_attr_def user_info_def simp del: list.size)
  obtain m2 where m2: "attr_get_attr ls osd pid oid ROOT_INFO_PG 0 outlen outbuf RTRVD_SET_ATTR_LIST (m, u) = Some (OSD_OK, (m2, 56), osd)"
    "buf_get m2 (outbuf + 16) 40 = Some (cstr ?n2 @ take 11 (drop 29 (fst ls)))"
    using named [of ?n2 ROOT_INFO_PG, unfolded len arith(3-6), OF arith(2)] ne
    by (auto simp: attr_get_attr_def root_info_attr_def simp del: list.size)
  show ?thesis using m1 m2 by blast
qed

lemma page_name_leaks_stack_witness:
  "\<exists>m1 u1 osd'. attr_get_attr (replicate 256 7, replicate 8 0) atomic_device 0x10000 0x10001 USER_INFO_PG 0 56 0
      RTRVD_SET_ATTR_LIST (replicate 56 0, 0) = Some (OSD_OK, (m1, u1), osd') \<and>
    buf_get m1 16 40 = Some (cstr ''INCITS  T10 User Object Information'' @ [7, 7, 7, 7])"
proof -
  have "256 \<le> length (fst (replicate 256 (7 :: u8), replicate 8 (0 :: u8)))" by simp
  note page_name_leaks_stack [OF this, of 0 56 "replicate 56 0" atomic_device "0x10000" "0x10001" 0]
  moreover have "take 4 (drop 36 (replicate 256 (7 :: u8))) = [7, 7, 7, 7]" by (simp add: eval_nat_numeral)
  ultimately show ?thesis by auto
qed

text \<open>
  SET ATTRIBUTES for the logical length of a user object cuts or extends the data file to the
  length modulo 65536, although the attribute has 64 bits.
\<close>

lemma logical_length_truncated:
  assumes "length val = 8" and "get_ntohll val 0 = Some v" and "get_dfile_name (root osd) pid oid = Some path"
    and "fs_clean (files osd)" and "nodes (files osd) path = Some (RegFile c)"
  shows "\<exists>osd'. set_uiap osd pid oid UIAP_LOGICAL_LEN (Some val) 8 = Some (OSD_OK, osd') \<and>
    nodes (files osd') path = Some (RegFile (take (unat v mod 65536) c @ replicate (unat v mod 65536 - length c) 0))"
proof -
  have u: "unat (ucast (ucast v :: u16) :: u64) = unat v mod 65536"
    using unsigned_less [of "ucast v :: u16", where ?'a = nat]
    by (simp add: unsigned_ucast_eq take_bit_nat_eq_self) (simp add: take_bit_eq_mod unat_mod)
  then have "unat (ucast (ucast v :: u16) :: u64) < 2 ^ 63" by simp
  then have "0 \<le> sint (ucast (ucast v :: u16) :: u64)" by (rule sint_nonneg)
  then show ?thesis
    using assms u by (simp add: set_uiap_def pointed_ll_def truncate_data_def fs_truncate_def osd_consts)
qed

lemma logical_length_truncated_witness:
  "\<exists>osd'. set_uiap (sample_device [] [1, 2, 3]) 0x10000 0x10001 UIAP_LOGICAL_LEN (Some [0, 0, 0, 0, 0, 1, 0, 1]) 8 = Some (OSD_OK, osd') \<and>
    nodes (files osd') (the (get_dfile_name (root (sample_device [] [1, 2, 3])) 0x10000 0x10001)) = Some (RegFile [1])"
proof -
  have "get_ntohll [0, 0, 0, 0, 0, 1, 0, 1] 0 = Some (0x10001 :: u64)"
    by (simp add: ntohll.getv_eq buf_get_def load_be64_def load_be32_def)
  from logical_length_truncated [OF _ this, of "sample_device [] [1, 2, 3]" "0x10000" "0x10001" sample_path "[1, 2, 3]"]
  show ?thesis by (simp add: sample_device_def sample_path fs_clean_def)
qed

end
