(* ===== verification/Mtq.thy ===== *)
theory Mtq
  imports Coll_Table Attr_Table
begin

text \<open>
  The queries over several tables of \<^verbatim>\<open>osd-target/mtq.c\<close>. Their statements are built as text, with
  the identifiers printed as unsigned decimals: a printed number matches a stored (signed) one only
  below \<open>2 ^ 63\<close>, which is why the columns are compared with \<open>uint\<close> here. A statement that
  SQLite does not prepare is one of the schedule \<open>prep_evs\<close>.
\<close>

section \<open>Statements built at run time\<close>

definition sq_prepare :: "db_context \<Rightarrow> bool \<times> db_context" where
  "sq_prepare dbc = (let (ok, es) = next_event True (prep_evs dbc) in (ok, dbc\<lparr>prep_evs := es\<rparr>))"

text \<open>The tables a statement names must have been opened.\<close>

definition on_tables :: "db_context \<Rightarrow> 'a option \<Rightarrow> 'a option" where
  "on_tables dbc r =
     (if coll_tab dbc = Prepared \<and> obj_tab dbc = Prepared \<and> attr_tab dbc = Prepared then r else None)"

text \<open>The order of blobs: the first differing byte decides, then the length.\<close>

fun blob_le :: "bytes \<Rightarrow> bytes \<Rightarrow> bool" where
  "blob_le [] _ = True"
| "blob_le (x # xs) [] = False"
| "blob_le (x # xs) (y # ys) = (x < y \<or> x = y \<and> blob_le xs ys)"

section \<open>Query\<close>

text \<open>
  \<open>struct query_criteria\<close>: a criterion holds the positions of its bounds in the parameter list.
  The limit counts the entries the arrays have room for.
\<close>

record criterion =
  q_page :: u32
  q_number :: u32
  min_val :: nat
  min_len :: u16
  max_val :: nat
  max_len :: u16

record query_criteria =
  query_type :: u8
  qc_cnt_limit :: u32
  criteria :: "criterion list"

text \<open>One \<open>SELECT\<close>: the members of the collection with an attribute for which \<open>P\<close> holds.\<close>

definition query_select :: "u64 \<Rightarrow> u64 \<Rightarrow> (attr_row \<Rightarrow> bool) \<Rightarrow> tables \<Rightarrow> int list" where
  "query_select pid cid P t =
     map c_oid (filter (\<lambda>c. c_pid c = uint pid \<and> c_cid c = uint cid \<and>
       (\<exists>a \<in> set (t_attr t). a_oid a = c_oid c \<and> P a)) (t_coll t))"

definition criterion_holds :: "criterion \<times> bytes \<times> bytes \<Rightarrow> attr_row \<Rightarrow> bool" where
  "criterion_holds = (\<lambda>(q, lo, hi) a.
     a_page a = uint (q_page q) \<and> a_number a = uint (q_number q) \<and>
     (min_len q > 0 \<longrightarrow> (case a_value a of None \<Rightarrow> False | Some v \<Rightarrow> blob_le lo v)) \<and>
     (max_len q > 0 \<longrightarrow> (case a_value a of None \<Rightarrow> False | Some v \<Rightarrow> blob_le v hi)))"

text \<open>
  The whole statement: without criteria the members with any attribute, else the selections joined
  by \<open>UNION\<close> or \<open>INTERSECT\<close>. The answer has no duplicates and is ordered.
\<close>

definition query_rows :: "u8 \<Rightarrow> u64 \<Rightarrow> u64 \<Rightarrow> (criterion \<times> bytes \<times> bytes) list \<Rightarrow> tables \<Rightarrow> int list" where
  "query_rows ty pid cid qs t =
     (let sel = (\<lambda>q. query_select pid cid (criterion_holds q) t) in
      sort (remdups (
        if qs = [] then query_select pid cid (\<lambda>_. True) t
        else if ty = 0 then concat (map sel qs)
        else filter (\<lambda>x. \<forall>q \<in> set (tl qs). x \<in> set (sel q)) (sel (hd qs)))))"

text \<open>Binding the bounds of the criteria; \<open>None\<close> inside is a failed bind.\<close>

definition bind_bound :: "bytes \<Rightarrow> nat \<Rightarrow> u16 \<Rightarrow> db_context \<Rightarrow> (bytes option \<times> db_context) option" where
  "bind_bound indata off len dbc =
     (if len > 0 then do {
        b \<leftarrow> buf_get indata off (unat len);
        let (ok, dbc) = sq_bind dbc;
        Some (if ok then Some b else None, dbc) }
      else Some (Some [], dbc))"

fun bind_criteria ::
  "bytes \<Rightarrow> criterion list \<Rightarrow> db_context \<Rightarrow> ((criterion \<times> bytes \<times> bytes) list option \<times> db_context) option" where
  "bind_criteria indata [] dbc = Some (Some [], dbc)"
| "bind_criteria indata (q # qs) dbc = do {
     (lo, dbc) \<leftarrow> bind_bound indata (min_val q) (min_len q) dbc;
     (case lo of None \<Rightarrow> Some (None, dbc)
      | Some lo \<Rightarrow> do {
          (hi, dbc) \<leftarrow> bind_bound indata (max_val q) (max_len q) dbc;
          (case hi of None \<Rightarrow> Some (None, dbc)
           | Some hi \<Rightarrow> do {
               (bs, dbc) \<leftarrow> bind_criteria indata qs dbc;
               Some (map_option (\<lambda>bs. (q, lo, hi) # bs) bs, dbc) }) }) }"

text \<open>
  The loop over the answers. The test for room subtracts the running length from the allocation
  length as unsigned numbers. A busy engine ends the loop.
\<close>

definition grow_len :: "u64 \<Rightarrow> u64" where
  "grow_len len = (if len \<noteq> - 1 \<and> len + 8 > len then len + 8 else - 1)"

fun query_loop ::
  "int list \<Rightarrow> sq_event list \<Rightarrow> u32 \<Rightarrow> bytes \<Rightarrow> nat \<Rightarrow> u64 \<Rightarrow> u64
    \<Rightarrow> (bool \<times> sq_event list \<times> bytes \<times> u64 \<times> u64) option" where
  "query_loop [] evs alloc_len m p len used =
     (let (ev, evs) = next_event EvOk evs in Some (ev = EvOk, evs, m, len, used))"
| "query_loop (x # xs) evs alloc_len m p len used =
     (let (ev, evs) = next_event EvOk evs in
      if ev \<noteq> EvOk then Some (False, evs, m, len, used)
      else do {
        (m, used) \<leftarrow>
          (if ucast alloc_len - len > 8 then do {
             m \<leftarrow> set_htonll m p (word_of_int x);
             Some (m, used + 8) }
           else Some (m, used));
        query_loop xs evs alloc_len m (p + 8) (grow_len len) used })"

definition mtq_run_query ::
  "db_context \<Rightarrow> u64 \<Rightarrow> u64 \<Rightarrow> query_criteria \<Rightarrow> bytes \<Rightarrow> nat \<Rightarrow> u32 \<Rightarrow> bytes \<times> u64
    \<Rightarrow> (int \<times> (bytes \<times> u64) \<times> db_context) option" where
  "mtq_run_query dbc pid cid qc indata outdata alloc_len out =
     (if query_type qc \<noteq> 0 \<and> query_type qc \<noteq> 1 then Some (- EINVAL, out, dbc)
      else on_tables dbc (do {
        let (ok, dbc) = sq_prepare dbc;
        if \<not> ok then Some (- EIO, out, dbc)
        else do {
          (qs, dbc) \<leftarrow> bind_criteria indata (criteria qc) dbc;
          (case qs of None \<Rightarrow> Some (- EIO, out, dbc)
           | Some qs \<Rightarrow> do {
               (done, evs, m, len, used) \<leftarrow>
                 query_loop (query_rows (query_type qc) pid cid qs (tabs dbc)) (step_evs dbc) alloc_len
                   (fst out) (outdata + ML_ODL_OFF) (of_nat (ML_ODL_OFF - 8)) (of_nat ML_ODL_OFF);
               let dbc = dbc\<lparr>step_evs := evs\<rparr>;
               if \<not> done then Some (- EIO, (m, used), dbc)
               else do {
                 m \<leftarrow> set_htonll m outdata len;
                 Some (OSD_OK, (m, used), dbc) } }) } }))"

section \<open>Objects with their attributes\<close>

text \<open>
  The rows of the listing: for every object the row of its time stamp page, which starts its
  descriptor, then the requested attributes. \<open>obj\<close> and \<open>attr\<close> are joined on both identifiers. The
  rows come ordered by the object; rows of one object are in the order of the engine.
\<close>

definition oid_attr_select :: "u64 \<Rightarrow> u64 \<Rightarrow> tables \<Rightarrow> u32 \<times> u32 \<Rightarrow> attr_row list" where
  "oid_attr_select pid initial_oid t = (\<lambda>(page, number).
     filter (\<lambda>a. a_pid a = uint pid \<and> a_page a = uint page \<and> a_number a = uint number \<and>
       uint initial_oid \<le> a_oid a \<and>
       (\<exists>r \<in> set (t_obj t). o_pid r = a_pid a \<and> o_oid r = a_oid a \<and> o_type r = uint USEROBJECT))
     (t_attr t))"

definition oid_attr_rows :: "u64 \<Rightarrow> u64 \<Rightarrow> getattr_list_entry list \<Rightarrow> db_context \<Rightarrow> attr_row list" where
  "oid_attr_rows pid initial_oid get_attr dbc =
     sort_key a_oid (scan_attrs dbc (concat (map (oid_attr_select pid initial_oid (tabs dbc))
       ((USER_TMSTMP_PG, 0) # map (\<lambda>g. (ga_page g, ga_number g)) get_attr))))"

text \<open>
  The state of the loop: the buffer, \<open>head\<close> and \<open>tail\<close>, the length of the attribute list that is
  being built, the room left, and the output parameters.
\<close>

record lister =
  l_buf :: bytes
  l_head :: nat
  l_tail :: nat
  attr_list_len :: u32
  l_room :: u64
  l_used :: u64
  l_add :: u64
  l_cont :: u64

datatype list_end = ListDone | ListPack int | ListStep sq_code

text \<open>Fill in the length of the attribute list of the last descriptor.\<close>

definition close_list :: "lister \<Rightarrow> lister option" where
  "close_list s =
     (if l_head s \<noteq> l_tail s then do {
        m \<leftarrow> set_htonl (l_buf s) (l_head s) (attr_list_len s);
        Some (s\<lparr>l_buf := m, l_head := l_tail s, attr_list_len := 0\<rparr>) }
      else Some s)"

definition note_cont :: "u64 \<Rightarrow> lister \<Rightarrow> lister" where
  "note_cont oid s = (if l_cont s = 0 then s\<lparr>l_cont := oid\<rparr> else s)"

text \<open>\<open>add_len\<close> grows, or the loop ends because it would overflow.\<close>

definition grow_add :: "u64 \<Rightarrow> lister \<Rightarrow> list_end option \<times> lister" where
  "grow_add n s =
     (if l_add s + n > l_add s then (None, s\<lparr>l_add := l_add s + n\<rparr>)
      else (Some ListDone, s\<lparr>l_add := - 1\<rparr>))"

text \<open>The row that starts the descriptor of an object.\<close>

definition list_object :: "u64 \<Rightarrow> lister \<Rightarrow> (list_end option \<times> lister) option" where
  "list_object oid s =
     (if l_room s \<ge> 16 then do {
        m \<leftarrow> set_htonll (l_buf s) (l_tail s) oid;
        m \<leftarrow> buf_zero m (l_tail s + 8) 4;
        s \<leftarrow> close_list (s\<lparr>l_buf := m\<rparr>);
        Some (grow_add 16 (s\<lparr>l_room := l_room s - 16, l_tail := l_tail s + 16,
          l_head := l_head s + 12, l_used := l_used s + 16\<rparr>)) }
      else do {
        s \<leftarrow> close_list s;
        Some (grow_add 16 (note_cont oid s)) })"

text \<open>The row of an attribute. The length of an entry in \<open>add_len\<close> is computed from 10 bytes.\<close>

definition entry_add_len :: "u16 \<Rightarrow> u64" where
  "entry_add_len len = ucast (roundup8 (4 + 4 + 2 + ucast len))"

definition list_attr_entry :: "u64 \<Rightarrow> attr_row \<Rightarrow> lister \<Rightarrow> (list_end option \<times> lister) option" where
  "list_attr_entry oid row s =
     (let page = word_of_int (a_page row);
          number = word_of_int (a_number row);
          len = column_bytes (a_value row) in
      if l_room s \<ge> 16 then do {
        (ret, m) \<leftarrow> le_pack_attr 0 (l_buf s) (l_tail s) (ucast (l_room s)) page number len
          (column_blob (a_value row));
        let s = s\<lparr>l_buf := m\<rparr>;
        if ret > 0 then do {
          let s = s\<lparr>l_room := l_room s - word_of_int ret, l_tail := l_tail s + nat ret,
            attr_list_len := attr_list_len s + word_of_int ret, l_used := l_used s + word_of_int ret\<rparr>;
          s \<leftarrow> (if l_room s < 16 then do {
              m \<leftarrow> set_htonl (l_buf s) (l_head s) (attr_list_len s);
              Some (note_cont oid (s\<lparr>l_buf := m, l_head := l_tail s, attr_list_len := 0\<rparr>)) }
            else Some s);
          Some (grow_add (entry_add_len len) s) }
        else Some (Some (ListPack ret), s) }
      else do {
        s' \<leftarrow> close_list s;
        Some (grow_add (entry_add_len len) (if l_head s \<noteq> l_tail s then note_cont oid s' else s')) })"

definition list_row :: "attr_row \<Rightarrow> lister \<Rightarrow> (list_end option \<times> lister) option" where
  "list_row row s =
     (let oid = word_of_int (a_oid row) in
      if (word_of_int (a_page row) :: u32) = USER_TMSTMP_PG \<and> (word_of_int (a_number row) :: u32) = 0
      then list_object oid s else list_attr_entry oid row s)"

function list_loop ::
  "attr_row list \<Rightarrow> sq_event list \<Rightarrow> lister \<Rightarrow> (list_end \<times> sq_event list \<times> lister) option" where
  "list_loop rows evs s =
     (case next_event EvOk evs of
        (EvOk, evs') \<Rightarrow> (case rows of
            [] \<Rightarrow> Some (ListDone, evs', s)
          | row # rows' \<Rightarrow> do {
              (e, s) \<leftarrow> list_row row s;
              (case e of None \<Rightarrow> list_loop rows' evs' s | Some e \<Rightarrow> Some (e, evs', s)) })
      | (EvBusy, evs') \<Rightarrow> (if evs = [] then None else list_loop rows evs' s)
      | (EvSchema, evs') \<Rightarrow> Some (ListStep SQLITE_SCHEMA, evs', s)
      | (EvError, evs') \<Rightarrow> Some (ListStep SQLITE_ERROR, evs', s))"
  by pat_completeness auto
termination
proof (relation "measure (\<lambda>(rows, evs, _). length rows + length evs)", goal_cases)
  case (2 rows evs)
  then show ?case by (cases evs) auto
next
  case (3 rows evs)
  then show ?case by (cases evs) auto
qed simp

declare list_loop.simps [simp del]

text \<open>
  A statement that is not prepared returns the code of SQLite, here \<open>1\<close>. Finalizing fails, with
  \<open>-EIO\<close>, when the last step has failed.
\<close>

definition mtq_list_oids_attr ::
  "db_context \<Rightarrow> u64 \<Rightarrow> u64 \<Rightarrow> getattr_list_entry list \<Rightarrow> u64 \<Rightarrow> nat \<Rightarrow> bytes \<times> u64 \<times> u64 \<times> u64
    \<Rightarrow> (int \<times> (bytes \<times> u64 \<times> u64 \<times> u64) \<times> db_context) option" where
  "mtq_list_oids_attr dbc pid initial_oid get_attr alloc_len outdata out =
     (if get_attr = [] then Some (- EINVAL, out, dbc)
      else on_tables dbc (do {
        let (ok, dbc) = sq_prepare dbc;
        if \<not> ok then Some (1, out, dbc)
        else do {
          let (m, used, add_len, cont_id) = out;
          (e, evs, s) \<leftarrow> list_loop (oid_attr_rows pid initial_oid get_attr dbc) (step_evs dbc)
            \<lparr>l_buf = m, l_head = outdata, l_tail = outdata, attr_list_len = 0, l_room = alloc_len,
             l_used = used, l_add = add_len, l_cont = cont_id\<rparr>;
          let dbc = dbc\<lparr>step_evs := evs\<rparr>;
          (ret, s) \<leftarrow> (case e of
              ListDone \<Rightarrow> map_option (\<lambda>s. (OSD_OK, s)) (close_list s)
            | ListPack ret \<Rightarrow> Some (ret, s)
            | ListStep code \<Rightarrow> Some (- EIO, s));
          Some (ret, (l_buf s, l_used s, l_add s, l_cont s), dbc) } }))"

section \<open>Attributes of all members\<close>

text \<open>
  \<open>INSERT OR REPLACE INTO attr SELECT pid, oid, page, number, ? FROM coll WHERE cid = cid\<close> for every
  attribute, all in one statement. The partition of the collection is not tested. A printed number
  of \<open>2 ^ 63\<close> or more is stored as the real number closest to it; it is written as the integer here.
\<close>

definition member_rows :: "u64 \<Rightarrow> u64 \<Rightarrow> coll_row list \<Rightarrow> list_entry \<times> bytes option \<Rightarrow> attr_row list" where
  "member_rows pid cid cs = (\<lambda>(le, v).
     map (\<lambda>c. \<lparr>a_pid = uint pid, a_oid = c_oid c, a_page = uint (le_page le), a_number = uint (le_number le),
        a_value = v\<rparr>) (filter (\<lambda>c. c_cid c = uint cid) cs))"

fun bind_values :: "list_entry list \<Rightarrow> db_context \<Rightarrow> ((list_entry \<times> bytes option) list option \<times> db_context) option" where
  "bind_values [] dbc = Some (Some [], dbc)"
| "bind_values (le # les) dbc = do {
     v \<leftarrow> blob_of (le_val le) (le_len le);
     let (ok, dbc) = sq_bind dbc;
     if \<not> ok then Some (None, dbc)
     else do {
       (vs, dbc) \<leftarrow> bind_values les dbc;
       Some (map_option (\<lambda>vs. (le, v) # vs) vs, dbc) } }"

definition replace_rows :: "attr_row list \<Rightarrow> attr_row list \<Rightarrow> attr_row list" where
  "replace_rows rows t = fold (replace_row attr_key) rows t"

definition mtq_set_member_attrs ::
  "db_context \<Rightarrow> u64 \<Rightarrow> u64 \<Rightarrow> list_entry list \<Rightarrow> (int \<times> db_context) option" where
  "mtq_set_member_attrs dbc pid cid set_attr =
     (if set_attr = [] then Some (0, dbc)
      else on_tables dbc (do {
        let (ok, dbc) = sq_prepare dbc;
        if \<not> ok then Some (- EIO, dbc)
        else do {
          (vs, dbc) \<leftarrow> bind_values set_attr dbc;
          (case vs of None \<Rightarrow> Some (- EIO, dbc)
           | Some vs \<Rightarrow> do {
               let (code, dbc) = sq_step_dms (\<lambda>t. Some (t\<lparr>t_attr :=
                 replace_rows (concat (map (member_rows pid cid (t_coll t)) vs)) (t_attr t)\<rparr>)) dbc;
               Some (if code = SQLITE_DONE then OSD_OK else - EIO, dbc) }) } }))"

end
