(* ===== verification/Osd_List.thy ===== *)
theory Osd_List
  imports Mtq Osd_Attr
begin

text \<open>
  The listing commands, the query and the attributes of the members of a collection, from
  \<^verbatim>\<open>osd-target/osd.c\<close>. Their output is the buffer with the used length, 64 bits wide.
\<close>

type_synonym list_answer = "int \<times> (bytes \<times> u64) \<times> bytes \<times> osd_device"

definition with_list :: "bytes \<times> u64 \<Rightarrow> answer option \<Rightarrow> list_answer option" where
  "with_list out r = map_option (\<lambda>(ret, sense, osd). (ret, out, sense, osd)) r"

section \<open>Listing\<close>

text \<open>
  The 24 bytes of the header hold the length of the list, the continuation and the format. The
  continuation of an earlier list is not kept: a list identifier restarts the list at 0.
\<close>

definition list_header :: "bytes \<Rightarrow> nat \<Rightarrow> u64 \<Rightarrow> u64 \<Rightarrow> bytes option" where
  "list_header m outdata add_len cont_id = do {
     m \<leftarrow> set_htonll m outdata add_len;
     set_htonll m (outdata + 8) cont_id }"

definition list_add_len :: "u64 \<Rightarrow> u64" where
  "list_add_len add_len = (if add_len + 16 > add_len then add_len + 16 else - 1)"

definition osd_list ::
  "osd_device \<Rightarrow> u8 \<Rightarrow> u64 \<Rightarrow> u64 \<Rightarrow> u64 \<Rightarrow> getattr_list_entry list \<Rightarrow> u32 \<Rightarrow> nat \<Rightarrow> bytes \<times> u64 \<Rightarrow> bytes
    \<Rightarrow> list_answer option" where
  "osd_list osd list_attr pid alloc_len initial_oid get_attr list_id outdata out sense =
     (if alloc_len = 0 then Some (0, out, sense, osd)
      else if alloc_len < 24 then with_list out (out_cdb_err osd sense pid initial_oid)
      else do {
        let (m, used) = out;
        m \<leftarrow> buf_zero m outdata 24;
        let success = (\<lambda>out osd. Some (OSD_OK, out, sense,
          osd\<lparr>ccap := fill_ccap None PARTITION pid PARTITION_OID 0\<rparr>));
        if list_attr = 0 \<and> get_attr \<noteq> [] \<or> list_attr = 1 \<and> get_attr = []
        then with_list (m, used) (out_cdb_err osd sense pid initial_oid)
        else if list_attr = 0 \<and> get_attr = [] then do {
          let first = (if list_id \<noteq> 0 then 0 else initial_oid);
          m \<leftarrow> buf_put m (outdata + 23) [push_bit 2 0x21];
          let room = alloc_len - 24;
          (ret, (m, used, add_len, cont_id), d) \<leftarrow>
            (if pid = 0 then obj_get_all_pids (dbc osd) first room (outdata + 24) (m, used, 0, 0)
             else obj_get_oids_in_pid (dbc osd) pid first room (outdata + 24) (m, used, 0, 0));
          let osd = osd\<lparr>dbc := d\<rparr>;
          if ret \<noteq> 0 then with_list (m, used) (out_hw_err osd sense pid first)
          else do {
            m \<leftarrow> list_header m outdata (list_add_len add_len) cont_id;
            success (m, used + 24) osd } }
        else if list_attr = 1 \<and> get_attr \<noteq> [] \<and> pid \<noteq> 0 then do {
          let first = (if list_id \<noteq> 0 then 0 else initial_oid);
          m \<leftarrow> buf_put m (outdata + 23) [push_bit 2 0x22];
          (ret, (m, used, add_len, cont_id), d) \<leftarrow>
            mtq_list_oids_attr (dbc osd) pid first get_attr (alloc_len - 24) (outdata + 24) (m, used, 0, 0);
          let osd = osd\<lparr>dbc := d\<rparr>;
          if ret \<noteq> 0 then with_list (m, used) (out_hw_err osd sense pid first)
          else do {
            m \<leftarrow> list_header m outdata (list_add_len add_len) cont_id;
            success (m, used + 24) osd } }
        else success (m, used) osd })"

definition osd_list_collection ::
  "osd_device \<Rightarrow> u8 \<Rightarrow> u64 \<Rightarrow> u64 \<Rightarrow> u64 \<Rightarrow> u64 \<Rightarrow> getattr_list_entry list \<Rightarrow> u32 \<Rightarrow> nat \<Rightarrow> bytes \<times> u64 \<Rightarrow> bytes
    \<Rightarrow> list_answer option" where
  "osd_list_collection osd list_attr pid cid alloc_len initial_oid get_attr list_id outdata out sense =
     (if alloc_len = 0 then Some (0, out, sense, osd)
      else if alloc_len < 24 then with_list out (out_cdb_err osd sense pid initial_oid)
      else do {
        let (m, used) = out;
        m \<leftarrow> buf_zero m outdata 24;
        let success = (\<lambda>out osd. Some (OSD_OK, out, sense,
          osd\<lparr>ccap := fill_ccap None COLLECTION pid COLLECTION_OID_LB 0\<rparr>));
        let first = (if list_id \<noteq> 0 then 0 else initial_oid);
        if list_attr = 0 \<and> get_attr \<noteq> [] \<or> list_attr = 1 \<and> get_attr = []
        then with_list (m, used) (out_cdb_err osd sense pid initial_oid)
        else if list_attr = 0 \<and> get_attr = [] then do {
          m \<leftarrow> buf_put m (outdata + 23) [push_bit 2 0x21];
          let room = alloc_len - 24;
          (ret, (m, used, add_len, cont_id), d) \<leftarrow>
            (if cid = 0 then obj_get_cids_in_pid (dbc osd) pid first room (outdata + 24) (m, used, 0, 0)
             else coll_get_oids_in_cid (dbc osd) pid cid first room (outdata + 24) (m, used, 0, 0));
          let osd = osd\<lparr>dbc := d\<rparr>;
          if ret \<noteq> 0 then with_list (m, used) (out_hw_err osd sense pid first)
          else do {
            m \<leftarrow> list_header m outdata (add_len + 16) cont_id;
            success (m, used + 24) osd } }
        else if list_attr = 1 \<and> get_attr \<noteq> [] \<and> cid \<noteq> 0
        then with_list (m, used) (out_cdb_err osd sense pid first)
        else success (m, used) osd })"

section \<open>Query\<close>

text \<open>
  \<open>alloc_qc\<close> doubles the room of the criteria; memory is not exhausted.
\<close>

definition alloc_qc :: "query_criteria \<Rightarrow> query_criteria" where
  "alloc_qc qc = qc\<lparr>qc_cnt_limit := (if qc_cnt_limit qc = 0 then 16 else qc_cnt_limit qc * 2)\<rparr>"

text \<open>
  The loop of \<open>parse_query_criteria\<close>: \<open>qll\<close> is the unsigned rest of the list length, which passes
  below zero when a criterion is longer than the rest.
\<close>

lemma get_ntohs_bound: "get_ntohs m off = Some v \<Longrightarrow> off + 2 \<le> length m"
  by (auto simp: get_ntohs_le_def buf_get_def split: if_splits)

function parse_criteria_loop ::
  "bytes \<Rightarrow> nat \<Rightarrow> u32 \<Rightarrow> query_criteria \<Rightarrow> (bool \<times> query_criteria) option" where
  "parse_criteria_loop m cp qll qc =
     (if qll > 0 then do {
        qce_len \<leftarrow> get_ntohs m (cp + 2);
        if unat qce_len = MINQCELEN then Some (True, qc)
        else do {
          page \<leftarrow> get_ntohl m (cp + 4);
          if page \<ge> PARTITION_PG then Some (False, qc)
          else do {
            number \<leftarrow> get_ntohl m (cp + 8);
            lo_len \<leftarrow> get_ntohs m (cp + 12);
            let lo = cp + 14;
            let cp = cp + (14 + unat lo_len);
            let qll = qll - (14 + ucast lo_len);
            hi_len \<leftarrow> get_ntohs m cp;
            let hi = cp + 2;
            let cp = cp + (2 + unat hi_len);
            let qll = qll - (2 + ucast hi_len);
            let qc = qc\<lparr>criteria := criteria qc @ [\<lparr>q_page = page, q_number = number, min_val = lo,
              min_len = lo_len, max_val = hi, max_len = hi_len\<rparr>]\<rparr>;
            let qc = (if length (criteria qc) = unat (qc_cnt_limit qc) then alloc_qc qc else qc);
            parse_criteria_loop m cp qll qc } } }
      else Some (True, qc))"
  by pat_completeness auto
termination
  by (relation "measure (\<lambda>(m, cp, qll, qc). length m - cp)") (auto dest!: get_ntohs_bound)

declare parse_criteria_loop.simps [simp del]

text \<open>The flag is false for \<open>OSD_ERROR\<close>.\<close>

definition parse_query_criteria ::
  "bytes \<Rightarrow> nat \<Rightarrow> u32 \<Rightarrow> query_criteria \<Rightarrow> (bool \<times> query_criteria) option" where
  "parse_query_criteria m cp qll qc = do {
     b \<leftarrow> buf_get m cp 1;
     parse_criteria_loop m (cp + 4) (qll - 4) (qc\<lparr>query_type := hd b AND 0xF, criteria := []\<rparr>) }"

text \<open>\<open>indata\<close> is the position of the query list in the parameter data \<open>pm\<close>.\<close>

definition osd_query ::
  "osd_device \<Rightarrow> u64 \<Rightarrow> u64 \<Rightarrow> u32 \<Rightarrow> u64 \<Rightarrow> bytes \<Rightarrow> nat \<Rightarrow> nat \<Rightarrow> bytes \<times> u64 \<Rightarrow> bytes \<Rightarrow> list_answer option" where
  "osd_query osd pid cid query_list_len alloc_len pm indata outdata out sense =
     (if pid < USEROBJECT_PID_LB then with_list out (out_cdb_err osd sense pid cid)
      else do {
        (ret, present, d) \<leftarrow> obj_ispresent (dbc osd) pid cid;
        let osd = osd\<lparr>dbc := d\<rparr>;
        if ret \<noteq> OSD_OK \<or> present = 0 then with_list out (out_cdb_err osd sense pid cid)
        else if query_list_len < MINQLISTLEN then with_list out (out_cdb_err osd sense pid cid)
        else if alloc_len = 0 then Some (OSD_OK, out, sense, osd)
        else if unat alloc_len < MIN_ML_LEN then with_list out (out_cdb_err osd sense pid cid)
        else do {
          (ok, qc) \<leftarrow> parse_query_criteria pm indata query_list_len
            (alloc_qc \<lparr>query_type = 0, qc_cnt_limit = 0, criteria = []\<rparr>);
          if \<not> ok then with_list out (out_cdb_err osd sense pid cid)
          else do {
            let (m, used) = out;
            m \<leftarrow> buf_zero m (outdata + 8) 4;
            m \<leftarrow> buf_put m (outdata + 12) [push_bit 2 0x21];
            (ret, out, d) \<leftarrow> mtq_run_query (dbc osd) pid cid qc pm outdata (ucast alloc_len) (m, used);
            let osd = osd\<lparr>dbc := d\<rparr>;
            if ret \<noteq> OSD_OK then with_list out (out_hw_err osd sense pid cid)
            else Some (OSD_OK, out, sense, osd\<lparr>ccap := fill_ccap None COLLECTION pid cid 0\<rparr>) } } })"

section \<open>Attributes of the members\<close>

text \<open>The answers of the transaction statements are only asserted.\<close>

definition osd_set_member_attributes ::
  "osd_device \<Rightarrow> u64 \<Rightarrow> u64 \<Rightarrow> list_entry list \<Rightarrow> bytes \<Rightarrow> answer option" where
  "osd_set_member_attributes osd pid cid set_attr sense = do {
     let osd = snd (osd_begin_txn osd);
     (ret, present, d) \<leftarrow> obj_ispresent (dbc osd) pid cid;
     let osd = osd\<lparr>dbc := d\<rparr>;
     if ret \<noteq> OSD_OK \<or> present = 0 then out_cdb_err (snd (osd_end_txn osd)) sense pid cid
     else do {
       (ty, osd) \<leftarrow> get_obj_type osd pid cid;
       if ty \<noteq> COLLECTION then out_cdb_err (snd (osd_end_txn osd)) sense pid cid
       else if \<exists>le \<in> set set_attr. \<not> issettable_page USEROBJECT (le_page le)
       then out_param_list (snd (osd_end_txn osd)) sense pid cid
       else do {
         (ret, d) \<leftarrow> mtq_set_member_attrs (dbc osd) pid cid set_attr;
         let osd = osd\<lparr>dbc := d\<rparr>;
         if ret \<noteq> 0 then out_hw_err (snd (osd_end_txn osd)) sense pid cid
         else Some (OSD_OK, sense,
           (snd (osd_end_txn osd))\<lparr>ccap := fill_ccap None COLLECTION pid cid 0\<rparr>) } } }"

end
