(* ===== verification/Osd_Open.thy ===== *)
theory Osd_Open
  imports Osd_Attr
begin

text \<open>
  Opening, closing and formatting a target: the directories of \<^verbatim>\<open>osd-target/osd.c\<close>, and the
  functions \<open>setup_root_paths\<close>, \<open>format_osd\<close> and \<open>osd_close\<close> of \<^verbatim>\<open>osd-target/io.c\<close>.

  A path that has been freed, or is a null pointer, is \<open>freed_root\<close>: it fits no buffer, so every use of it
  is undefined. A null database context is one without statements.
\<close>

section \<open>Directories\<close>

text \<open>The kernel ignores repeated slashes and one at the end.\<close>

fun squeeze :: "string \<Rightarrow> string" where
  "squeeze [] = []"
| "squeeze [a] = (if a = CHR ''/'' then [] else [a])"
| "squeeze (a # b # cs) = (if a = CHR ''/'' \<and> b = CHR ''/'' then squeeze (b # cs) else a # squeeze (b # cs))"

definition parent :: "string \<Rightarrow> string" where
  "parent p = rev (drop 1 (dropWhile (\<lambda>c. c \<noteq> CHR ''/'') (rev p)))"

text \<open>The entries \<open>readdir\<close> yields for a directory, each with whether its type is \<open>DT_DIR\<close>.\<close>

type_synonym listing = "fs \<Rightarrow> string \<Rightarrow> (string \<times> bool) list"

definition dot_entry :: "string \<Rightarrow> bool" where
  "dot_entry n \<longleftrightarrow> n = ''.'' \<or> n = ''..''"

definition fs_mkdir :: "string \<Rightarrow> fs \<Rightarrow> bool \<times> fs" where
  "fs_mkdir p s =
     (let (ev, s) = io_next s in
      if ev = IoFail \<or> nodes s p \<noteq> None \<or> \<not> (parent p = [] \<or> is_dir s (parent p)) then (False, s)
      else (True, s\<lparr>nodes := (nodes s)(p \<mapsto> Directory)\<rparr>))"

definition fs_opendir :: "string \<Rightarrow> fs \<Rightarrow> bool \<times> fs" where
  "fs_opendir p s =
     (let (ev, s) = io_next s in
      if ev = IoFail \<or> \<not> is_dir s p then (False, s) else (True, s\<lparr>open_fds := open_fds s + 1\<rparr>))"

definition fs_rmdir :: "listing \<Rightarrow> string \<Rightarrow> fs \<Rightarrow> bool \<times> fs" where
  "fs_rmdir rd p s =
     (let (ev, s) = io_next s in
      if ev = IoFail \<or> \<not> is_dir s p \<or> (\<exists>e \<in> set (rd s p). \<not> dot_entry (fst e)) then (False, s)
      else (True, s\<lparr>nodes := (nodes s)(p := None)\<rparr>))"

definition create_dir :: "string \<Rightarrow> fs \<Rightarrow> int \<times> fs" where
  "create_dir dirname f =
     (case fs_stat (squeeze dirname) f of
        (StOk True _, f) \<Rightarrow> (- ENOTDIR, f)
      | (StOk False _, f) \<Rightarrow> (0, f)
      | (StFail, f) \<Rightarrow> (- ENOTDIR, f)
      | (StNoEnt, f) \<Rightarrow> (let (ok, f) = fs_mkdir (squeeze dirname) f in (if ok then 0 else - 1, f)))"

lemma path_buf_bound: "path_buf s = Some p \<Longrightarrow> p = s \<and> length s < 256"
  by (auto simp: path_buf_def MAXNAMELEN_def split: if_splits)

text \<open>
  The recursion ends since the path of an entry is longer than that of its directory and has to fit
  its buffer. An error leaves the directory open.
\<close>

function empty_dir :: "listing \<Rightarrow> string \<Rightarrow> fs \<Rightarrow> (int \<times> fs) option"
  and empty_entries :: "listing \<Rightarrow> string \<Rightarrow> (string \<times> bool) list \<Rightarrow> fs \<Rightarrow> (int \<times> fs) option" where
  "empty_dir rd dirname f =
     (let (ok, f) = fs_opendir (squeeze dirname) f in
      if \<not> ok then Some (- 1, f)
      else do {
        (ret, f) \<leftarrow> empty_entries rd dirname (rd f (squeeze dirname)) f;
        if ret \<noteq> 0 then Some (- 1, f)
        else do {
          let (_, f) = fs_close f;
          let (ok, f) = fs_rmdir rd (squeeze dirname) f;
          Some (if ok then 0 else - 1, f) } })"
| "empty_entries rd dirname [] f = Some (0, f)"
| "empty_entries rd dirname ((name, dt_dir) # es) f =
     (if dot_entry name then empty_entries rd dirname es f
      else do {
        path \<leftarrow> path_buf (dirname @ ''/'' @ name);
        (ret, f) \<leftarrow> (if dt_dir then empty_dir rd path f
          else let (ok, f) = fs_unlink (squeeze path) f in Some (if ok then 0 else - 1, f));
        if ret \<noteq> 0 then Some (- 1, f) else empty_entries rd dirname es f })"
  by pat_completeness auto

termination
  by (relation "inv_image (less_than <*lex*> less_than <*lex*> less_than) (\<lambda>x. case x of
      Inl (_, p, _) \<Rightarrow> (256 - length p, 1, 0) | Inr (_, p, es, _) \<Rightarrow> (256 - length p, 0 :: nat, length es))")
    (auto dest!: path_buf_bound)

declare empty_dir.simps [simp del] empty_entries.simps [simp del]

section \<open>Opening\<close>

definition freed_root :: string where
  "freed_root = replicate 256 (CHR ''?'')"

definition no_context :: "db_context \<Rightarrow> db_context" where
  "no_context d = d\<lparr>coll_tab := NoTab, obj_tab := NoTab, attr_tab := NoTab\<rparr>"

definition stranded :: string where "stranded = ''stranded''"

text \<open>What the surroundings answer: the directories, \<open>sqlite3_open\<close> and the tables of an existing file.\<close>

record open_env =
  o_readdir :: listing
  o_open :: bool
  o_tables :: "string list"

definition stat_db :: "string \<Rightarrow> fs \<Rightarrow> stat_result \<times> fs" where
  "stat_db path f = (case fs_stat path f of
       (StNoEnt, f) \<Rightarrow> (StatNoEnt, f)
     | (StFail, f) \<Rightarrow> (StatFailed, f)
     | (StOk reg _, f) \<Rightarrow> (if reg then StatReg else StatNotReg, f))"

fun create_dirs :: "string list \<Rightarrow> fs \<Rightarrow> (int \<times> fs) option" where
  "create_dirs [] f = Some (0, f)"
| "create_dirs (p # ps) f = do {
     path \<leftarrow> path_buf p;
     let (ret, f) = create_dir path f;
     if ret \<noteq> 0 then Some (ret, f) else create_dirs ps f }"

definition root_dirs :: "string \<Rightarrow> string list" where
  "root_dirs r = (r @ ''/'' @ dfiles @ ''/'') # map (\<lambda>i. r @ ''/'' @ dfiles @ ''/'' @ hex_byte i @ ''/'') [0..<256] @
     [r @ ''/'' @ stranded @ ''/'', r @ ''/'' @ md @ ''/'']"

text \<open>
  A file \<open>sqlite3_open\<close> creates is empty until the tables are written; its contents are not modelled.
\<close>

definition open_database :: "open_env \<Rightarrow> string \<Rightarrow> osd_device \<Rightarrow> (int \<times> osd_device) option" where
  "open_database env path osd = do {
     let (st, f) = stat_db path (files osd);
     (ret, d) \<leftarrow> osd_db_open st (o_open env) (o_tables env) (no_context (dbc osd));
     let f = (if st = StatNoEnt \<and> o_open env then f\<lparr>nodes := (nodes f)(path \<mapsto> RegFile [])\<rparr> else f);
     Some (ret, osd\<lparr>files := f, dbc := (case d of None \<Rightarrow> no_context (dbc osd) | Some d \<Rightarrow> d)\<rparr>) }"

text \<open>
  The speed of the processor, which the function reads with \<open>get_mhz\<close> for profiling before anything else, is
  left out.
\<close>

definition setup_root_paths :: "open_env \<Rightarrow> string \<Rightarrow> osd_device \<Rightarrow> (int \<times> osd_device) option" where
  "setup_root_paths env r osd =
     (if length r > MAXROOTLEN then Some (- ENAMETOOLONG, osd)
      else do {
        let osd = osd\<lparr>root := freed_root, dbc := no_context (dbc osd), ccap := no_ccap,
          ic := \<lparr>cur_pid = 0, next_id = 0\<rparr>\<rparr>;
        let (ret, f) = create_dir r (files osd);
        (ret, f) \<leftarrow> (if ret \<noteq> 0 then Some (ret, f) else create_dirs (root_dirs r) f);
        let osd = osd\<lparr>files := f\<rparr>;
        if ret \<noteq> 0 then Some (ret, osd)
        else do {
          path \<leftarrow> get_dbname r;
          (ret, osd) \<leftarrow> open_database env path (osd\<lparr>root := r\<rparr>);
          if ret \<noteq> 0 \<and> ret \<noteq> 1 then Some (ret, osd)
          else do {
            (ret, osd) \<leftarrow> (if ret = 1 then osd_initialize_db osd else Some (0, osd));
            if ret \<noteq> 0 then Some (ret, osd)
            else do {
              let (ret, d) = db_exec_pragma (dbc osd);
              Some (ret, osd\<lparr>dbc := d\<rparr>) } } } })"

definition osd_open :: "open_env \<Rightarrow> string \<Rightarrow> osd_device \<Rightarrow> (int \<times> osd_device) option" where
  "osd_open env r osd = setup_root_paths env r osd"

section \<open>Closing and formatting\<close>

definition osd_close :: "osd_device \<Rightarrow> (int \<times> osd_device) option" where
  "osd_close osd = do {
     ret \<leftarrow> osd_db_close (dbc osd);
     Some (ret, osd\<lparr>dbc := no_context (dbc osd), root := freed_root\<rparr>) }"

fun empty_dirs :: "listing \<Rightarrow> string list \<Rightarrow> fs \<Rightarrow> (int \<times> fs) option" where
  "empty_dirs rd [] f = Some (0, f)"
| "empty_dirs rd (p # ps) f = do {
     path \<leftarrow> path_buf p;
     (ret, f) \<leftarrow> empty_dir rd path f;
     if ret \<noteq> 0 then Some (ret, f) else empty_dirs rd ps f }"

text \<open>
  Any failure of \<open>stat\<close> counts as a missing database. The directories are emptied while the database is
  open.
\<close>

definition format_osd :: "open_env \<Rightarrow> osd_device \<Rightarrow> bytes \<Rightarrow> answer option" where
  "format_osd env osd sense = do {
     let r = root osd;
     path \<leftarrow> get_dbname r;
     let (st, f) = stat_db path (files osd);
     let osd = osd\<lparr>files := f\<rparr>;
     (ret, osd) \<leftarrow> (if st = StatNoEnt \<or> st = StatFailed then Some (0, osd)
       else do {
         (ret, f) \<leftarrow> empty_dirs (o_readdir env)
           [r @ ''/'' @ md @ ''/'', r @ ''/'' @ stranded, r @ ''/'' @ dfiles] (files osd);
         if ret \<noteq> 0 then Some (ret, osd\<lparr>files := f\<rparr>) else osd_close (osd\<lparr>files := f\<rparr>) });
     (ret, osd) \<leftarrow> (if ret \<noteq> 0 then Some (ret, osd) else osd_open env r osd);
     if ret \<noteq> 0 then with_sense osd sense OSD_SSK_HARDWARE_ERROR OSD_ASC_SYSTEM_RESOURCE_FAILURE 0 0
     else Some (OSD_OK, sense, osd\<lparr>ccap := no_ccap\<rparr>) }"

text \<open>The path of the root is freed after formatting, but stays in the device.\<close>

definition osd_format_osd :: "open_env \<Rightarrow> osd_device \<Rightarrow> u64 \<Rightarrow> bytes \<Rightarrow> answer option" where
  "osd_format_osd env osd capacity sense = do {
     (ret, sense, osd) \<leftarrow> format_osd env osd sense;
     Some (ret, sense, osd\<lparr>root := freed_root\<rparr>) }"

end
