(* ===== verification/Cdb_Attr.thy ===== *)
theory Cdb_Attr
  imports Osd_Objects Osd_List Osd_Open
begin

text \<open>
  The command of \<^verbatim>\<open>osd-target/cdb.c\<close> and the attribute part of its descriptor block: reading and
  setting the attributes a command asks for, in the three formats.
\<close>

section \<open>The command\<close>

text \<open>
  A continuation descriptor: \<open>d_off\<close> is where its specific part starts in the data from the
  initiator, if the parser has set the pointer.
\<close>

record descriptor =
  d_type :: u16
  d_length :: u32
  d_off :: "nat option"

text \<open>
  \<open>struct command\<close>. \<open>c_indata\<close> and \<open>c_outdata\<close> are the memory behind the two pointers, \<open>None\<close> for a
  null pointer.
\<close>

record command =
  c_osd :: osd_device
  c_cdb :: bytes
  c_action :: u16
  getset_cdbfmt :: u8
  retrieved_attr_off :: u64
  c_get_attr :: "getattr_list_entry list"
  c_set_attr :: "list_entry list"
  c_indata :: "bytes option"
  c_cont :: "descriptor list"
  c_inlen :: u64
  c_outdata :: "bytes option"
  c_outlen :: u64
  c_used :: u64
  get_used :: u32
  c_sense :: bytes
  c_senselen :: int

text \<open>
  What the functions find in memory they have not initialised: local variables, allocated blocks and
  the union of a descriptor of another type; and what the surroundings answer when the device is
  formatted.
\<close>

record surroundings =
  s_locals :: locals
  s_host :: bytes
  s_val :: bytes
  s_valen :: u32
  s_used_outlen :: u32
  s_malloc :: "u64 \<Rightarrow> bytes option"
  s_sglist :: "sg_list_entry list"
  s_cuos :: "u64 \<times> u64"
  s_opening :: open_env

definition indata :: "command \<Rightarrow> bytes" where
  "indata cmd = (case c_indata cmd of None \<Rightarrow> [] | Some b \<Rightarrow> b)"

definition outdata :: "command \<Rightarrow> bytes" where
  "outdata cmd = (case c_outdata cmd of None \<Rightarrow> [] | Some b \<Rightarrow> b)"

definition put_outdata :: "bytes \<Rightarrow> command \<Rightarrow> command" where
  "put_outdata m cmd = cmd\<lparr>c_outdata := map_option (\<lambda>_. m) (c_outdata cmd)\<rparr>"

type_synonym outcome = "(int \<times> command) option"

definition basic_error :: "u8 \<Rightarrow> u16 \<Rightarrow> u64 \<Rightarrow> u64 \<Rightarrow> command \<Rightarrow> outcome" where
  "basic_error key code pid oid cmd = do {
     (ret, sense) \<leftarrow> sense_basic_build (c_sense cmd) key code pid oid;
     Some (ret, cmd\<lparr>c_sense := sense\<rparr>) }"

definition bad_cdb :: "u64 \<Rightarrow> u64 \<Rightarrow> command \<Rightarrow> outcome" where
  "bad_cdb = basic_error OSD_SSK_ILLEGAL_REQUEST OSD_ASC_INVALID_FIELD_IN_CDB"

definition bad_list_length :: "u64 \<Rightarrow> u64 \<Rightarrow> command \<Rightarrow> outcome" where
  "bad_list_length = basic_error OSD_SSK_ILLEGAL_REQUEST OSD_ASC_PARAMETER_LIST_LENGTH_ERROR"

definition bad_param_list :: "u64 \<Rightarrow> u64 \<Rightarrow> command \<Rightarrow> outcome" where
  "bad_param_list = basic_error OSD_SSK_ILLEGAL_REQUEST OSD_ASC_INVALID_FIELD_IN_PARAM_LIST"

text \<open>A call of a command of the device.\<close>

definition on_device :: "(osd_device \<Rightarrow> bytes \<Rightarrow> answer option) \<Rightarrow> command \<Rightarrow> outcome" where
  "on_device f cmd = do {
     (ret, sense, osd) \<leftarrow> f (c_osd cmd) (c_sense cmd);
     Some (ret, cmd\<lparr>c_sense := sense, c_osd := osd\<rparr>) }"

text \<open>The same for a command with output.\<close>

definition with_output ::
  "(osd_device \<Rightarrow> bytes \<times> u64 \<Rightarrow> bytes \<Rightarrow> (int \<times> (bytes \<times> u64) \<times> bytes \<times> osd_device) option) \<Rightarrow> command \<Rightarrow> outcome" where
  "with_output f cmd = do {
     (ret, (m, used), sense, osd) \<leftarrow> f (c_osd cmd) (outdata cmd, c_used cmd) (c_sense cmd);
     Some (ret, (put_outdata m cmd)\<lparr>c_used := used, c_sense := sense, c_osd := osd\<rparr>) }"

definition begin_txn :: "command \<Rightarrow> command" where
  "begin_txn cmd = cmd\<lparr>c_osd := snd (osd_begin_txn (c_osd cmd))\<rparr>"

definition end_txn :: "command \<Rightarrow> command" where
  "end_txn cmd = cmd\<lparr>c_osd := snd (osd_end_txn (c_osd cmd))\<rparr>"

text \<open>\<open>for (i = oid; i < oid+numoid; i++)\<close>, left at the first error.\<close>

function for_oids :: "(u64 \<Rightarrow> 's \<Rightarrow> (int \<times> 's) option) \<Rightarrow> u64 \<Rightarrow> u64 \<Rightarrow> 's \<Rightarrow> (int \<times> 's) option" where
  "for_oids f i e s =
     (if i < e then do {
        (ret, s) \<leftarrow> f i s;
        if ret \<noteq> 0 then Some (ret, s) else for_oids f (i + 1) e s }
      else Some (0, s))"
  by pat_completeness auto
termination
  by (relation "measure (\<lambda>(_, i, e, _). unat (e - i))") (auto simp: closer)

declare for_oids.simps [simp del]

section \<open>A page or a value\<close>

definition get_attr_page :: "command \<Rightarrow> u64 \<Rightarrow> u64 \<Rightarrow> u16 \<Rightarrow> outcome" where
  "get_attr_page cmd pid oid numoid = do {
     page \<leftarrow> get_ntohl (c_cdb cmd) 52;
     alloc_len \<leftarrow> get_ntohl (c_cdb cmd) 56;
     if page = 0 \<or> alloc_len = 0 then Some (0, cmd)
     else if numoid > 1 \<and> page \<noteq> CUR_CMD_ATTR_PG then bad_list_length pid oid cmd
     else if c_outdata cmd = None then bad_list_length pid oid cmd
     else do {
       (ret, (m, used), sense, osd) \<leftarrow> osd_getattr_page (c_osd cmd) pid oid page
         (unat (retrieved_attr_off cmd)) (ucast alloc_len) True (outdata cmd, get_used cmd) (c_sense cmd);
       Some (ret, (put_outdata m cmd)\<lparr>get_used := used, c_sense := sense, c_osd := osd\<rparr>) } }"

text \<open>The length of the value is cut to 16 bits by the call.\<close>

definition set_attr_value :: "command \<Rightarrow> u64 \<Rightarrow> u64 \<Rightarrow> u16 \<Rightarrow> outcome" where
  "set_attr_value cmd pid oid numoid = do {
     page \<leftarrow> get_ntohl (c_cdb cmd) 64;
     number \<leftarrow> get_ntohl (c_cdb cmd) 68;
     len \<leftarrow> get_ntohl (c_cdb cmd) 72;
     offset \<leftarrow> get_ntohoffset (c_cdb cmd) 76;
     if page = 0 then Some (0, cmd)
     else do {
       (ret, cmd) \<leftarrow> for_oids (\<lambda>i. on_device (\<lambda>osd. osd_set_attributes osd pid i page number
         (Some (drop (unat offset) (indata cmd))) (ucast len) True)) oid (oid + ucast numoid) (begin_txn cmd);
       Some (ret, end_txn cmd) } }"

definition set_one_attr_value :: "command \<Rightarrow> u64 \<Rightarrow> u64 \<Rightarrow> u16 \<Rightarrow> outcome" where
  "set_one_attr_value cmd pid oid numoid = do {
     page \<leftarrow> get_ntohl (c_cdb cmd) 52;
     number \<leftarrow> get_ntohl (c_cdb cmd) 56;
     len \<leftarrow> get_ntohs (c_cdb cmd) 60;
     if page = 0 then Some (0, cmd)
     else if len > 18 then bad_cdb pid oid cmd
     else if page = 0xFFFFFFFF \<or> number = 0xFFFFFFFF then bad_cdb pid oid cmd
     else do {
       (ret, cmd) \<leftarrow> for_oids (\<lambda>i. on_device (\<lambda>osd. osd_set_attributes osd pid i page number
         (Some (drop 62 (c_cdb cmd))) len True)) oid (oid + ucast numoid) (begin_txn cmd);
       Some (ret, end_txn cmd) } }"

section \<open>Lists of attributes\<close>

text \<open>
  The tests on the list of the attributes to get, shared by \<open>get_attr_list\<close> and
  \<open>parse_getattr_list\<close>: the position and the length of the entries. A list that ends before the data
  is refused, one that ends behind them is accepted.
\<close>

datatype list_check = ListFine nat u32 | ListBadLength | ListBadType

definition check_getattr_list :: "command \<Rightarrow> u32 \<Rightarrow> list_check option" where
  "check_getattr_list cmd getattr_list_len = do {
     list_off \<leftarrow> get_ntohoffset (c_cdb cmd) 56;
     list_alloc_len \<leftarrow> get_ntohl (c_cdb cmd) 60;
     if unat getattr_list_len < LIST_HDR_LEN then Some ListBadLength
     else do {
       let list_in_len = (ucast (c_inlen cmd - list_off) :: u32);
       if list_in_len < 8 then Some ListBadLength
       else if list_off AND 0x7 \<noteq> 0 \<or> list_alloc_len AND 0x7 \<noteq> 0 then Some ListBadLength
       else do {
         b \<leftarrow> buf_get (indata cmd) (unat list_off) 1;
         if hd b AND 0xF \<noteq> RTRV_ATTR_LIST then Some ListBadType
         else do {
           let list_len = getattr_list_len - 8;
           if list_len AND 0x7 \<noteq> 0 then Some ListBadLength
           else if list_len + 8 < list_in_len then Some ListBadLength
           else Some (ListFine (unat list_off) list_len) } } } }"

text \<open>One attribute of one object, packed behind the others: the position, the room, the command.\<close>

definition getattr_one ::
  "surroundings \<Rightarrow> u64 \<Rightarrow> u32 \<Rightarrow> u32 \<Rightarrow> u8 \<Rightarrow> u64 \<Rightarrow> nat \<times> u32 \<times> command
    \<Rightarrow> (int \<times> (nat \<times> u32 \<times> command)) option" where
  "getattr_one st pid page number listfmt i = (\<lambda>(cp, list_alloc_len, cmd). do {
     (ret, (m, used), sense, osd) \<leftarrow> osd_getattr_list (s_locals st) (c_osd cmd) pid i page number cp
       list_alloc_len True listfmt (outdata cmd, s_used_outlen st) (c_sense cmd);
     let cmd = (put_outdata m cmd)\<lparr>c_sense := sense, c_osd := osd\<rparr>;
     if ret \<noteq> 0 then Some (ret, (cp, list_alloc_len, cmd\<lparr>c_senselen := ret\<rparr>))
     else Some (0, (cp + unat used, list_alloc_len - used, cmd\<lparr>get_used := get_used cmd + used\<rparr>)) })"

lemma get_ntohl_bound: "get_ntohl m off = Some v \<Longrightarrow> off + 4 \<le> length m"
  by (auto simp: get_ntohl_le_def buf_get_def split: if_splits)

function getattr_loop ::
  "surroundings \<Rightarrow> bytes \<Rightarrow> u64 \<Rightarrow> u64 \<Rightarrow> u64 \<Rightarrow> u8 \<Rightarrow> nat \<Rightarrow> u32 \<Rightarrow> nat \<times> u32 \<times> command
    \<Rightarrow> (int \<times> (nat \<times> u32 \<times> command)) option" where
  "getattr_loop st ind pid oid e listfmt list_hdr list_len s =
     (if list_len > 0 then do {
        page \<leftarrow> get_ntohl ind list_hdr;
        number \<leftarrow> get_ntohl ind (list_hdr + 4);
        (ret, s) \<leftarrow> for_oids (getattr_one st pid page number listfmt) oid e s;
        if ret \<noteq> 0 then Some (ret, s)
        else getattr_loop st ind pid oid e listfmt (list_hdr + 8) (list_len - 8) s }
      else Some (0, s))"
  by pat_completeness auto
termination
  by (relation "measure (\<lambda>(st, ind, pid, oid, e, listfmt, list_hdr, list_len, s). length ind - list_hdr)")
    (auto dest!: get_ntohl_bound)

declare getattr_loop.simps [simp del]

definition get_attr_list :: "surroundings \<Rightarrow> command \<Rightarrow> u64 \<Rightarrow> u64 \<Rightarrow> u16 \<Rightarrow> outcome" where
  "get_attr_list st cmd pid oid numoid = do {
     getattr_list_len \<leftarrow> get_ntohl (c_cdb cmd) 52;
     list_alloc_len \<leftarrow> get_ntohl (c_cdb cmd) 60;
     if getattr_list_len = 0 then Some (0, cmd)
     else if c_outdata cmd = None then bad_list_length pid oid cmd
     else do {
       c \<leftarrow> check_getattr_list cmd getattr_list_len;
       (case c of
          ListBadLength \<Rightarrow> bad_list_length pid oid cmd
        | ListBadType \<Rightarrow> bad_param_list pid oid cmd
        | ListFine list_hdr list_len \<Rightarrow> do {
            let outbuf = unat (retrieved_attr_off cmd);
            let listfmt = (if numoid > 1 then RTRVD_CREATE_MULTIOBJ_LIST else RTRVD_SET_ATTR_LIST);
            m \<leftarrow> buf_put (outdata cmd) outbuf [listfmt, 0, 0, 0];
            let cmd = begin_txn ((put_outdata m cmd)\<lparr>get_used := 8\<rparr>);
            (ret, (_, _, cmd)) \<leftarrow> getattr_loop st (indata cmd) pid oid (oid + ucast numoid) listfmt
              (list_hdr + 8) list_len (outbuf + 8, list_alloc_len - 8, cmd);
            if ret \<noteq> 0 then Some (ret, end_txn cmd)
            else do {
              m \<leftarrow> set_htonl (outdata cmd) (outbuf + 4) (get_used cmd - 8);
              Some (OSD_OK, end_txn (put_outdata m cmd)) } }) } }"

text \<open>The padding of an entry whose value has \<open>len\<close> bytes, and where the next one starts.\<close>

definition entry_pad :: "u16 \<Rightarrow> nat" where
  "entry_pad len = (8 - (LE_VAL_OFF + unat len) mod 8) mod 8"

definition entry_step :: "u16 \<Rightarrow> nat" where
  "entry_step len = LE_VAL_OFF + unat len + entry_pad len"

function setattr_loop ::
  "bytes \<Rightarrow> u64 \<Rightarrow> u64 \<Rightarrow> u64 \<Rightarrow> nat \<Rightarrow> u32 \<Rightarrow> command \<Rightarrow> outcome" where
  "setattr_loop ind pid oid e list_hdr list_len cmd =
     (if list_len > 0 then do {
        page \<leftarrow> get_ntohl ind (list_hdr + LE_PAGE_OFF);
        number \<leftarrow> get_ntohl ind (list_hdr + LE_NUMBER_OFF);
        len \<leftarrow> get_ntohs ind (list_hdr + LE_LEN_OFF);
        (ret, cmd) \<leftarrow> for_oids (\<lambda>i. on_device (\<lambda>osd. osd_set_attributes osd pid i page number
          (Some (drop (list_hdr + LE_VAL_OFF) ind)) len True)) oid e cmd;
        if ret \<noteq> 0 then Some (ret, cmd\<lparr>c_senselen := ret\<rparr>)
        else setattr_loop ind pid oid e (list_hdr + entry_step len) (list_len - of_nat (entry_step len)) cmd }
      else Some (0, cmd))"
  by pat_completeness auto
termination
  by (relation "measure (\<lambda>(ind, pid, oid, e, list_hdr, list_len, cmd). length ind - list_hdr)")
    (auto dest!: get_ntohs_bound simp: entry_step_def osd_consts)

declare setattr_loop.simps [simp del]

text \<open>The tests on the list of the attributes to set. Its offset is cut to 32 bits.\<close>

definition check_setattr_list :: "command \<Rightarrow> u32 \<Rightarrow> list_check option" where
  "check_setattr_list cmd setattr_list_len = do {
     off \<leftarrow> get_ntohoffset (c_cdb cmd) 72;
     let list_off = (ucast off :: u32);
     if unat setattr_list_len < LIST_HDR_LEN then Some ListBadLength
     else do {
       b \<leftarrow> buf_get (indata cmd) (unat list_off) 1;
       if hd b AND 0xF \<noteq> RTRVD_SET_ATTR_LIST then Some ListBadLength
       else do {
         let list_len = setattr_list_len - 8;
         if list_len AND 0x7 \<noteq> 0 then Some ListBadLength
         else Some (ListFine (unat list_off) list_len) } } }"

definition set_attr_list :: "command \<Rightarrow> u64 \<Rightarrow> u64 \<Rightarrow> u16 \<Rightarrow> outcome" where
  "set_attr_list cmd pid oid numoid = do {
     setattr_list_len \<leftarrow> get_ntohl (c_cdb cmd) 68;
     if setattr_list_len = 0 then Some (0, cmd)
     else do {
       c \<leftarrow> check_setattr_list cmd setattr_list_len;
       (case c of
          ListFine list_hdr list_len \<Rightarrow> do {
            (ret, cmd) \<leftarrow> setattr_loop (indata cmd) pid oid (oid + ucast numoid) (list_hdr + 8) list_len
              (begin_txn cmd);
            Some (ret, end_txn cmd) }
        | _ \<Rightarrow> do {
            (ret, cmd) \<leftarrow> bad_list_length pid oid cmd;
            Some (ret, cmd\<lparr>c_senselen := ret\<rparr>) }) } }"

text \<open>The lists of \<open>OSD_LIST\<close> and \<open>OSD_SET_MEMBER_ATTRIBUTES\<close>, kept in the command.\<close>

fun getattr_entries :: "bytes \<Rightarrow> nat \<Rightarrow> nat \<Rightarrow> getattr_list_entry list option" where
  "getattr_entries ind list_hdr 0 = Some []"
| "getattr_entries ind list_hdr (Suc n) = do {
     page \<leftarrow> get_ntohl ind list_hdr;
     number \<leftarrow> get_ntohl ind (list_hdr + 4);
     les \<leftarrow> getattr_entries ind (list_hdr + 8) n;
     Some (\<lparr>ga_page = page, ga_number = number\<rparr> # les) }"

definition parse_getattr_list :: "command \<Rightarrow> u64 \<Rightarrow> u64 \<Rightarrow> outcome" where
  "parse_getattr_list cmd pid oid = do {
     getattr_list_len \<leftarrow> get_ntohl (c_cdb cmd) 52;
     if getattr_list_len = 0 then Some (0, cmd)
     else do {
       c \<leftarrow> check_getattr_list cmd getattr_list_len;
       (case c of
          ListBadLength \<Rightarrow> bad_list_length pid oid cmd
        | ListBadType \<Rightarrow> bad_param_list pid oid cmd
        | ListFine list_hdr list_len \<Rightarrow> do {
            les \<leftarrow> getattr_entries (indata cmd) (list_hdr + 8) (unat list_len div 8);
            Some (0, if list_len > 0 then cmd\<lparr>c_get_attr := les\<rparr> else cmd) }) } }"

text \<open>\<open>sz\<close> is the number of entries allocated; an entry behind them is written out of bounds.\<close>

function setattr_entries :: "bytes \<Rightarrow> nat \<Rightarrow> nat \<Rightarrow> u32 \<Rightarrow> list_entry list option" where
  "setattr_entries ind sz list_hdr list_len =
     (if list_len > 0 then
        if sz = 0 then None
        else do {
          page \<leftarrow> get_ntohl ind (list_hdr + LE_PAGE_OFF);
          number \<leftarrow> get_ntohl ind (list_hdr + LE_NUMBER_OFF);
          len \<leftarrow> get_ntohs ind (list_hdr + LE_LEN_OFF);
          les \<leftarrow> setattr_entries ind (sz - 1) (list_hdr + entry_step len) (list_len - of_nat (entry_step len));
          Some (\<lparr>le_page = page, le_number = number, le_len = len,
            le_val = Some (drop (list_hdr + LE_VAL_OFF) ind)\<rparr> # les) }
      else Some [])"
  by pat_completeness auto
termination
  by (relation "measure (\<lambda>(ind, sz, list_hdr, list_len). sz)") auto

declare setattr_entries.simps [simp del]

definition parse_setattr_list :: "command \<Rightarrow> u64 \<Rightarrow> u64 \<Rightarrow> outcome" where
  "parse_setattr_list cmd pid oid = do {
     setattr_list_len \<leftarrow> get_ntohl (c_cdb cmd) 68;
     if setattr_list_len = 0 then Some (0, cmd)
     else do {
       c \<leftarrow> check_setattr_list cmd setattr_list_len;
       (case c of
          ListFine list_hdr list_len \<Rightarrow> do {
            les \<leftarrow> setattr_entries (indata cmd) (unat list_len div 16) (list_hdr + 8) list_len;
            Some (0, cmd\<lparr>c_set_attr := les\<rparr>) }
        | _ \<Rightarrow> bad_list_length pid oid cmd) } }"

section \<open>Attributes of a command\<close>

definition get_attributes :: "surroundings \<Rightarrow> command \<Rightarrow> u64 \<Rightarrow> u64 \<Rightarrow> u16 \<Rightarrow> outcome" where
  "get_attributes st cmd pid oid numoid =
     (if numoid < 1 then bad_cdb pid oid cmd
      else if getset_cdbfmt cmd = GETPAGE_SETVALUE then get_attr_page cmd pid oid numoid
      else if getset_cdbfmt cmd = GETLIST_SETLIST then get_attr_list st cmd pid oid numoid
      else if getset_cdbfmt cmd = GETFIELD_SETVALUE then Some (0, cmd)
      else bad_cdb pid oid cmd)"

definition set_attributes :: "command \<Rightarrow> u64 \<Rightarrow> u64 \<Rightarrow> u32 \<Rightarrow> outcome" where
  "set_attributes cmd pid oid numoid =
     (if numoid < 1 then bad_cdb pid oid cmd
      else if getset_cdbfmt cmd = GETPAGE_SETVALUE then set_attr_value cmd pid oid (ucast numoid)
      else if getset_cdbfmt cmd = GETLIST_SETLIST then set_attr_list cmd pid oid (ucast numoid)
      else if getset_cdbfmt cmd = GETFIELD_SETVALUE then set_one_attr_value cmd pid oid (ucast numoid)
      else bad_cdb pid oid cmd)"

definition std_get_set_attr :: "surroundings \<Rightarrow> command \<Rightarrow> u64 \<Rightarrow> u64 \<Rightarrow> outcome" where
  "std_get_set_attr st cmd pid oid = do {
     (ret, cmd) \<leftarrow> set_attributes cmd pid oid 1;
     if ret \<noteq> 0 then Some (ret, cmd) else get_attributes st cmd pid oid 1 }"

end
