(* ===== verification/Cdb_Exec.thy ===== *)
theory Cdb_Exec
  imports Cdb_Attr
begin

text \<open>
  The commands of \<^verbatim>\<open>osd-target/cdb.c\<close>: every service action decodes its parameters from the
  descriptor block, calls the device and then sets and gets the attributes that come with it; the
  continuation of the descriptor block; the entry point.
\<close>

section \<open>Creating and removing\<close>

definition pid_of :: "command \<Rightarrow> u64 option" where "pid_of cmd = get_ntohll (c_cdb cmd) 16"
definition oid_of :: "command \<Rightarrow> u64 option" where "oid_of cmd = get_ntohll (c_cdb cmd) 24"
definition len_of :: "command \<Rightarrow> u64 option" where "len_of cmd = get_ntohll (c_cdb cmd) 32"
definition offset_of :: "command \<Rightarrow> u64 option" where "offset_of cmd = get_ntohll (c_cdb cmd) 40"

text \<open>A local sense buffer that is dropped: only its size matters.\<close>

definition local_sense :: bytes where
  "local_sense = replicate OSD_MAX_SENSE 0"

definition remove_quietly :: "u64 \<Rightarrow> u64 \<Rightarrow> command \<Rightarrow> (int \<times> command) option" where
  "remove_quietly pid i cmd = do {
     (_, _, osd) \<leftarrow> osd_remove (c_osd cmd) pid i local_sense;
     Some (0, cmd\<lparr>c_osd := osd\<rparr>) }"

text \<open>
  The source descriptor of a copy. Its specific part is only set for a query list; the identifiers
  behind an unset pointer are arguments of the model.
\<close>

definition copy_source :: "command \<Rightarrow> descriptor option" where
  "copy_source cmd = (case c_cont cmd of
       [d] \<Rightarrow> if d_type d \<noteq> COPY_USER_OBJECT_SOURCE then Some d else None
     | [d, d'] \<Rightarrow>
         if d_type d = COPY_USER_OBJECT_SOURCE \<and> d_type d' = EXTENSION_CAPABILITIES then Some d
         else if d_type d' = COPY_USER_OBJECT_SOURCE \<and> d_type d = EXTENSION_CAPABILITIES then Some d'
         else None
     | _ \<Rightarrow> None)"

definition cdb_copy_user_objects :: "surroundings \<Rightarrow> command \<Rightarrow> outcome" where
  "cdb_copy_user_objects st cmd = do {
     pid \<leftarrow> pid_of cmd;
     requested_oid \<leftarrow> oid_of cmd;
     (case copy_source cmd of
        None \<Rightarrow> bad_cdb pid requested_oid cmd
      | Some d \<Rightarrow>
          if d_length d \<noteq> 18 then bad_cdb pid requested_oid cmd
          else do {
            (source_pid, source_oid) \<leftarrow> (case d_off d of
                None \<Rightarrow> Some (s_cuos st)
              | Some off \<Rightarrow> do {
                  p \<leftarrow> get_ntohll (indata cmd) off;
                  oid \<leftarrow> get_ntohll (indata cmd) (off + 8);
                  Some (p, oid) });
            (_, cmd) \<leftarrow> on_device (\<lambda>osd. osd_copy_user_objects osd pid requested_oid source_pid source_oid) cmd;
            bad_cdb pid requested_oid cmd }) }"

definition cdb_create :: "surroundings \<Rightarrow> command \<Rightarrow> outcome" where
  "cdb_create st cmd = do {
     pid \<leftarrow> pid_of cmd;
     requested_oid \<leftarrow> oid_of cmd;
     numoid \<leftarrow> get_ntohs (c_cdb cmd) 32;
     page \<leftarrow> get_ntohl (c_cdb cmd) 52;
     if numoid > 1 \<and> getset_cdbfmt cmd = GETPAGE_SETVALUE \<and> page \<noteq> CUR_CMD_ATTR_PG
     then bad_cdb pid requested_oid cmd
     else do {
       (ret, cmd) \<leftarrow> on_device (\<lambda>osd. osd_create osd pid requested_oid numoid) (begin_txn cmd);
       let cmd = end_txn cmd;
       if ret \<noteq> 0 then Some (ret, cmd)
       else do {
         let numoid = (if numoid = 0 then 1 else numoid);
         let oid = osd_get_created_oid (c_osd cmd) (ucast numoid);
         (ret, cmd) \<leftarrow> set_attributes cmd pid oid (ucast numoid);
         (ret, cmd) \<leftarrow> (if ret \<noteq> 0 then Some (ret, cmd) else get_attributes st cmd pid oid numoid);
         if ret \<noteq> 0 then do {
           (_, cmd) \<leftarrow> for_oids (remove_quietly pid) oid (oid + ucast numoid) cmd;
           Some (ret, cmd) }
         else Some (ret, cmd) } } }"

text \<open>
  The attributes of what has just been created; an error removes it with \<open>osd_remove\<close>, which
  refuses a partition.
\<close>

definition attributes_or_remove :: "surroundings \<Rightarrow> u64 \<Rightarrow> u64 \<Rightarrow> command \<Rightarrow> outcome" where
  "attributes_or_remove st pid oid cmd = do {
     (ret, cmd) \<leftarrow> std_get_set_attr st cmd pid oid;
     if ret \<noteq> 0 then do {
       (_, cmd) \<leftarrow> remove_quietly pid oid cmd;
       Some (ret, cmd) }
     else Some (ret, cmd) }"

text \<open>The sense data of \<open>osd_create_collection\<close> go to a local buffer.\<close>

definition cdb_create_collection :: "surroundings \<Rightarrow> command \<Rightarrow> outcome" where
  "cdb_create_collection st cmd = do {
     pid \<leftarrow> pid_of cmd;
     requested_cid \<leftarrow> oid_of cmd;
     (ret, _, osd) \<leftarrow> osd_create_collection (c_osd cmd) pid requested_cid local_sense;
     let cmd = cmd\<lparr>c_osd := osd\<rparr>;
     if ret \<noteq> 0 then Some (ret, cmd)
     else attributes_or_remove st pid (ccap_oid (ccap osd)) cmd }"

definition cdb_create_partition :: "surroundings \<Rightarrow> command \<Rightarrow> outcome" where
  "cdb_create_partition st cmd = do {
     requested_pid \<leftarrow> pid_of cmd;
     (ret, cmd) \<leftarrow> on_device (\<lambda>osd. osd_create_partition osd requested_pid) cmd;
     if ret \<noteq> 0 then Some (ret, cmd)
     else attributes_or_remove st (ccap_pid (ccap (c_osd cmd))) PARTITION_OID cmd }"

definition cdb_remove_partition :: "surroundings \<Rightarrow> command \<Rightarrow> outcome" where
  "cdb_remove_partition st cmd = do {
     pid \<leftarrow> pid_of cmd;
     (ret, cmd) \<leftarrow> std_get_set_attr st cmd pid PARTITION_OID;
     if ret \<noteq> 0 then Some (ret, cmd)
     else on_device (\<lambda>osd. osd_remove_partition osd pid) cmd }"

definition cdb_remove :: "surroundings \<Rightarrow> command \<Rightarrow> outcome" where
  "cdb_remove st cmd = do {
     pid \<leftarrow> pid_of cmd;
     oid \<leftarrow> oid_of cmd;
     (ret, cmd) \<leftarrow> std_get_set_attr st cmd pid oid;
     if ret \<noteq> 0 then Some (ret, cmd)
     else on_device (\<lambda>osd. osd_remove osd pid oid) cmd }"

section \<open>Query, data and lists\<close>

definition query_desc :: "command \<Rightarrow> u64 \<Rightarrow> descriptor option" where
  "query_desc cmd matches_cid =
     (if matches_cid = 0 then
        (case c_cont cmd of [d] \<Rightarrow> if d_type d = QUERY_LIST then Some d else None | _ \<Rightarrow> None)
      else
        (case c_cont cmd of
           [d, d'] \<Rightarrow>
             if d_type d = QUERY_LIST \<and> d_type d' = EXTENSION_CAPABILITIES then Some d
             else if d_type d' = QUERY_LIST \<and> d_type d = EXTENSION_CAPABILITIES then Some d'
             else None
         | _ \<Rightarrow> None))"

definition cdb_query :: "command \<Rightarrow> u64 \<Rightarrow> u64 \<Rightarrow> outcome" where
  "cdb_query cmd pid cid = do {
     alloc_len \<leftarrow> len_of cmd;
     matches_cid \<leftarrow> offset_of cmd;
     (case query_desc cmd matches_cid of
        None \<Rightarrow> bad_cdb pid cid cmd
      | Some d \<Rightarrow> (case d_off d of
            None \<Rightarrow> None
          | Some off \<Rightarrow> with_output (\<lambda>osd out. osd_query osd pid cid (d_length d) alloc_len (indata cmd) off 0 out)
              cmd)) }"

text \<open>
  The scatter/gather list of a descriptor. It is decoded at once; a list that reaches beyond the
  data is undefined.
\<close>

fun sg_entries :: "bytes \<Rightarrow> nat \<Rightarrow> nat \<Rightarrow> sg_list_entry list option" where
  "sg_entries ind off 0 = Some []"
| "sg_entries ind off (Suc n) = do {
     sg_off \<leftarrow> get_ntohll ind off;
     bytes \<leftarrow> get_ntohll ind (off + 8);
     es \<leftarrow> sg_entries ind (off + 16) n;
     Some (\<lparr>sg_offset = sg_off, bytes_to_transfer = bytes\<rparr> # es) }"

definition sglist_of :: "surroundings \<Rightarrow> command \<Rightarrow> descriptor \<Rightarrow> sg_list_entry list option" where
  "sglist_of st cmd d =
     (case d_off d of
        Some off \<Rightarrow> if d_type d = SCATTER_GATHER_LIST
          then sg_entries (indata cmd) off (unat (d_length d) div 16) else Some (s_sglist st)
      | None \<Rightarrow> Some (s_sglist st))"

text \<open>
  How a transfer is described: the list, where the data starts behind the continuation, the kind.
\<close>

definition transfer_kind :: "surroundings \<Rightarrow> command \<Rightarrow> u32 \<Rightarrow> (sg_list_entry list \<times> nat \<times> u8) option" where
  "transfer_kind st cmd cdb_cont_len = (case c_cont cmd of
       [d] \<Rightarrow> do {
         es \<leftarrow> sglist_of st cmd d;
         Some (es, unat cdb_cont_len, DDT_SGL) }
     | _ \<Rightarrow> Some ([], 0, DDT_CONTIG))"

text \<open>At most one descriptor, and that a scatter/gather list.\<close>

definition bad_descriptors :: "command \<Rightarrow> bool" where
  "bad_descriptors cmd = (case c_cont cmd of
       [] \<Rightarrow> False | [d] \<Rightarrow> d_type d \<noteq> SCATTER_GATHER_LIST | _ \<Rightarrow> True)"

definition sense_test_type :: "bytes \<Rightarrow> u8 \<Rightarrow> u16 \<Rightarrow> bool option" where
  "sense_test_type sense key code = do {
     b \<leftarrow> buf_get sense 1 3;
     Some (b = [key, ASC code, ASCQ code]) }"

text \<open>A recovered error is kept and returned after the attributes.\<close>

definition cdb_read :: "surroundings \<Rightarrow> command \<Rightarrow> u32 \<Rightarrow> outcome" where
  "cdb_read st cmd cdb_cont_len = do {
     pid \<leftarrow> pid_of cmd;
     oid \<leftarrow> oid_of cmd;
     len \<leftarrow> len_of cmd;
     offset \<leftarrow> offset_of cmd;
     if bad_descriptors cmd then bad_cdb pid oid cmd
     else do {
       (sglist, _, ddt) \<leftarrow> transfer_kind st cmd cdb_cont_len;
       (ret, cmd) \<leftarrow> with_output (\<lambda>osd (m, used) sense.
         osd_read_device osd pid oid len offset [] 0 m 0 used sglist sense ddt) cmd;
       recovered \<leftarrow> (if ret \<noteq> 0
         then sense_test_type (c_sense cmd) OSD_SSK_RECOVERED_ERROR OSD_ASC_READ_PAST_END_OF_USER_OBJECT
         else Some True);
       if \<not> recovered then Some (ret, cmd)
       else do {
         (ret', cmd) \<leftarrow> std_get_set_attr st cmd pid oid;
         Some (if ret' \<noteq> 0 then ret' else ret, cmd) } } }"

definition cdb_read_map :: "surroundings \<Rightarrow> command \<Rightarrow> outcome" where
  "cdb_read_map st cmd = do {
     pid \<leftarrow> pid_of cmd;
     oid \<leftarrow> oid_of cmd;
     alloc_len \<leftarrow> len_of cmd;
     offset \<leftarrow> offset_of cmd;
     map_type \<leftarrow> get_ntohs (c_cdb cmd) 48;
     (ret, cmd) \<leftarrow> std_get_set_attr st cmd pid oid;
     if ret \<noteq> 0 then Some (ret, cmd)
     else with_output (\<lambda>osd (m, used). osd_read_map osd pid oid alloc_len offset map_type m 0 used) cmd }"

definition byte_at :: "command \<Rightarrow> nat \<Rightarrow> u8 option" where
  "byte_at cmd i = do { b \<leftarrow> buf_get (c_cdb cmd) i 1; Some (hd b) }"

definition list_attr_flag :: "u8 \<Rightarrow> u8" where
  "list_attr_flag b = drop_bit 6 (b AND 0x40)"

definition cdb_list :: "command \<Rightarrow> outcome" where
  "cdb_list cmd = do {
     b \<leftarrow> byte_at cmd 11;
     pid \<leftarrow> pid_of cmd;
     list_id \<leftarrow> get_ntohl (c_cdb cmd) 48;
     alloc_len \<leftarrow> len_of cmd;
     initial_oid \<leftarrow> offset_of cmd;
     if getset_cdbfmt cmd = GETPAGE_SETVALUE then bad_cdb pid initial_oid cmd
     else if b AND 0x0F \<noteq> 0 then bad_cdb pid initial_oid cmd
     else do {
       (ret, cmd) \<leftarrow> parse_getattr_list cmd pid initial_oid;
       if ret \<noteq> 0 then bad_cdb pid initial_oid cmd
       else with_output (\<lambda>osd out. osd_list osd (list_attr_flag b) pid alloc_len initial_oid (c_get_attr cmd)
         list_id 0 out) cmd } }"

definition cdb_list_collection :: "surroundings \<Rightarrow> command \<Rightarrow> outcome" where
  "cdb_list_collection st cmd = do {
     b \<leftarrow> byte_at cmd 11;
     pid \<leftarrow> pid_of cmd;
     cid \<leftarrow> oid_of cmd;
     list_id \<leftarrow> get_ntohl (c_cdb cmd) 48;
     alloc_len \<leftarrow> len_of cmd;
     initial_oid \<leftarrow> offset_of cmd;
     (ret, cmd) \<leftarrow> with_output (\<lambda>osd out. osd_list_collection osd (list_attr_flag b) pid cid alloc_len
       initial_oid (c_get_attr cmd) list_id 0 out) cmd;
     if ret \<noteq> 0 then Some (ret, cmd) else std_get_set_attr st cmd pid cid }"

definition cdb_set_member_attributes :: "command \<Rightarrow> outcome" where
  "cdb_set_member_attributes cmd = do {
     pid \<leftarrow> pid_of cmd;
     cid \<leftarrow> oid_of cmd;
     (ret, cmd) \<leftarrow> parse_setattr_list cmd pid cid;
     if ret \<noteq> 0 then bad_cdb pid cid cmd
     else on_device (\<lambda>osd. osd_set_member_attributes osd pid cid (c_set_attr cmd)) cmd }"

section \<open>Atomic operations\<close>

definition cdb_cas :: "surroundings \<Rightarrow> command \<Rightarrow> outcome" where
  "cdb_cas st cmd = do {
     pid \<leftarrow> pid_of cmd;
     oid \<leftarrow> oid_of cmd;
     len \<leftarrow> len_of cmd;
     off \<leftarrow> offset_of cmd;
     if c_outdata cmd = None \<or> c_indata cmd = None then bad_cdb pid oid cmd
     else if len < 8 then bad_cdb pid oid cmd
     else do {
       cmp \<leftarrow> get_ntohll (indata cmd) 0;
       swap \<leftarrow> get_ntohll (indata cmd) 8;
       (ret, cmd) \<leftarrow> with_output (\<lambda>osd (m, used). osd_cas (s_host st) osd pid oid cmp swap m (unat off) used) cmd;
       if ret \<noteq> 0 then Some (ret, cmd) else std_get_set_attr st cmd pid oid } }"

definition cdb_fa :: "surroundings \<Rightarrow> command \<Rightarrow> outcome" where
  "cdb_fa st cmd = do {
     pid \<leftarrow> pid_of cmd;
     oid \<leftarrow> oid_of cmd;
     len \<leftarrow> len_of cmd;
     off \<leftarrow> offset_of cmd;
     if c_outdata cmd = None \<or> c_indata cmd = None then bad_cdb pid oid cmd
     else if len < 8 then bad_cdb pid oid cmd
     else do {
       add \<leftarrow> get_ntohll (indata cmd) 0;
       (ret, cmd) \<leftarrow> with_output (\<lambda>osd (m, used). osd_fa (s_host st) osd pid oid add m (unat off) used) cmd;
       if ret \<noteq> 0 then Some (ret, cmd) else std_get_set_attr st cmd pid oid } }"

text \<open>
  The entries of the list of a general compare-and-swap have their length at 8 and their value at
  10, unlike the entries of the other lists; they are as long as those.
\<close>

definition cas_entry :: "bytes \<Rightarrow> nat \<Rightarrow> (u32 \<times> u32 \<times> u16 \<times> bytes) option" where
  "cas_entry ind list_pos = do {
     page \<leftarrow> get_ntohl ind list_pos;
     number \<leftarrow> get_ntohl ind (list_pos + 4);
     len \<leftarrow> get_ntohs ind (list_pos + 8);
     Some (page, number, len, drop (list_pos + 10) ind) }"

text \<open>What a compare-and-swap leaves for the rest of the command.\<close>

record cas_result =
  cas_list :: nat
  cas_list_len :: u32
  orig_page :: u32
  orig_number :: u32
  orig :: "bytes option"
  orig_len :: u16
  cas_res :: bool

text \<open>
  \<open>exec_gen_cas\<close>. An error before the call of the device returns with \<open>orig\<close> uninitialised, which
  the caller then frees: undefined. The inner result is none on an error of the device.
\<close>

definition exec_gen_cas ::
  "surroundings \<Rightarrow> command \<Rightarrow> u64 \<Rightarrow> u64 \<Rightarrow> nat \<Rightarrow> (int \<times> cas_result option \<times> command) option" where
  "exec_gen_cas st cmd pid oid list_pos = do {
     setattr_list_len \<leftarrow> get_ntohl (c_cdb cmd) 68;
     if unat setattr_list_len < LIST_HDR_LEN then None
     else do {
       b \<leftarrow> buf_get (indata cmd) list_pos 1;
       list_len \<leftarrow> get_ntohl (indata cmd) (list_pos + 4);
       if hd b AND 0xF \<noteq> RTRVD_SET_ATTR_LIST \<or> list_len + 8 \<noteq> setattr_list_len \<or> list_len AND 0x7 \<noteq> 0
       then None
       else do {
         let pos = list_pos + 8;
         (page, number, cmp_len, cmp) \<leftarrow> cas_entry (indata cmd) pos;
         let cmp = (if cmp_len = 0 then None else Some cmp);
         let pos = pos + entry_step cmp_len;
         let list_len = list_len - of_nat (entry_step cmp_len);
         if unat list_len < LE_VAL_OFF then None
         else do {
           (_, _, swap_len, swap) \<leftarrow> cas_entry (indata cmd) pos;
           let swap = (if swap_len = 0 then None else Some swap);
           let pos = pos + entry_step swap_len;
           let list_len = list_len - of_nat (entry_step swap_len);
           (ret, orig, sense, osd) \<leftarrow> osd_gen_cas (s_val st) (s_valen st) (c_osd cmd) pid oid page number
             cmp cmp_len swap swap_len (c_sense cmd);
           let cmd = cmd\<lparr>c_sense := sense, c_osd := osd\<rparr>;
           if ret \<noteq> OSD_OK then Some (ret, None, cmd\<lparr>c_senselen := ret\<rparr>)
           else do {
             let (ov, n) = (case orig of None \<Rightarrow> (None, 0) | Some (v, n) \<Rightarrow> (Some v, n));
             res \<leftarrow> (if n = unat cmp_len
               then same_bytes cmp (case ov of None \<Rightarrow> [] | Some v \<Rightarrow> v) n else Some False);
             Some (OSD_OK, Some \<lparr>cas_list = pos, cas_list_len = list_len, orig_page = page,
               orig_number = number, orig = ov, orig_len = of_nat n, cas_res = res\<rparr>, cmd) } } } } }"

function cas_setattr_loop :: "bytes \<Rightarrow> u64 \<Rightarrow> u64 \<Rightarrow> nat \<Rightarrow> u32 \<Rightarrow> command \<Rightarrow> outcome" where
  "cas_setattr_loop ind pid oid list_pos list_len cmd =
     (if list_len > 0 then do {
        (page, number, len, val) \<leftarrow> cas_entry ind list_pos;
        (ret, cmd) \<leftarrow> on_device (\<lambda>osd. osd_set_attributes osd pid oid page number (Some val) len True) cmd;
        if ret \<noteq> 0 then Some (ret, cmd\<lparr>c_senselen := ret\<rparr>)
        else cas_setattr_loop ind pid oid (list_pos + entry_step len) (list_len - of_nat (entry_step len)) cmd }
      else Some (OSD_OK, cmd))"
  by pat_completeness auto
termination
  by (relation "measure (\<lambda>(ind, pid, oid, list_pos, list_len, cmd). length ind - list_pos)")
    (auto dest!: get_ntohl_bound simp: cas_entry_def entry_step_def osd_consts split: Option.bind_splits)

declare cas_setattr_loop.simps [simp del]

definition exec_cas_setattr :: "command \<Rightarrow> u64 \<Rightarrow> u64 \<Rightarrow> nat \<Rightarrow> u32 \<Rightarrow> outcome" where
  "exec_cas_setattr cmd pid oid list_pos list_len =
     (if unat list_len < LE_VAL_OFF then bad_cdb pid oid cmd
      else cas_setattr_loop (indata cmd) pid oid list_pos list_len cmd)"

text \<open>
  The attributes to get, with the original value in front of them. The flag says whether the original
  value has been freed.
\<close>

definition exec_getattr ::
  "surroundings \<Rightarrow> command \<Rightarrow> u64 \<Rightarrow> u64 \<Rightarrow> cas_result \<Rightarrow> (bool \<times> int \<times> command) option" where
  "exec_getattr st cmd pid oid r = do {
     alloc_len \<leftarrow> get_ntohl (c_cdb cmd) 60;
     let off = unat (retrieved_attr_off cmd);
     let orig_le_len = roundup8 (of_nat LE_VAL_OFF + ucast (orig_len r));
     if alloc_len - 8 < orig_le_len
     then map_option (\<lambda>(ret, cmd). (False, ret, cmd)) (bad_cdb pid oid cmd)
     else do {
       let old = retrieved_attr_off cmd;
       let inner = old + ucast orig_le_len;
       m \<leftarrow> buf_zero (outdata cmd) (unat inner) LIST_HDR_LEN;
       cdb \<leftarrow> set_htonl (c_cdb cmd) 60 (alloc_len - orig_le_len);
       (ret, cmd) \<leftarrow> get_attributes st ((put_outdata m cmd)\<lparr>c_cdb := cdb, retrieved_attr_off := inner\<rparr>) pid oid 1;
       let cmd = cmd\<lparr>retrieved_attr_off := old\<rparr>;
       if ret \<noteq> OSD_OK then Some (False, ret, cmd)
       else do {
         m \<leftarrow> buf_put (outdata cmd) (unat inner) [RTRVD_SET_ATTR_LIST];
         hdr \<leftarrow> buf_get m (unat inner) LIST_HDR_LEN;
         m \<leftarrow> buf_put m off hdr;
         (ret, m) \<leftarrow> (if orig r \<noteq> None \<and> orig_len r > 0
           then le_pack_attr 0 m (off + LIST_HDR_LEN) (alloc_len - of_nat LIST_HDR_LEN) (orig_page r)
             (orig_number r) (orig_len r) (orig r)
           else le_pack_attr 0 m (off + LIST_HDR_LEN) (alloc_len - of_nat LIST_HDR_LEN) (orig_page r)
             (orig_number r) 0 None);
         let freed = (orig r \<noteq> None \<and> orig_len r > 0);
         let cmd = put_outdata m cmd;
         if ret \<le> 0 then map_option (\<lambda>(ret, cmd). (freed, ret, cmd)) (bad_cdb pid oid cmd)
         else do {
           list_len \<leftarrow> get_ntohl m (off + 4);
           let list_len = list_len + orig_le_len;
           m \<leftarrow> set_htonl m (off + 4) list_len;
           Some (freed, OSD_OK, (put_outdata m cmd)\<lparr>get_used := get_used cmd + (list_len + 8)\<rparr>) } } } }"

text \<open>
  \<open>orig\<close> has no initial value: a command in another format frees whatever it holds. After an error the
  original value is freed; the second time if \<open>exec_getattr\<close> has freed it already.
\<close>

definition cdb_gen_cas :: "surroundings \<Rightarrow> command \<Rightarrow> u16 \<Rightarrow> outcome" where
  "cdb_gen_cas st cmd osd_cmd = do {
     pid \<leftarrow> pid_of cmd;
     oid \<leftarrow> oid_of cmd;
     list_off \<leftarrow> get_ntohoffset (c_cdb cmd) 72;
     if getset_cdbfmt cmd \<noteq> GETLIST_SETLIST then None
     else do {
       (ret, r, cmd) \<leftarrow> exec_gen_cas st cmd pid oid (unat (ucast list_off :: u32));
       (case r of
          None \<Rightarrow> Some (ret, cmd)
        | Some r \<Rightarrow> do {
            (ret, cmd) \<leftarrow>
              (if osd_cmd = OSD_GEN_CAS \<and> cas_list_len r = 0 \<or>
                  osd_cmd = OSD_COND_SETATTR \<and> (cas_list_len r = 0 \<or> \<not> cas_res r)
               then Some (OSD_OK, cmd)
               else exec_cas_setattr cmd pid oid (cas_list r) (cas_list_len r));
            if ret \<noteq> OSD_OK then Some (ret, cmd)
            else do {
              (freed, ret, cmd) \<leftarrow> exec_getattr st cmd pid oid r;
              if ret = OSD_OK then Some (ret, cmd)
              else if freed then None
              else bad_cdb pid oid cmd } }) } }"

end
