(* ===== verification/Cdb_Submit.thy ===== *)
theory Cdb_Submit
  imports Cdb_Exec
begin

text \<open>
  The entry point of \<^verbatim>\<open>osd-target/cdb.c\<close>: the continuation of the descriptor block, the dispatch on
  the service action, the size of the output and the status that is returned.
\<close>

section \<open>The continuation\<close>

text \<open>
  The loop over the descriptors. The length of a descriptor is computed in 32 bits: one whose sum
  with the header is \<open>2 ^ 32\<close> has length 0, and the loop stays where it is.
\<close>

definition desc_hdr_size :: nat where "desc_hdr_size = 8"

text \<open>One descriptor: its length and the entry that is added, or an error.\<close>

definition parse_descriptor :: "bytes \<Rightarrow> nat \<Rightarrow> nat \<Rightarrow> (descriptor \<times> u32 option) option" where
  "parse_descriptor ind cont_end pos = do {
     ty \<leftarrow> get_ntohs ind pos;
     pad \<leftarrow> buf_get ind (pos + 3) 1;
     len \<leftarrow> get_ntohl ind (pos + 4);
     let pad_length = hd pad AND 0x7;
     let desc_len = len + ucast pad_length;
     let d = \<lparr>d_type = ty, d_length = len, d_off = None\<rparr>;
     let total = desc_len + of_nat desc_hdr_size;
     if desc_len AND 0x7 \<noteq> 0 then Some (d, None)
     else if pos + unat total > cont_end then Some (d, None)
     else if ty = NO_MORE_DESCRIPTORS then Some (d, Some total)
     else if ty = SCATTER_GATHER_LIST \<or> ty = QUERY_LIST then
       Some (d\<lparr>d_off := Some (pos + desc_hdr_size)\<rparr>, if pad_length \<noteq> 0 then None else Some total)
     else Some (d, None) }"

partial_function (option) parse_descriptors ::
  "bytes \<Rightarrow> nat \<Rightarrow> nat \<Rightarrow> descriptor list \<Rightarrow> (bool \<times> descriptor list) option" where
  "parse_descriptors ind cont_end pos ds =
     (if pos < cont_end then do {
        (d, len) \<leftarrow> parse_descriptor ind cont_end pos;
        (case len of
           None \<Rightarrow> Some (False, ds @ [d])
         | Some n \<Rightarrow> parse_descriptors ind cont_end (pos + unat n) (ds @ [d])) }
      else Some (True, ds))"

definition parse_cdb_continuation_segment :: "command \<Rightarrow> u32 \<Rightarrow> u64 \<Rightarrow> u64 \<Rightarrow> outcome" where
  "parse_cdb_continuation_segment cmd cdb_cont_len pid oid = do {
     fmt \<leftarrow> buf_get (indata cmd) 0 1;
     cont_action \<leftarrow> get_ntohs (indata cmd) 2;
     if cdb_cont_len mod 8 \<noteq> 0 \<or> cdb_cont_len < 48 then bad_cdb pid oid cmd
     else if cont_action \<noteq> c_action cmd then bad_cdb pid oid cmd
     else if hd fmt \<noteq> 1 then bad_cdb pid oid cmd
     else do {
       (ok, ds) \<leftarrow> parse_descriptors (indata cmd) (unat cdb_cont_len) 40 (c_cont cmd);
       let cmd = cmd\<lparr>c_cont := ds\<rparr>;
       if ok then Some (OSD_OK, cmd) else bad_cdb pid oid cmd } }"

section \<open>The service actions\<close>

definition verify_enough_input_data :: "command \<Rightarrow> u64 \<Rightarrow> outcome" where
  "verify_enough_input_data cmd cdblen =
     (if cdblen > c_inlen cmd then do {
        (ret, sense) \<leftarrow> osd_error_bad_cdb (c_sense cmd);
        Some (ret, cmd\<lparr>c_sense := sense\<rparr>) }
      else Some (0, cmd))"

definition check_no_continuations :: "command \<Rightarrow> u32 \<Rightarrow> u64 \<Rightarrow> u64 \<Rightarrow> outcome" where
  "check_no_continuations cmd cdb_cont_len pid oid =
     (if cdb_cont_len \<noteq> 0 then bad_cdb pid oid cmd else Some (0, cmd))"

text \<open>\<open>ret = a; if (ret) break; b\<close>.\<close>

definition and_then :: "outcome \<Rightarrow> (command \<Rightarrow> outcome) \<Rightarrow> outcome" where
  "and_then a b = do { (ret, cmd) \<leftarrow> a; if ret \<noteq> 0 then Some (ret, cmd) else b cmd }"

definition unimplemented :: "command \<Rightarrow> outcome" where
  "unimplemented cmd = do {
     (ret, sense) \<leftarrow> osd_error_unimplemented (c_action cmd) (c_sense cmd);
     Some (ret, cmd\<lparr>c_sense := sense\<rparr>) }"

text \<open>
  Writing. Descriptors of the wrong kind put an error into the sense buffer, and the command goes on.
\<close>

definition warn_descriptors :: "u64 \<Rightarrow> u64 \<Rightarrow> command \<Rightarrow> command option" where
  "warn_descriptors pid oid cmd =
     (if bad_descriptors cmd then map_option snd (bad_cdb pid oid cmd) else Some cmd)"

definition exec_create_and_write :: "surroundings \<Rightarrow> command \<Rightarrow> u32 \<Rightarrow> outcome" where
  "exec_create_and_write st cmd cdb_cont_len = do {
     pid \<leftarrow> pid_of cmd;
     oid \<leftarrow> oid_of cmd;
     len \<leftarrow> len_of cmd;
     offset \<leftarrow> offset_of cmd;
     and_then (verify_enough_input_data cmd len) (\<lambda>cmd. do {
       cmd \<leftarrow> warn_descriptors pid oid cmd;
       (sglist, dinbuf, ddt) \<leftarrow> transfer_kind st cmd cdb_cont_len;
       on_device (\<lambda>osd sense. osd_create_and_write osd pid oid len offset (indata cmd) dinbuf sglist sense ddt) cmd }) }"

definition exec_write :: "surroundings \<Rightarrow> command \<Rightarrow> u32 \<Rightarrow> outcome" where
  "exec_write st cmd cdb_cont_len = do {
     pid \<leftarrow> pid_of cmd;
     oid \<leftarrow> oid_of cmd;
     len \<leftarrow> len_of cmd;
     offset \<leftarrow> offset_of cmd;
     and_then (verify_enough_input_data cmd len) (\<lambda>cmd. do {
       cmd \<leftarrow> warn_descriptors pid oid cmd;
       (sglist, dinbuf, ddt) \<leftarrow> transfer_kind st cmd cdb_cont_len;
       and_then (on_device (\<lambda>osd sense. osd_write osd pid oid len offset (indata cmd) dinbuf sglist sense ddt) cmd)
         (\<lambda>cmd. std_get_set_attr st cmd pid oid) }) }"

definition exec_append :: "surroundings \<Rightarrow> command \<Rightarrow> u32 \<Rightarrow> outcome" where
  "exec_append st cmd cdb_cont_len = do {
     pid \<leftarrow> pid_of cmd;
     oid \<leftarrow> oid_of cmd;
     len \<leftarrow> len_of cmd;
     and_then (verify_enough_input_data cmd len) (\<lambda>cmd.
       and_then (check_no_continuations cmd cdb_cont_len pid oid) (\<lambda>cmd.
         and_then (on_device (\<lambda>osd sense. osd_append osd pid oid len (indata cmd) 0 cdb_cont_len sense DDT_CONTIG) cmd)
           (\<lambda>cmd. std_get_set_attr st cmd pid oid))) }"

text \<open>Clearing and punching: a command on a range of an object.\<close>

definition exec_range ::
  "surroundings \<Rightarrow> command \<Rightarrow> u32 \<Rightarrow> (osd_device \<Rightarrow> u64 \<Rightarrow> u64 \<Rightarrow> u64 \<Rightarrow> u64 \<Rightarrow> bytes \<Rightarrow> answer option) \<Rightarrow> outcome" where
  "exec_range st cmd cdb_cont_len f = do {
     pid \<leftarrow> pid_of cmd;
     oid \<leftarrow> oid_of cmd;
     len \<leftarrow> len_of cmd;
     offset \<leftarrow> offset_of cmd;
     and_then (check_no_continuations cmd cdb_cont_len pid oid) (\<lambda>cmd.
       and_then (on_device (\<lambda>osd. f osd pid oid len offset) cmd) (\<lambda>cmd. std_get_set_attr st cmd pid oid)) }"

text \<open>A command whose only parameters are two identifiers and no continuation is allowed.\<close>

definition no_continuation :: "command \<Rightarrow> u32 \<Rightarrow> (u64 \<Rightarrow> u64 \<Rightarrow> command \<Rightarrow> outcome) \<Rightarrow> outcome" where
  "no_continuation cmd cdb_cont_len f = do {
     pid \<leftarrow> pid_of cmd;
     oid \<leftarrow> oid_of cmd;
     and_then (check_no_continuations cmd cdb_cont_len pid oid) (f pid oid) }"

text \<open>The switch over the service action, in the order of its cases.\<close>

definition exec_member_to_cond :: "surroundings \<Rightarrow> command \<Rightarrow> u32 \<Rightarrow> outcome" where
  "exec_member_to_cond st cmd n =
     (let action = c_action cmd in
      if action = OSD_SET_MEMBER_ATTRIBUTES then no_continuation cmd n (\<lambda>_ _. cdb_set_member_attributes)
      else if action = OSD_WRITE then exec_write st cmd n
      else if action = OSD_CAS then cdb_cas st cmd
      else if action = OSD_FA then cdb_fa st cmd
      else if action = OSD_GEN_CAS then cdb_gen_cas st cmd OSD_GEN_CAS
      else if action = OSD_COND_SETATTR then cdb_gen_cas st cmd OSD_COND_SETATTR
      else unimplemented cmd)"

definition exec_remove_to_set_key :: "surroundings \<Rightarrow> command \<Rightarrow> u32 \<Rightarrow> outcome" where
  "exec_remove_to_set_key st cmd n =
     (let action = c_action cmd in
      if action = OSD_REMOVE then no_continuation cmd n (\<lambda>_ _. cdb_remove st)
      else if action = OSD_REMOVE_COLLECTION then do {
        b \<leftarrow> byte_at cmd 11;
        no_continuation cmd n (\<lambda>pid cid. on_device (\<lambda>osd. osd_remove_collection osd pid cid (b AND 0x1))) }
      else if action = OSD_REMOVE_MEMBER_OBJECTS
      then no_continuation cmd n (\<lambda>_ _. on_device osd_remove_member_objects)
      else if action = OSD_REMOVE_PARTITION then do {
        pid \<leftarrow> pid_of cmd;
        and_then (check_no_continuations cmd n pid PARTITION_OID) (cdb_remove_partition st) }
      else if action = OSD_SET_ATTRIBUTES then no_continuation cmd n (\<lambda>pid oid cmd.
        std_get_set_attr st cmd pid oid)
      else if action = OSD_SET_KEY then on_device osd_set_key cmd
      else if action = OSD_SET_MASTER_KEY then
        and_then (check_no_continuations cmd n 0 0) (on_device osd_set_master_key)
      else exec_member_to_cond st cmd n)"

definition exec_perform_to_read :: "surroundings \<Rightarrow> command \<Rightarrow> u32 \<Rightarrow> outcome" where
  "exec_perform_to_read st cmd n =
     (let action = c_action cmd in
      if action = OSD_PERFORM_SCSI_COMMAND \<or> action = OSD_PERFORM_TASK_MGMT_FUNC
      then no_continuation cmd n (\<lambda>_ _. unimplemented)
      else if action = OSD_PUNCH then exec_range st cmd n osd_punch
      else if action = OSD_QUERY then do {
        pid \<leftarrow> pid_of cmd;
        cid \<leftarrow> oid_of cmd;
        and_then (cdb_query cmd pid cid) (\<lambda>cmd. std_get_set_attr st cmd pid cid) }
      else if action = OSD_READ_MAP then no_continuation cmd n (\<lambda>_ _. cdb_read_map st)
      else if action = OSD_READ then cdb_read st cmd n
      else exec_remove_to_set_key st cmd n)"

definition exec_flush_to_list :: "surroundings \<Rightarrow> command \<Rightarrow> u32 \<Rightarrow> outcome" where
  "exec_flush_to_list st cmd n =
     (let action = c_action cmd in
      if action = OSD_FLUSH then do {
        len \<leftarrow> len_of cmd;
        offset \<leftarrow> offset_of cmd;
        b \<leftarrow> byte_at cmd 10;
        no_continuation cmd n (\<lambda>pid oid.
          on_device (\<lambda>osd. osd_flush osd pid oid len offset (uint (b AND 0x3)))) }
      else if action = OSD_FLUSH_COLLECTION then no_continuation cmd n (\<lambda>_ _. on_device osd_flush_collection)
      else if action = OSD_FLUSH_OSD then
        and_then (check_no_continuations cmd n 0 0) (on_device osd_flush_osd)
      else if action = OSD_FLUSH_PARTITION then do {
        pid \<leftarrow> pid_of cmd;
        and_then (check_no_continuations cmd n pid PARTITION_OID) (on_device osd_flush_partition) }
      else if action = OSD_FORMAT_OSD then do {
        capacity \<leftarrow> len_of cmd;
        and_then (check_no_continuations cmd n 0 0) (\<lambda>cmd.
          and_then (on_device (\<lambda>osd. osd_format_osd (s_opening st) osd capacity) cmd) (\<lambda>cmd. std_get_set_attr st cmd 0 0)) }
      else if action = OSD_GET_ATTRIBUTES then no_continuation cmd n (\<lambda>pid oid cmd.
        and_then (get_attributes st cmd pid oid 1) (\<lambda>cmd. set_attributes cmd pid oid 1))
      else if action = OSD_GET_MEMBER_ATTRIBUTES then on_device osd_get_member_attributes cmd
      else if action = OSD_LIST then cdb_list cmd
      else if action = OSD_LIST_COLLECTION then cdb_list_collection st cmd
      else exec_perform_to_read st cmd n)"

definition exec_action :: "surroundings \<Rightarrow> command \<Rightarrow> u32 \<Rightarrow> outcome" where
  "exec_action st cmd n =
     (let action = c_action cmd in
      if action = OSD_APPEND then exec_append st cmd n
      else if action = OSD_CLEAR then exec_range st cmd n osd_clear
      else if action = OSD_COPY_USER_OBJECTS then cdb_copy_user_objects st cmd
      else if action = OSD_CREATE then no_continuation cmd n (\<lambda>_ _ cmd. cdb_create st cmd)
      else if action = OSD_CREATE_AND_WRITE then exec_create_and_write st cmd n
      else if action = OSD_CREATE_COLLECTION then no_continuation cmd n (\<lambda>_ _ cmd. cdb_create_collection st cmd)
      else if action = OSD_CREATE_PARTITION then do {
        pid \<leftarrow> pid_of cmd;
        and_then (check_no_continuations cmd n pid PARTITION_OID) (cdb_create_partition st) }
      else if action = OSD_CREATE_USER_TRACKING_COLLECTION then do {
        pid \<leftarrow> pid_of cmd;
        requested_cid \<leftarrow> oid_of cmd;
        source_cid \<leftarrow> offset_of cmd;
        on_device (\<lambda>osd. osd_create_user_tracking_collection osd pid requested_cid source_cid n) cmd }
      else exec_flush_to_list st cmd n)"

lemmas exec_actions = exec_action_def exec_flush_to_list_def exec_perform_to_read_def exec_remove_to_set_key_def
  exec_member_to_cond_def

text \<open>
  The length of the continuation stands at the same place as the identifier of a list and the type
  of a map.
\<close>

definition exec_service_action :: "surroundings \<Rightarrow> command \<Rightarrow> command option" where
  "exec_service_action st cmd = do {
     cdb_cont_len \<leftarrow> get_ntohl (c_cdb cmd) 48;
     pid \<leftarrow> pid_of cmd;
     oid \<leftarrow> oid_of cmd;
     (ret, cmd) \<leftarrow> and_then
       (if cdb_cont_len \<noteq> 0 then parse_cdb_continuation_segment cmd cdb_cont_len pid oid else Some (0, cmd))
       (\<lambda>cmd. exec_action st cmd cdb_cont_len);
     Some (cmd\<lparr>c_senselen := ret\<rparr>) }"

section \<open>The entry point\<close>

text \<open>
  The size of the output and where the attributes go. The flag is false for a format that is none.
  The sum of the offset and the length of the attributes wraps around.
\<close>

definition data_out_len :: "command \<Rightarrow> u64 option" where
  "data_out_len cmd =
     (let action = c_action cmd in
      if action \<in> {OSD_LIST, OSD_LIST_COLLECTION, OSD_READ, OSD_QUERY, OSD_CAS, OSD_FA, OSD_GEN_CAS}
      then get_ntohll (c_cdb cmd) 32
      else if action = OSD_SET_MASTER_KEY then map_option ucast (get_ntohl (c_cdb cmd) 36)
      else Some 0)"

definition attr_area :: "command \<Rightarrow> nat \<Rightarrow> nat \<Rightarrow> (u64 \<times> u64) option" where
  "attr_area cmd off_at len_at = do {
     off \<leftarrow> get_ntohoffset (c_cdb cmd) off_at;
     len \<leftarrow> get_ntohl (c_cdb cmd) len_at;
     Some (off, if off \<noteq> NOT 0 then off + ucast len else 0) }"

definition calc_max_out_len :: "command \<Rightarrow> (bool \<times> command) option" where
  "calc_max_out_len cmd = do {
     len \<leftarrow> data_out_len cmd;
     let cmd = cmd\<lparr>c_outlen := len, retrieved_attr_off := 0\<rparr>;
     let with_area = map_option (\<lambda>(off, e).
       (True, cmd\<lparr>retrieved_attr_off := off, c_outlen := (if e > len then e else len)\<rparr>));
     if getset_cdbfmt cmd = GETPAGE_SETVALUE then with_area (attr_area cmd 60 56)
     else if getset_cdbfmt cmd = GETLIST_SETLIST then with_area (attr_area cmd 64 60)
     else if getset_cdbfmt cmd = GETFIELD_SETVALUE then Some (True, cmd)
     else Some (False, cmd) }"

text \<open>The command as it is when the parameters have been stored.\<close>

definition new_command :: "osd_device \<Rightarrow> bytes \<Rightarrow> u16 \<Rightarrow> u8 \<Rightarrow> bytes option \<Rightarrow> u64 \<Rightarrow> command" where
  "new_command osd cdb action fmt data_in data_in_len = \<lparr>c_osd = osd, c_cdb = cdb, c_action = action,
     getset_cdbfmt = fmt, retrieved_attr_off = 0, c_get_attr = [], c_set_attr = [], c_indata = data_in,
     c_cont = [], c_inlen = data_in_len, c_outdata = None, c_outlen = 0, c_used = 0, get_used = 0,
     c_sense = replicate OSD_MAX_SENSE 0, c_senselen = 0\<rparr>"

text \<open>
  What the initiator gets: the status, the output buffer with its length, and the sense data.
\<close>

record reply =
  r_status :: int
  r_data :: "bytes option"
  r_len :: u64
  r_sense :: bytes
  r_osd :: osd_device

text \<open>
  The label \<open>out\<close>. The length of the sense data goes to \<open>memcpy\<close> as an unsigned number: a negative
  one is undefined.
\<close>

definition reply_with :: "command \<Rightarrow> bytes option \<Rightarrow> u64 \<Rightarrow> reply option" where
  "reply_with cmd data len =
     (if c_senselen cmd = 0
      then Some \<lparr>r_status = SAM_STAT_GOOD, r_data = data, r_len = len, r_sense = [], r_osd = c_osd cmd\<rparr>
      else if c_senselen cmd < 0 then None
      else do {
        sense \<leftarrow> buf_get (c_sense cmd) 0 (nat (c_senselen cmd));
        Some \<lparr>r_status = SAM_STAT_CHECK_CONDITION, r_data = data, r_len = len, r_sense = sense,
          r_osd = c_osd cmd\<rparr> })"

definition header_error :: "command \<Rightarrow> u8 \<Rightarrow> u16 \<Rightarrow> bytes option \<Rightarrow> reply option" where
  "header_error cmd key code data = do {
     (ret, sense) \<leftarrow> sense_header_build (c_sense cmd) 0 (int OSD_MAX_SENSE) key code 0;
     reply_with (cmd\<lparr>c_sense := sense, c_senselen := ret\<rparr>) data 0 }"

text \<open>
  After the command: the attributes lie behind the data, the bytes between are zero. The end of the
  attributes becomes the length of the output.
\<close>

definition finish_output :: "command \<Rightarrow> command option" where
  "finish_output cmd =
     (if get_used cmd > 0 \<and> retrieved_attr_off cmd \<noteq> NOT 0 then do {
        m \<leftarrow> (if c_used cmd < retrieved_attr_off cmd
          then buf_zero (outdata cmd) (unat (c_used cmd)) (unat (retrieved_attr_off cmd - c_used cmd))
          else Some (outdata cmd));
        Some ((put_outdata m cmd)\<lparr>c_used := retrieved_attr_off cmd + ucast (get_used cmd)\<rparr>) }
      else Some cmd)"

definition osdemu_cmd_submit ::
  "surroundings \<Rightarrow> osd_device \<Rightarrow> bytes \<Rightarrow> bytes option \<Rightarrow> u64 \<Rightarrow> bytes option \<Rightarrow> u64 \<Rightarrow> reply option" where
  "osdemu_cmd_submit st osd cdb data_in data_in_len data_out out_len = do {
     opcode \<leftarrow> buf_get cdb 0 1;
     cdb_len \<leftarrow> buf_get cdb 7 1;
     action \<leftarrow> get_ntohs cdb 8;
     fmt \<leftarrow> buf_get cdb 11 1;
     let cmd = new_command osd cdb action (drop_bit 4 (hd fmt AND 0x30)) data_in data_in_len;
     if hd opcode \<noteq> VARLEN_CDB \<or> unat (hd cdb_len) \<noteq> OSD_CDB_SIZE - 8
     then header_error cmd OSD_SSK_ILLEGAL_REQUEST OSD_ASC_INVALID_COMMAND_OPCODE data_out
     else do {
       (ok, cmd) \<leftarrow> calc_max_out_len cmd;
       if \<not> ok then header_error cmd OSD_SSK_ILLEGAL_REQUEST OSD_ASC_INVALID_FIELD_IN_CDB data_out
       else if data_out \<noteq> None \<and> c_outlen cmd \<noteq> out_len
       then header_error cmd OSD_SSK_ILLEGAL_REQUEST OSD_ASC_INVALID_FIELD_IN_CDB data_out
       else do {
         let buffer = (if data_out \<noteq> None then data_out
           else if c_outlen cmd \<noteq> 0 then s_malloc st (c_outlen cmd) else None);
         if data_out = None \<and> c_outlen cmd \<noteq> 0 \<and> buffer = None
         then header_error cmd OSD_SSK_HARDWARE_ERROR OSD_ASC_SYSTEM_RESOURCE_FAILURE data_out
         else do {
           cmd \<leftarrow> exec_service_action st (cmd\<lparr>c_outdata := buffer\<rparr>);
           cmd \<leftarrow> finish_output cmd;
           if c_outlen cmd = 0 then reply_with cmd data_out out_len
           else if c_used cmd > 0 then reply_with cmd (c_outdata cmd) (c_used cmd)
           else reply_with cmd (map_option (\<lambda>_. outdata cmd) data_out) 0 } } } }"

end
