(* ===== verification/Mtq_Spec.thy ===== *)
theory Mtq_Spec
  imports Osd_List Osd_Atomics
begin

text \<open>
  What the queries over several tables answer: the matches of a query as a set, the room its answer
  takes, the buffer a listing with attributes writes to, and which attributes are set on the members
  of a collection.
\<close>

section \<open>Lemmas: the answer of a query\<close>

lemma grow_len_small: "unat len + 8 < 2 ^ 64 \<Longrightarrow> unat (grow_len len) = unat len + 8"
proof -
  assume a: "unat len + 8 < 2 ^ 64"
  then have s: "unat (len + 8) = unat len + 8" by (simp add: unat_word_ariths)
  have "len \<noteq> - 1"
  proof
    assume "len = - 1"
    then have "unat len = 2 ^ 64 - 1" by (simp add: unsigned_minus_1_eq_mask mask_eq_exp_minus_1)
    with a show False by simp
  qed
  then show ?thesis using s by (simp add: grow_len_def word_less_nat_alt)
qed

lemma ucast_alloc: "unat (ucast (a :: u32) :: u64) = unat a"
proof -
  have "unat a < 2 ^ 32" using unsigned_less [of a, where ?'a = nat] by simp
  then have "unat a < 2 ^ 64" by simp
  then show ?thesis by (simp add: unsigned_ucast_eq take_bit_nat_eq_self)
qed

text \<open>An engine that answers every step.\<close>

definition quiet :: "sq_event list \<Rightarrow> bool" where
  "quiet evs \<longleftrightarrow> set evs \<subseteq> {EvOk}"

lemma quiet_next: "next_event EvOk evs = (ev, evs1) \<Longrightarrow> quiet evs \<Longrightarrow> ev = EvOk \<and> quiet evs1"
  by (cases evs) (auto simp: quiet_def)

lemma query_loop_fits:
  assumes "unat len + 8 + 8 * length xs \<le> unat alloc_len" and "p + 8 * length xs \<le> length m"
  shows "\<exists>ok evs' m' len' used'. query_loop xs evs alloc_len m p len used = Some (ok, evs', m', len', used') \<and>
    length m' = length m \<and> (quiet evs \<longrightarrow> ok) \<and>
    (ok \<longrightarrow> buf_put m p (id_bytes xs) = Some m' \<and> unat len' = unat len + 8 * length xs \<and>
      used' = used + 8 * of_nat (length xs))"
  using assms
proof (induction xs arbitrary: evs m p len used)
  case Nil
  then show ?case
    by (cases evs) (auto simp: id_bytes_def buf_put_def quiet_def)
next
  case (Cons x xs)
  obtain ev evs1 where ev: "next_event EvOk evs = (ev, evs1)" by (cases "next_event EvOk evs")
  note quiet = quiet_next [OF ev]
  show ?case
  proof (cases "ev = EvOk")
    case False
    then show ?thesis using ev quiet by (auto simp: Let_def)
  next
    case True
    have alloc: "unat alloc_len < 2 ^ 32" using unsigned_less [of alloc_len, where ?'a = nat] by simp
    have "len \<le> ucast alloc_len" using Cons.prems(1) by (simp add: word_le_nat_alt ucast_alloc)
    then have "unat (ucast alloc_len - len) = unat alloc_len - unat len" by (simp add: unat_sub ucast_alloc)
    then have room: "ucast alloc_len - len > 8" using Cons.prems(1) by (simp add: word_less_nat_alt)
    have fit: "p + 8 \<le> length m" using Cons.prems(2) by simp
    obtain m1 where m1: "set_htonll m p (word_of_int x) = Some m1" "length m1 = length m"
      by (rule ntohll.set_obtain [OF fit])
    have grow: "unat (grow_len len) = unat len + 8"
      using Cons.prems(1) alloc by (intro grow_len_small) simp
    obtain ok evs' m' len' used' where r: "query_loop xs evs1 alloc_len m1 (p + 8) (grow_len len) (used + 8)
        = Some (ok, evs', m', len', used')" "length m' = length m1" "quiet evs1 \<longrightarrow> ok"
      "ok \<longrightarrow> buf_put m1 (p + 8) (id_bytes xs) = Some m' \<and> unat len' = unat (grow_len len) + 8 * length xs \<and>
        used' = used + 8 + 8 * of_nat (length xs)"
      using Cons.IH [of "grow_len len" "p + 8" m1 evs1 "used + 8"] Cons.prems grow m1(2) by auto
    show ?thesis
      using r quiet ev True room m1 grow
      by (auto simp: id_bytes_Cons buf_put_append ntohll.setv_eq distrib_left)
  qed
qed

text \<open>
  The buffer ends \<open>alloc_len\<close> bytes after its start. Once the running length passes \<open>alloc_len\<close> the
  test for room holds again.
\<close>

lemma query_loop_overruns:
  assumes "quiet evs" and "p + unat alloc_len = length m + unat len + 8"
    and "unat len \<le> unat alloc_len + 8" and "unat alloc_len + 16 \<le> unat len + 8 * length xs"
  shows "query_loop xs evs alloc_len m p len used = None"
  using assms
proof (induction xs arbitrary: evs m p len used)
  case Nil
  then show ?case by simp
next
  case (Cons x xs)
  have alloc: "unat alloc_len < 2 ^ 32" using unsigned_less [of alloc_len, where ?'a = nat] by simp
  have grow: "unat (grow_len len) = unat len + 8" using Cons.prems(3) alloc by (intro grow_len_small) simp
  obtain ev evs1 where ev: "next_event EvOk evs = (ev, evs1)" by (cases "next_event EvOk evs")
  then have quiet: "ev = EvOk" "quiet evs1" using quiet_next [OF ev Cons.prems(1)] by simp_all
  have IH: "query_loop xs evs1 alloc_len m1 (p + 8) (grow_len len) u = None"
    if "length m1 = length m" "unat len \<le> unat alloc_len" for m1 u
    using Cons.IH [of evs1 "p + 8" m1 "grow_len len" u] quiet(2) Cons.prems grow that by simp
  show ?case
  proof (cases "unat len \<le> unat alloc_len")
    case True
    then have "unat (ucast alloc_len - len) = unat alloc_len - unat len"
      by (simp add: unat_sub ucast_alloc word_le_nat_alt)
    then have room: "ucast alloc_len - len > 8 \<longleftrightarrow> 8 < unat alloc_len - unat len" by (simp add: word_less_nat_alt)
    have len1: "length m1 = length m" if "set_htonll m p (word_of_int x) = Some m1" for m1
      using ntohll.set_length [OF that] .
    show ?thesis
      using IH [OF _ True] len1 ev quiet(1) room by (auto simp: Let_def split: Option.bind_splits)
  next
    case False
    have "unat (ucast alloc_len - len) = unat alloc_len + 2 ^ 64 - unat len"
      using False alloc Cons.prems(3) unat_sub_if' [of "ucast alloc_len" len] by (simp add: ucast_alloc)
    then have room: "ucast alloc_len - len > 8" using Cons.prems(3) by (simp add: word_less_nat_alt)
    have "set_htonll m p (word_of_int x) = None"
      using ntohll.set_defined [of m p "word_of_int x"] False Cons.prems(2) by force
    then show ?thesis using ev quiet(1) room by (simp add: Let_def)
  qed
qed

section \<open>The matches of a query\<close>

definition slice :: "bytes \<Rightarrow> nat \<Rightarrow> u16 \<Rightarrow> bytes" where
  "slice ind off len = take (unat len) (drop off ind)"

definition criterion_fits :: "bytes \<Rightarrow> criterion \<Rightarrow> bool" where
  "criterion_fits ind q \<longleftrightarrow> min_val q + unat (min_len q) \<le> length ind \<and> max_val q + unat (max_len q) \<le> length ind"

text \<open>An object satisfies a criterion by an attribute of that number, of whatever partition.\<close>

definition satisfies :: "bytes \<Rightarrow> tables \<Rightarrow> int \<Rightarrow> criterion \<Rightarrow> bool" where
  "satisfies ind t x q \<longleftrightarrow> (\<exists>a \<in> set (t_attr t). a_oid a = x \<and>
     criterion_holds (q, slice ind (min_val q) (min_len q), slice ind (max_val q) (max_len q)) a)"

definition matches :: "bytes \<Rightarrow> query_criteria \<Rightarrow> u64 \<Rightarrow> u64 \<Rightarrow> tables \<Rightarrow> int set" where
  "matches ind qc pid cid t = {x \<in> members t (uint pid) (uint cid).
     if criteria qc = [] then x \<in> a_oid ` set (t_attr t)
     else if query_type qc = 0 then \<exists>q \<in> set (criteria qc). satisfies ind t x q
     else \<forall>q \<in> set (criteria qc). satisfies ind t x q}"

definition bound_criteria :: "bytes \<Rightarrow> query_criteria \<Rightarrow> (criterion \<times> bytes \<times> bytes) list" where
  "bound_criteria ind qc = map (\<lambda>q. (q, slice ind (min_val q) (min_len q), slice ind (max_val q) (max_len q))) (criteria qc)"

lemma query_select_set:
  "set (query_select pid cid P t) = {x \<in> members t (uint pid) (uint cid). \<exists>a \<in> set (t_attr t). a_oid a = x \<and> P a}"
  by (auto simp: query_select_def members_def)

lemma query_rows_set:
  "set (query_rows (query_type qc) pid cid (bound_criteria ind qc) t) = matches ind qc pid cid t"
proof (cases "criteria qc")
  case Nil
  then show ?thesis by (auto simp: query_rows_def query_select_set matches_def bound_criteria_def)
next
  case (Cons q qs)
  then show ?thesis
    by (auto simp: query_rows_def query_select_set matches_def bound_criteria_def satisfies_def)
qed

lemma query_rows_sorted: "sorted (query_rows ty pid cid qs t) \<and> distinct (query_rows ty pid cid qs t)"
  by (simp add: query_rows_def Let_def)

lemma query_rows_length:
  "length (query_rows (query_type qc) pid cid (bound_criteria ind qc) t) = card (matches ind qc pid cid t)"
  using distinct_card [OF conjunct2 [OF query_rows_sorted]] query_rows_set by metis

lemma bind_bound_total:
  assumes "off + unat len \<le> length ind"
  shows "\<exists>r es. bind_bound ind off len d = Some (r, d\<lparr>bind_evs := es\<rparr>) \<and> set es \<subseteq> set (bind_evs d) \<and>
    (r = None \<longrightarrow> False \<in> set (bind_evs d)) \<and> (\<forall>b. r = Some b \<longrightarrow> b = slice ind off len)"
proof (cases "len > 0")
  case True
  then show ?thesis
    using assms by (cases "bind_evs d") (auto simp: bind_bound_def sq_bind_def buf_get_def slice_def Let_def)
next
  case False
  then have "len = 0" by (simp add: word_gt_0)
  then show ?thesis by (intro exI [of _ "Some []"] exI [of _ "bind_evs d"]) (simp add: bind_bound_def slice_def)
qed

lemma bind_criteria_total:
  assumes "\<forall>q \<in> set qs. criterion_fits ind q"
  shows "\<exists>r es. bind_criteria ind qs d = Some (r, d\<lparr>bind_evs := es\<rparr>) \<and>
    (r = None \<longrightarrow> False \<in> set (bind_evs d)) \<and>
    (\<forall>bs. r = Some bs \<longrightarrow> bs = map (\<lambda>q. (q, slice ind (min_val q) (min_len q), slice ind (max_val q) (max_len q))) qs)"
  using assms
proof (induction qs arbitrary: d)
  case Nil
  then show ?case by (intro exI [of _ "Some []"] exI [of _ "bind_evs d"]) simp
next
  case (Cons q qs)
  have f: "criterion_fits ind q" "\<forall>q \<in> set qs. criterion_fits ind q" using Cons.prems by simp_all
  obtain lo es where lo: "bind_bound ind (min_val q) (min_len q) d = Some (lo, d\<lparr>bind_evs := es\<rparr>)"
    "set es \<subseteq> set (bind_evs d)" "lo = None \<longrightarrow> False \<in> set (bind_evs d)" "\<forall>b. lo = Some b \<longrightarrow> b = slice ind (min_val q) (min_len q)"
    using bind_bound_total [of "min_val q" "min_len q" ind d] f(1) by (auto simp: criterion_fits_def)
  show ?case
  proof (cases lo)
    case None
    then show ?thesis using lo by (intro exI [of _ None] exI [of _ es]) simp
  next
    case (Some b)
    obtain hi es2 where hi: "bind_bound ind (max_val q) (max_len q) (d\<lparr>bind_evs := es\<rparr>) = Some (hi, d\<lparr>bind_evs := es2\<rparr>)"
      "set es2 \<subseteq> set es" "hi = None \<longrightarrow> False \<in> set es" "\<forall>b. hi = Some b \<longrightarrow> b = slice ind (max_val q) (max_len q)"
      using bind_bound_total [of "max_val q" "max_len q" ind "d\<lparr>bind_evs := es\<rparr>"] f(1) by (auto simp: criterion_fits_def)
    show ?thesis
    proof (cases hi)
      case None
      then show ?thesis using lo hi Some by (intro exI [of _ None] exI [of _ es2]) auto
    next
      case (Some c)
      obtain r es3 where r: "bind_criteria ind qs (d\<lparr>bind_evs := es2\<rparr>) = Some (r, d\<lparr>bind_evs := es3\<rparr>)"
        "r = None \<longrightarrow> False \<in> set es2"
        "\<forall>bs. r = Some bs \<longrightarrow> bs = map (\<lambda>q. (q, slice ind (min_val q) (min_len q), slice ind (max_val q) (max_len q))) qs"
        using Cons.IH [OF f(2), of "d\<lparr>bind_evs := es2\<rparr>"] by auto
      have neg: "False \<in> set es2 \<Longrightarrow> False \<in> set (bind_evs d)" using hi(2) lo(2) by blast
      show ?thesis
        using lo hi r \<open>lo = Some b\<close> Some neg
        by (intro exI [of _ "map_option (\<lambda>bs. (q, b, c) # bs) r"] exI [of _ es3]) auto
    qed
  qed
qed

text \<open>A statement built at run time meets no scheduled failure.\<close>

definition quiet_query :: "db_context \<Rightarrow> bool" where
  "quiet_query d \<longleftrightarrow> quiet (step_evs d) \<and> False \<notin> set (prep_evs d) \<and> False \<notin> set (bind_evs d)"

lemma sq_prepare_frame:
  "sq_prepare d = (ok, d1) \<Longrightarrow> \<exists>es. d1 = d\<lparr>prep_evs := es\<rparr> \<and> (ok \<or> False \<in> set (prep_evs d))"
  by (cases "prep_evs d") (auto simp: sq_prepare_def)

lemma on_tables_good [simp]: "db_good d \<Longrightarrow> on_tables d r = r"
  by (simp add: on_tables_def db_good_def)

text \<open>The part of a query in front of its loop.\<close>

lemma mtq_run_query_unfold:
  assumes "db_good db" and "query_type qc = 0 \<or> query_type qc = 1" and "\<forall>q \<in> set (criteria qc). criterion_fits ind q"
  shows "(\<not> quiet_query db \<and> (\<exists>d. mtq_run_query db pid cid qc ind outdata alloc_len out = Some (- EIO, out, d) \<and> tabs d = tabs db)) \<or>
    (\<exists>d. tabs d = tabs db \<and> step_evs d = step_evs db \<and> mtq_run_query db pid cid qc ind outdata alloc_len out = do {
      (done, evs, m, len, used) \<leftarrow> query_loop (query_rows (query_type qc) pid cid (bound_criteria ind qc) (tabs db))
        (step_evs db) alloc_len (fst out) (outdata + ML_ODL_OFF) (of_nat (ML_ODL_OFF - 8)) (of_nat ML_ODL_OFF);
      let d = d\<lparr>step_evs := evs\<rparr>;
      if \<not> done then Some (- EIO, (m, used), d)
      else do {
        m \<leftarrow> set_htonll m outdata len;
        Some (OSD_OK, (m, used), d) } })"
proof -
  obtain ok d1 where p: "sq_prepare db = (ok, d1)" by (cases "sq_prepare db")
  then obtain es where d1: "d1 = db\<lparr>prep_evs := es\<rparr>" "ok \<or> False \<in> set (prep_evs db)"
    using sq_prepare_frame by blast
  obtain r bs where b: "bind_criteria ind (criteria qc) d1 = Some (r, d1\<lparr>bind_evs := bs\<rparr>)"
    "r = None \<longrightarrow> False \<in> set (bind_evs d1)" "\<forall>x. r = Some x \<longrightarrow> x = bound_criteria ind qc"
    using bind_criteria_total [OF assms(3), of d1] unfolding bound_criteria_def by auto
  have ty: "\<not> (query_type qc \<noteq> 0 \<and> query_type qc \<noteq> 1)" using assms(2) by blast
  show ?thesis
  proof (cases "ok \<and> r \<noteq> None")
    case True
    then have r: "ok" "r = Some (bound_criteria ind qc)" using b(3) by auto
    show ?thesis
      by (intro disjI2 exI [of _ "d1\<lparr>bind_evs := bs\<rparr>"])
        (simp add: mtq_run_query_def ty assms(1) p b(1) [unfolded d1(1)] r d1(1) Let_def del: query_loop.simps)
  next
    case False
    then have "\<not> quiet_query db" using d1 b(2) by (auto simp: quiet_query_def)
    moreover have "\<exists>d. mtq_run_query db pid cid qc ind outdata alloc_len out = Some (- EIO, out, d) \<and> tabs d = tabs db"
    proof (cases ok)
      case True
      then have "r = None" using False by simp
      then show ?thesis using True ty p b(1) [unfolded d1(1)] d1(1) assms(1) by (auto simp: mtq_run_query_def simp del: query_loop.simps)
    next
      case False
      then show ?thesis using ty p d1(1) assms(1) by (auto simp: mtq_run_query_def simp del: query_loop.simps)
    qed
    ultimately show ?thesis by blast
  qed
qed

lemma unat_of_nat_self: "of_nat (unat w) = (w :: u64)" by simp

section \<open>Properties: queries\<close>

text \<open>
  C33. The answer of a query, for a buffer with room for all matches: either the engine failed, or the
  buffer holds the length of the list, and behind its header the identifiers of exactly the matching
  members of the collection, in ascending order and each once.
\<close>

theorem query_answer:
  assumes "db_good db" and "query_type qc = 0 \<or> query_type qc = 1" and "\<forall>q \<in> set (criteria qc). criterion_fits ind q"
    and "13 + 8 * card (matches ind qc pid cid (tabs db)) \<le> unat alloc_len" and "outdata + unat alloc_len \<le> length m"
  shows "\<exists>ret m' used db'. mtq_run_query db pid cid qc ind outdata alloc_len (m, u) = Some (ret, (m', used), db') \<and>
    tabs db' = tabs db \<and> length m' = length m \<and> (ret = OSD_OK \<or> ret = - EIO \<and> \<not> quiet_query db) \<and>
    (ret = OSD_OK \<longrightarrow> (\<exists>ids. sorted ids \<and> distinct ids \<and> set ids = matches ind qc pid cid (tabs db) \<and>
       get_ntohll m' outdata = Some (of_nat (5 + 8 * length ids)) \<and>
       buf_get m' (outdata + 13) (8 * length ids) = Some (id_bytes ids) \<and> used = of_nat (13 + 8 * length ids)))"
proof -
  define ids where "ids = query_rows (query_type qc) pid cid (bound_criteria ind qc) (tabs db)"
  have ids: "sorted ids" "distinct ids" "set ids = matches ind qc pid cid (tabs db)"
    "length ids = card (matches ind qc pid cid (tabs db))"
    using query_rows_sorted query_rows_set query_rows_length by (simp_all add: ids_def)
  have off: "outdata + ML_ODL_OFF = outdata + 13" "ML_ODL_OFF - 8 = 5" "of_nat ML_ODL_OFF = (13 :: u64)"
    by (simp_all add: ML_ODL_OFF_def)
  have five: "unat (of_nat 5 :: u64) = 5" by simp
  obtain ok evs' m1 len' used' where l: "query_loop ids (step_evs db) alloc_len m (outdata + 13) (of_nat 5) 13
      = Some (ok, evs', m1, len', used')" "length m1 = length m" "quiet (step_evs db) \<longrightarrow> ok"
    "ok \<longrightarrow> buf_put m (outdata + 13) (id_bytes ids) = Some m1 \<and> unat len' = 5 + 8 * length ids \<and>
      used' = 13 + 8 * of_nat (length ids)"
    using query_loop_fits [of "of_nat 5" ids alloc_len "outdata + 13" m "step_evs db" 13] assms(4,5) ids(4) five by auto
  have fit: "outdata + 8 \<le> length m1" using assms(4,5) l(2) by simp
  obtain m2 where m2: "set_htonll m1 outdata len' = Some m2" "length m2 = length m1" by (rule ntohll.set_obtain [OF fit])
  from mtq_run_query_unfold [OF assms(1-3), of pid cid outdata alloc_len "(m, u)"]
  show ?thesis
  proof (elim disjE conjE exE, goal_cases)
    case (1 d)
    then show ?thesis
      by (intro exI [of _ "- EIO"] exI [of _ m] exI [of _ u] exI [of _ d]) (simp add: EIO_def OSD_OK_def)
  next
    case (2 d)
    note run = 2(3) [folded ids_def, unfolded off, simplified, unfolded fst_conv]
    show ?thesis
    proof (cases ok)
      case False
      then have "\<not> quiet_query db" using l(3) by (auto simp: quiet_query_def)
      then show ?thesis using 2(1,2) run l(1,2) False 
        by (intro exI [of _ "- EIO"] exI [of _ m1] exI [of _ used'] exI [of _ "d\<lparr>step_evs := evs'\<rparr>"])
          (simp add: EIO_def OSD_OK_def)
    next
      case True
      note o = l(4) [rule_format, OF True]
      have "get_ntohll m2 outdata = Some len'" by (rule ntohll.get_set [OF m2(1)])
      moreover have "of_nat (unat len') = (of_nat (5 + 8 * length ids) :: u64)" using o by (simp only:)
      then have "len' = of_nat (5 + 8 * length ids)" by (simp only: unat_of_nat_self)
      moreover have "buf_get m2 (outdata + 13) (8 * length ids) = buf_get m1 (outdata + 13) (8 * length ids)"
        using m2(1) by (intro mem.get_put_apart) (auto simp: ntohll.setv_eq)
      moreover have "buf_get m1 (outdata + 13) (8 * length ids) = Some (id_bytes ids)"
        using mem.get_put [of m "outdata + 13" "id_bytes ids" m1] o by simp
      moreover have "used' = of_nat (13 + 8 * length ids)" using o by simp
      ultimately show ?thesis using 2(1,2) run l(1,2) m2 True ids(1-3)
        by (intro exI [of _ OSD_OK] exI [of _ m2] exI [of _ used'] exI [of _ "d\<lparr>step_evs := evs'\<rparr>"])
          (simp add: EIO_def OSD_OK_def del: of_nat_add of_nat_mult, blast)
    qed
  qed
qed

definition query_db :: db_context where
  "query_db = (sample_db [])\<lparr>tabs := \<lparr>t_obj = [],
     t_attr = map (\<lambda>i. \<lparr>a_pid = 0x10000, a_oid = i, a_page = 1, a_number = 2, a_value = Some [7]\<rparr>) [5, 6, 9, 8],
     t_coll = map (\<lambda>i. \<lparr>c_pid = 0x10000, c_cid = 3, c_oid = i, c_number = 0\<rparr>) [9, 7, 5, 6]\<rparr>\<rparr>"

definition all_members :: query_criteria where
  "all_members = \<lparr>query_type = 0, qc_cnt_limit = 16, criteria = []\<rparr>"

lemma members_code: "members t p c = set (map c_oid (filter (\<lambda>r. c_pid r = p \<and> c_cid r = c) (t_coll t)))"
  by (auto simp: members_def)

lemma query_db_facts:
  "db_good query_db" "quiet_query query_db" "matches ind all_members 0x10000 3 (tabs query_db) = {5, 6, 9}"
  by (auto simp: query_db_def quiet_query_def quiet_def db_good_def sample_db_def matches_def members_code all_members_def)

lemma all_members_simps: "query_type all_members = 0" "criteria all_members = []"
  by (simp_all add: all_members_def)

theorem query_answer_witness:
  "\<exists>m' db'. mtq_run_query query_db 0x10000 3 all_members [] 0 37 (replicate 40 0, 0) = Some (OSD_OK, (m', 37), db') \<and>
     buf_get m' 13 24 = Some (id_bytes [5, 6, 9])"
proof -
  have "\<exists>ids m' db'. mtq_run_query query_db 0x10000 3 all_members [] 0 37 (replicate 40 0, 0)
        = Some (OSD_OK, (m', of_nat (13 + 8 * length ids)), db') \<and> sorted ids \<and> distinct ids \<and> set ids = {5, 6, 9} \<and>
      buf_get m' 13 (8 * length ids) = Some (id_bytes (ids :: int list))"
    using query_answer [where db = query_db and qc = all_members and ind = "[]" and pid = "0x10000" and cid = 3 and alloc_len = 37
        and outdata = 0 and m = "replicate 40 0" and u = 0]
    by (simp add: query_db_facts all_members_simps del: of_nat_add of_nat_mult) blast
  then obtain ids :: "int list" and m' db' where
    r: "mtq_run_query query_db 0x10000 3 all_members [] 0 37 (replicate 40 0, 0)
      = Some (OSD_OK, (m', of_nat (13 + 8 * length ids)), db')"
    and ids: "sorted ids" "distinct ids" "set ids = {5, 6, 9}" "buf_get m' 13 (8 * length ids) = Some (id_bytes ids)"
    by (elim exE conjE)
  have "ids = [5, 6, 9]"
    by (rule sorted_distinct_set_unique) (use ids in auto)
  then show ?thesis using r ids(4) by simp
qed

text \<open>
  The test for room does not stop a query whose matches do not fit: when two more identifiers match
  than the output has room for, the length that is left passes below zero, and the next identifier is
  written behind the end of the output.
\<close>

lemma query_overruns_buffer:
  assumes "db_good db" and "query_type qc = 0 \<or> query_type qc = 1" and "\<forall>q \<in> set (criteria qc). criterion_fits ind q"
    and "quiet_query db" and "unat alloc_len + 11 \<le> 8 * card (matches ind qc pid cid (tabs db))"
    and "length m = outdata + unat alloc_len"
  shows "mtq_run_query db pid cid qc ind outdata alloc_len (m, u) = None"
proof -
  let ?ids = "query_rows (query_type qc) pid cid (bound_criteria ind qc) (tabs db)"
  have "query_loop ?ids (step_evs db) alloc_len m (outdata + ML_ODL_OFF) (of_nat (ML_ODL_OFF - 8)) (of_nat ML_ODL_OFF) = None"
    by (rule query_loop_overruns)
      (use assms(4-6) in \<open>simp_all add: quiet_query_def ML_ODL_OFF_def query_rows_length\<close>)
  then show ?thesis
    using mtq_run_query_unfold [OF assms(1-3), of pid cid outdata alloc_len "(m, u)"] assms(4) by auto
qed

lemma query_overruns_buffer_witness:
  "mtq_run_query query_db 0x10000 3 all_members [] 0 13 (replicate 13 0, 0) = None"
  by (rule query_overruns_buffer) (use query_db_facts in \<open>simp_all add: all_members_simps\<close>)

section \<open>Lemmas: the buffer of a listing with attributes\<close>

text \<open>
  What the loop keeps: \<open>head\<close> is \<open>tail\<close> or leaves room for a length in front of it, the room is what
  lies behind \<open>tail\<close>, the used length is what lies in front of it, and no other byte has changed.
\<close>

definition lister_ok :: "nat \<Rightarrow> nat \<Rightarrow> bytes \<Rightarrow> u64 \<Rightarrow> lister \<Rightarrow> bool" where
  "lister_ok base lim m u s \<longleftrightarrow> base \<le> l_head s \<and> (l_head s = l_tail s \<or> l_head s + 4 \<le> l_tail s) \<and>
     l_tail s + unat (l_room s) = lim \<and> lim \<le> length m \<and> same_outside base lim m (l_buf s) \<and>
     l_used s = u + of_nat (l_tail s - base)"

lemma lister_ok_length: "lister_ok base lim m u s \<Longrightarrow> length (l_buf s) = length m"
  by (simp add: lister_ok_def same_outside_def)

lemma pack_in_room:
  assumes "value_ok v" and "off + unat buflen \<le> length m"
  shows "\<exists>ret m'. le_pack_attr 0 m off buflen page number (column_bytes v) (column_blob v) = Some (ret, m') \<and>
    (ret \<le> 0 \<and> m' = m \<or>
     (\<exists>n. ret = int n \<and> 16 \<le> n \<and> n \<le> unat buflen \<and> same_outside off (off + n) m m'))"
proof (cases "off mod 8 = 0 \<and> unat buflen mod 8 = 0 \<and> 16 \<le> unat buflen")
  case True
  define r where "r = \<lparr>a_pid = 0, a_oid = 0, a_page = uint page, a_number = uint number, a_value = v\<rparr>"
  let ?e = "row_entry (unat buflen) r"
  have vo: "value_ok (a_value r)" using assms(1) by (simp add: r_def)
  obtain m' where m': "attr_gather_attr r m off buflen 0 RTRVD_SET_ATTR_LIST = Some (int (length ?e), m')"
    "buf_put m off ?e = Some m'"
    using attr_gather_list_spec [of off buflen m r 0] True assms(2) vo by auto
  have "16 \<le> length ?e" "length ?e \<le> unat buflen"
    using row_entry_length [of "unat buflen" r] True vo by simp_all
  moreover have "same_outside off (off + length ?e) m m'" using m'(2) by (rule same_outside_put) simp_all
  moreover have "le_pack_attr 0 m off buflen page number (column_bytes v) (column_blob v) = Some (int (length ?e), m')"
    using m'(1) by (simp add: attr_gather_attr_def r_def)
  ultimately show ?thesis by blast
next
  case False
  note bad = le_pack_attr_bad [of buflen 0 off m page number "column_bytes v" "column_blob v"]
  have "le_pack_attr 0 m off buflen page number (column_bytes v) (column_blob v) = Some (- EINVAL, m) \<or>
    le_pack_attr 0 m off buflen page number (column_bytes v) (column_blob v) = Some (- EOVERFLOW, m)"
  proof (cases "off mod 8 = 0 \<and> unat buflen mod 8 = 0")
    case True
    then show ?thesis using bad False by auto
  next
    case False
    then show ?thesis using bad by (auto simp: and_7)
  qed
  then show ?thesis by (auto simp: EINVAL_def EOVERFLOW_def)
qed

lemma put_same:
  assumes "lister_ok base lim m u s" and "buf_put (l_buf s) off bs = Some b" and "base \<le> off" and "off + length bs \<le> lim"
  shows "same_outside base lim m b"
  using same_outside_put [of "l_buf s" off bs b base lim] assms
  by (simp add: lister_ok_def) (blast intro: same_outside_trans)

lemma close_list_ok:
  assumes ok: "lister_ok base lim m u s"
  shows "\<exists>s'. close_list s = Some s' \<and> lister_ok base lim m u s' \<and> l_head s' = l_tail s' \<and> l_tail s' = l_tail s \<and>
    l_room s' = l_room s \<and> l_used s' = l_used s"
proof (cases "l_head s = l_tail s")
  case True
  then show ?thesis using ok by (simp add: close_list_def)
next
  case False
  have h: "l_head s + 4 \<le> lim" using ok False by (auto simp: lister_ok_def)
  then have "l_head s + 4 \<le> length (l_buf s)" using ok lister_ok_length [OF ok] by (simp add: lister_ok_def)
  then obtain b where b: "set_htonl (l_buf s) (l_head s) (attr_list_len s) = Some b" by (rule ntohl.set_obtain)
  have "same_outside base lim m b"
    by (rule put_same [OF ok b [unfolded ntohl.setv_eq]]) (use ok h in \<open>simp_all add: lister_ok_def ntohl.width_enc\<close>)
  then show ?thesis using ok b False by (auto simp: close_list_def lister_ok_def)
qed

lemma note_cont_ok [simp]: "lister_ok base lim m u (note_cont oid s) = lister_ok base lim m u s"
  by (simp add: note_cont_def lister_ok_def)

lemma grow_add_ok: "lister_ok base lim m u s \<Longrightarrow> lister_ok base lim m u (snd (grow_add n s))"
  by (simp add: grow_add_def lister_ok_def)

lemma list_object_ok:
  assumes ok: "lister_ok base lim m u s"
  shows "\<exists>e s'. list_object oid s = Some (e, s') \<and> lister_ok base lim m u s'"
proof (cases "l_room s \<ge> 16")
  case True
  have room: "16 \<le> unat (l_room s)" using True by (simp add: word_le_nat_alt)
  have len: "length (l_buf s) = length m" by (rule lister_ok_length [OF ok])
  have t: "l_tail s + 16 \<le> lim" "lim \<le> length m" "base \<le> l_tail s" using ok room by (auto simp: lister_ok_def)
  obtain b1 where b1: "set_htonll (l_buf s) (l_tail s) oid = Some b1" "length b1 = length m"
    using ntohll.set_obtain [of "l_tail s" "l_buf s"] t len by auto
  obtain b2 where b2: "buf_put b1 (l_tail s + 8) (replicate 4 0) = Some b2"
    using mem.put_some [of "l_tail s + 8" "replicate 4 0" b1] t b1(2) by auto
  have s1: "same_outside base lim m b1"
    by (rule put_same [OF ok b1(1) [unfolded ntohll.setv_eq]]) (use t in \<open>simp_all add: ntohll.width_enc\<close>)
  have "same_outside base lim b1 b2" using b2 by (rule same_outside_put) (use t in simp_all)
  then have s2: "same_outside base lim m b2" using s1 by (rule same_outside_trans [rotated])
  have ok2: "lister_ok base lim m u (s\<lparr>l_buf := b2\<rparr>)" using ok s2 by (simp add: lister_ok_def)
  obtain s' where s': "close_list (s\<lparr>l_buf := b2\<rparr>) = Some s'" "lister_ok base lim m u s'" "l_head s' = l_tail s'"
    "l_tail s' = l_tail s" "l_room s' = l_room s" "l_used s' = l_used s"
    using close_list_ok [OF ok2] by auto
  have u16: "unat (l_room s - 16) = unat (l_room s) - 16" using True by (simp add: unat_sub)
  define t where "t = s'\<lparr>l_room := l_room s' - 16, l_tail := l_tail s' + 16,
      l_head := l_head s' + 12, l_used := l_used s' + 16\<rparr>"
  have "lister_ok base lim m u t" using s'(2-6) room t(3) u16 by (simp add: t_def lister_ok_def)
  then have "lister_ok base lim m u (snd (grow_add 16 t))" by (rule grow_add_ok)
  moreover have "list_object oid s = Some (fst (grow_add 16 t), snd (grow_add 16 t))"
    using True b1(1) b2 s'(1) by (simp add: list_object_def buf_zero_def t_def)
  ultimately show ?thesis by blast
next
  case False
  obtain s' where s': "close_list s = Some s'" "lister_ok base lim m u s'" using close_list_ok [OF ok] by auto
  then show ?thesis using False grow_add_ok [of base lim m u "note_cont oid s'" 16]
    by (cases "grow_add 16 (note_cont oid s')") (simp add: list_object_def)
qed

lemma unat_ucast_le: "unat (ucast (x :: u64) :: u32) \<le> unat x"
  by (simp add: unsigned_ucast_eq)

lemma unat_sub_of_nat: "n \<le> unat (w :: u64) \<Longrightarrow> unat (w - of_nat n) = unat w - n"
proof -
  assume a: "n \<le> unat w"
  have "unat w < 2 ^ 64" using unsigned_less [of w, where ?'a = nat] by simp
  with a have n: "unat (of_nat n :: u64) = n" by (simp add: unsigned_of_nat take_bit_nat_eq_self)
  with a have "of_nat n \<le> w" by (simp add: word_le_nat_alt)
  then show ?thesis by (simp add: unat_sub n)
qed

lemma lister_ok_tail: "lister_ok base lim m u s \<Longrightarrow> l_head s + 4 \<le> lim \<Longrightarrow>
    \<exists>b. set_htonl (l_buf s) (l_head s) x = Some b \<and> same_outside base lim m b"
proof -
  assume ok: "lister_ok base lim m u s" and h: "l_head s + 4 \<le> lim"
  then have "l_head s + 4 \<le> length (l_buf s)" using lister_ok_length [OF ok] by (simp add: lister_ok_def)
  then obtain b where b: "set_htonl (l_buf s) (l_head s) x = Some b" by (rule ntohl.set_obtain)
  have "same_outside base lim m b"
    by (rule put_same [OF ok b [unfolded ntohl.setv_eq]]) (use ok h in \<open>simp_all add: lister_ok_def ntohl.width_enc\<close>)
  with b show ?thesis by blast
qed

text \<open>The bytes of an entry that has been packed are counted.\<close>

lemma lister_ok_advance:
  assumes ok: "lister_ok base lim m u s" and same: "same_outside (l_tail s) (l_tail s + n) (l_buf s) b"
    and n: "16 \<le> n" "n \<le> unat (l_room s)"
  shows "lister_ok base lim m u (s\<lparr>l_buf := b, l_room := l_room s - of_nat n, l_tail := l_tail s + n,
      attr_list_len := len, l_used := l_used s + of_nat n\<rparr>) \<and> l_head s + 4 \<le> lim"
proof -
  note o = ok [unfolded lister_ok_def]
  have room: "unat (l_room s - of_nat n) = unat (l_room s) - n" using n(2) by (rule unat_sub_of_nat)
  have "same_outside base lim (l_buf s) b" using o n by (intro same_outside_mono [OF same]) auto
  then have mb: "same_outside base lim m b" using o by (blast intro: same_outside_trans)
  have tb: "l_tail s + n - base = (l_tail s - base) + n" using o by linarith
  have used: "l_used s + of_nat n = u + of_nat (l_tail s + n - base)" using o unfolding tb by simp
  have "l_head s + 4 \<le> l_tail s + n" using o n(1) by linarith
  then show ?thesis unfolding lister_ok_def using o n(2) room mb used by simp
qed

lemma list_attr_entry_ok:
  assumes ok: "lister_ok base lim m u s" and vo: "value_ok (a_value row)"
  shows "\<exists>e s'. list_attr_entry oid row s = Some (e, s') \<and> lister_ok base lim m u s'"
proof (cases "l_room s \<ge> 16")
  case False
  obtain s' where s': "close_list s = Some s'" "lister_ok base lim m u s'" using close_list_ok [OF ok] by auto
  define t where "t = (if l_head s \<noteq> l_tail s then note_cont oid s' else s')"
  have "lister_ok base lim m u t" using s'(2) by (simp add: t_def)
  then have "lister_ok base lim m u (snd (grow_add (entry_add_len (column_bytes (a_value row))) t))" by (rule grow_add_ok)
  moreover have "list_attr_entry oid row s = Some (fst (grow_add (entry_add_len (column_bytes (a_value row))) t),
      snd (grow_add (entry_add_len (column_bytes (a_value row))) t))"
    using False s'(1) by (simp add: list_attr_entry_def t_def Let_def)
  ultimately show ?thesis by blast
next
  case True
  let ?len = "column_bytes (a_value row)"
  have fit: "l_tail s + unat (ucast (l_room s) :: u32) \<le> length (l_buf s)"
    using ok lister_ok_length [OF ok] unat_ucast_le [of "l_room s"] by (simp add: lister_ok_def)
  obtain ret b where p: "le_pack_attr 0 (l_buf s) (l_tail s) (ucast (l_room s)) (word_of_int (a_page row))
      (word_of_int (a_number row)) ?len (column_blob (a_value row)) = Some (ret, b)"
    and alt: "ret \<le> 0 \<and> b = l_buf s \<or> (\<exists>n. ret = int n \<and> 16 \<le> n \<and> n \<le> unat (ucast (l_room s) :: u32) \<and>
      same_outside (l_tail s) (l_tail s + n) (l_buf s) b)"
    using pack_in_room [OF vo fit] by blast
  show ?thesis
  proof (cases "ret > 0")
    case False
    then show ?thesis using p alt True ok by (auto simp: list_attr_entry_def Let_def)
  next
    case pos: True
    then obtain n where n: "ret = int n" "16 \<le> n" "n \<le> unat (ucast (l_room s) :: u32)"
      and same: "same_outside (l_tail s) (l_tail s + n) (l_buf s) b" using alt by auto
    have nr: "n \<le> unat (l_room s)" using n(3) unat_ucast_le [of "l_room s"] by linarith
    define t where "t = s\<lparr>l_buf := b, l_room := l_room s - of_nat n, l_tail := l_tail s + n,
      attr_list_len := attr_list_len s + of_nat n, l_used := l_used s + of_nat n\<rparr>"
    have t: "lister_ok base lim m u t" and ht: "l_head t + 4 \<le> lim"
      using lister_ok_advance [OF ok same n(2) nr] by (simp_all add: t_def)
    obtain c where c: "set_htonl (l_buf t) (l_head t) (attr_list_len t) = Some c" "same_outside base lim m c"
      using lister_ok_tail [OF t ht] by blast
    define r where "r = (if l_room t < 16 then note_cont oid (t\<lparr>l_buf := c, l_head := l_tail t, attr_list_len := 0\<rparr>) else t)"
    have "lister_ok base lim m u (t\<lparr>l_buf := c, l_head := l_tail t, attr_list_len := 0\<rparr>)"
      using t c(2) by (auto simp: lister_ok_def)
    then have "lister_ok base lim m u r" using t by (simp add: r_def)
    then have "lister_ok base lim m u (snd (grow_add (entry_add_len ?len) r))" by (rule grow_add_ok)
    moreover have "list_attr_entry oid row s = Some (fst (grow_add (entry_add_len ?len) r), snd (grow_add (entry_add_len ?len) r))"
      using True pos p c(1) by (simp add: list_attr_entry_def Let_def n(1) t_def r_def)
    ultimately show ?thesis by blast
  qed
qed

lemma list_row_ok: "lister_ok base lim m u s \<Longrightarrow> value_ok (a_value row) \<Longrightarrow>
    \<exists>e s'. list_row row s = Some (e, s') \<and> lister_ok base lim m u s'"
  by (auto simp: list_row_def Let_def intro: list_object_ok list_attr_entry_ok)

lemma list_loop_ok:
  "lister_ok base lim m u s \<Longrightarrow> \<forall>row \<in> set rows. value_ok (a_value row) \<Longrightarrow>
    \<exists>e evs' s'. list_loop rows evs s = Some (e, evs', s') \<and> lister_ok base lim m u s'"
proof (induction rows evs s rule: list_loop.induct)
  case (1 rows evs s)
  obtain ev evs1 where ev: "next_event EvOk evs = (ev, evs1)" by (cases "next_event EvOk evs")
  show ?case
  proof (cases ev)
    case EvOk
    show ?thesis
    proof (cases rows)
      case Nil
      then show ?thesis using 1(3) ev EvOk by (subst list_loop.simps) simp
    next
      case (Cons row rest)
      obtain e s1 where r: "list_row row s = Some (e, s1)" "lister_ok base lim m u s1"
        using list_row_ok [OF 1(3), of row] 1(4) Cons by auto
      show ?thesis
      proof (cases e)
        case None
        then show ?thesis using 1(1) [OF ev [symmetric] EvOk Cons] 1(4) r ev EvOk Cons
          by (subst list_loop.simps) simp
      next
        case (Some x)
        then show ?thesis using r ev EvOk Cons by (subst list_loop.simps) simp
      qed
    qed
  next
    case EvBusy
    then have "evs \<noteq> []" using ev by auto
    then show ?thesis using 1(2) [OF ev [symmetric] EvBusy] 1(3,4) ev EvBusy by (subst list_loop.simps) simp
  qed (use 1(3) ev in \<open>simp_all add: list_loop.simps [of rows evs s]\<close>)
qed

lemma oid_attr_rows_sizes:
  assumes "engine_ok db" and "attr_sizes (tabs db)"
  shows "\<forall>row \<in> set (oid_attr_rows pid oid gs db). value_ok (a_value row)"
proof -
  have "set (scan_attrs db rows) = set rows" for rows
  proof -
    have "mset (scan_attrs db rows) = mset rows" using assms(1) by (simp add: engine_ok_def)
    then show ?thesis by (rule mset_eq_setD)
  qed
  then show ?thesis using assms(2) by (auto simp: oid_attr_rows_def oid_attr_select_def attr_sizes_def)
qed

text \<open>
  C34. Listing objects with their attributes always returns, whatever the engine answers; it writes
  only to the bytes of the output it was given, reports a used length within them, and leaves the
  tables as they are.
\<close>

theorem listing_stays_in_buffer:
  assumes "db_good db" and "engine_ok db" and "attr_sizes (tabs db)"
    and "outdata + unat alloc_len \<le> length m"
  shows "\<exists>ret m' n add' cont' db'. mtq_list_oids_attr db pid initial_oid gs alloc_len outdata (m, u, add_len, cont)
      = Some (ret, (m', u + of_nat n, add', cont'), db') \<and>
    n \<le> unat alloc_len \<and> same_outside outdata (outdata + unat alloc_len) m m' \<and> tabs db' = tabs db"
proof (cases "gs = []")
  case True
  then show ?thesis by (auto simp: mtq_list_oids_attr_def intro!: exI [of _ 0])
next
  case False
  obtain ok d1 where p: "sq_prepare db = (ok, d1)" by (cases "sq_prepare db")
  then obtain es where d1: "d1 = db\<lparr>prep_evs := es\<rparr>" using sq_prepare_frame by blast
  show ?thesis
  proof (cases ok)
    case False
    then show ?thesis using p d1 assms(1) \<open>gs \<noteq> []\<close>
      by (auto simp: mtq_list_oids_attr_def intro!: exI [of _ 0])
  next
    case True
    let ?rows = "oid_attr_rows pid initial_oid gs d1"
    let ?s = "\<lparr>l_buf = m, l_head = outdata, l_tail = outdata, attr_list_len = 0, l_room = alloc_len,
      l_used = u, l_add = add_len, l_cont = cont\<rparr>"
    let ?lim = "outdata + unat alloc_len"
    have "lister_ok outdata ?lim m u ?s" using assms(4) by (simp add: lister_ok_def)
    moreover have "engine_ok d1" using assms(2) by (simp add: d1 engine_ok_def)
    then have "\<forall>row \<in> set ?rows. value_ok (a_value row)"
      using assms(3) by (intro oid_attr_rows_sizes) (simp_all add: d1)
    ultimately obtain e evs s where l: "list_loop ?rows (step_evs d1) ?s = Some (e, evs, s)" "lister_ok outdata ?lim m u s"
      using list_loop_ok by blast
    obtain c where c: "close_list s = Some c" "lister_ok outdata ?lim m u c" using close_list_ok [OF l(2)] by auto
    obtain ret t where t: "(case e of ListDone \<Rightarrow> map_option (\<lambda>s. (OSD_OK, s)) (close_list s)
        | ListPack ret \<Rightarrow> Some (ret, s) | ListStep code \<Rightarrow> Some (- EIO, s)) = Some (ret, t)"
      and ok_t: "lister_ok outdata ?lim m u t"
      using c l(2) by (cases e) auto
    have "mtq_list_oids_attr db pid initial_oid gs alloc_len outdata (m, u, add_len, cont)
        = Some (ret, (l_buf t, l_used t, l_add t, l_cont t), d1\<lparr>step_evs := evs\<rparr>)"
      using p True l(1) t False assms(1) by (simp add: mtq_list_oids_attr_def)
    moreover have "l_used t = u + of_nat (l_tail t - outdata)" "l_tail t - outdata \<le> unat alloc_len"
      "same_outside outdata ?lim m (l_buf t)" using ok_t by (auto simp: lister_ok_def)
    moreover have "tabs (d1\<lparr>step_evs := evs\<rparr>) = tabs db" by (simp add: d1)
    ultimately show ?thesis by metis
  qed
qed

theorem listing_stays_in_buffer_witness:
  "\<exists>ret m' n add' cont' db'. mtq_list_oids_attr (attr_sample [EvBusy]) 0x10000 0 [\<lparr>ga_page = 7, ga_number = 1\<rparr>] 32 8
      (replicate 64 0, 5, 0, 0) = Some (ret, (m', 5 + of_nat n, add', cont'), db') \<and>
    n \<le> 32 \<and> same_outside 8 40 (replicate 64 0) m' \<and> tabs db' = tabs (attr_sample [EvBusy])"
  using listing_stays_in_buffer [of "attr_sample [EvBusy]" 8 32 "replicate 64 0" "0x10000" 0
      "[\<lparr>ga_page = 7, ga_number = 1\<rparr>]" 5 0 0] by simp

end
