(* ===== verification/Cdb_Spec.thy ===== *)
theory Cdb_Spec
  imports Cdb_Submit Mtq_Spec
begin

text \<open>
  What the handling of a command descriptor block promises: when the parser of the continuation
  ends and what its descriptors point to, and what the clean-up after a failed creation does.
\<close>

section \<open>Lemmas: one descriptor\<close>

text \<open>
  A descriptor the parser accepts whose length, with its padding and its header, is \<open>2 ^ 32\<close>.
\<close>

definition zero_descriptor :: "bytes \<Rightarrow> nat \<Rightarrow> bool" where
  "zero_descriptor ind pos = (case (get_ntohs ind pos, buf_get ind (pos + 3) 1, get_ntohl ind (pos + 4)) of
     (Some ty, Some pad, Some len) \<Rightarrow> len + ucast (hd pad AND 0x7) = 0xFFFFFFF8 \<and>
       (ty = NO_MORE_DESCRIPTORS \<or> (ty = SCATTER_GATHER_LIST \<or> ty = QUERY_LIST) \<and> hd pad AND 0x7 = 0)
   | _ \<Rightarrow> False)"

text \<open>The positions the parser comes to.\<close>

inductive reaches :: "bytes \<Rightarrow> nat \<Rightarrow> nat \<Rightarrow> nat \<Rightarrow> bool" for ind :: bytes and cont_end :: nat where
  reaches_refl: "reaches ind cont_end pos pos"
| reaches_step: "pos < cont_end \<Longrightarrow> parse_descriptor ind cont_end pos = Some (d, Some n) \<Longrightarrow>
    reaches ind cont_end (pos + unat n) q \<Longrightarrow> reaches ind cont_end pos q"

text \<open>A descriptor whose specific part lies between the two positions.\<close>

definition inside :: "nat \<Rightarrow> nat \<Rightarrow> descriptor \<Rightarrow> bool" where
  "inside lo hi d = (case d_off d of None \<Rightarrow> True | Some off \<Rightarrow> lo \<le> off \<and> off + unat (d_length d) \<le> hi)"

lemma unat_add_8: "unat (x + 8 :: u32) = (if x \<ge> 0xFFFFFFF8 then unat x - 0xFFFFFFF8 else unat x + 8)"
proof -
  have "unat x < 2 ^ 32" using unsigned_less [of x, where ?'a = nat] by simp
  moreover have "unat (x + 8) = (unat x + 8) mod 2 ^ 32" by (simp add: unat_word_ariths)
  ultimately show ?thesis by (auto simp: word_le_nat_alt mod_if)
qed

lemma aligned_below: "(a :: nat) mod 8 = 0 \<Longrightarrow> b mod 8 = 0 \<Longrightarrow> a < b \<Longrightarrow> a + 8 \<le> b"
  by presburger

lemma parse_descriptor_total:
  assumes "cont_end \<le> length ind" and "cont_end mod 8 = 0" and "pos mod 8 = 0" and "pos < cont_end"
  shows "\<exists>d r. parse_descriptor ind cont_end pos = Some (d, r) \<and>
    (\<forall>n. r = Some n \<longrightarrow> unat n mod 8 = 0 \<and> pos + unat n \<le> cont_end \<and> (n = 0 \<longleftrightarrow> zero_descriptor ind pos) \<and>
      (n \<noteq> 0 \<longrightarrow> inside (pos + 8) cont_end d))"
proof -
  have room: "pos + 8 \<le> length ind" using aligned_below [OF assms(3,2,4)] assms(1) by simp
  obtain ty where ty: "get_ntohs ind pos = Some ty" using room ntohs.get_defined [of ind pos] by auto
  obtain len where len: "get_ntohl ind (pos + 4) = Some len" using room ntohl.get_defined [of ind "pos + 4"] by auto
  obtain pad where pad: "buf_get ind (pos + 3) 1 = Some pad" using room by (simp add: buf_get_def)
  define p where "p = hd pad AND 0x7"
  define dl where "dl = len + ucast p"
  have z: "zero_descriptor ind pos \<longleftrightarrow> dl = 0xFFFFFFF8 \<and> (ty = NO_MORE_DESCRIPTORS \<or>
      (ty = SCATTER_GATHER_LIST \<or> ty = QUERY_LIST) \<and> p = 0)"
    by (simp add: zero_descriptor_def ty len pad p_def dl_def del: One_nat_def)
  show ?thesis
  proof (cases "dl AND 7 = 0 \<and> pos + unat (dl + 8) \<le> cont_end \<and>
      (ty = NO_MORE_DESCRIPTORS \<or> (ty = SCATTER_GATHER_LIST \<or> ty = QUERY_LIST) \<and> p = 0)")
    case False
    then show ?thesis
      by (auto simp: parse_descriptor_def ty len pad p_def [symmetric] dl_def [symmetric] Let_def desc_hdr_size_def
          simp del: One_nat_def)
  next
    case True
    define d where "d = \<lparr>d_type = ty, d_length = len, d_off = (if ty = NO_MORE_DESCRIPTORS then None else Some (pos + 8))\<rparr>"
    have dl0: "p = 0 \<Longrightarrow> len = dl" by (simp add: dl_def)
    have e: "parse_descriptor ind cont_end pos = Some (d, Some (dl + 8))"
      using True dl0
      by (auto simp: parse_descriptor_def ty len pad p_def [symmetric] dl_def [symmetric] Let_def desc_hdr_size_def d_def
          NO_MORE_DESCRIPTORS_def SCATTER_GATHER_LIST_def QUERY_LIST_def simp del: One_nat_def)
    have al: "unat dl mod 8 = 0" using True by (simp add: and_7)
    have small: "unat dl < 2 ^ 32" using unsigned_less [of dl, where ?'a = nat] by simp
    have zero: "dl + 8 = 0 \<longleftrightarrow> dl = 0xFFFFFFF8" 
    proof -
      have "(- 8 :: u32) = 0xFFFFFFF8" by simp
      then show ?thesis using eq_neg_iff_add_eq_0 [of dl 8] by metis
    qed
    have al8: "unat (dl + 8) mod 8 = 0"
      using al by (simp add: unat_add_8) presburger
    have "inside (pos + 8) cont_end d" if n: "dl + 8 \<noteq> 0"
    proof (cases "ty = NO_MORE_DESCRIPTORS")
      case False
      then have "dl = len" using True by (simp add: dl_def)
      moreover have "unat (dl + 8) = unat dl + 8"
      proof -
        have "unat dl \<noteq> 0xFFFFFFF8" using n unfolding zero by (simp add: word_unat_eq_iff)
        then show ?thesis using al small by (simp add: unat_add_8 word_le_nat_alt) presburger
      qed
      ultimately show ?thesis using True by (simp add: inside_def d_def)
    qed (simp add: inside_def d_def)
    then show ?thesis using e al8 True z zero by auto
  qed
qed

section \<open>Lemmas: the loop over the descriptors\<close>

lemma stuck_descriptors:
  "parse_descriptors ind cont_end pos ds = Some r \<Longrightarrow> pos < cont_end \<longrightarrow>
    parse_descriptor ind cont_end pos = Some (d, Some 0) \<longrightarrow> False"
  by (erule parse_descriptors.raw_induct [rotated 1]) (auto split: Option.bind_splits option.splits)

lemma parse_step:
  "pos < cont_end \<Longrightarrow> parse_descriptor ind cont_end pos = Some (d, Some n) \<Longrightarrow>
    parse_descriptors ind cont_end pos ds = parse_descriptors ind cont_end (pos + unat n) (ds @ [d])"
  by (subst parse_descriptors.simps) simp

lemma reaches_none:
  "reaches ind cont_end pos q \<Longrightarrow> q < cont_end \<Longrightarrow> parse_descriptor ind cont_end q = Some (d, Some 0) \<Longrightarrow>
    parse_descriptors ind cont_end pos ds = None"
proof (induction arbitrary: ds rule: reaches.induct)
  case (reaches_refl pos)
  then show ?case using stuck_descriptors by (metis not_None_eq)
next
  case (reaches_step pos d n q)
  then show ?case by (simp add: parse_step)
qed

lemma parse_descriptors_ends:
  assumes "cont_end \<le> length ind" and "cont_end mod 8 = 0" and "pos mod 8 = 0"
    and "\<And>q. reaches ind cont_end pos q \<Longrightarrow> q < cont_end \<Longrightarrow> \<not> zero_descriptor ind q"
  shows "\<exists>ok more. parse_descriptors ind cont_end pos ds = Some (ok, ds @ more) \<and>
    (\<forall>d \<in> set (if ok then more else butlast more). inside (pos + 8) cont_end d)"
  using assms(3,4)
proof (induction "cont_end - pos" arbitrary: pos ds rule: less_induct)
  case less
  show ?case
  proof (cases "pos < cont_end")
    case False
    then show ?thesis by (subst parse_descriptors.simps) (auto intro!: exI [of _ "[]"])
  next
    case True
    obtain d r where p: "parse_descriptor ind cont_end pos = Some (d, r)"
      and n: "\<And>n. r = Some n \<Longrightarrow> unat n mod 8 = 0 \<and> pos + unat n \<le> cont_end \<and> (n = 0 \<longleftrightarrow> zero_descriptor ind pos) \<and>
        (n \<noteq> 0 \<longrightarrow> inside (pos + 8) cont_end d)"
      using parse_descriptor_total [OF assms(1,2) less.prems(1) True] by blast
    show ?thesis
    proof (cases r)
      case None
      then show ?thesis using p True by (subst parse_descriptors.simps) (auto intro!: exI [of _ "[d]"])
    next
      case (Some k)
      have nz: "k \<noteq> 0" using n [OF Some] less.prems(2) [OF reaches_refl True] by blast
      have pos': "(pos + unat k) mod 8 = 0" using n [OF Some] less.prems(1) by (simp add: mod_add_eq [symmetric, of pos])
      have less': "cont_end - (pos + unat k) < cont_end - pos"
        using True nz by (simp add: unat_gt_0 diff_less_mono2)
      have "\<not> zero_descriptor ind q" if "reaches ind cont_end (pos + unat k) q" "q < cont_end" for q
        using less.prems(2) [OF reaches_step [OF True p [unfolded Some] that(1)] that(2)] .
      then obtain ok more where m: "parse_descriptors ind cont_end (pos + unat k) (ds @ [d]) = Some (ok, (ds @ [d]) @ more)"
        "\<forall>d \<in> set (if ok then more else butlast more). inside (pos + unat k + 8) cont_end d"
        using less.hyps [OF less' pos', of "ds @ [d]"] by blast
      have "inside (pos + 8) cont_end x" if "inside (pos + unat k + 8) cont_end x" for x
        using that by (auto simp: inside_def split: option.splits)
      moreover have "inside (pos + 8) cont_end d" using n [OF Some] nz by blast
      ultimately have "\<forall>x \<in> set (if ok then d # more else butlast (d # more)). inside (pos + 8) cont_end x"
        using m(2) by (auto split: if_splits)
      then show ?thesis using m(1) p True Some by (auto simp: parse_step intro!: exI [of _ ok] exI [of _ "d # more"])
    qed
  qed
qed

lemma zero_descriptor_stuck:
  assumes "zero_descriptor ind q" and "q < cont_end"
  shows "\<exists>d. parse_descriptor ind cont_end q = Some (d, Some 0)"
proof -
  obtain ty pad len where r: "get_ntohs ind q = Some ty" "buf_get ind (q + 3) 1 = Some pad" "get_ntohl ind (q + 4) = Some len"
    and z: "len + ucast (hd pad AND 0x7) = 0xFFFFFFF8" and ok: "ty = NO_MORE_DESCRIPTORS \<or>
      (ty = SCATTER_GATHER_LIST \<or> ty = QUERY_LIST) \<and> hd pad AND 0x7 = 0"
    using assms(1) by (auto simp: zero_descriptor_def simp del: One_nat_def split: option.splits)
  have al: "(0xFFFFFFF8 :: u32) AND 7 = 0" "(0xFFFFFFF8 :: u32) + of_nat desc_hdr_size = 0"
    by (simp_all add: desc_hdr_size_def)
  show ?thesis
    unfolding parse_descriptor_def r bind.bind_lunit Let_def z al using ok assms(2) by auto
qed

lemma bad_cdb_fails:
  assumes "252 \<le> length (c_sense cmd)" and "bad_cdb pid oid cmd = Some (ret, cmd')"
  shows "ret = 40"
proof -
  obtain s where "sense_basic_build (c_sense cmd) OSD_SSK_ILLEGAL_REQUEST OSD_ASC_INVALID_FIELD_IN_CDB pid oid = Some (40, s)"
    by (rule sense_build_sdd_ok [OF assms(1)])
  then show ?thesis using assms(2) by (simp add: bad_cdb_def basic_error_def)
qed

lemma bad_cdb_not_ok [simp]: "252 \<le> length (c_sense cmd) \<Longrightarrow> bad_cdb pid oid cmd \<noteq> Some (0, cmd')"
  using bad_cdb_fails [of cmd pid oid 0 cmd'] by auto

lemma sg_entries_inside: "off + 16 * n \<le> length ind \<Longrightarrow> sg_entries ind off n \<noteq> None"
proof (induction n arbitrary: off)
  case (Suc n)
  moreover obtain a where "get_ntohll ind off = Some a" using Suc.prems ntohll.get_defined [of ind off] by auto
  moreover obtain b where "get_ntohll ind (off + 8) = Some b" using Suc.prems ntohll.get_defined [of ind "off + 8"] by auto
  ultimately show ?case using Suc.IH [of "off + 16"] by fastforce
qed simp

section \<open>The continuation\<close>

text \<open>
  C30. Parsing the descriptors of a continuation that lies inside the data ends, unless it comes to a
  descriptor whose length with its header is \<open>2 ^ 32\<close>: there, and only there, it stays for ever.
\<close>

theorem continuation_parsing_ends_iff:
  assumes "cont_end \<le> length ind" and "cont_end mod 8 = 0" and "pos mod 8 = 0"
  shows "parse_descriptors ind cont_end pos ds = None \<longleftrightarrow>
    (\<exists>q. reaches ind cont_end pos q \<and> q < cont_end \<and> zero_descriptor ind q)"
proof
  assume none: "parse_descriptors ind cont_end pos ds = None"
  show "\<exists>q. reaches ind cont_end pos q \<and> q < cont_end \<and> zero_descriptor ind q"
    using parse_descriptors_ends [OF assms, of ds] none by fastforce
next
  assume "\<exists>q. reaches ind cont_end pos q \<and> q < cont_end \<and> zero_descriptor ind q"
  then show "parse_descriptors ind cont_end pos ds = None"
    using reaches_none zero_descriptor_stuck by blast
qed

definition looping_list :: bytes where
  "looping_list = replicate 40 0 @ [0, 1, 0, 0, 0xFF, 0xFF, 0xFF, 0xF8]"

theorem continuation_parsing_ends_iff_witness: "parse_descriptors looping_list 48 40 [] = None"
proof -
  have "zero_descriptor looping_list 40" by code_simp
  then have "\<exists>q. reaches looping_list 48 40 q \<and> q < 48 \<and> zero_descriptor looping_list q"
    using reaches_refl [of looping_list 48 40] by auto
  then show ?thesis
    using continuation_parsing_ends_iff [of 48 looping_list 40 "[]"] by (simp add: looping_list_def)
qed

text \<open>
  C29. When the continuation has been accepted, every pointer of its descriptors lies behind the header
  and ends inside the continuation, and every scatter/gather list can be decoded.
\<close>

theorem descriptors_inside_continuation:
  assumes "unat len \<le> length (indata cmd)" and "252 \<le> length (c_sense cmd)" and "c_cont cmd = []"
    and "parse_cdb_continuation_segment cmd len pid oid = Some (0, cmd')"
  shows "\<forall>d \<in> set (c_cont cmd'). inside 48 (unat len) d \<and> sglist_of st cmd' d \<noteq> None"
proof -
  have al: "len mod 8 = 0" and "\<not> len < 48"
    and "\<exists>ok ds. parse_descriptors (indata cmd) (unat len) 40 [] = Some (ok, ds) \<and> ok \<and> cmd' = cmd\<lparr>c_cont := ds\<rparr>"
    using assms(2-4)
    by (auto simp: parse_cdb_continuation_segment_def OSD_OK_def Let_def split: Option.bind_splits if_splits)
  then obtain ds where p: "parse_descriptors (indata cmd) (unat len) 40 [] = Some (True, ds)" and c: "cmd' = cmd\<lparr>c_cont := ds\<rparr>"
    by auto
  have "unat len mod 8 = 0" using arg_cong [OF al, of unat] by (simp add: unat_mod_distrib)
  note al8 = this
  have "\<not> zero_descriptor (indata cmd) q" if "reaches (indata cmd) (unat len) 40 q" "q < unat len" for q
    using reaches_none [OF that] zero_descriptor_stuck [OF _ that(2)] p by fastforce
  then have ins: "\<forall>d \<in> set ds. inside 48 (unat len) d"
    using parse_descriptors_ends [OF assms(1) al8, of 40 "[]"] p by fastforce
  have "sglist_of st cmd' d \<noteq> None" if "d \<in> set ds" for d
  proof -
    have "inside 48 (unat len) d" using ins that by blast
    then have b: "off + unat (d_length d) \<le> length (indata cmd)" if "d_off d = Some off" for off
      using that assms(1) by (simp add: inside_def)
    have "16 * (unat (d_length d) div 16) \<le> unat (d_length d)" by simp
    then have "off + 16 * (unat (d_length d) div 16) \<le> length (indata cmd)" if "d_off d = Some off" for off
      using b [OF that] by linarith
    then show ?thesis
      using sg_entries_inside [of _ "unat (d_length d) div 16" "indata cmd"] c
      by (auto simp: sglist_of_def indata_def split: option.splits)
  qed
  then show ?thesis using ins c by simp
qed

definition sg_command :: "bytes \<Rightarrow> command" where
  "sg_command ind = \<lparr>c_osd = atomic_device, c_cdb = replicate 200 0, c_action = 5, getset_cdbfmt = 2, retrieved_attr_off = 0,
     c_get_attr = [], c_set_attr = [], c_indata = Some ind, c_cont = [], c_inlen = of_nat (length ind), c_outdata = None,
     c_outlen = 0, c_used = 0, get_used = 0, c_sense = replicate 252 0, c_senselen = 0\<rparr>"

definition two_entries :: bytes where
  "two_entries = [1, 0, 0, 5] @ replicate 36 0 @ [0, 1, 0, 0, 0, 0, 0, 32] @ replicate 32 7"

definition blank :: surroundings where
  "blank = \<lparr>s_locals = (replicate 40 0, replicate 8 0), s_host = replicate 8 0, s_val = [], s_valen = 0,
     s_used_outlen = 0, s_malloc = (\<lambda>n. Some (replicate (unat n) 0)), s_sglist = [], s_cuos = (0, 0),
     s_opening = \<lparr>o_readdir = \<lambda>_ _. [], o_open = True, o_tables = []\<rparr>\<rparr>"

theorem descriptors_inside_continuation_witness:
  "\<exists>cmd' d. parse_cdb_continuation_segment (sg_command two_entries) 80 0x10000 0x10001 = Some (0, cmd') \<and>
     c_cont cmd' = [d] \<and> d_off d = Some 48 \<and> inside 48 80 d \<and> sglist_of blank cmd' d \<noteq> None"
proof -
  let ?cmd = "(sg_command two_entries)\<lparr>c_cont := [\<lparr>d_type = 1, d_length = 32, d_off = Some 48\<rparr>]\<rparr>"
  have "parse_descriptor two_entries 80 40 = Some (\<lparr>d_type = 1, d_length = 32, d_off = Some 48\<rparr>, Some 40)"
    by code_simp
  then have d: "parse_descriptors two_entries 80 40 [] = Some (True, [\<lparr>d_type = 1, d_length = 32, d_off = Some 48\<rparr>])"
    by (simp add: parse_descriptors.simps)
  have b: "buf_get two_entries 0 1 = Some [1]" "get_ntohs two_entries 2 = Some 5" by code_simp+
  have r: "parse_cdb_continuation_segment (sg_command two_entries) 80 0x10000 0x10001 = Some (0, ?cmd)"
    using b d by (simp add: parse_cdb_continuation_segment_def sg_command_def indata_def OSD_OK_def)
  have "\<forall>d \<in> set (c_cont ?cmd). inside 48 80 d \<and> sglist_of blank ?cmd d \<noteq> None"
    using descriptors_inside_continuation [OF _ _ _ r, where st = blank]
    by (simp add: sg_command_def indata_def two_entries_def)
  then show ?thesis
    by (intro exI [of _ ?cmd] exI [of _ "\<lparr>d_type = 1, d_length = 32, d_off = Some 48\<rparr>"]) (simp add: r)
qed

section \<open>Creating a partition\<close>

lemma remove_partition_quietly: "remove_quietly pid PARTITION_OID cmd = Some (0, cmd)"
proof -
  have "252 \<le> length local_sense" by (simp add: local_sense_def OSD_MAX_SENSE_def)
  from error_answers_total(1) [OF this, of "c_osd cmd" pid 0]
  obtain ret s where "out_cdb_err (c_osd cmd) local_sense pid 0 = Some (ret, s, c_osd cmd)"
    by (auto simp: total_def answered_def)
  moreover have "\<not> user_object pid 0" using user_object_nonzero by blast
  ultimately show ?thesis by (cases cmd) (simp add: remove_quietly_def osd_remove_def PARTITION_OID_def)
qed

text \<open>
  C36. The clean-up of a partition whose attributes could not be set does nothing: the command is the
  creation followed by the attributes, and the partition stays.
\<close>

theorem create_partition_without_cleanup:
  "cdb_create_partition st cmd = do {
     pid \<leftarrow> pid_of cmd;
     and_then (on_device (\<lambda>osd. osd_create_partition osd pid) cmd)
       (\<lambda>cmd. std_get_set_attr st cmd (ccap_pid (ccap (c_osd cmd))) PARTITION_OID) }"
proof -
  have "attributes_or_remove st pid PARTITION_OID c = std_get_set_attr st c pid PARTITION_OID" for pid c
    by (cases "std_get_set_attr st c pid PARTITION_OID") (auto simp: attributes_or_remove_def remove_partition_quietly)
  then show ?thesis by (simp add: cdb_create_partition_def and_then_def cong: if_cong)
qed

end
