(* ===== verification/Osd_Lifecycle.thy ===== *)
theory Osd_Lifecycle
  imports Osd_Objects Osd_Transfers
begin

text \<open>
  The life cycle of objects, collections and partitions: the invariant of the device, kept by every
  command of \<open>Osd_Objects\<close> under every schedule of the database engine and the file system, the
  states reachable by sequences of commands, and what creating and removing do.
\<close>

section \<open>The invariant\<close>

text \<open>
  Identifiers in use are 0, for the partition itself, or at least \<open>0x10000\<close>; the cached next
  identifier is above all identifiers of its partition.
\<close>

definition dev_inv :: "osd_device \<Rightarrow> bool" where
  "dev_inv osd \<longleftrightarrow> sound osd \<and>
     (\<forall>r \<in> set (t_obj (tabs (dbc osd))). o_oid r \<noteq> 0 \<longrightarrow> 0x10000 \<le> o_oid r) \<and>
     (cur_pid (ic osd) \<noteq> 0 \<longrightarrow> 0x10000 < sint (next_id (ic osd)) \<and>
       (\<forall>r \<in> set (t_obj (tabs (dbc osd))). o_pid r = sint (cur_pid (ic osd)) \<longrightarrow> o_oid r < sint (next_id (ic osd))))"

text \<open>
  Room for further objects: identifiers and counters are far from the limits of a signed 64-bit
  integer, row counts fit into the 32 bits the queries read.
\<close>

definition room :: "osd_device \<Rightarrow> bool" where
  "room osd \<longleftrightarrow> sint (next_id (ic osd)) < 2 ^ 62 \<and>
     (\<forall>r \<in> set (t_obj (tabs (dbc osd))). o_oid r < 2 ^ 62 \<and> o_pid r < 2 ^ 62) \<and>
     length (t_obj (tabs (dbc osd))) < 2 ^ 31 \<and> length (t_coll (tabs (dbc osd))) < 2 ^ 31"

section \<open>Lemmas: choosing an identifier\<close>

lemma sint_unat: "0 \<le> sint (w :: u64) \<Longrightarrow> unat w = nat (sint w)"
proof -
  assume a: "0 \<le> sint w"
  then have w: "w = of_nat (nat (sint w))" by simp
  have "nat (sint w) < nat (2 ^ 63)" using a sint_range_64 [of w] by (simp only: nat_less_eq_zless)
  then have "nat (sint w) < 2 ^ LENGTH(64)" by simp
  then have "unat (of_nat (nat (sint w)) :: u64) = nat (sint w)"
    by (simp only: unsigned_of_nat take_bit_nat_eq_self of_nat_id)
  then show ?thesis using w by simp
qed

lemma sint_le_unat: "unat (w :: u64) < 2 ^ 63 \<Longrightarrow> unat w = nat (sint w)"
  using sint_nonneg [of w] by (rule sint_unat)

lemma sint_Suc: "0 \<le> sint (w :: u64) \<Longrightarrow> sint w < 2 ^ 62 \<Longrightarrow> sint (w + 1) = sint w + 1"
proof -
  assume a: "0 \<le> sint w" "sint w < 2 ^ 62"
  have "w + 1 = word_of_int (sint w + 1)" by simp
  then show ?thesis using sint_of_int_64 [of "sint w + 1"] a by simp
qed

lemma user_object_sint: "0x10000 \<le> pid \<Longrightarrow> 0x10000 \<le> sint oid \<Longrightarrow> user_object pid oid"
  using sint_unat [of oid] by (simp add: user_object_def osd_consts word_le_nat_alt nat_le_iff le_nat_iff)

lemma max_oid_props:
  assumes "obj_map t (p, 0) \<noteq> None"
  shows "0 \<le> max_oid t p" and "\<exists>r \<in> set (t_obj t). o_pid r = p \<and> o_oid r = max_oid t p"
    and "r \<in> set (t_obj t) \<Longrightarrow> o_pid r = p \<Longrightarrow> o_oid r \<le> max_oid t p"
proof -
  let ?rows = "filter (\<lambda>r. o_pid r = p) (t_obj t)"
  obtain q where q: "q \<in> set (t_obj t)" "o_pid q = p" "o_oid q = 0" using assms unfolding obj_map_some by blast
  then have ne: "?rows \<noteq> []" by (auto simp: filter_empty_conv)
  have eq: "max_oid t p = Max (o_oid ` {r \<in> set (t_obj t). o_pid r = p})"
    using ne by (simp add: max_oid_def Let_def)
  have mem: "Max (o_oid ` {r \<in> set (t_obj t). o_pid r = p}) \<in> o_oid ` {r \<in> set (t_obj t). o_pid r = p}"
    using q by (intro Max_in) auto
  have ge: "o_oid r \<le> max_oid t p" if "r \<in> set (t_obj t)" "o_pid r = p" for r
    unfolding eq using that by (intro Max_ge) auto
  show "0 \<le> max_oid t p" using ge [OF q(1,2)] q(3) by simp
  show "\<exists>r \<in> set (t_obj t). o_pid r = p \<and> o_oid r = max_oid t p" using mem unfolding eq by auto
  show "r \<in> set (t_obj t) \<Longrightarrow> o_pid r = p \<Longrightarrow> o_oid r \<le> max_oid t p" by (rule ge)
qed

text \<open>
  What the choice of an identifier leaves: only the cache and the statements of the database
  change. A chosen identifier is free and not reserved; one that was not asked for is above all
  others of the partition, and the cache points behind it.
\<close>

definition choice_ok :: "osd_device \<Rightarrow> u64 \<Rightarrow> u64 \<Rightarrow> chosen \<times> osd_device \<Rightarrow> bool" where
  "choice_ok osd pid requested = (\<lambda>(c, osd'). dev_inv osd' \<and>
     osd' = osd\<lparr>dbc := dbc osd', ic := ic osd'\<rparr> \<and> asked (dbc osd) (dbc osd') \<and>
     (case c of
        Chosen oid \<Rightarrow> 0x10000 \<le> sint oid \<and> sint oid \<le> 2 ^ 62 \<and>
          obj_map (tabs (dbc osd)) (okey pid oid) = None \<and>
          (if requested = 0
           then ic osd' = \<lparr>cur_pid = pid, next_id = oid + 1\<rparr> \<and>
             (\<forall>r \<in> set (t_obj (tabs (dbc osd))). o_pid r = sint pid \<longrightarrow> o_oid r < sint oid)
           else oid = requested \<and> ic osd' = no_cache)
      | ChosenTaken \<Rightarrow> requested \<noteq> 0 \<and>
          (db_clean (dbc osd) \<longrightarrow> obj_map (tabs (dbc osd)) (okey pid requested) \<noteq> None)
      | ChosenFailed \<Rightarrow> requested = 0 \<and> \<not> db_clean (dbc osd)))"

lemma dev_inv_asked:
  "dev_inv osd \<Longrightarrow> asked (dbc osd) d \<Longrightarrow> dev_inv (osd\<lparr>dbc := d\<rparr>)"
  by (simp add: dev_inv_def asked_def sound_def root_fits_def)

lemma dev_inv_no_cache: "dev_inv osd \<Longrightarrow> dev_inv (osd\<lparr>ic := no_cache\<rparr>)"
  by (simp add: dev_inv_def no_cache_def)

lemma dev_inv_next:
  assumes "dev_inv osd" and "0x10000 \<le> sint oid" "sint oid \<le> 2 ^ 62"
    and "\<forall>r \<in> set (t_obj (tabs (dbc osd))). o_pid r = sint pid \<longrightarrow> o_oid r < sint oid"
  shows "dev_inv (osd\<lparr>ic := \<lparr>cur_pid = pid, next_id = oid + 1\<rparr>\<rparr>)"
proof -
  have "oid + 1 = word_of_int (sint oid + 1)" by simp
  then have "sint (oid + 1) = sint oid + 1" using sint_of_int_64 [of "sint oid + 1"] assms(2,3) by simp
  then show ?thesis using assms by (auto simp: dev_inv_def intro: less_trans)
qed

lemma next_id_for_total:
  assumes inv: "dev_inv osd" and rm: "room osd" and p: "pid \<noteq> 0" "obj_map (tabs (dbc osd)) (okey pid 0) \<noteq> None"
  shows "total (\<lambda>(ok, oid, osd'). if ok then choice_ok osd pid 0 (Chosen oid, osd')
      else dev_inv osd' \<and> osd' = osd\<lparr>dbc := dbc osd'\<rparr> \<and> asked (dbc osd) (dbc osd') \<and> \<not> db_clean (dbc osd))
    (next_id_for osd pid 0x10000)"
proof (cases "cur_pid (ic osd) = pid")
  case True
  let ?oid = "next_id (ic osd)"
  have oid: "0x10000 < sint ?oid" "sint ?oid < 2 ^ 62"
    "\<forall>r \<in> set (t_obj (tabs (dbc osd))). o_pid r = sint pid \<longrightarrow> o_oid r < sint ?oid"
    using inv rm True p(1) by (auto simp: dev_inv_def room_def)
  have "?oid \<noteq> 1" using oid(1) by auto
  moreover have "obj_map (tabs (dbc osd)) (okey pid ?oid) = None"
    using oid(3) obj_map_some [of "tabs (dbc osd)" "sint pid" "sint ?oid"] by auto
  moreover have "asked (dbc osd) (dbc osd)" using soundD(1) inv by (simp add: asked_def dev_inv_def)
  moreover have "next_id_for osd pid 0x10000 = Some (True, ?oid, osd\<lparr>ic := \<lparr>cur_pid = pid, next_id = ?oid + 1\<rparr>\<rparr>)"
    using True \<open>?oid \<noteq> 1\<close> by (cases "ic osd") (simp add: next_id_for_def)
  ultimately show ?thesis
    using oid dev_inv_next [OF inv _ _ oid(3)] by (simp add: choice_ok_def)
next
  case False
  let ?t = "tabs (dbc osd)" and ?m = "max_oid (tabs (dbc osd)) (sint pid)"
  have good: "db_good (dbc osd)" using inv soundD(1) by (simp add: dev_inv_def)
  note m = max_oid_props [of ?t "sint pid"]
  have m0: "0 \<le> ?m" and ge: "\<And>r. r \<in> set (t_obj ?t) \<Longrightarrow> o_pid r = sint pid \<Longrightarrow> o_oid r \<le> ?m"
    using m(1,3) p(2) by simp_all
  obtain q where q: "q \<in> set (t_obj ?t)" "o_oid q = ?m" using m(2) p(2) by auto
  have lim: "?m < 2 ^ 62" "?m \<noteq> 0 \<longrightarrow> 0x10000 \<le> ?m" using q inv rm by (auto simp: dev_inv_def room_def)
  have s: "sint (word_of_int (?m + 1) :: u64) = ?m + 1" using m0 lim by (intro sint_of_int_64) simp_all
  have "?m \<noteq> 2 ^ 63 - 1" using lim(1) by simp
  from obj_get_nextoid_ok [OF good this, of 0]
  obtain ret oid' d where q': "obj_get_nextoid (dbc osd) pid 0 = Some (ret, oid', d)" "asked (dbc osd) d"
    "ret = 0 \<and> oid' = word_of_int (?m + 1) \<or> ret \<noteq> 0 \<and> oid' = 0 \<and> \<not> db_clean (dbc osd)"
    unfolding asked_def by (metis ret_codes)
  show ?thesis
  proof (cases "ret = 0")
    case True
    define oid where "oid = (if ?m = 0 then 0x10000 else oid')"
    have o': "oid' = word_of_int (?m + 1)" using q'(3) True by simp
    have one: "oid' = 1 \<longleftrightarrow> ?m = 0"
    proof
      assume "oid' = 1"
      then have "sint oid' = 1" by simp
      then show "?m = 0" using s o' by simp
    qed (simp add: o')
    have os: "0x10000 \<le> sint oid" "sint oid \<le> 2 ^ 62" and below: "\<forall>r \<in> set (t_obj ?t). o_pid r = sint pid \<longrightarrow> o_oid r < sint oid"
      using s lim m0 ge unfolding oid_def o' by fastforce+
    have "obj_map ?t (okey pid oid) = None"
      using below obj_map_some [of ?t "sint pid" "sint oid"] by auto
    moreover have "dev_inv (osd\<lparr>dbc := d, ic := \<lparr>cur_pid = pid, next_id = oid + 1\<rparr>\<rparr>)"
      using dev_inv_next [OF dev_inv_asked [OF inv q'(2)] os, of pid] below q'(2) by (simp add: asked_def)
    ultimately show ?thesis
      using False q' True one os below
      by (cases "?m = 0") (simp_all add: next_id_for_def oid_def choice_ok_def)
  next
    case F: False
    then show ?thesis
      using False q' dev_inv_asked [OF inv q'(2)] by (simp add: next_id_for_def)
  qed
qed

text \<open>The presence test in front of a command.\<close>

lemma total_query:
  assumes inv: "dev_inv osd"
    and all: "\<And>ret present d. asked (dbc osd) d \<Longrightarrow> dev_inv (osd\<lparr>dbc := d\<rparr>) \<Longrightarrow>
      ret = 0 \<and> (present \<longleftrightarrow> obj_map (tabs (dbc osd)) (okey pid oid) \<noteq> None) \<or> ret \<noteq> 0 \<and> \<not> db_clean (dbc osd) \<Longrightarrow>
      total Q (k (ret, present, osd\<lparr>dbc := d\<rparr>))"
  shows "total Q (is_present osd pid oid \<bind> k)"
proof -
  have ok: "tables_ok (tabs (dbc osd))" "db_good (dbc osd)" using inv soundD by (simp_all add: dev_inv_def)
  show ?thesis
  proof (rule total_bind [OF is_present_total [OF ok(2,1)]], clarify)
    fix ret :: int and present osd'
    assume o: "osd' = osd\<lparr>dbc := dbc osd'\<rparr>" and a: "asked (dbc osd) (dbc osd')"
      and c: "ret = 0 \<and> (present \<longleftrightarrow> obj_map (tabs (dbc osd)) (okey pid oid) \<noteq> None) \<or> ret \<noteq> 0 \<and> \<not> db_clean (dbc osd)"
    from all [OF a dev_inv_asked [OF inv a] c] o show "total Q (k (ret, present, osd'))" by simp
  qed
qed

lemma total_present:
  assumes inv: "dev_inv osd"
    and bad: "\<And>d. asked (dbc osd) d \<Longrightarrow> dev_inv (osd\<lparr>dbc := d\<rparr>) \<Longrightarrow>
      (db_clean (dbc osd) \<Longrightarrow> obj_map (tabs (dbc osd)) (okey pid oid) = None) \<Longrightarrow> total Q (bad (osd\<lparr>dbc := d\<rparr>))"
    and good: "\<And>d. asked (dbc osd) d \<Longrightarrow> dev_inv (osd\<lparr>dbc := d\<rparr>) \<Longrightarrow>
      obj_map (tabs (dbc osd)) (okey pid oid) \<noteq> None \<Longrightarrow> total Q (good (osd\<lparr>dbc := d\<rparr>))"
  shows "total Q (is_present osd pid oid \<bind> (\<lambda>(ret, present, osd).
    if ret \<noteq> OSD_OK \<or> \<not> present then bad osd else good osd))"
  by (rule total_query [OF inv]) (auto intro: bad good)

lemma choose_id_total:
  assumes inv: "dev_inv osd" and rm: "room osd" and p: "pid \<noteq> 0" "obj_map (tabs (dbc osd)) (okey pid 0) \<noteq> None"
    and req: "requested = 0 \<or> 0x10000 \<le> requested \<and> unat requested \<le> 2 ^ 62"
  shows "total (choice_ok osd pid requested) (choose_id osd pid requested 0x10000)"
proof (cases "requested = 0")
  case True
  have "total (choice_ok osd pid 0) (next_id_for osd pid 0x10000 \<bind> (\<lambda>(ok, oid, osd).
      Some (if ok then (Chosen oid, osd) else (ChosenFailed, osd\<lparr>ic := no_cache\<rparr>))))"
    by (rule total_bind [OF next_id_for_total [OF inv rm p]])
      (auto simp: choice_ok_def intro: dev_inv_no_cache split: if_splits)
  then show ?thesis using True by (simp add: choose_id_def)
next
  case False
  then have r: "0x10000 \<le> requested" "unat requested \<le> 2 ^ 62" using req by simp_all
  then have "unat requested < 2 ^ 63" by simp
  from sint_nonneg [OF this] sint_le_unat [OF this] r
  have s: "0x10000 \<le> sint requested" "sint requested \<le> 2 ^ 62"
    by (simp_all add: word_le_nat_alt nat_le_iff le_nat_iff)
  have "total (choice_ok osd pid requested) (is_present osd pid requested \<bind> (\<lambda>(ret, present, osd).
      Some (if ret \<noteq> OSD_OK \<or> present then (ChosenTaken, osd) else (Chosen requested, osd\<lparr>ic := no_cache\<rparr>))))"
    by (rule total_query [OF inv])
      (use False s in \<open>auto simp: choice_ok_def asked_def intro: dev_inv_no_cache split: if_splits\<close>)
  then show ?thesis using False by (simp add: choose_id_def)
qed

section \<open>Lemmas: the commands keep the invariant\<close>

definition cmd_post :: "osd_device \<Rightarrow> bytes \<Rightarrow> int \<times> bytes \<times> osd_device \<Rightarrow> bool" where
  "cmd_post osd sense = (\<lambda>(ret, s, osd'). dev_inv osd' \<and> length s = length sense \<and> root osd' = root osd \<and>
     db_frame (dbc osd) (dbc osd'))"

lemma asked_frame: "asked d d' \<Longrightarrow> db_frame d d'"
  by (simp add: asked_def)

lemma errors_cmd_post:
  assumes "252 \<le> length sense" and "dev_inv osd'" and "root osd' = root osd" and "db_frame (dbc osd) (dbc osd')"
  shows "total (cmd_post osd sense) (out_cdb_err osd' sense p q)"
    and "total (cmd_post osd sense) (out_hw_err osd' sense p q)"
    and "total (cmd_post osd sense) (out_not_empty osd' sense p q)"
  by (rule total_mono [OF error_answers_total(1) [OF assms(1)]]
      total_mono [OF error_answers_total(2) [OF assms(1)]]
      total_mono [OF error_answers_total(3) [OF assms(1)]],
      use assms in \<open>auto simp: answered_def cmd_post_def\<close>)+

lemma room_asked: "room osd \<Longrightarrow> asked (dbc osd) d \<Longrightarrow> room (osd\<lparr>dbc := d\<rparr>)"
  by (simp add: room_def asked_def)

lemma between_sint:
  assumes "0 \<le> sint (a :: u64)" and "a \<le> j" and "j < e" and "unat e < 2 ^ 63"
  shows "sint a \<le> sint j \<and> sint j < sint e"
proof -
  have u: "unat a \<le> unat j" "unat j < unat e" using assms by (simp_all add: word_le_nat_alt word_less_nat_alt)
  then have "unat j < 2 ^ 63" using assms(4) by simp
  from sint_le_unat [OF this] sint_nonneg [OF this] sint_le_unat [OF assms(4)] sint_nonneg [OF assms(4)] sint_unat [OF assms(1)]
  show ?thesis using u assms(1) by simp
qed

text \<open>Adding a chosen identifier.\<close>

lemma choice_add_row:
  assumes ch: "choice_ok osd pid requested (Chosen oid, osd1)" and d: "db_good d"
    and add: "Some (tabs d) = add_obj pid oid ty (tabs (dbc osd1))"
    and p: "obj_map (tabs (dbc osd)) (okey pid 0) \<noteq> None" and ty: "typed_row (obj_row_of pid oid ty)"
  shows "dev_inv (osd1\<lparr>dbc := d\<rparr>)"
proof -
  let ?t = "tabs (dbc osd)"
  have t: "tabs (dbc osd1) = ?t" "dev_inv osd1" using ch by (simp_all add: choice_ok_def asked_def)
  have rows: "t_obj (tabs d) = t_obj ?t @ [obj_row_of pid oid ty]" using add_obj_rows [OF add [symmetric]] t by simp
  have "tables_inv (tabs d)"
    using tables_inv_add [OF _ add [symmetric] _ ty] t p soundD(2) [of osd1] by (simp add: dev_inv_def)
  then have "sound (osd1\<lparr>dbc := d\<rparr>)" using t(2) d by (intro sound_dbc) (simp_all add: dev_inv_def)
  moreover have "requested = 0 \<Longrightarrow> sint (oid + 1) = sint oid + 1"
    using ch sint_of_int_64 [of "sint oid + 1"] by (simp add: choice_ok_def)
  ultimately show ?thesis
    using ch t(2) rows unfolding dev_inv_def choice_ok_def
    by (auto simp: t(1) obj_row_of_def no_cache_def split: if_splits)
qed

text \<open>The end of a range of new identifiers.\<close>

lemma range_end:
  assumes "0x10000 \<le> sint (oid :: u64)" and "sint oid \<le> 2 ^ 62"
  shows "unat (oid + ucast (n :: u16)) < 2 ^ 63" and "sint (oid + ucast n) = sint oid + int (unat n)"
proof -
  let ?e = "oid + ucast n"
  have un: "unat (ucast n :: u64) = unat n" "unat n < 2 ^ 16"
    using unsigned_less [of n, where ?'a = nat] by (simp_all add: unsigned_ucast_eq take_bit_nat_eq_self)
  have uo: "unat oid = nat (sint oid)" using sint_unat [of oid] assms(1) by simp
  then have "unat oid \<le> 2 ^ 62" using assms(2) by simp
  then have ue: "unat ?e = unat oid + unat n" "unat ?e < 2 ^ 63"
    using un unat_add_lem [THEN iffD1, of oid "ucast n"] by simp_all
  show "unat ?e < 2 ^ 63" by (rule ue(2))
  show "sint ?e = sint oid + int (unat n)"
    using sint_le_unat [OF ue(2)] sint_nonneg [OF ue(2)] uo ue(1) assms(1) by linarith
qed

lemma last_of_range: "0 < (n :: u16) \<Longrightarrow> (oid :: u64) + 1 + ucast (n - 1) = oid + ucast n"
proof -
  assume n: "0 < n"
  have un: "unat (ucast n :: u64) = unat n" "unat n < 2 ^ 16"
    using unsigned_less [of n, where ?'a = nat] by (simp_all add: unsigned_ucast_eq take_bit_nat_eq_self)
  have "ucast n = (1 :: u64) + ucast (n - 1)"
  proof (rule word_unat_eq_iff [THEN iffD2])
    have "1 \<le> n" using n by (simp add: word_less_nat_alt word_le_nat_alt)
    then have "unat (n - 1) = unat n - 1" "1 \<le> unat n" by (simp_all add: unat_sub word_le_nat_alt)
    moreover have "unat (ucast (n - 1) :: u64) = unat (n - 1)"
      using unsigned_less [of "n - 1", where ?'a = nat] by (simp add: unsigned_ucast_eq take_bit_nat_eq_self)
    ultimately show "unat (ucast n :: u64) = unat (1 + ucast (n - 1) :: u64)"
      using un unat_add_lem [THEN iffD1, of 1 "ucast (n - 1) :: u64"] by simp
  qed
  then show ?thesis by simp
qed

text \<open>After the loop of \<open>osd_create\<close>: the new rows are those of the range, and no identifier is reserved.\<close>

lemma created_rows:
  assumes ch: "choice_ok osd pid requested (Chosen oid, osd1)"
    and lp: "loop_post osd1 pid oid (oid + ucast (n :: u16)) sense (ok, s, osd2)"
    and r: "r \<in> set (t_obj (tabs (dbc osd2)))"
  shows "r \<in> set (t_obj (tabs (dbc osd))) \<or> 0x10000 \<le> o_oid r \<and> o_oid r < sint (oid + ucast n)"
proof -
  let ?e = "oid + ucast n"
  have c: "0x10000 \<le> sint oid" "sint oid \<le> 2 ^ 62" "tabs (dbc osd1) = tabs (dbc osd)"
    using ch by (simp_all add: choice_ok_def asked_def)
  consider "r \<in> set (t_obj (tabs (dbc osd)))" | j where "r = user_row pid j" "oid \<le> j" "j < ?e"
    using lp r c(3) by (auto simp: loop_post_def)
  then show ?thesis
  proof cases
    case 2
    then have "sint oid \<le> sint j \<and> sint j < sint ?e" using c range_end(1) [of oid n] by (intro between_sint) simp_all
    then show ?thesis using c(1) 2(1) by (simp add: obj_row_of_def)
  qed simp
qed

lemma created_rows_low:
  assumes ch: "choice_ok osd pid requested (Chosen oid, osd1)"
    and lp: "loop_post osd1 pid oid (oid + ucast (n :: u16)) sense (ok, s, osd2)"
  shows "dev_inv (osd2\<lparr>ic := no_cache\<rparr>)"
proof -
  have old: "\<forall>r \<in> set (t_obj (tabs (dbc osd))). o_oid r \<noteq> 0 \<longrightarrow> 0x10000 \<le> o_oid r"
    using ch by (simp add: choice_ok_def dev_inv_def asked_def)
  have "sound osd2" using lp by (simp add: loop_post_def)
  moreover have "\<forall>r \<in> set (t_obj (tabs (dbc osd2))). o_oid r \<noteq> 0 \<longrightarrow> 0x10000 \<le> o_oid r"
    using created_rows [OF ch lp] old by blast
  ultimately show ?thesis by (simp add: dev_inv_def no_cache_def)
qed

text \<open>When it was successful the cache is moved behind the range.\<close>

lemma created_inv:
  assumes ch: "choice_ok osd pid requested (Chosen oid, osd1)" and n: "0 < n" "requested \<noteq> 0 \<longrightarrow> n = 1"
    and lp: "loop_post osd1 pid oid (oid + ucast n) sense (ok, s, osd2)" and ok: "ok"
  shows "dev_inv (osd2\<lparr>ic := (ic osd2)\<lparr>next_id := next_id (ic osd2) + ucast ((n :: u16) - 1)\<rparr>, ccap := cc\<rparr>)"
proof (cases "requested = 0")
  case True
  let ?e = "oid + ucast n"
  have c: "0x10000 \<le> sint oid" "sint oid \<le> 2 ^ 62" using ch by (simp_all add: choice_ok_def)
  have "0 < unat n" using n(1) by (simp add: word_less_nat_alt)
  then have e: "sint oid \<le> sint ?e" "0x10000 < sint ?e" using range_end(2) [OF c, of n] c(1) by linarith+
  have i: "ic osd1 = \<lparr>cur_pid = pid, next_id = oid + 1\<rparr>" "ic osd2 = ic osd1"
    "\<forall>r \<in> set (t_obj (tabs (dbc osd))). o_pid r = sint pid \<longrightarrow> o_oid r < sint oid"
    using ch lp ok True by (simp_all add: choice_ok_def loop_post_def)
  have below: "o_pid r = sint pid \<longrightarrow> o_oid r < sint ?e" if "r \<in> set (t_obj (tabs (dbc osd2)))" for r
    using created_rows [OF ch lp that] i(3) e(1) by auto
  have "(ic osd2)\<lparr>next_id := next_id (ic osd2) + ucast (n - 1)\<rparr> = \<lparr>cur_pid = pid, next_id = ?e\<rparr>"
    using last_of_range [OF n(1), of oid] i by simp
  then show ?thesis
    using created_rows_low [OF ch lp] below e(2) by (simp add: dev_inv_def)
next
  case False
  then have "ic osd2 = no_cache" "n = 1" using ch n lp ok by (simp_all add: choice_ok_def loop_post_def)
  moreover have "no_cache\<lparr>next_id := next_id no_cache\<rparr> = no_cache" by simp
  ultimately show ?thesis using created_rows_low [OF ch lp] by (simp add: dev_inv_def)
qed

text \<open>Requests in a range where nothing overflows.\<close>

definition id_ok :: "u64 \<Rightarrow> bool" where
  "id_ok i \<longleftrightarrow> unat i \<le> 2 ^ 62"

lemma choice_state:
  assumes "choice_ok osd pid requested (c, osd')"
  shows "dev_inv osd'" "root osd' = root osd" "db_frame (dbc osd) (dbc osd')" "db_good (dbc osd')"
    "tabs (dbc osd') = tabs (dbc osd)" "files osd' = files osd" "sound osd'"
proof -
  have a: "dev_inv osd'" "osd' = osd\<lparr>dbc := dbc osd', ic := ic osd'\<rparr>" "asked (dbc osd) (dbc osd')"
    using assms by (simp_all add: choice_ok_def)
  show "dev_inv osd'" "root osd' = root osd" "db_frame (dbc osd) (dbc osd')" "db_good (dbc osd')"
    "tabs (dbc osd') = tabs (dbc osd)" "files osd' = files osd" "sound osd'"
    using a(1,3) by (simp_all add: asked_def dev_inv_def) (subst a(2), simp)+
qed

text \<open>The choice of an identifier in a partition that is there, and the error answers after it.\<close>

lemma total_choose:
  assumes inv: "dev_inv osd1" and rm: "room osd1" and req: "id_ok requested" and len: "252 \<le> length sense"
    and pid: "0x10000 \<le> pid" and r: "\<not> (requested \<noteq> 0 \<and> requested < 0x10000)"
    and p: "obj_map (tabs (dbc osd1)) (okey pid 0) \<noteq> None"
    and old: "root osd1 = root osd" "db_frame (dbc osd) (dbc osd1)"
    and k: "\<And>oid osd2. choice_ok osd1 pid requested (Chosen oid, osd2) \<Longrightarrow> user_object pid oid \<Longrightarrow>
      root osd2 = root osd \<Longrightarrow> db_frame (dbc osd) (dbc osd2) \<Longrightarrow> total (cmd_post osd sense) (k oid osd2)"
  shows "total (cmd_post osd sense) (choose_id osd1 pid requested 0x10000 \<bind> (\<lambda>(c, osd).
    case c of ChosenTaken \<Rightarrow> out_cdb_err osd sense a b | ChosenFailed \<Rightarrow> out_hw_err osd sense a b
    | Chosen oid \<Rightarrow> k oid osd))"
proof -
  have "pid \<noteq> 0" "requested = 0 \<or> 0x10000 \<le> requested \<and> unat requested \<le> 2 ^ 62"
    using pid r req by (auto simp: id_ok_def)
  then show ?thesis
  proof (intro total_pair_bind [OF choose_id_total [OF inv rm _ p]], goal_cases)
    case (3 c osd2)
    note st = choice_state [OF 3(3)]
    have o: "root osd2 = root osd" "db_frame (dbc osd) (dbc osd2)" using st old by (auto intro: db_frame_trans)
    show ?case
    proof (cases c)
      case (Chosen oid)
      have "user_object pid oid" using 3(3) pid unfolding Chosen by (intro user_object_sint) (simp_all add: choice_ok_def)
      then show ?thesis using k [OF _ _ o] 3(3) unfolding Chosen by simp
    qed (use st(1) o in \<open>simp_all add: errors_cmd_post [OF len]\<close>)
  qed
qed

lemma one_or_more: "\<not> 1 < (n :: u16) \<Longrightarrow> n \<noteq> 0 \<Longrightarrow> n = 1"
proof -
  assume a: "\<not> 1 < n" "n \<noteq> 0"
  then have "unat n \<le> 1" "unat n \<noteq> 0" by (simp_all add: word_less_nat_alt unat_eq_0)
  then have "unat n = 1" by simp
  then show "n = 1" by (simp add: word_unat_eq_iff)
qed

lemma osd_create_total:
  assumes inv: "dev_inv osd" and rm: "room osd" and req: "id_ok requested" and len: "252 \<le> length sense"
  shows "total (cmd_post osd sense) (osd_create osd pid requested numoid sense)"
  unfolding osd_create_def
proof (intro total_if total_present [OF inv], goal_cases)
  case (4 d)
  then show ?case by (intro errors_cmd_post [OF len]) (simp_all add: asked_frame)
next
  case (5 d)
  let ?osd = "osd\<lparr>dbc := d\<rparr>" and ?n = "if numoid = 0 then 1 else numoid"
  have lb: "USEROBJECT_OID_LB = 0x10000" "USEROBJECT_PID_LB = 0x10000" "PARTITION_OID = 0" by (simp_all add: osd_consts)
  have p: "obj_map (tabs (dbc ?osd)) (okey pid 0) \<noteq> None" using 5 by (simp add: asked_def lb)
  have n1: "0 < ?n" "requested \<noteq> 0 \<longrightarrow> ?n = 1"
    using 5 by (auto simp: word_gt_0 one_or_more)
  show ?case
    unfolding lb
  proof (rule total_choose [OF _ room_asked [OF rm] req len _ _ p])
    fix oid osd2
    assume ch: "choice_ok ?osd pid requested (Chosen oid, osd2)" and uo: "user_object pid oid"
      and o: "root osd2 = root osd" "db_frame (dbc osd) (dbc osd2)"
    note st = choice_state [OF ch]
    have p2: "obj_map (tabs (dbc osd2)) (okey pid 0) \<noteq> None" using st(5) p by simp
    have "total (cmd_post osd sense) (create_loop osd2 pid oid oid (oid + ucast ?n) sense \<bind> (\<lambda>(ok, sense, osd).
        if \<not> ok then out_hw_err (osd\<lparr>ic := no_cache\<rparr>) sense pid requested
        else Some (OSD_OK, sense, osd\<lparr>ic := (ic osd)\<lparr>next_id := next_id (ic osd) + ucast (?n - 1)\<rparr>,
          ccap := fill_ccap None USEROBJECT pid (oid + ucast ?n - 1) 0\<rparr>)))"
    proof (rule total_bind [OF create_loop_total [OF st(7) uo order_refl len p2]], clarify)
      fix ok s osd3
      assume lp: "loop_post osd2 pid oid (oid + ucast ?n) sense (ok, s, osd3)"
      have len3: "252 \<le> length s" and o3: "root osd3 = root osd" "db_frame (dbc osd) (dbc osd3)" "length s = length sense"
        using lp o len by (auto simp: loop_post_def intro: db_frame_trans)
      show "total (cmd_post osd sense) (if \<not> ok then out_hw_err (osd3\<lparr>ic := no_cache\<rparr>) s pid requested
        else Some (OSD_OK, s, osd3\<lparr>ic := (ic osd3)\<lparr>next_id := next_id (ic osd3) + ucast (?n - 1)\<rparr>,
          ccap := fill_ccap None USEROBJECT pid (oid + ucast ?n - 1) 0\<rparr>))"
      proof (rule total_if)
        assume "\<not> ok"
        have "dev_inv (osd3\<lparr>ic := no_cache\<rparr>)" using created_rows_low [OF ch lp] by simp
        then show "total (cmd_post osd sense) (out_hw_err (osd3\<lparr>ic := no_cache\<rparr>) s pid requested)"
          using errors_cmd_post(2) [OF len3, of "osd3\<lparr>ic := no_cache\<rparr>" osd] o3
          by (intro total_mono [OF errors_cmd_post(2) [OF len3, of "osd3\<lparr>ic := no_cache\<rparr>" osd]]) (simp_all add: cmd_post_def split_def)
      next
        assume "\<not> \<not> ok"
        then have "dev_inv (osd3\<lparr>ic := (ic osd3)\<lparr>next_id := next_id (ic osd3) + ucast (?n - 1)\<rparr>,
            ccap := fill_ccap None USEROBJECT pid (oid + ucast ?n - 1) 0\<rparr>)"
          using created_inv [OF ch n1 lp] by simp
        then show "total (cmd_post osd sense) (Some (OSD_OK, s, osd3\<lparr>ic := (ic osd3)\<lparr>next_id := next_id (ic osd3) + ucast (?n - 1)\<rparr>,
          ccap := fill_ccap None USEROBJECT pid (oid + ucast ?n - 1) 0\<rparr>))"
          using o3 by (simp add: cmd_post_def)
      qed
    qed
    then show "total (cmd_post osd sense) (do {
               let numoid = ?n;
               (ok, sense, osd) \<leftarrow> create_loop osd2 pid oid oid (oid + ucast numoid) sense;
               if \<not> ok then out_hw_err (osd\<lparr>ic := no_cache\<rparr>) sense pid requested
               else Some (OSD_OK, sense, osd\<lparr>
                 ic := (ic osd)\<lparr>next_id := next_id (ic osd) + ucast (numoid - 1)\<rparr>,
                 ccap := fill_ccap None USEROBJECT pid (oid + ucast numoid - 1) 0\<rparr>) })"
      by (simp only: Let_def)
  qed (use 5 in \<open>auto simp: lb asked_frame\<close>)
qed (use inv in \<open>simp_all add: errors_cmd_post [OF len] asked_frame\<close>)

lemma dev_inv_ccap [simp]: "dev_inv (osd\<lparr>ccap := cc\<rparr>) = dev_inv osd"
  by (simp add: dev_inv_def)

lemma id_bounds: "USEROBJECT_OID_LB = 0x10000" "USEROBJECT_PID_LB = 0x10000" "COLLECTION_OID_LB = 0x10000"
  "COLLECTION_PID_LB = 0x10000" "PARTITION_PID_LB = 0x10000" "PARTITION_OID = 0"
  by (simp_all add: osd_consts)

text \<open>The last step of the commands that create a collection.\<close>

lemma insert_chosen_total:
  assumes ch: "choice_ok osd1 pid requested (Chosen cid, osd2)"
    and p: "obj_map (tabs (dbc osd1)) (okey pid 0) \<noteq> None"
    and o: "root osd2 = root osd" "db_frame (dbc osd) (dbc osd2)" and len: "252 \<le> length sense"
    and ty: "typed_row (obj_row_of pid cid ty)"
  shows "total (cmd_post osd sense) (obj_insert (dbc osd2) pid cid ty \<bind> (\<lambda>(ret, d).
    if ret \<noteq> 0 then out_cdb_err (osd2\<lparr>dbc := d\<rparr>) sense a b
    else Some (OSD_OK, sense, osd2\<lparr>dbc := d, ccap := cc\<rparr>)))"
proof (rule total_stored [OF obj_insert_stored [OF choice_state(4) [OF ch]]], goal_cases)
  case (1 d)
  then have "dev_inv (osd2\<lparr>dbc := d\<rparr>)" using dev_inv_asked [OF choice_state(1) [OF ch]] by (simp add: asked_def)
  then show ?case using 1 o by (intro errors_cmd_post [OF len]) (auto intro: db_frame_trans)
next
  case (2 d)
  have "dev_inv (osd2\<lparr>dbc := d\<rparr>)" by (rule choice_add_row [OF ch 2(1,3) p ty])
  then show ?case using 2(2) o by (auto simp: cmd_post_def intro: db_frame_trans)
qed

lemma osd_create_collection_total:
  assumes inv: "dev_inv osd" and rm: "room osd" and req: "id_ok requested" and len: "252 \<le> length sense"
  shows "total (cmd_post osd sense) (osd_create_collection osd pid requested sense)"
  unfolding osd_create_collection_def
proof (intro total_if total_present [OF inv], goal_cases)
  case (4 d)
  let ?osd = "osd\<lparr>dbc := d\<rparr>"
  have p: "obj_map (tabs (dbc ?osd)) (okey pid 0) \<noteq> None" using 4 by (simp add: asked_def id_bounds)
  show ?case
    unfolding id_bounds Let_def
    by (rule total_choose [OF _ room_asked [OF rm] req len _ _ p])
      (use 4 p in \<open>auto simp: id_bounds asked_frame intro!: insert_chosen_total [OF _ _ _ _ len, simplified] typed_new(4)
        dest: user_object_nonzero\<close>)
qed (use inv in \<open>simp_all add: errors_cmd_post [OF len] asked_frame\<close>)

lemma obj_get_nextpid_total:
  assumes "db_good d" and "max_pid (tabs d) \<noteq> 2 ^ 63 - 1"
  shows "total (\<lambda>(ret, pid', d'). asked d d' \<and> (ret \<noteq> 0 \<longrightarrow> \<not> db_clean d)) (obj_get_nextpid d pid)"
  using obj_get_nextpid_ok [OF assms, of pid] by (auto simp: total_def asked_def)

lemma max_pid_room: "room osd \<Longrightarrow> max_pid (tabs (dbc osd)) \<noteq> 2 ^ 63 - 1"
proof -
  assume a: "room osd"
  have "Max (o_pid ` set rows) \<in> o_pid ` set rows" if "rows \<noteq> []" for rows :: "obj_row list"
    using that by (intro Max_in) auto
  then have "max_pid (tabs (dbc osd)) < 2 ^ 62"
    using a unfolding max_pid_def room_def Let_def by (cases "t_obj (tabs (dbc osd)) = []") fastforce+
  then show ?thesis by simp
qed

lemma dev_inv_partition:
  assumes "dev_inv osd" and "db_good d" and "Some (tabs d) = add_obj pid 0 (ucast PARTITION) (tabs (dbc osd))"
  shows "dev_inv (osd\<lparr>dbc := d\<rparr>)"
proof -
  have "tables_inv (tabs d)"
    using tables_inv_add [OF _ assms(3) [symmetric] _ typed_new(1)] assms(1) soundD(2) [of osd] by (simp add: dev_inv_def)
  then have "sound (osd\<lparr>dbc := d\<rparr>)" using assms(1,2) by (intro sound_dbc) (simp_all add: dev_inv_def)
  then show ?thesis
    using assms(1) add_obj_rows [OF assms(3) [symmetric]] by (auto simp: dev_inv_def obj_row_of_def)
qed

lemma osd_create_partition_total:
  assumes inv: "dev_inv osd" and rm: "room osd" and len: "252 \<le> length sense"
  shows "total (cmd_post osd sense) (osd_create_partition osd requested sense)"
proof -
  have good: "db_good (dbc osd)" using inv soundD(1) by (simp add: dev_inv_def)
  have "total (\<lambda>(ret, pid, osd'). \<exists>d. osd' = osd\<lparr>dbc := d\<rparr> \<and> asked (dbc osd) d)
    (if requested = 0 then do {
       (ret, pid, d) \<leftarrow> obj_get_nextpid (dbc osd) 0;
       Some (ret, if pid = 1 then PARTITION_PID_LB else pid, osd\<lparr>dbc := d\<rparr>) }
     else Some (0, requested, osd))"
  proof (rule total_if)
    show "total (\<lambda>(ret, pid, osd'). \<exists>d. osd' = osd\<lparr>dbc := d\<rparr> \<and> asked (dbc osd) d) (Some (0, requested, osd))"
      using good by (auto simp: asked_def intro!: exI [of _ "dbc osd"])
  qed (rule total_bind [OF obj_get_nextpid_total [OF good max_pid_room [OF rm]]], auto)
  then show ?thesis
    unfolding osd_create_partition_def
  proof (intro total_if, goal_cases)
    case 1
    show ?case using inv by (simp add: errors_cmd_post [OF len])
  next
    case 2
    show ?case
    proof (rule total_bind [OF 2(1)], clarify)
      fix ret pid osd1 d
      assume a: "asked (dbc osd) d"
      have i: "dev_inv (osd\<lparr>dbc := d\<rparr>)" and fr: "db_frame (dbc osd) d" "db_good d"
        using inv a by (simp_all add: dev_inv_asked asked_def)
      have "total (cmd_post osd sense) (obj_insert d pid 0 (ucast PARTITION) \<bind> (\<lambda>(ret, d).
          if ret \<noteq> 0 then out_cdb_err (osd\<lparr>dbc := d\<rparr>) sense requested 0
          else Some (OSD_OK, sense, osd\<lparr>dbc := d, ccap := fill_ccap None PARTITION pid 0 0\<rparr>)))"
      proof (rule total_stored [OF obj_insert_stored [OF fr(2)]], goal_cases)
        case (1 d')
        then have "dev_inv (osd\<lparr>dbc := d'\<rparr>)" using dev_inv_asked [OF i, of d'] by (simp add: asked_def)
        then show ?case using 1 fr by (intro errors_cmd_post [OF len]) (auto intro: db_frame_trans)
      next
        case (2 d')
        have "dev_inv (osd\<lparr>dbc := d'\<rparr>)" using dev_inv_partition [OF i 2(1)] 2(3) by simp
        then show ?case using 2 fr by (auto simp: cmd_post_def intro: db_frame_trans)
      qed
      then show "total (cmd_post osd sense) (if ret \<noteq> 0 then out_hw_err (osd\<lparr>dbc := d\<rparr>) sense requested 0
        else do {
          (ret, d') \<leftarrow> obj_insert (dbc (osd\<lparr>dbc := d\<rparr>)) pid PARTITION_OID (ucast PARTITION);
          let osd = osd\<lparr>dbc := d, dbc := d'\<rparr>;
          if ret \<noteq> 0 then out_cdb_err osd sense requested 0
          else Some (OSD_OK, sense, osd\<lparr>ccap := fill_ccap None PARTITION pid PARTITION_OID 0\<rparr>) })"
        unfolding id_bounds using i fr by (simp add: Let_def errors_cmd_post [OF len])
    qed
  qed
qed

lemma osd_copy_user_objects_total:
  assumes inv: "dev_inv osd" and rm: "room osd" and req: "id_ok requested" and len: "252 \<le> length sense"
  shows "total (cmd_post osd sense) (osd_copy_user_objects osd pid requested spid soid sense)"
  unfolding osd_copy_user_objects_def
proof (intro total_if total_present, goal_cases)
  case (9 d1 d2 d3)
  let ?osd = "osd\<lparr>dbc := d1, dbc := d2, dbc := d3\<rparr>"
  have fr: "db_frame (dbc osd) d3" "asked (dbc osd) d3" using 9 by (auto simp: asked_def intro: db_frame_trans)
  have p: "obj_map (tabs (dbc ?osd)) (okey pid 0) \<noteq> None" using 9 by (simp add: asked_def id_bounds)
  show ?case
    unfolding id_bounds
    by (rule total_choose [OF _ _ req len _ _ p])
      (use 9 fr room_asked [OF rm fr(2)] in \<open>auto simp: id_bounds cmd_post_def dest: choice_state\<close>)
qed (use inv in \<open>auto simp: asked_def intro!: errors_cmd_post [OF len] intro: db_frame_trans\<close>)

lemma choice_other_tables:
  assumes ch: "choice_ok osd pid requested (Chosen oid, osd1)" and d: "db_good d" "tables_inv (tabs d)"
    and t: "t_obj (tabs d) = t_obj (tabs (dbc osd))"
  shows "choice_ok (osd\<lparr>dbc := d\<rparr>) pid requested (Chosen oid, osd1\<lparr>dbc := d\<rparr>)"
proof -
  have "obj_map (tabs d) = obj_map (tabs (dbc osd))" using t by (rule obj_map_of_rows)
  moreover have "dev_inv (osd1\<lparr>dbc := d\<rparr>)"
    using choice_state(1,5) [OF ch] d t by (simp add: dev_inv_def sound_def root_fits_def)
  moreover have "osd1\<lparr>dbc := d\<rparr> = osd\<lparr>dbc := d, ic := ic osd1\<rparr>"
  proof -
    obtain d1 c where "osd1 = osd\<lparr>dbc := d1, ic := c\<rparr>" using ch by (auto simp: choice_ok_def)
    then show ?thesis by simp
  qed
  ultimately show ?thesis using ch d t by (simp add: choice_ok_def asked_def)
qed

lemma osd_create_user_tracking_collection_total:
  assumes inv: "dev_inv osd" and rm: "room osd" and req: "id_ok requested" and len: "252 \<le> length sense"
  shows "total (cmd_post osd sense) (osd_create_user_tracking_collection osd pid requested src cont sense)"
  unfolding osd_create_user_tracking_collection_def
proof (intro total_if total_present, goal_cases)
  case (9 d1 d2)
  let ?osd = "osd\<lparr>dbc := d1, dbc := d2\<rparr>"
  have fr: "db_frame (dbc osd) d2" "asked (dbc osd) d2" using 9 by (auto simp: asked_def intro: db_frame_trans)
  have p: "obj_map (tabs (dbc ?osd)) (okey pid 0) \<noteq> None" using 9 by (simp add: asked_def id_bounds)
  show ?case
    unfolding id_bounds
  proof (rule total_choose [OF _ _ req len _ _ p])
    fix cid osd2
    assume ch: "choice_ok ?osd pid requested (Chosen cid, osd2)" and uo: "user_object pid cid"
      and o: "root osd2 = root osd" "db_frame (dbc osd) (dbc osd2)"
    show "total (cmd_post osd sense) (do {
        (ret, d) \<leftarrow> (if src \<noteq> 0 then coll_copyoids (dbc osd2) pid cid src else Some (0, dbc osd2));
        let osd = osd2\<lparr>dbc := d\<rparr>;
        if ret \<noteq> 0 then out_hw_err (osd\<lparr>ic := no_cache\<rparr>) sense requested 0
        else do {
          (ret, d) \<leftarrow> obj_insert (dbc osd) pid cid (ucast COLLECTION);
          let osd = osd\<lparr>dbc := d\<rparr>;
          if ret \<noteq> 0 then out_cdb_err osd sense requested 0
          else Some (OSD_OK, sense, osd\<lparr>ccap := fill_ccap None COLLECTION pid cid 0\<rparr>) } })"
    proof (rule total_bind)
      show "total (\<lambda>(ret, d). db_good d \<and> tables_inv (tabs d) \<and> t_obj (tabs d) = t_obj (tabs (dbc osd2)) \<and>
          db_frame (dbc osd2) d)
        (if src \<noteq> 0 then coll_copyoids (dbc osd2) pid cid src else Some (0, dbc osd2))"
      proof (rule total_if)
        show "total (\<lambda>(ret, d). db_good d \<and> tables_inv (tabs d) \<and> t_obj (tabs d) = t_obj (tabs (dbc osd2)) \<and>
          db_frame (dbc osd2) d) (coll_copyoids (dbc osd2) pid cid src)"
          by (rule total_mono [OF statements_stored(5) [OF choice_state(4) [OF ch]]])
            (use soundD(2) [OF choice_state(7) [OF ch]] in \<open>auto simp: stored_def dest: add_members_objects tables_inv_add_members\<close>)
      qed (use choice_state(4) [OF ch] soundD(2) [OF choice_state(7) [OF ch]] in auto)
    next
      fix r :: "int \<times> db_context" assume "case r of (ret, d) \<Rightarrow> db_good d \<and> tables_inv (tabs d) \<and> t_obj (tabs d) = t_obj (tabs (dbc osd2)) \<and>
          db_frame (dbc osd2) d"
      then obtain ret d where r: "r = (ret :: int, d)" "db_good d" "tables_inv (tabs d)"
        "t_obj (tabs d) = t_obj (tabs (dbc osd2))" "db_frame (dbc osd2) d" by (cases r) auto
      have t: "t_obj (tabs d) = t_obj (tabs (dbc ?osd))" using r(4) choice_state(5) [OF ch] by simp
      note ch' = choice_other_tables [OF ch r(2,3) t]
      have p': "obj_map (tabs d) (okey pid 0) \<noteq> None" using p obj_map_of_rows [OF t] by simp
      have fr': "db_frame (dbc osd) d" using o(2) r(5) by (rule db_frame_trans)
      have "total (cmd_post osd sense) (obj_insert d pid cid (ucast COLLECTION) \<bind> (\<lambda>(ret, d').
          if ret \<noteq> 0 then out_cdb_err (osd2\<lparr>dbc := d, dbc := d'\<rparr>) sense requested 0
          else Some (OSD_OK, sense, osd2\<lparr>dbc := d, dbc := d', ccap := fill_ccap None COLLECTION pid cid 0\<rparr>)))"
        using insert_chosen_total [OF ch' _ _ _ len, of osd "ucast COLLECTION" requested 0] p' o(1) fr'
          typed_new(4) [OF uo, of cid] user_object_nonzero [OF uo] by simp
      moreover have "dev_inv (osd2\<lparr>dbc := d, ic := no_cache\<rparr>)"
        using dev_inv_no_cache [OF choice_state(1) [OF ch']] by simp
      ultimately show "total (cmd_post osd sense) (case r of (ret, d) \<Rightarrow> do {
        let osd = osd2\<lparr>dbc := d\<rparr>;
        if ret \<noteq> 0 then out_hw_err (osd\<lparr>ic := no_cache\<rparr>) sense requested 0
        else do {
          (ret, d) \<leftarrow> obj_insert (dbc osd) pid cid (ucast COLLECTION);
          let osd = osd\<lparr>dbc := d\<rparr>;
          if ret \<noteq> 0 then out_cdb_err osd sense requested 0
          else Some (OSD_OK, sense, osd\<lparr>ccap := fill_ccap None COLLECTION pid cid 0\<rparr>) } })"
        using o(1) fr' unfolding r(1) by (simp add: Let_def errors_cmd_post [OF len] cong: if_cong)
    qed
  qed (use 9 fr room_asked [OF rm fr(2)] in \<open>auto simp: id_bounds\<close>)
qed (use inv in \<open>auto simp: asked_def intro!: errors_cmd_post [OF len] intro: db_frame_trans\<close>)

lemma dev_inv_fewer:
  assumes "dev_inv osd" and "sound osd'" and "set (t_obj (tabs (dbc osd'))) \<subseteq> set (t_obj (tabs (dbc osd)))"
    and "ic osd' = no_cache"
  shows "dev_inv osd'"
  using assms by (auto simp: dev_inv_def no_cache_def)

lemma osd_remove_cmd_total:
  assumes inv: "dev_inv osd" and len: "252 \<le> length sense"
  shows "total (cmd_post osd sense) (osd_remove osd pid oid sense)"
proof (cases "user_object pid oid")
  case True
  have "sound osd" using inv by (simp add: dev_inv_def)
  from osd_remove_total [OF this True len] show ?thesis
    by (rule total_mono) (use inv in \<open>auto simp: remove_post_def cmd_post_def intro: dev_inv_fewer\<close>)
next
  case False
  then show ?thesis using inv by (simp add: osd_remove_def errors_cmd_post [OF len])
qed

text \<open>A statement that removes rows, between others.\<close>

lemma dev_inv_deleted:
  assumes "dev_inv osd" and "db_good d" and "tables_inv (tabs d)"
    and "set (t_obj (tabs d)) \<subseteq> set (t_obj (tabs (dbc osd)))"
  shows "dev_inv (osd\<lparr>ic := no_cache, dbc := d\<rparr>)"
  using assms by (intro dev_inv_fewer [OF assms(1)]) (auto simp: dev_inv_def sound_def root_fits_def)

lemma remove_rows_total:
  assumes inv: "dev_inv osd" and o: "root osd1 = root osd" "ic osd1 = no_cache" "dbc osd1 = d" and db: "db_good d"
    "tables_inv (tabs d)" "set (t_obj (tabs d)) \<subseteq> set (t_obj (tabs (dbc osd)))" "db_frame (dbc osd) d"
    and oid: "oid \<noteq> 0 \<or> (\<forall>r \<in> set (t_obj (tabs d)). o_pid r = sint pid \<longrightarrow> o_oid r = 0)"
    and len: "252 \<le> length sense"
  shows "total (cmd_post osd sense) (do {
    (ret, d) \<leftarrow> attr_delete_all d pid oid;
    if ret \<noteq> 0 then out_hw_err (osd1\<lparr>dbc := d\<rparr>) sense pid oid
    else do {
      (ret, d) \<leftarrow> obj_delete d pid oid;
      if ret \<noteq> 0 then out_hw_err (osd1\<lparr>dbc := d\<rparr>) sense pid oid
      else Some (OSD_OK, sense, osd1\<lparr>dbc := d, ccap := cc\<rparr>) } })"
proof -
  have i: "dev_inv (osd1\<lparr>dbc := d'\<rparr>)" if "db_good d'" "tables_inv (tabs d')"
    "set (t_obj (tabs d')) \<subseteq> set (t_obj (tabs (dbc osd)))" for d'
    using that inv o by (intro dev_inv_fewer [OF inv]) (auto simp: dev_inv_def sound_def root_fits_def)
  show ?thesis
  proof (rule total_stored [OF statements_stored(2) [OF db(1)]], goal_cases)
    case (1 d')
    then show ?case using i [of d'] db o by (intro errors_cmd_post [OF len]) (auto intro: db_frame_trans)
  next
    case (2 d1)
    then have d1: "tables_inv (tabs d1)" "t_obj (tabs d1) = t_obj (tabs d)" "db_frame (dbc osd) d1"
      using db by (auto intro: db_frame_trans)
    show ?case
    proof (rule total_stored [OF statements_stored(1) [OF 2(1)]], goal_cases)
      case (1 d')
      then show ?case using i [of d'] d1 db o by (intro errors_cmd_post [OF len]) (auto intro: db_frame_trans)
    next
      case (2 d2)
      then have t: "tabs d2 = del_obj pid oid (tabs d1)" by simp
      have "tables_inv (tabs d2)" using tables_inv_del_obj [OF d1(1)] oid d1(2) unfolding t by simp
      moreover have "set (t_obj (tabs d2)) \<subseteq> set (t_obj (tabs (dbc osd)))"
        using del_obj_subset [of pid oid "tabs d1"] d1(2) db(3) unfolding t by auto
      ultimately show ?case using 2(1,2) i [of d2] d1(3) o by (auto simp: cmd_post_def intro: db_frame_trans)
    qed
  qed
qed

lemma osd_remove_partition_total:
  assumes inv: "dev_inv osd" and rm: "length (t_obj (tabs (dbc osd))) < 2 ^ 31" and len: "252 \<le> length sense"
  shows "total (cmd_post osd sense) (osd_remove_partition osd pid sense)"
  unfolding osd_remove_partition_def
proof (rule total_if)
  have good: "db_good (dbc osd)" "length (t_obj (tabs (dbc osd))) < 2 ^ 31" "tables_inv (tabs (dbc osd))"
    using inv rm soundD by (simp_all add: dev_inv_def)
  show "total (cmd_post osd sense) (do {
        (ret, isempty, d) \<leftarrow> obj_isempty_pid (dbc osd) pid;
        let osd = osd\<lparr>dbc := d\<rparr>;
        if ret \<noteq> OSD_OK \<or> \<not> isempty then out_not_empty osd sense pid PARTITION_OID
        else do {
          (ret, d) \<leftarrow> attr_delete_all (dbc osd) pid PARTITION_OID;
          let osd = osd\<lparr>ic := no_cache, dbc := d\<rparr>;
          if ret \<noteq> 0 then out_hw_err osd sense pid PARTITION_OID
          else do {
            (ret, d) \<leftarrow> obj_delete (dbc osd) pid PARTITION_OID;
            let osd = osd\<lparr>dbc := d\<rparr>;
            if ret \<noteq> 0 then out_hw_err osd sense pid PARTITION_OID
            else Some (OSD_OK, sense, osd\<lparr>ccap := fill_ccap None PARTITION pid PARTITION_OID 0\<rparr>) } } })"
  proof (rule total_bind [OF obj_isempty_pid_total [OF good(1,2)]], clarify)
    fix ret :: int and isempty d
    assume a: "asked (dbc osd) d" and c: "ret = 0 \<and> isempty = (\<forall>r \<in> set (t_obj (tabs (dbc osd))). o_pid r = sint pid \<longrightarrow> o_oid r = 0)
        \<or> ret \<noteq> 0 \<and> \<not> db_clean (dbc osd)"
    show "total (cmd_post osd sense) (let osd = osd\<lparr>dbc := d\<rparr> in
        if ret \<noteq> OSD_OK \<or> \<not> isempty then out_not_empty osd sense pid PARTITION_OID
        else do {
          (ret, d) \<leftarrow> attr_delete_all (dbc osd) pid PARTITION_OID;
          let osd = osd\<lparr>ic := no_cache, dbc := d\<rparr>;
          if ret \<noteq> 0 then out_hw_err osd sense pid PARTITION_OID
          else do {
            (ret, d) \<leftarrow> obj_delete (dbc osd) pid PARTITION_OID;
            let osd = osd\<lparr>dbc := d\<rparr>;
            if ret \<noteq> 0 then out_hw_err osd sense pid PARTITION_OID
            else Some (OSD_OK, sense, osd\<lparr>ccap := fill_ccap None PARTITION pid PARTITION_OID 0\<rparr>) } })"
      using remove_rows_total [OF inv, of "osd\<lparr>ic := no_cache, dbc := d\<rparr>" d 0 pid sense "fill_ccap None PARTITION pid 0 0"]
        a c good dev_inv_asked [OF inv a] len
      by (auto simp: Let_def asked_def id_bounds errors_cmd_post [OF len] cong: if_cong)
  qed
qed (use inv in \<open>simp add: errors_cmd_post [OF len]\<close>)

lemma stored_Some:
  "stored d (\<lambda>t. Some (f t)) r \<longleftrightarrow> db_good (snd r) \<and> db_frame d (snd r) \<and>
     (fst r = 0 \<and> tabs (snd r) = f (tabs d) \<or> fst r \<noteq> 0 \<and> tabs (snd r) = tabs d \<and> \<not> db_clean d)"
  by (auto simp: stored_def)

lemma osd_remove_collection_total:
  assumes inv: "dev_inv osd" and rm: "room osd" and len: "252 \<le> length sense"
  shows "total (cmd_post osd sense) (osd_remove_collection osd pid cid fcr sense)"
  unfolding osd_remove_collection_def
proof (intro total_if total_present [OF inv], goal_cases)
  case (4 d)
  let ?t = "tabs (dbc osd)"
  have good: "db_good d" "length (t_coll (tabs d)) < 2 ^ 31" "tables_inv (tabs d)" "tabs d = ?t"
    using 4(3) rm inv soundD(2) by (simp_all add: asked_def room_def dev_inv_def)
  have cid: "cid \<noteq> 0" using 4 by (auto simp: osd_consts)
  show ?case
  proof (rule total_call, simp, rule coll_isempty_cid_total [OF good(1,2), of pid cid], clarify)
    fix ret :: int and isempty d2
    assume a: "asked d d2"
    have a2: "asked (dbc osd) d2" using 4(3) a by (auto simp: asked_def intro: db_frame_trans)
    let ?osd = "osd\<lparr>ic := no_cache, dbc := d2\<rparr>"
    have i2: "dev_inv ?osd" using dev_inv_asked [OF dev_inv_no_cache [OF inv], of d2] a2 by simp
    have del: "total (\<lambda>(ret, d'). db_good d' \<and> tables_inv (tabs d') \<and> t_obj (tabs d') = t_obj ?t \<and> db_frame (dbc osd) d')
      (if \<not> isempty then coll_delete_cid d2 pid cid else Some (0, d2))"
    proof (rule total_if)
      have g2: "db_good d2" "db_frame (dbc osd) d2" "tabs d2 = ?t" using a2 by (simp_all add: asked_def)
      show "total (\<lambda>(ret, d'). db_good d' \<and> tables_inv (tabs d') \<and> t_obj (tabs d') = t_obj ?t \<and> db_frame (dbc osd) d')
        (coll_delete_cid d2 pid cid)"
        by (rule total_mono [OF statements_stored(4) [OF g2(1)]])
          (use g2 good(3,4) in \<open>auto simp: stored_Some intro: db_frame_trans\<close>)
      show "total (\<lambda>(ret, d'). db_good d' \<and> tables_inv (tabs d') \<and> t_obj (tabs d') = t_obj ?t \<and> db_frame (dbc osd) d')
        (Some (0, d2))"
        using g2 good(3,4) by simp
    qed
    have "total (cmd_post osd sense) ((if \<not> isempty then coll_delete_cid d2 pid cid else Some (0, d2)) \<bind> (\<lambda>(ret, d).
      if ret \<noteq> 0 then out_hw_err (?osd\<lparr>dbc := d\<rparr>) sense pid cid
      else do {
        (ret, d) \<leftarrow> attr_delete_all d pid cid;
        if ret \<noteq> 0 then out_hw_err (?osd\<lparr>dbc := d\<rparr>) sense pid cid
        else do {
          (ret, d) \<leftarrow> obj_delete d pid cid;
          if ret \<noteq> 0 then out_hw_err (?osd\<lparr>dbc := d\<rparr>) sense pid cid
          else Some (OSD_OK, sense, ?osd\<lparr>dbc := d, ccap := fill_ccap None COLLECTION pid cid 0\<rparr>) } }))"
    proof (rule total_pair_bind [OF del], clarify)
      fix r :: int and d'
      assume d': "db_good d'" "tables_inv (tabs d')" "t_obj (tabs d') = t_obj ?t" "db_frame (dbc osd) d'"
      have "dev_inv (osd\<lparr>ic := no_cache, dbc := d'\<rparr>)" using d' by (intro dev_inv_deleted [OF inv]) auto
      then show "total (cmd_post osd sense) (if r \<noteq> 0 then out_hw_err (?osd\<lparr>dbc := d'\<rparr>) sense pid cid
        else do {
        (ret, d) \<leftarrow> attr_delete_all d' pid cid;
        if ret \<noteq> 0 then out_hw_err (?osd\<lparr>dbc := d\<rparr>) sense pid cid
        else do {
          (ret, d) \<leftarrow> obj_delete d pid cid;
          if ret \<noteq> 0 then out_hw_err (?osd\<lparr>dbc := d\<rparr>) sense pid cid
          else Some (OSD_OK, sense, ?osd\<lparr>dbc := d, ccap := fill_ccap None COLLECTION pid cid 0\<rparr>) } })"
        using remove_rows_total [OF inv, of "osd\<lparr>ic := no_cache, dbc := d'\<rparr>" d' cid pid sense "fill_ccap None COLLECTION pid cid 0"]
          d' cid len
        by (simp add: errors_cmd_post [OF len] cong: if_cong)
    qed
    then show "total (cmd_post osd sense) (let osd = osd\<lparr>dbc := d, ic := no_cache, dbc := d2\<rparr> in
          if ret \<noteq> OSD_OK then out_hw_err osd sense pid cid
          else if \<not> isempty \<and> fcr = 0 then out_not_empty osd sense pid cid
          else do {
            (ret, d) \<leftarrow> (if \<not> isempty then coll_delete_cid (dbc osd) pid cid else Some (0, dbc osd));
            let osd = osd\<lparr>dbc := d\<rparr>;
            if ret \<noteq> 0 then out_hw_err osd sense pid cid
            else do {
              (ret, d) \<leftarrow> attr_delete_all (dbc osd) pid cid;
              let osd = osd\<lparr>dbc := d\<rparr>;
              if ret \<noteq> 0 then out_hw_err osd sense pid cid
              else do {
                (ret, d) \<leftarrow> obj_delete (dbc osd) pid cid;
                let osd = osd\<lparr>dbc := d\<rparr>;
                if ret \<noteq> 0 then out_hw_err osd sense pid cid
                else Some (OSD_OK, sense, osd\<lparr>ccap := fill_ccap None COLLECTION pid cid 0\<rparr>) } }
          })"
      using i2 a2 by (simp add: Let_def asked_def errors_cmd_post [OF len] cong: if_cong)
  qed
qed (use inv in \<open>simp_all add: errors_cmd_post [OF len] asked_frame\<close>)

section \<open>Lemmas: data commands touch neither the database nor the cache\<close>

definition data_frame :: "osd_device \<Rightarrow> bytes \<Rightarrow> int \<times> bytes \<times> osd_device \<Rightarrow> bool" where
  "data_frame osd sense = (\<lambda>(ret, s, osd'). dbc osd' = dbc osd \<and> ic osd' = ic osd \<and> root osd' = root osd \<and>
     length s = length sense)"

lemma sense_frame:
  assumes "252 \<le> length sense" and "dbc osd' = dbc osd" "ic osd' = ic osd" "root osd' = root osd"
  shows "post (data_frame osd sense) (out_cdb_err osd' sense p q)"
    "post (data_frame osd sense) (out_hw_err osd' sense p q)"
    "post (data_frame osd sense) (out_unimplemented osd' sense)"
proof -
  show "post (data_frame osd sense) (out_cdb_err osd' sense p q)" "post (data_frame osd sense) (out_hw_err osd' sense p q)"
    by (rule post_mono [OF total_post [OF error_answers_total(1) [OF assms(1)]]]
        post_mono [OF total_post [OF error_answers_total(2) [OF assms(1)]]],
        use assms in \<open>auto simp: answered_def data_frame_def\<close>)+
  obtain s where "sense_basic_build sense OSD_SSK_ILLEGAL_REQUEST 0 0 0 = Some (40, s)" "length s = length sense"
    by (rule sense_build_sdd_ok [OF assms(1)])
  then show "post (data_frame osd sense) (out_unimplemented osd' sense)"
    using assms by (simp add: out_unimplemented_def osd_error_unimplemented_def data_frame_def)
qed

lemma close_after_frame: "post (data_frame osd sense) r \<Longrightarrow> post (data_frame osd sense) (close_after r)"
  unfolding close_after_def
  by (rule post_bind, assumption) (auto simp: data_frame_def Let_def split: prod.splits)

lemma post_stat: "(\<And>b sz. v = StOk b sz \<Longrightarrow> post Q (k b sz)) \<Longrightarrow> (v = StNoEnt \<Longrightarrow> post Q m1) \<Longrightarrow> (v = StFail \<Longrightarrow> post Q m2) \<Longrightarrow>
    post Q (case v of StNoEnt \<Rightarrow> m1 | StFail \<Rightarrow> m2 | StOk b sz \<Rightarrow> k b sz)"
  by (cases v) simp_all

lemma data_frames:
  assumes "252 \<le> length sense"
  shows "post (data_frame osd sense) (osd_write osd pid oid len offset data dinbuf sglist sense ddt)"
    "post (data_frame osd sense) (osd_append osd pid oid len data dinbuf cont sense ddt)"
    "post (data_frame osd sense) (osd_clear osd pid oid len offset sense)"
    "post (data_frame osd sense) (osd_punch osd pid oid len offset sense)"
    "post (data_frame osd sense) (osd_flush osd pid oid len offset scope sense)"
  unfolding osd_write_def contig_write_def sgl_write_def vec_write_def osd_append_def contig_append_def
    sgl_append_def vec_append_def osd_clear_def osd_punch_def osd_flush_def Let_def
  by (intro post_code post_stat close_after_frame sense_frame; use assms in \<open>simp add: data_frame_def\<close>)+

section \<open>Commands and reachable devices\<close>

text \<open>The commands that change the device, with the arguments the functions take.\<close>

datatype dev_command =
    Create u64 u64 u16
  | CreateAndWrite u64 u64 u64 u64 bytes nat "sg_list_entry list" u8
  | CreateCollection u64 u64
  | CreatePartition u64
  | CreateTracking u64 u64 u64 u32
  | CopyUserObjects u64 u64 u64 u64
  | Remove u64 u64
  | RemoveCollection u64 u64 u8
  | RemovePartition u64
  | Write u64 u64 u64 u64 bytes nat "sg_list_entry list" u8
  | Append u64 u64 u64 bytes nat u32 u8
  | Clear u64 u64 u64 u64
  | Punch u64 u64 u64 u64
  | Flush u64 u64 u64 u64 int

primrec run_command :: "dev_command \<Rightarrow> osd_device \<Rightarrow> bytes \<Rightarrow> answer option" where
  "run_command (Create pid oid n) osd sense = osd_create osd pid oid n sense"
| "run_command (CreateAndWrite pid oid len off data src sg ddt) osd sense =
     osd_create_and_write osd pid oid len off data src sg sense ddt"
| "run_command (CreateCollection pid cid) osd sense = osd_create_collection osd pid cid sense"
| "run_command (CreatePartition pid) osd sense = osd_create_partition osd pid sense"
| "run_command (CreateTracking pid cid src cont) osd sense =
     osd_create_user_tracking_collection osd pid cid src cont sense"
| "run_command (CopyUserObjects pid oid spid soid) osd sense = osd_copy_user_objects osd pid oid spid soid sense"
| "run_command (Remove pid oid) osd sense = osd_remove osd pid oid sense"
| "run_command (RemoveCollection pid cid fcr) osd sense = osd_remove_collection osd pid cid fcr sense"
| "run_command (RemovePartition pid) osd sense = osd_remove_partition osd pid sense"
| "run_command (Write pid oid len off data src sg ddt) osd sense = osd_write osd pid oid len off data src sg sense ddt"
| "run_command (Append pid oid len data src cont ddt) osd sense = osd_append osd pid oid len data src cont sense ddt"
| "run_command (Clear pid oid len off) osd sense = osd_clear osd pid oid len off sense"
| "run_command (Punch pid oid len off) osd sense = osd_punch osd pid oid len off sense"
| "run_command (Flush pid oid len off scope) osd sense = osd_flush osd pid oid len off scope sense"

text \<open>Requested identifiers that leave room behind them.\<close>

fun command_ok :: "dev_command \<Rightarrow> bool" where
  "command_ok (Create _ oid _) = id_ok oid"
| "command_ok (CreateAndWrite _ oid _ _ _ _ _ _) = id_ok oid"
| "command_ok (CreateCollection _ cid) = id_ok cid"
| "command_ok (CreateTracking _ cid _ _) = id_ok cid"
| "command_ok (CopyUserObjects _ oid _ _) = id_ok oid"
| "command_ok _ = True"

text \<open>A new target: the root object, nothing cached, statements prepared.\<close>

definition fresh_device :: "osd_device \<Rightarrow> bool" where
  "fresh_device osd \<longleftrightarrow> db_good (dbc osd) \<and> root_fits osd \<and> ic osd = no_cache \<and> tables_ok (tabs (dbc osd)) \<and>
     t_obj (tabs (dbc osd)) = [obj_row_of ROOT_PID ROOT_OID (ucast ROOT)]"

text \<open>
  The devices reachable by commands. The schedules in the device are arbitrary, so any statement and
  any call may fail at any time; between commands the environment may change files and schedules.
\<close>

inductive reachable :: "osd_device \<Rightarrow> bool" where
  reach_fresh: "fresh_device osd \<Longrightarrow> reachable osd"
| reach_command: "reachable osd \<Longrightarrow> room osd \<Longrightarrow> command_ok c \<Longrightarrow> 252 \<le> length sense \<Longrightarrow>
    run_command c osd sense = Some (ret, sense', osd') \<Longrightarrow> reachable osd'"
| reach_environment: "reachable osd \<Longrightarrow> reachable (osd\<lparr>files := f, dbc := (dbc osd)\<lparr>step_evs := es, bind_evs := bs\<rparr>\<rparr>)"

inductive_cases reachable_cases: "reachable osd"

lemma fresh_inv: "fresh_device osd \<Longrightarrow> dev_inv osd"
  using typed_new(2)
  by (simp add: fresh_device_def dev_inv_def sound_def tables_inv_def no_cache_def obj_row_of_def ROOT_PID_def ROOT_OID_def)

lemma data_frame_inv: "dev_inv osd \<Longrightarrow> data_frame osd sense (ret, s, osd') \<Longrightarrow> dev_inv osd' \<and> length s = length sense"
  by (simp add: data_frame_def dev_inv_def sound_def root_fits_def)

lemma create_and_write_inv:
  assumes inv: "dev_inv osd" and rm: "room osd" and req: "id_ok oid" and len: "252 \<le> length sense"
  shows "post (\<lambda>(ret, s, osd'). dev_inv osd') (osd_create_and_write osd pid oid l off data src sg sense ddt)"
  unfolding osd_create_and_write_def
proof (rule post_bind [OF total_post [OF osd_create_total [OF inv rm req len, of pid 1]]], clarify)
  fix ret s osd1
  assume "cmd_post osd sense (ret, s, osd1)"
  then have i: "dev_inv osd1" "252 \<le> length s" using len by (simp_all add: cmd_post_def)
  have "post (\<lambda>(ret, s, osd'). dev_inv osd') (osd_write osd1 pid oid l off data src sg s ddt \<bind> (\<lambda>(ret, sense, osd).
      if ret \<noteq> 0 then do { (_, sense, osd) \<leftarrow> osd_remove osd pid oid sense; Some (ret, sense, osd) }
      else Some (ret, sense, osd)))"
  proof (rule post_bind [OF data_frames(1) [OF i(2)]], clarify)
    fix ret :: int and s2 osd2
    assume d: "data_frame osd1 s (ret, s2, osd2)"
    have i2: "dev_inv osd2" "252 \<le> length s2" using data_frame_inv [OF i(1) d] i(2) by simp_all
    have "post (\<lambda>(ret, s, osd'). dev_inv osd') (osd_remove osd2 pid oid s2 \<bind> (\<lambda>(_, sense, osd). Some (ret, sense, osd)))"
      by (rule post_bind [OF total_post [OF osd_remove_cmd_total [OF i2]]]) (auto simp: cmd_post_def)
    then show "post (\<lambda>(ret, s, osd'). dev_inv osd')
      (if ret \<noteq> 0 then do { (_, sense, osd) \<leftarrow> osd_remove osd2 pid oid s2; Some (ret, sense, osd) }
       else Some (ret, s2, osd2))"
      using i2 by simp
  qed
  then show "post (\<lambda>(ret, s, osd'). dev_inv osd') (if ret \<noteq> 0 then Some (ret, s, osd1)
     else do {
       (ret, sense, osd) \<leftarrow> osd_write osd1 pid oid l off data src sg s ddt;
       if ret \<noteq> 0 then do { (_, sense, osd) \<leftarrow> osd_remove osd pid oid sense; Some (ret, sense, osd) }
       else Some (ret, sense, osd) })"
    using i by simp
qed

lemma run_command_inv:
  assumes inv: "dev_inv osd" and rm: "room osd" and ok: "command_ok c" and len: "252 \<le> length sense"
  shows "post (\<lambda>(ret, s, osd'). dev_inv osd') (run_command c osd sense)"
proof -
  have p: "post (\<lambda>(ret, s, osd'). dev_inv osd') m" if "total (cmd_post osd sense) m" for m
    by (rule post_mono [OF total_post [OF that]]) (auto simp: cmd_post_def)
  have d: "post (\<lambda>(ret, s, osd'). dev_inv osd') m" if "post (data_frame osd sense) m" for m
    by (rule post_mono [OF that]) (use data_frame_inv [OF inv] in auto)
  have small: "length (t_obj (tabs (dbc osd))) < 2 ^ 31" using rm by (simp add: room_def)
  show ?thesis
    using ok
    by (cases c) (simp_all add: p d create_and_write_inv [OF inv rm _ len] data_frames [OF len]
      osd_create_total [OF inv rm _ len] osd_create_collection_total [OF inv rm _ len]
      osd_create_partition_total [OF inv rm len] osd_create_user_tracking_collection_total [OF inv rm _ len]
      osd_copy_user_objects_total [OF inv rm _ len] osd_remove_cmd_total [OF inv len]
      osd_remove_collection_total [OF inv rm len] osd_remove_partition_total [OF inv small len])
qed

lemma reachable_inv: "reachable osd \<Longrightarrow> dev_inv osd"
proof (induction rule: reachable.induct)
  case (reach_fresh osd)
  then show ?case by (rule fresh_inv)
next
  case (reach_command osd c sense ret sense' osd')
  then show ?case using postD [OF run_command_inv [of osd c sense]] by fastforce
next
  case (reach_environment osd bs es f)
  have "db_good ((dbc osd)\<lparr>step_evs := es, bind_evs := bs\<rparr>) = db_good (dbc osd)" by (simp add: db_good_def)
  with reach_environment show ?case by (simp add: dev_inv_def sound_def root_fits_def)
qed

section \<open>Properties\<close>

text \<open>
  C5. In every device reachable by commands, whatever the database engine and the file system answered
  on the way: the constraints of the schema hold, every object lies in a partition that exists,
  no object has a reserved identifier, and the cached next identifier is above all identifiers of
  its partition, so that it names no object.
\<close>

theorem reachable_invariant:
  assumes "reachable osd"
  defines "t \<equiv> tabs (dbc osd)"
  shows "tables_ok t \<and>
    (\<forall>r \<in> set (t_obj t). o_oid r \<noteq> 0 \<longrightarrow> 0x10000 \<le> o_oid r \<and> (\<exists>q \<in> set (t_obj t). o_pid q = o_pid r \<and> o_oid q = 0)) \<and>
    (cur_pid (ic osd) \<noteq> 0 \<longrightarrow>
      (\<forall>r \<in> set (t_obj t). o_pid r = sint (cur_pid (ic osd)) \<longrightarrow> o_oid r < sint (next_id (ic osd))) \<and>
      obj_map t (okey (cur_pid (ic osd)) (next_id (ic osd))) = None)"
proof -
  have i: "dev_inv osd" by (rule reachable_inv [OF assms(1)])
  then have "tables_inv t" using soundD(2) by (simp add: dev_inv_def t_def)
  moreover have "obj_map t (okey (cur_pid (ic osd)) (next_id (ic osd))) = None" if "cur_pid (ic osd) \<noteq> 0"
    using i that obj_map_some [of t "sint (cur_pid (ic osd))" "sint (next_id (ic osd))"] by (auto simp: dev_inv_def t_def)
  ultimately show ?thesis using i unfolding tables_inv_def dev_inv_def t_def by blast
qed

definition new_device :: "sq_event list \<Rightarrow> io_event list \<Rightarrow> osd_device" where
  "new_device evs ios = (sample_device ios [])\<lparr>dbc := (sample_db evs)\<lparr>tabs :=
     \<lparr>t_obj = [obj_row_of ROOT_PID ROOT_OID (ucast ROOT)], t_attr = [], t_coll = []\<rparr>\<rparr>, ic := no_cache\<rparr>"

lemma new_device_fresh: "fresh_device (new_device evs ios)" "room (new_device evs ios)"
  by (simp_all add: fresh_device_def new_device_def sample_device_def root_fits_def tables_ok_def room_def no_cache_def
      obj_row_of_def osd_consts db_good_def sample_db_def)

theorem reachable_invariant_witness:
  "\<exists>ret s osd'. run_command (CreatePartition 0) (new_device [EvSchema, EvError] [IoFail]) (replicate 252 0) = Some (ret, s, osd') \<and>
     tables_ok (tabs (dbc osd'))"
proof -
  let ?d = "new_device [EvSchema, EvError] [IoFail]"
  have "total (cmd_post ?d (replicate 252 0)) (run_command (CreatePartition 0) ?d (replicate 252 0))"
    using osd_create_partition_total [OF fresh_inv [OF new_device_fresh(1)] new_device_fresh(2)] by simp
  then obtain ret s osd' where r: "run_command (CreatePartition 0) ?d (replicate 252 0) = Some (ret, s, osd')"
    by (auto simp: total_def)
  then have "reachable osd'"
    using reach_command [OF reach_fresh [OF new_device_fresh(1)] new_device_fresh(2) _ _ r] by simp
  from reachable_invariant [OF this] r show ?thesis by blast
qed

end
