(* ===== verification/Osd_Steady.thy ===== *)
theory Osd_Steady
  imports Osd_List Osd_Lifecycle
begin

text \<open>
  What the commands on attributes, the listings, the queries and the data leave alone: the table of
  the objects, the cache and the root. The interface is an invariant of the database that scheduled
  events and changes of the other two tables keep; every such operation then keeps it, whatever it
  answers.
\<close>

section \<open>Rules for calls\<close>

lemma post_bind2: "post (\<lambda>(a, d). P d) m \<Longrightarrow> (\<And>a d. P d \<Longrightarrow> post Q (k a d)) \<Longrightarrow> post Q (m \<bind> (\<lambda>(a, d). k a d))"
  by (cases m) auto

lemma post_bind3: "post (\<lambda>(a, b, d). P d) m \<Longrightarrow> (\<And>a b d. P d \<Longrightarrow> post Q (k a b d)) \<Longrightarrow>
    post Q (m \<bind> (\<lambda>(a, b, d). k a b d))"
  by (cases m) auto

lemma post_bind4: "post (\<lambda>(a, b, c, d). P c d) m \<Longrightarrow> (\<And>a b c d. P c d \<Longrightarrow> post Q (k a b c d)) \<Longrightarrow>
    post Q (m \<bind> (\<lambda>(a, b, c, d). k a b c d))"
  by (cases m) auto

lemma post_map_option: "post (\<lambda>r. Q (f r)) m \<Longrightarrow> post Q (map_option f m)"
  by (cases m) auto

lemma post_pair1: "(\<And>x y. r = (x, y) \<Longrightarrow> post Q (k x y d)) \<Longrightarrow> post Q ((case r of (x, y) \<Rightarrow> k x y) d)"
  by (cases r) simp

lemma post_pair2: "(\<And>x y. r = (x, y) \<Longrightarrow> post Q (k x y c d)) \<Longrightarrow> post Q ((case r of (x, y) \<Rightarrow> k x y) c d)"
  by (cases r) simp

text \<open>The repetition of a statement, without the claim that it ends.\<close>

lemma goto_repeat_inv:
  "goto_repeat body out db = Some r \<Longrightarrow>
    (\<forall>o' d. I d \<longrightarrow> post (\<lambda>(a, b, d'). I d') (body o' d)) \<longrightarrow> I db \<longrightarrow> I (snd (snd r))"
proof (erule goto_repeat.raw_induct [rotated 1], intro impI)
  fix f body out db y
  assume IH: "\<And>out db b y. f out db b = Some y \<Longrightarrow>
      (\<forall>o' d. I d \<longrightarrow> post (\<lambda>(a, b, d'). I d') (out o' d)) \<longrightarrow> I b \<longrightarrow> I (snd (snd y))"
    and eq: "body out db \<bind> (\<lambda>(ret, out', dbc').
      if ret = OSD_REPEAT then f body out' dbc' else Some (ret, out', dbc')) = Some y"
    and body: "\<forall>o' d. I d \<longrightarrow> post (\<lambda>(a, b, d'). I d') (body o' d)" and i: "I db"
  obtain ret o' d' where b: "body out db = Some (ret, o', d')" using eq by (cases "body out db") auto
  have "post (\<lambda>(a, b, d'). I d') (body out db)" using body i by blast
  then have "I d'" using b by simp
  then show "I (snd (snd y))" using eq b IH body by (cases "ret = OSD_REPEAT") auto
qed

lemma goto_repeat_post:
  assumes "I db" and "\<And>o' d. I d \<Longrightarrow> post (\<lambda>(a, b, d'). I d') (body o' d)"
  shows "post (\<lambda>(a, b, d'). I d') (goto_repeat body out db)"
proof (rule postI)
  fix r assume "goto_repeat body out db = Some r"
  then have "I (snd (snd r))" using goto_repeat_inv [of body out db r I] assms by blast
  then show "case r of (a, b, d') \<Rightarrow> I d'" by (simp add: split_beta)
qed

text \<open>A device whose database is as \<open>I\<close> says, with the cache and the root given.\<close>

definition holds :: "(db_context \<Rightarrow> bool) \<Rightarrow> id_cache \<times> string \<Rightarrow> osd_device \<Rightarrow> bool" where
  "holds I c osd \<longleftrightarrow> I (dbc osd) \<and> ic osd = fst c \<and> root osd = snd c"

lemma holds_simps [simp]:
  "holds I c (osd\<lparr>dbc := d\<rparr>) \<longleftrightarrow> I d \<and> ic osd = fst c \<and> root osd = snd c"
  "holds I c (osd\<lparr>files := f\<rparr>) = holds I c osd" "holds I c (osd\<lparr>ccap := cc\<rparr>) = holds I c osd"
  by (simp_all add: holds_def)

lemma holdsD: "holds I c osd \<Longrightarrow> I (dbc osd)" "holds I c osd \<Longrightarrow> ic osd = fst c" "holds I c osd \<Longrightarrow> root osd = snd c"
  by (simp_all add: holds_def)

text \<open>An answer with sense data in a buffer that is still large enough.\<close>

definition answer_ok :: "(osd_device \<Rightarrow> bool) \<Rightarrow> bytes \<Rightarrow> osd_device \<Rightarrow> bool" where
  "answer_ok H sense osd \<longleftrightarrow> 252 \<le> length sense \<and> H osd"

lemma with_sense_answer: "252 \<le> length sense \<Longrightarrow> H osd \<Longrightarrow>
    post (\<lambda>(ret, s, osd'). answer_ok H s osd') (with_sense osd sense key code pid oid)"
  using with_sense_ok [of sense osd key code pid oid] by (auto simp: answer_ok_def)

lemma errors_post:
  assumes "252 \<le> length sense" and "H osd"
  shows "post (\<lambda>(ret, s, osd'). answer_ok H s osd') (out_cdb_err osd sense pid oid)"
    "post (\<lambda>(ret, s, osd'). answer_ok H s osd') (out_hw_err osd sense pid oid)"
    "post (\<lambda>(ret, s, osd'). answer_ok H s osd') (out_param_list osd sense pid oid)"
  by (simp_all add: out_cdb_err_def out_hw_err_def out_param_list_def with_sense_answer [where H = H, OF assms])

lemma with_attrs_post: "post (\<lambda>(ret, s, osd'). P s osd') r \<Longrightarrow> post (\<lambda>(ret, o', s, osd'). P s osd') (with_attrs out r)"
  by (cases r) (auto simp: with_attrs_def)

lemma with_list_post: "post (\<lambda>(ret, s, osd'). P s osd') r \<Longrightarrow> post (\<lambda>(ret, o', s, osd'). P s osd') (with_list out r)"
  by (cases r) (auto simp: with_list_def)

lemma with_out_post': "post (\<lambda>(ret, s, osd'). P s osd') r \<Longrightarrow> post (\<lambda>(ret, o', s, osd'). P s osd') (with_out m used r)"
  by (cases r) (auto simp: with_out_def)

section \<open>The interface\<close>

locale attribute_invariant =
  fixes inv :: "db_context \<Rightarrow> bool" and c :: "id_cache \<times> string"
  assumes inv_events: "inv d \<Longrightarrow> inv (d\<lparr>step_evs := es\<rparr>)" "inv d \<Longrightarrow> inv (d\<lparr>bind_evs := bs\<rparr>)"
      "inv d \<Longrightarrow> inv (d\<lparr>prep_evs := tl (prep_evs d)\<rparr>)" "inv d \<Longrightarrow> inv (d\<lparr>exec_evs := xs\<rparr>)"
      "inv d \<Longrightarrow> inv (d\<lparr>in_txn := b\<rparr>)"
    and inv_reset: "inv d \<Longrightarrow> db_reset_stmt d b code = Some (ret, d') \<Longrightarrow> inv d'"
    and inv_tables: "inv d \<Longrightarrow> tables_ok (tabs d)"
    and inv_attrs: "inv d \<Longrightarrow> tables_ok t \<Longrightarrow> t_obj t = t_obj (tabs d) \<Longrightarrow> inv (d\<lparr>tabs := t\<rparr>)"
begin

lemma bind_inv: "sq_bind d = (ok, d') \<Longrightarrow> inv d \<Longrightarrow> inv d'"
  by (cases "bind_evs d") (auto simp: sq_bind_def inv_events)

lemma reset_post: "inv d \<Longrightarrow> post (\<lambda>(ret, d'). inv d') (db_reset_stmt d b code)"
  using inv_reset by (auto simp: post_def)

lemma step_row_inv: "sq_step_row rows d = (code, d') \<Longrightarrow> inv d \<Longrightarrow> inv d'"
  by (auto simp: sq_step_row_def Let_def inv_events split: prod.splits sq_event.splits)

lemma step_dms_inv:
  assumes "sq_step_dms eff d = (code, d')" and "inv d"
    and eff: "\<And>t t'. tables_ok t \<Longrightarrow> eff t = Some t' \<Longrightarrow> tables_ok t' \<and> t_obj t' = t_obj t"
  shows "inv d'"
proof -
  obtain ev es where w: "busy_wait (step_evs d) = (ev, es)" by (cases "busy_wait (step_evs d)")
  let ?d = "d\<lparr>step_evs := es\<rparr>"
  have i: "inv ?d" using assms(2) by (rule inv_events)
  have "inv (?d\<lparr>tabs := t\<rparr>)" if "eff (tabs d) = Some t" for t
    using eff [OF inv_tables [OF assms(2)] that] by (intro inv_attrs [OF i]) simp_all
  then show ?thesis
    using assms(1) w i by (auto simp: sq_step_dms_def Let_def split: sq_event.splits option.splits)
qed

lemma run_dms_post:
  assumes "inv d" and "\<And>t t'. tables_ok t \<Longrightarrow> eff t = Some t' \<Longrightarrow> tables_ok t' \<and> t_obj t' = t_obj t"
  shows "post (\<lambda>(ret, d'). inv d') (run_dms eff d)"
proof -
  have "post (\<lambda>(a, b, d'). inv d') (goto_repeat (\<lambda>_ dbc. do {
        let (bound, dbc) = sq_bind dbc;
        (ret, dbc) \<leftarrow> db_exec_dms dbc eff bound;
        Some (ret, (), dbc) }) () d)"
  proof (rule goto_repeat_post [where I = inv, OF assms(1)])
    fix o' :: unit and d1 assume i: "inv d1"
    obtain ok d2 where b: "sq_bind d1 = (ok, d2)" by (cases "sq_bind d1")
    have i2: "inv d2" using bind_inv [OF b i] .
    obtain code d3 where s: "sq_step_dms eff d2 = (code, d3)" by (cases "sq_step_dms eff d2")
    have i3: "inv d3" using step_dms_inv [OF s i2 assms(2)] .
    have "post (\<lambda>(ret, d'). inv d') (db_exec_dms d2 eff ok)"
      using i2 reset_post [OF i2] reset_post [OF i3] s by (simp add: db_exec_dms_def)
    then show "post (\<lambda>(a, b, d'). inv d') (do {
        let (bound, dbc) = sq_bind d1;
        (ret, dbc) \<leftarrow> db_exec_dms dbc eff bound;
        Some (ret, (), dbc) })"
      unfolding b by (simp add: post_bind2)
  qed
  then show ?thesis unfolding run_dms_def by (rule post_bind3) simp
qed

lemma query_once_post: "inv d \<Longrightarrow> post (\<lambda>(ret, out', d'). inv d') (query_once rows column out d)"
  unfolding query_once_def Let_def
  by (rule post_pair, rule post_call, rule post_bind2 [OF reset_post]) (auto dest: step_row_inv)

lemma run_query_post: "inv d \<Longrightarrow> post (\<lambda>(ret, out', d'). inv d') (run_query query column out d)"
  unfolding run_query_def
proof (rule goto_repeat_post [where I = inv], assumption)
  fix o' d1 assume i: "inv d1"
  obtain ok d2 where b: "sq_bind d1 = (ok, d2)" by (cases "sq_bind d1")
  show "post (\<lambda>(a, b, d'). inv d') (do {
     let (bound, dbc) = sq_bind d1;
     if \<not> bound then do {
       (ret, dbc) \<leftarrow> db_reset_stmt dbc bound SQLITE_OK;
       Some (ret, o', dbc) }
     else query_once (query (tabs dbc)) column o' dbc })"
    using bind_inv [OF b i] by (simp add: b query_once_post)
qed

lemma run_ids_post: "inv d \<Longrightarrow> post (\<lambda>(ret, out', d'). inv d') (run_ids query alloc_len outdata out d)"
  unfolding run_ids_def
proof (rule goto_repeat_post [where I = inv], assumption)
  fix o' :: "bytes \<times> u64 \<times> u64 \<times> u64" and d1 assume i: "inv d1"
  obtain ok d2 where b: "sq_bind d1 = (ok, d2)" by (cases "sq_bind d1")
  have i2: "inv d2" using bind_inv [OF b i] .
  obtain m outs where o': "o' = (m, outs)" by (cases o')
  have "post (\<lambda>(a, b, d'). inv d') (db_exec_id_rtrvl_stmt d2 rows ok alloc_len m outdata outs)" for rows
    unfolding db_exec_id_rtrvl_stmt_def
    by (intro post_if post_call post_pair) (auto dest!: inv_reset [rotated] intro: i2 inv_events)
  then show "post (\<lambda>(a, b, d'). inv d') ((case o' of (m, outs) \<Rightarrow> \<lambda>dbc. do {
     let (bound, dbc) = sq_bind dbc;
     db_exec_id_rtrvl_stmt dbc (query (tabs dbc)) bound alloc_len m outdata outs }) d1)"
    by (simp add: b o')
qed

lemma run_attrs_post: "inv d \<Longrightarrow> post (\<lambda>(ret, out', d'). inv d') (run_attrs query gather outlen outdata out d)"
  unfolding run_attrs_def
proof (rule goto_repeat_post [where I = inv], assumption)
  fix o' :: "bytes \<times> u32" and d1 assume i: "inv d1"
  obtain ok d2 where b: "sq_bind d1 = (ok, d2)" by (cases "sq_bind d1")
  have i2: "inv d2" using bind_inv [OF b i] .
  obtain m used where o': "o' = (m, used)" by (cases o')
  have "post (\<lambda>(a, b, d'). inv d') (exec_attr_rtrvl_stmt d2 rows ok gather outlen m outdata)" for rows
    unfolding exec_attr_rtrvl_stmt_def
    by (intro post_if post_call post_pair) (auto dest!: inv_reset [rotated] intro: i2 inv_events)
  then show "post (\<lambda>(a, b, d'). inv d') ((case o' of (m, used) \<Rightarrow> \<lambda>dbc. do {
     let (bound, dbc) = sq_bind dbc;
     exec_attr_rtrvl_stmt dbc (query (tabs dbc)) bound gather outlen m outdata }) d1)"
    by (simp add: b o')
qed

text \<open>The operations of the tables.\<close>

lemma insert_coll_ok: "tables_ok t \<Longrightarrow> insert_coll r (t_coll t) = Some rows \<Longrightarrow> tables_ok (t\<lparr>t_coll := rows\<rparr>)"
  using insert_coll_distinct [of "t_coll t" r rows] by (simp add: tables_ok_def)

lemma tables_ok_statements: "tables_ok t \<Longrightarrow> tables_ok (t\<lparr>t_attr := replace_row attr_key r (t_attr t)\<rparr>)"
  "tables_ok t \<Longrightarrow> tables_ok (t\<lparr>t_attr := delete_rows P (t_attr t)\<rparr>)"
  "tables_ok t \<Longrightarrow> tables_ok (t\<lparr>t_coll := delete_rows Q (t_coll t)\<rparr>)"
  by (simp_all add: tables_ok_def replace_row_distinct delete_rows_distinct)

lemma tables_post:
  assumes "inv d"
  shows "post (\<lambda>(ret, d'). inv d') (attr_set_attr_raw d pid oid page number val len)"
    "post (\<lambda>(ret, d'). inv d') (attr_set_conversion d pid oid page number val len)"
    "post (\<lambda>(ret, d'). inv d') (attr_delete_attr d pid oid page number)"
    "post (\<lambda>(ret, d'). inv d') (coll_insert d pid cid oid number)"
    "post (\<lambda>(ret, d'). inv d') (coll_delete d pid cid oid)"
    "post (\<lambda>(ret, cid', d'). inv d') (coll_get_cid d pid oid number cid)"
    "post (\<lambda>(ret, present, d'). inv d') (obj_ispresent d pid oid)"
    "post (\<lambda>(ret, ty, d'). inv d') (obj_get_type d pid oid)"
  unfolding attr_set_conversion_def attr_set_attr_raw_def attr_delete_attr_def coll_insert_def coll_delete_def
    coll_get_cid_def obj_ispresent_def obj_get_type_def on_attr_def on_coll_def on_obj_def
  by (intro post_if post_None post_call run_query_post run_dms_post assms;
    force simp: tables_ok_statements insert_coll_ok)+

lemma retrievals_post:
  assumes "inv d"
  shows "post (\<lambda>(ret, out', d'). inv d') (attr_get_attr_raw d pid oid page number outlen outdata listfmt out)"
    "post (\<lambda>(ret, out', d'). inv d') (attr_get_conversion d pid oid page number outlen outdata listfmt out)"
    "post (\<lambda>(ret, out', d'). inv d') (attr_get_val d pid oid page number outlen outdata out)"
    "post (\<lambda>(ret, out', d'). inv d') (attr_get_page_as_list d pid oid page outlen outdata listfmt out)"
    "post (\<lambda>(ret, out', d'). inv d') (attr_get_for_all_pages d pid oid number outlen outdata listfmt out)"
    "post (\<lambda>(ret, out', d'). inv d') (attr_get_all_attrs d pid oid outlen outdata listfmt out)"
    "post (\<lambda>(ret, out', d'). inv d') (obj_get_all_pids d initial alloc_len outdata outs)"
    "post (\<lambda>(ret, out', d'). inv d') (obj_get_oids_in_pid d pid initial alloc_len outdata outs)"
    "post (\<lambda>(ret, out', d'). inv d') (obj_get_cids_in_pid d pid initial alloc_len outdata outs)"
    "post (\<lambda>(ret, out', d'). inv d') (coll_get_oids_in_cid d pid cid initial alloc_len outdata outs)"
  unfolding attr_get_conversion_def attr_get_attr_raw_def attr_get_val_def attr_get_page_as_list_def
    attr_get_for_all_pages_def attr_get_all_attrs_def obj_get_all_pids_def obj_get_oids_in_pid_def
    obj_get_cids_in_pid_def coll_get_oids_in_cid_def on_attr_def on_coll_def on_obj_def
  by (intro post_if post_None run_attrs_post run_ids_post assms)+

lemmas db_calls = tables_post(1-5) [THEN post_bind2] tables_post(6-8) [THEN post_bind3] retrievals_post [THEN post_bind3]

lemma get_obj_type_post:
  "holds inv c osd \<Longrightarrow> post (\<lambda>(ty, osd'). holds inv c osd') (get_obj_type osd pid oid)"
  unfolding get_obj_type_def Let_def
  by (intro post_if db_calls) (simp_all add: holds_def)

lemma attr_set_attr_post:
  "holds inv c osd \<Longrightarrow> post (\<lambda>(ret, osd'). holds inv c osd') (attr_set_attr osd pid oid page number val len)"
  unfolding attr_set_attr_def Let_def with_dbc_def truncate_data_def
  by (intro post_if post_map_option post_option post_call post_pair post_mono [OF tables_post(1)])
    (auto simp: holds_def split: prod.splits)

lemmas calls1 = get_obj_type_post [THEN post_bind2] attr_set_attr_post [THEN post_bind2]

lemma settings_post:
  assumes "holds inv c osd"
  shows "post (\<lambda>(ret, osd'). holds inv c osd') (set_uiap osd pid oid number val len)"
    "post (\<lambda>(ret, osd'). holds inv c osd') (set_riap osd pid oid number val len)"
    "post (\<lambda>(ret, osd'). holds inv c osd') (set_cap osd pid oid number val len)"
    "post (\<lambda>(ret, osd'). holds inv c osd') (lazy_init_attr osd pid oid page number)"
  unfolding set_uiap_def set_riap_def set_cap_def lazy_init_attr_def truncate_data_def with_dbc_def Let_def
  by (intro post_if db_calls calls1 post_map_option post_mono [OF tables_post(2)] attr_set_attr_post post_call post_pair;
    use assms in \<open>simp add: holds_def split_beta\<close>)+

lemma user_info_post:
  "holds inv c osd \<Longrightarrow> post (\<lambda>(s, osd'). holds inv c osd') (user_info ls osd pid oid number)"
  unfolding user_info_def Let_def
  by (intro post_if post_map_option post_call post_pair post_option) (simp_all add: post_def)

lemma attr_get_attr_post:
  "holds inv c osd \<Longrightarrow> post (\<lambda>(ret, o', osd'). holds inv c osd')
    (attr_get_attr ls osd pid oid page number outlen outdata listfmt out)"
  unfolding attr_get_attr_def Let_def
proof (rule post_bind2 [where P = "holds inv c"])
  assume h: "holds inv c osd"
  show "post (\<lambda>(s, osd'). holds inv c osd')
       (if page = USER_INFO_PG then user_info ls osd pid oid number
        else if page = ROOT_INFO_PG then map_option (\<lambda>s. (s, osd)) (root_info_attr ls number)
        else Some (Computed [] 0, osd))"
    using h user_info_post [OF h] by (auto intro: post_map_option simp: post_def)
next
  fix source osd1 assume h: "holds inv c osd1"
  show "post (\<lambda>(ret, o', osd'). holds inv c osd') (case source of NoSource \<Rightarrow> Some (OSD_ERROR, out, osd1)
      | Stored number \<Rightarrow> do {
          (ret, out, d) \<leftarrow> attr_get_attr_raw (dbc osd1) pid oid page number outlen outdata listfmt out;
          Some (ret, out, osd1\<lparr>dbc := d\<rparr>) }
      | StoredOr own val len \<Rightarrow> do {
          (ret, out, d) \<leftarrow> attr_get_attr_raw (dbc osd1) pid oid page own outlen outdata listfmt out;
          if ret = - ENOENT
          then do {
            (ret, out) \<leftarrow> pack_computed oid page number len (Some val) outlen outdata listfmt out;
            Some (ret, out, osd1\<lparr>dbc := d\<rparr>) }
          else Some (ret, out, osd1\<lparr>dbc := d\<rparr>) }
      | Computed val len \<Rightarrow> do {
          (ret, out) \<leftarrow> pack_computed oid page number len (if len = 0 then None else Some val)
            outlen outdata listfmt out;
          Some (ret, out, osd1) })"
    by (cases source; simp only: attr_source.case; (intro db_calls post_if post_call post_pair)?; use h in \<open>simp add: holds_def\<close>)
qed

lemma pages_post:
  assumes "holds inv c osd"
  shows "post (\<lambda>(ret, o', osd'). holds inv c osd') (get_utsap osd pid oid outbuf outlen out)"
    "post (\<lambda>(ret, o', osd'). holds inv c osd') (get_utsap_aslist osd pid oid number outbuf outlen listfmt out)"
    "post (\<lambda>(ret, o', osd'). holds inv c osd') (get_uiap ls osd pid oid page number outbuf outlen listfmt out)"
    "post (\<lambda>(ret, o', osd'). holds inv c osd') (get_riap ls osd pid oid page number outbuf outlen listfmt out)"
  unfolding get_utsap_def get_utsap_aslist_def get_uiap_def get_riap_def Let_def
  by (intro post_if attr_get_attr_post attr_get_attr_post [THEN post_bind3] post_option post_call post_pair;
      use assms in \<open>simp add: split_beta\<close>)+

lemma mutiplex_post:
  assumes "holds inv c osd"
  shows "post (\<lambda>(ret, o', osd'). holds inv c osd') (mutiplex_getattr_list osd pid oid page number outbuf outlen listfmt out)"
  unfolding mutiplex_getattr_list_def
  by (rule post_bind3 [where P = inv], intro post_if retrievals_post) (use assms in \<open>simp_all add: holds_def\<close>)

lemmas calls2 = settings_post [THEN post_bind2] pages_post [THEN post_bind3] mutiplex_post [THEN post_bind3]

lemmas errs = errors_post [where H = "holds inv c"]

lemma osd_set_attributes_post:
  assumes "holds inv c osd" and "252 \<le> length sense"
  shows "post (\<lambda>(ret, s, osd'). answer_ok (holds inv c) s osd')
    (osd_set_attributes osd pid oid page number val len isembedded sense)"
  unfolding osd_set_attributes_def Let_def
  by (intro db_calls calls1 calls2 post_if post_call [where m = "if _ then _ else _"] post_call [where m = "terminated _ _"] errs)
    (use assms in \<open>auto simp: holds_def answer_ok_def intro!: errs\<close>)

lemma osd_getattr_list_post:
  assumes "holds inv c osd" and "252 \<le> length sense"
  shows "post (\<lambda>(ret, o', s, osd'). answer_ok (holds inv c) s osd')
    (osd_getattr_list ls osd pid oid page number outbuf outlen isembedded listfmt out sense)"
  unfolding osd_getattr_list_def
proof (rule calls1, rule assms(1), intro post_if with_attrs_post errs calls2 assms(2), assumption+)
  fix ty osd1 ret osd2
  assume h: "holds inv c osd2"
  show "post (\<lambda>(ret, o', s, osd'). answer_ok (holds inv c) s osd') (do {
         (ret, out, osd) \<leftarrow>
           (if page = CUR_CMD_ATTR_PG
            then map_option (\<lambda>(ret, out). (ret, out, osd2)) (get_ccap_aslist osd2 number outbuf (ucast outlen) out)
            else if page = PARTITION_DIR_PG + USER_TMSTMP_PG \<or> page = USER_TMSTMP_PG
            then get_utsap_aslist osd2 pid oid number outbuf (ucast outlen) listfmt out
            else if page = PARTITION_DIR_PG + USER_QUOTA_PG \<or> page = PARTITION_DIR_PG + USER_INFO_PG \<or>
              page = USER_INFO_PG
            then get_uiap ls osd2 pid oid page number outbuf (ucast outlen) listfmt out
            else if page = ROOT_INFO_PG
            then get_riap ls osd2 pid oid page number outbuf (ucast outlen) listfmt out
            else mutiplex_getattr_list osd2 pid oid page number outbuf outlen listfmt out);
         if ret = - EIO \<or> ret = - EINVAL \<or> ret = - ENOMEM \<or> ret = OSD_ERROR
         then with_attrs out (out_param_list osd sense pid oid)
         else do {
           (ok, out) \<leftarrow>
             (if ret = - ENOENT then do {
                (ret, m) \<leftarrow> fill_null_attr oid page number (fst out) outbuf outlen listfmt;
                Some (if ret = - EOVERFLOW then (True, m, 0)
                  else if ret \<ge> 0 then (True, m, word_of_int ret)
                  else (False, m, snd out)) }
              else Some (True, out));
           if \<not> ok then with_attrs out (out_param_list osd sense pid oid)
           else Some (OSD_OK, out, sense,
             if isembedded then osd else osd\<lparr>ccap := fill_ccap None ty pid oid 0\<rparr>) } })"
    by (rule post_bind3 [where P = "holds inv c"],
        (intro post_if pages_post mutiplex_post post_map_option h; use h in \<open>simp add: post_def split_beta\<close>)[1],
        intro post_if with_attrs_post errs post_call post_pair)
      (use assms(2) in \<open>simp_all add: answer_ok_def\<close>)
qed


lemma osd_getattr_page_post:
  assumes "holds inv c osd" and "252 \<le> length sense"
  shows "post (\<lambda>(ret, o', s, osd'). answer_ok (holds inv c) s osd')
    (osd_getattr_page osd pid oid page outbuf outlen isembedded out sense)"
  unfolding osd_getattr_page_def Let_def
  by (intro db_calls calls1 calls2 post_if with_attrs_post errs post_call post_pair)
    (use assms in \<open>auto simp: holds_def answer_ok_def\<close>)

lemma atomic_post:
  assumes "holds inv c osd"
  shows "post (\<lambda>(ok, osd'). holds inv c osd') (atomic_target osd pid oid)"
    "post (\<lambda>(ok, v, osd'). holds inv c osd') (atomic_value host osd pid oid number)"
  unfolding atomic_target_def atomic_value_def Let_def
  by (intro db_calls calls1 post_if post_pair1 post_call post_pair; use assms in \<open>simp add: holds_def\<close>)+

lemmas calls3 = atomic_post(1) [THEN post_bind2] atomic_post(2) [THEN post_bind3]

lemma atomics_post:
  assumes "holds inv c osd" and "252 \<le> length sense"
  shows "post (\<lambda>(ret, o', s, osd'). answer_ok (holds inv c) s osd') (osd_cas host osd pid oid cmp swap m doutbuf used sense)"
    "post (\<lambda>(ret, o', s, osd'). answer_ok (holds inv c) s osd') (osd_fa host osd pid oid add m doutbuf used sense)"
  unfolding osd_cas_def osd_fa_def Let_def
  by (intro calls3 calls1 post_if with_out_post' errs post_bind2 [where P = "holds inv c"] attr_set_attr_post post_call;
    use assms in \<open>simp add: answer_ok_def\<close>)+


lemma failed_post: "post (\<lambda>(ret, s, osd'). P s osd') r \<Longrightarrow>
    post (\<lambda>(ret, o', s, osd'). P s osd') (map_option (\<lambda>(ret, sense, osd). (ret, None, sense, osd)) r)"
  by (cases r) auto

lemma osd_gen_cas_post:
  assumes "holds inv c osd" and "252 \<le> length sense"
  shows "post (\<lambda>(ret, o', s, osd'). answer_ok (holds inv c) s osd')
    (osd_gen_cas val valen osd pid oid page number cmp cmp_len swap swap_len sense)"
  unfolding osd_gen_cas_def Let_def
  by (intro calls3 db_calls calls1 post_if post_pair1 failed_post errs
      post_bind2 [where P = "holds inv c" and m = "if _ then _ else _"] attr_set_attr_post post_call post_pair;
    use assms in \<open>auto simp: answer_ok_def dest: holdsD\<close>)

lemma prepare_inv: "sq_prepare d = (ok, d') \<Longrightarrow> inv d \<Longrightarrow> inv d'"
  by (cases "prep_evs d") (auto simp: sq_prepare_def dest: inv_events(3) split: if_splits)

lemma bind_criteria_inv: "inv d \<Longrightarrow> post (\<lambda>(qs, d'). inv d') (bind_criteria ind cs d)"
proof (induction cs arbitrary: d)
  case (Cons q qs)
  have b: "post (\<lambda>(v, d'). inv d') (bind_bound ind off len d)" if "inv d" for off len d
    using that by (auto simp: bind_bound_def Let_def post_def split: prod.splits Option.bind_splits if_splits dest: bind_inv)
  show ?case
    unfolding bind_criteria.simps
    by (intro b [THEN post_bind2] Cons.IH [THEN post_bind2] post_option) (use Cons.prems in simp_all)
qed simp

lemma mtq_post:
  assumes "inv d"
  shows "post (\<lambda>(ret, out', d'). inv d') (mtq_run_query d pid cid qc ind outdata alloc_len out)"
    "post (\<lambda>(ret, out', d'). inv d') (mtq_list_oids_attr d pid initial gs alloc outdata outs)"
  unfolding mtq_run_query_def mtq_list_oids_attr_def on_tables_def Let_def
  by (intro post_if post_pair bind_criteria_inv [THEN post_bind2] post_option post_call;
    use assms in \<open>auto dest: prepare_inv intro: inv_events\<close>)+


lemmas calls4 = mtq_post [THEN post_bind3]

lemma list_post:
  assumes "holds inv c osd" and "252 \<le> length sense"
  shows "post (\<lambda>(ret, o', s, osd'). answer_ok (holds inv c) s osd')
      (osd_list osd list_attr pid alloc_len initial gs list_id outdata out sense)"
    "post (\<lambda>(ret, o', s, osd'). answer_ok (holds inv c) s osd')
      (osd_list_collection osd list_attr pid cid alloc_len initial gs list_id outdata out sense)"
  unfolding osd_list_def osd_list_collection_def Let_def
  by (intro calls4 post_if post_pair1 with_list_post errs post_bind3 [where P = inv and m = "if _ then _ else _"]
      retrievals_post post_call post_pair;
    use assms in \<open>auto simp: answer_ok_def dest: holdsD\<close>)+

lemma query_post:
  assumes "holds inv c osd" and "252 \<le> length sense"
  shows "post (\<lambda>(ret, o', s, osd'). answer_ok (holds inv c) s osd')
      (osd_query osd pid cid qlen alloc_len pm ind outdata out sense)"
  unfolding osd_query_def Let_def
  by (intro calls4 db_calls post_if post_pair1 with_list_post errs post_call post_pair;
    use assms in \<open>auto simp: answer_ok_def dest: holdsD\<close>)

lemma replace_rows_ok: "tables_ok t \<Longrightarrow> tables_ok (t\<lparr>t_attr := replace_rows rows (t_attr t)\<rparr>)"
proof -
  have "distinct (map attr_key t') \<Longrightarrow> distinct (map attr_key (replace_rows rows t'))" for t'
    unfolding replace_rows_def by (induction rows arbitrary: t') (simp_all add: replace_row_distinct)
  then show "tables_ok t \<Longrightarrow> ?thesis" by (simp add: tables_ok_def)
qed

lemma bind_values_inv: "inv d \<Longrightarrow> post (\<lambda>(vs, d'). inv d') (bind_values les d)"
proof (induction les arbitrary: d)
  case (Cons le les)
  show ?case
    unfolding bind_values.simps Let_def
    by (intro post_call post_pair post_if Cons.IH [THEN post_bind2]) (use Cons.prems in \<open>auto dest: bind_inv\<close>)
qed simp

lemma set_members_inv:
  assumes "inv d"
  shows "post (\<lambda>(ret, d'). inv d') (mtq_set_member_attrs d pid cid les)"
  unfolding mtq_set_member_attrs_def on_tables_def Let_def
proof (intro post_if post_pair bind_values_inv [THEN post_bind2] post_option)
  fix a d1 vs d2 x code d3
  assume i: "inv d2" and s: "sq_step_dms (\<lambda>t. Some (t\<lparr>t_attr :=
      replace_rows (concat (map (member_rows pid cid (t_coll t)) x)) (t_attr t)\<rparr>)) d2 = (code, d3)"
  have "inv d3" by (rule step_dms_inv [OF s i]) (auto simp: replace_rows_ok)
  then show "post (\<lambda>(ret, d'). inv d') (Some (if code = SQLITE_DONE then OSD_OK else - EIO, d3))" by simp
qed (use assms in \<open>simp_all add: prepare_inv\<close>)

lemma txn_holds: "holds inv c osd \<Longrightarrow> holds inv c (snd (osd_begin_txn osd))"
  "holds inv c osd \<Longrightarrow> holds inv c (snd (osd_end_txn osd))"
  by (auto simp: holds_def osd_begin_txn_def osd_end_txn_def db_begin_txn_def db_end_txn_def sq_exec_def
      intro: inv_events split: prod.splits)

lemma set_member_attributes_post:
  assumes "holds inv c osd" and "252 \<le> length sense"
  shows "post (\<lambda>(ret, s, osd'). answer_ok (holds inv c) s osd') (osd_set_member_attributes osd pid cid les sense)"
  unfolding osd_set_member_attributes_def Let_def
  by (intro db_calls calls1 set_members_inv [THEN post_bind2] post_if errs)
    (use assms txn_holds [THEN holdsD(1)] txn_holds [THEN holdsD(2)] txn_holds [THEN holdsD(3)]
     in \<open>auto simp: answer_ok_def holds_def\<close>)


lemma csi_length: "252 \<le> length sense \<Longrightarrow> post (\<lambda>(ret, s). 252 \<le> length s) (sense_build_sdd_csi sense key code pid oid csi)"
  using sense_build_sdd_csi_ok [of sense key code pid oid csi] by auto

lemma unimplemented_post:
  "holds inv c osd \<Longrightarrow> 252 \<le> length sense \<Longrightarrow> post (\<lambda>(ret, s, osd'). answer_ok (holds inv c) s osd') (out_unimplemented osd sense)"
  by (rule sense_build_sdd_ok [of sense OSD_SSK_ILLEGAL_REQUEST 0 0 0])
    (auto simp: out_unimplemented_def osd_error_unimplemented_def answer_ok_def)

lemma contig_read_post:
  assumes "holds inv c osd" and "252 \<le> length sense"
  shows "post (\<lambda>(ret, o', s, osd'). answer_ok (holds inv c) s osd') (contig_read osd pid oid len offset m outdata used sense)"
  unfolding contig_read_def Let_def
  by (intro post_if with_out_post' errs post_bind3 [where P = "\<lambda>s. 252 \<le> length s"]
      csi_length [THEN post_bind2] post_option post_call post_pair;
    use assms in \<open>simp add: answer_ok_def\<close>)

lemma reads_post:
  assumes "holds inv c osd" and "252 \<le> length sense"
  shows "post (\<lambda>(ret, o', s, osd'). answer_ok (holds inv c) s osd')
      (osd_read_device osd pid oid len offset hdr ind m outdata used sglist sense ddt)"
    "post (\<lambda>(ret, o', s, osd'). answer_ok (holds inv c) s osd')
      (osd_read_map osd pid oid alloc_len offset map_type m outdata used sense)"
  unfolding osd_read_device_def sgl_read_def vec_read_def osd_read_map_def Let_def
  by (intro post_if with_out_post' errs unimplemented_post contig_read_post
      post_bind2 [where P = "\<lambda>s. 252 \<le> length s" and m = "if _ then _ else _"]
      csi_length post_option post_stat post_call post_pair;
    use assms in \<open>simp add: answer_ok_def\<close>)+

lemma frames_post:
  assumes "holds inv c osd" and "252 \<le> length sense" and "post (data_frame osd sense) r"
  shows "post (\<lambda>(ret, s, osd'). answer_ok (holds inv c) s osd') r"
  using assms(3) by (rule post_mono) (use assms(1,2) in \<open>auto simp: data_frame_def answer_ok_def holds_def\<close>)


end

section \<open>The interpretation\<close>

text \<open>The database is prepared, the schema holds, and the table of the objects has the rows \<open>t\<close>.\<close>

definition steady :: "obj_row list \<Rightarrow> db_context \<Rightarrow> bool" where
  "steady t d \<longleftrightarrow> db_good d \<and> tables_ok (tabs d) \<and> t_obj (tabs d) = t"

lemma db_good_events: "db_good (d\<lparr>step_evs := es\<rparr>) = db_good d" "db_good (d\<lparr>bind_evs := bs\<rparr>) = db_good d"
  "db_good (d\<lparr>exec_evs := xs\<rparr>) = db_good d" "db_good (d\<lparr>in_txn := b\<rparr>) = db_good d"
  "db_good (d\<lparr>tabs := t\<rparr>) = db_good d"
  by (simp_all add: db_good_def)

lemma db_good_prepare: "db_good d \<Longrightarrow> db_good (d\<lparr>prep_evs := tl (prep_evs d)\<rparr>)"
proof -
  have "set (tl (prep_evs d)) \<subseteq> set (prep_evs d)" by (cases "prep_evs d") auto
  then show "db_good d \<Longrightarrow> ?thesis" unfolding db_good_def by (simp; blast)
qed

interpretation steady: attribute_invariant "steady t" c for t c
proof
  fix d d' :: db_context and b code ret
  assume s: "steady t d" and r: "db_reset_stmt d b code = Some (ret, d')"
  have "db_good d" using s by (simp add: steady_def)
  then show "steady t d'" by (rule db_reset_stmt_ok [of d b code]) (use r s in \<open>simp add: steady_def\<close>)
qed (simp_all add: steady_def db_good_events db_good_prepare)

text \<open>The part of a device the commands on attributes leave alone.\<close>

definition untouched :: "osd_device \<Rightarrow> osd_device \<Rightarrow> bool" where
  "untouched osd osd' \<longleftrightarrow> holds (steady (t_obj (tabs (dbc osd)))) (ic osd, root osd) osd'"

lemma untouched_refl: "dev_inv osd \<Longrightarrow> untouched osd osd"
  by (auto simp: untouched_def holds_def steady_def dev_inv_def sound_def tables_inv_def)

lemma untouched_inv: "dev_inv osd \<Longrightarrow> untouched osd osd' \<Longrightarrow> dev_inv osd'"
  by (auto simp: untouched_def holds_def steady_def dev_inv_def sound_def tables_inv_def root_fits_def)

lemma untouched_room: "room osd \<Longrightarrow> untouched osd osd' \<Longrightarrow> length (t_obj (tabs (dbc osd'))) < 2 ^ 31"
  by (simp add: untouched_def holds_def steady_def room_def)

end
