(* ===== verification/Cdb_Inv.thy ===== *)
theory Cdb_Inv
  imports Cdb_Spec Osd_Steady
begin

text \<open>
  The invariant of the device through the entry point: every command descriptor block, whatever it
  asks for, leaves a device that keeps the invariant.
\<close>

section \<open>Commands that keep a property of the device\<close>

definition cmd_ok :: "(osd_device \<Rightarrow> bool) \<Rightarrow> command \<Rightarrow> bool" where
  "cmd_ok H cmd \<longleftrightarrow> 252 \<le> length (c_sense cmd) \<and> H (c_osd cmd)"

lemma cmd_ok_simps [simp]:
  "cmd_ok H (put_outdata m cmd) = cmd_ok H cmd" "cmd_ok H (cmd\<lparr>c_senselen := n\<rparr>) = cmd_ok H cmd"
  "cmd_ok H (cmd\<lparr>get_used := u\<rparr>) = cmd_ok H cmd" "cmd_ok H (cmd\<lparr>c_used := v\<rparr>) = cmd_ok H cmd"
  "cmd_ok H (cmd\<lparr>c_cont := ds\<rparr>) = cmd_ok H cmd" "cmd_ok H (cmd\<lparr>retrieved_attr_off := v\<rparr>) = cmd_ok H cmd"
  "cmd_ok H (cmd\<lparr>c_cdb := cdb\<rparr>) = cmd_ok H cmd" "cmd_ok H (cmd\<lparr>c_get_attr := gs\<rparr>) = cmd_ok H cmd"
  "cmd_ok H (cmd\<lparr>c_set_attr := les\<rparr>) = cmd_ok H cmd" "cmd_ok H (cmd\<lparr>c_outdata := d\<rparr>) = cmd_ok H cmd"
  "cmd_ok H (cmd\<lparr>c_sense := s, c_osd := osd\<rparr>) = answer_ok H s osd"
  by (simp_all add: cmd_ok_def put_outdata_def answer_ok_def)

lemma cmd_okD: "cmd_ok H cmd \<Longrightarrow> 252 \<le> length (c_sense cmd)" "cmd_ok H cmd \<Longrightarrow> H (c_osd cmd)"
  by (simp_all add: cmd_ok_def)

lemma basic_error_keeps:
  assumes "cmd_ok H cmd"
  shows "post (\<lambda>(ret, cmd'). cmd_ok H cmd') (basic_error key code pid oid cmd)"
proof -
  obtain s where "sense_basic_build (c_sense cmd) key code pid oid = Some (40, s)" "length s = length (c_sense cmd)"
    by (rule sense_build_sdd_ok [OF cmd_okD(1) [OF assms]])
  then show ?thesis using assms by (simp add: basic_error_def cmd_ok_def)
qed

lemma bad_keeps:
  assumes "cmd_ok H cmd"
  shows "post (\<lambda>(ret, cmd'). cmd_ok H cmd') (bad_cdb pid oid cmd)"
    "post (\<lambda>(ret, cmd'). cmd_ok H cmd') (bad_list_length pid oid cmd)"
    "post (\<lambda>(ret, cmd'). cmd_ok H cmd') (bad_param_list pid oid cmd)"
  by (simp_all add: bad_cdb_def bad_list_length_def bad_param_list_def basic_error_keeps [where H = H, OF assms])

lemma on_device_keeps:
  assumes "post (\<lambda>(ret, s, osd'). answer_ok H s osd') (f (c_osd cmd) (c_sense cmd))"
  shows "post (\<lambda>(ret, cmd'). cmd_ok H cmd') (on_device f cmd)"
  unfolding on_device_def by (rule post_bind [OF assms]) (auto simp: cmd_ok_def answer_ok_def)

lemma with_output_keeps:
  assumes "post (\<lambda>(ret, o', s, osd'). answer_ok H s osd') (f (c_osd cmd) (outdata cmd, c_used cmd) (c_sense cmd))"
  shows "post (\<lambda>(ret, cmd'). cmd_ok H cmd') (with_output f cmd)"
  unfolding with_output_def by (rule post_bind [OF assms]) (auto simp: cmd_ok_def answer_ok_def put_outdata_def)

lemma for_oids_keeps:
  assumes "\<And>i s. P s \<Longrightarrow> post (\<lambda>(ret, s'). P s') (f i s)" and "P s"
  shows "post (\<lambda>(ret, s'). P s') (for_oids f i e s)"
  using assms
proof (induction f i e s rule: for_oids.induct)
  case (1 f i e s)
  show ?case
  proof (cases "f i s")
    case None
    then show ?thesis using 1 by (simp add: for_oids.simps [of f i])
  next
    case (Some r)
    obtain ret s' where r: "r = (ret, s')" by (cases r)
    have "P s'" using "1.prems"(1) [OF "1.prems"(2), of i] Some r by simp
    then show ?thesis using 1 Some r by (simp add: for_oids.simps [of f i])
  qed
qed

section \<open>The attributes of a command\<close>

context attribute_invariant begin

lemma txn_keeps: "cmd_ok (holds inv c) cmd \<Longrightarrow> cmd_ok (holds inv c) (begin_txn cmd)"
  "cmd_ok (holds inv c) cmd \<Longrightarrow> cmd_ok (holds inv c) (end_txn cmd)"
  by (simp_all add: cmd_ok_def begin_txn_def end_txn_def txn_holds)

lemma set_one_keeps:
  "cmd_ok (holds inv c) cmd \<Longrightarrow> post (\<lambda>(ret, cmd'). cmd_ok (holds inv c) cmd')
    (on_device (\<lambda>osd. osd_set_attributes osd pid i page number val len b) cmd)"
  by (rule on_device_keeps, rule osd_set_attributes_post) (simp_all add: cmd_ok_def)

lemma set_all_keeps:
  "cmd_ok (holds inv c) cmd \<Longrightarrow> post (\<lambda>(ret, cmd'). cmd_ok (holds inv c) cmd')
    (for_oids (\<lambda>i. on_device (\<lambda>osd. osd_set_attributes osd pid i page number val len b)) oid e cmd)"
  by (rule for_oids_keeps [where P = "cmd_ok (holds inv c)"], rule set_one_keeps)

lemma set_attr_keeps:
  assumes "cmd_ok (holds inv c) cmd"
  shows "post (\<lambda>(ret, cmd'). cmd_ok (holds inv c) cmd') (set_attr_value cmd pid oid n)"
    "post (\<lambda>(ret, cmd'). cmd_ok (holds inv c) cmd') (set_one_attr_value cmd pid oid n)"
  unfolding set_attr_value_def set_one_attr_value_def
  by (intro post_if bad_keeps set_all_keeps [THEN post_bind2] post_call;
    use assms txn_keeps in \<open>simp\<close>)+

lemma setattr_loop_keeps:
  "cmd_ok (holds inv c) cmd \<Longrightarrow> post (\<lambda>(ret, cmd'). cmd_ok (holds inv c) cmd') (setattr_loop ind pid oid e hdr len cmd)"
proof (induction ind pid oid e hdr len cmd rule: setattr_loop.induct)
  case (1 ind pid oid e hdr len cmd)
  show ?case
  proof (subst setattr_loop.simps, intro post_if post_call)
    fix page number n r
    assume a: "0 < len" "get_ntohl ind (hdr + LE_PAGE_OFF) = Some page" "get_ntohl ind (hdr + LE_NUMBER_OFF) = Some number"
      "get_ntohs ind (hdr + LE_LEN_OFF) = Some n"
      "for_oids (\<lambda>i. on_device (\<lambda>osd. osd_set_attributes osd pid i page number
          (Some (drop (hdr + LE_VAL_OFF) ind)) n True)) oid e cmd = Some r"
    obtain ret cmd1 where r: "r = (ret, cmd1)" by (cases r)
    have "cmd_ok (holds inv c) cmd1" using postD [OF set_all_keeps [OF 1(2)] a(5)] r by simp
    then show "post (\<lambda>(ret, cmd'). cmd_ok (holds inv c) cmd') (case r of (ret, cmd) \<Rightarrow>
        if ret \<noteq> 0 then Some (ret, cmd\<lparr>c_senselen := ret\<rparr>)
        else setattr_loop ind pid oid e (hdr + entry_step n) (len - of_nat (entry_step n)) cmd)"
      using 1(1) [OF a r [symmetric]] r by simp
  qed (use 1(2) in simp)
qed

end

context attribute_invariant begin

lemma getattr_one_keeps:
  assumes "cmd_ok (holds inv c) (snd (snd s))"
  shows "post (\<lambda>(ret, s'). cmd_ok (holds inv c) (snd (snd s'))) (getattr_one st pid page number listfmt i s)"
proof -
  obtain cp n cmd where s: "s = (cp, n, cmd)" by (cases s)
  have c: "holds inv c (c_osd cmd)" "252 \<le> length (c_sense cmd)" using assms by (simp_all add: s cmd_ok_def)
  show ?thesis
    unfolding s getattr_one_def prod.case Let_def
    by (rule post_bind3 [where P = "\<lambda>(s, osd'). answer_ok (holds inv c) s osd'", OF osd_getattr_list_post [OF c]],
        intro post_pair1 post_pair) simp
qed

lemma getattr_all_keeps:
  "cmd_ok (holds inv c) (snd (snd s)) \<Longrightarrow> post (\<lambda>(ret, s'). cmd_ok (holds inv c) (snd (snd s')))
    (for_oids (getattr_one st pid page number listfmt) oid e s)"
  by (rule for_oids_keeps [where P = "\<lambda>s. cmd_ok (holds inv c) (snd (snd s))"], rule getattr_one_keeps)

lemma getattr_loop_keeps:
  "cmd_ok (holds inv c) (snd (snd s)) \<Longrightarrow> post (\<lambda>(ret, s'). cmd_ok (holds inv c) (snd (snd s')))
    (getattr_loop st ind pid oid e listfmt hdr len s)"
proof (induction st ind pid oid e listfmt hdr len s rule: getattr_loop.induct)
  case (1 st ind pid oid e listfmt hdr len s)
  show ?case
  proof (subst getattr_loop.simps, intro post_if post_call)
    fix page number r
    assume a: "0 < len" "get_ntohl ind hdr = Some page" "get_ntohl ind (hdr + 4) = Some number"
      "for_oids (getattr_one st pid page number listfmt) oid e s = Some r"
    obtain ret s1 where r: "r = (ret, s1)" by (cases r)
    have "cmd_ok (holds inv c) (snd (snd s1))" using postD [OF getattr_all_keeps [OF 1(2)] a(4)] r by simp
    then show "post (\<lambda>(ret, s'). cmd_ok (holds inv c) (snd (snd s'))) (case r of (ret, s) \<Rightarrow>
        if ret \<noteq> 0 then Some (ret, s) else getattr_loop st ind pid oid e listfmt (hdr + 8) (len - 8) s)"
      using 1(1) [OF a r [symmetric]] r by simp
  qed (use 1(2) in simp)
qed

lemma list_check_post: "(v = ListBadLength \<Longrightarrow> post Q a) \<Longrightarrow> (v = ListBadType \<Longrightarrow> post Q b) \<Longrightarrow>
    (\<And>x y. v = ListFine x y \<Longrightarrow> post Q (k x y)) \<Longrightarrow>
    post Q (case v of ListFine x y \<Rightarrow> k x y | ListBadLength \<Rightarrow> a | ListBadType \<Rightarrow> b)"
  by (cases v) simp_all

lemma get_attr_page_keeps:
  assumes "cmd_ok (holds inv c) cmd"
  shows "post (\<lambda>(ret, cmd'). cmd_ok (holds inv c) cmd') (get_attr_page cmd pid oid n)"
  unfolding get_attr_page_def
  by (intro post_if bad_keeps osd_getattr_page_post [THEN post_bind3 [where P = "\<lambda>(s, osd'). answer_ok (holds inv c) s osd'"]]
      post_pair1 post_call post_pair; use assms in \<open>simp add: cmd_ok_def answer_ok_def put_outdata_def\<close>)

lemma get_attr_list_keeps:
  assumes "cmd_ok (holds inv c) cmd"
  shows "post (\<lambda>(ret, cmd'). cmd_ok (holds inv c) cmd') (get_attr_list st cmd pid oid n)"
  unfolding get_attr_list_def Let_def
  by (intro post_if bad_keeps list_check_post
      getattr_loop_keeps [THEN post_bind2 [where P = "\<lambda>s. cmd_ok (holds inv c) (snd (snd s))"]] post_call post_pair;
    use assms txn_keeps in \<open>simp\<close>)

lemma set_attr_list_keeps:
  assumes "cmd_ok (holds inv c) cmd"
  shows "post (\<lambda>(ret, cmd'). cmd_ok (holds inv c) cmd') (set_attr_list cmd pid oid n)"
  unfolding set_attr_list_def
  by (intro post_if list_check_post bad_keeps [THEN post_bind2] setattr_loop_keeps [THEN post_bind2] post_call;
    use assms txn_keeps in \<open>simp\<close>)

lemma attributes_keep:
  assumes "cmd_ok (holds inv c) cmd"
  shows "post (\<lambda>(ret, cmd'). cmd_ok (holds inv c) cmd') (get_attributes st cmd pid oid n)"
    "post (\<lambda>(ret, cmd'). cmd_ok (holds inv c) cmd') (set_attributes cmd pid oid k)"
  unfolding get_attributes_def set_attributes_def
  by (intro post_if bad_keeps get_attr_page_keeps get_attr_list_keeps set_attr_list_keeps set_attr_keeps;
    use assms in \<open>simp\<close>)+

lemma std_attributes_keep:
  assumes "cmd_ok (holds inv c) cmd"
  shows "post (\<lambda>(ret, cmd'). cmd_ok (holds inv c) cmd') (std_get_set_attr st cmd pid oid)"
  unfolding std_get_set_attr_def
  by (intro attributes_keep(2) [THEN post_bind2] post_if attributes_keep(1)) (use assms in simp_all)

end

section \<open>Commands that leave the objects alone\<close>

context attribute_invariant begin

lemma data_keeps:
  assumes "cmd_ok (holds inv c) cmd"
  shows "post (\<lambda>(ret, cmd'). cmd_ok (holds inv c) cmd') (cdb_read st cmd n)"
    "post (\<lambda>(ret, cmd'). cmd_ok (holds inv c) cmd') (cdb_read_map st cmd)"
    "post (\<lambda>(ret, cmd'). cmd_ok (holds inv c) cmd') (cdb_query cmd pid cid)"
  unfolding cdb_read_def cdb_read_map_def cdb_query_def
  by (intro post_if bad_keeps std_attributes_keep [THEN post_bind2] with_output_keeps
      with_output_keeps [THEN post_bind2 [where P = "cmd_ok (holds inv c)"]] post_option post_pair
      reads_post query_post post_call;
    use assms in \<open>simp add: reads_post query_post cmd_ok_def\<close>)+

end

context attribute_invariant begin

lemma parse_lists_keep:
  assumes "cmd_ok (holds inv c) cmd"
  shows "post (\<lambda>(ret, cmd'). cmd_ok (holds inv c) cmd') (parse_getattr_list cmd pid oid)"
    "post (\<lambda>(ret, cmd'). cmd_ok (holds inv c) cmd') (parse_setattr_list cmd pid oid)"
  unfolding parse_getattr_list_def parse_setattr_list_def
  by (intro post_if list_check_post bad_keeps post_call; use assms in \<open>simp\<close>)+

lemma lists_keep:
  assumes "cmd_ok (holds inv c) cmd"
  shows "post (\<lambda>(ret, cmd'). cmd_ok (holds inv c) cmd') (cdb_list cmd)"
    "post (\<lambda>(ret, cmd'). cmd_ok (holds inv c) cmd') (cdb_list_collection st cmd)"
    "post (\<lambda>(ret, cmd'). cmd_ok (holds inv c) cmd') (cdb_set_member_attributes cmd)"
  unfolding cdb_list_def cdb_list_collection_def cdb_set_member_attributes_def
  by (intro post_if bad_keeps std_attributes_keep with_output_keeps on_device_keeps
      parse_lists_keep [THEN post_bind2 [where P = "cmd_ok (holds inv c)"]]
      with_output_keeps [THEN post_bind2 [where P = "cmd_ok (holds inv c)"]]
      list_post set_member_attributes_post post_call;
    use assms in \<open>simp add: cmd_ok_def\<close>)+

lemma atomics_keep:
  assumes "cmd_ok (holds inv c) cmd"
  shows "post (\<lambda>(ret, cmd'). cmd_ok (holds inv c) cmd') (cdb_cas st cmd)"
    "post (\<lambda>(ret, cmd'). cmd_ok (holds inv c) cmd') (cdb_fa st cmd)"
  unfolding cdb_cas_def cdb_fa_def
  by (intro post_if bad_keeps std_attributes_keep
      with_output_keeps [THEN post_bind2 [where P = "cmd_ok (holds inv c)"]] post_call;
    use assms in \<open>simp add: atomics_post cmd_ok_def\<close>)+

lemma cas_setattr_keeps:
  "cmd_ok (holds inv c) cmd \<Longrightarrow> post (\<lambda>(ret, cmd'). cmd_ok (holds inv c) cmd') (cas_setattr_loop ind pid oid pos len cmd)"
proof (induction ind pid oid pos len cmd rule: cas_setattr_loop.induct)
  case (1 ind pid oid pos len cmd)
  show ?case
  proof (subst cas_setattr_loop.simps, intro post_if post_call)
    fix e assume a: "0 < len" "cas_entry ind pos = Some e"
    obtain page number n val where e: "e = (page, number, n, val)" by (cases e)
    show "post (\<lambda>(ret, cmd'). cmd_ok (holds inv c) cmd') (case e of (page, number, len', val) \<Rightarrow> do {
        (ret, cmd) \<leftarrow> on_device (\<lambda>osd. osd_set_attributes osd pid oid page number (Some val) len' True) cmd;
        if ret \<noteq> 0 then Some (ret, cmd\<lparr>c_senselen := ret\<rparr>)
        else cas_setattr_loop ind pid oid (pos + entry_step len') (len - of_nat (entry_step len')) cmd })"
      unfolding e prod.case
      by (rule post_call) (use 1(1) [OF a] postD [OF set_one_keeps [OF 1(2)]] e in \<open>auto split: prod.splits\<close>)
  qed (use 1(2) in simp)
qed

end

context attribute_invariant begin

lemma exec_gen_cas_keeps:
  assumes "cmd_ok (holds inv c) cmd"
  shows "post (\<lambda>(ret, r, cmd'). cmd_ok (holds inv c) cmd') (exec_gen_cas st cmd pid oid pos)"
  unfolding exec_gen_cas_def Let_def
  by (intro post_if post_None osd_gen_cas_post [THEN post_bind3 [where P = "\<lambda>(s, osd'). answer_ok (holds inv c) s osd'"]]
      post_call post_pair post_pair1;
    use assms in \<open>simp add: cmd_ok_def answer_ok_def\<close>)

lemma exec_getattr_keeps:
  assumes "cmd_ok (holds inv c) cmd"
  shows "post (\<lambda>(f, ret, cmd'). cmd_ok (holds inv c) cmd') (exec_getattr st cmd pid oid r)"
  unfolding exec_getattr_def Let_def
  by (intro post_if post_map_option bad_keeps [THEN post_mono] attributes_keep(1) [THEN post_bind2]
      post_call post_pair post_pair1;
    use assms in \<open>auto\<close>)

lemma gen_cas_keeps:
  assumes "cmd_ok (holds inv c) cmd"
  shows "post (\<lambda>(ret, cmd'). cmd_ok (holds inv c) cmd') (cdb_gen_cas st cmd k)"
  unfolding cdb_gen_cas_def exec_cas_setattr_def
  by (intro post_if post_None exec_gen_cas_keeps [THEN post_bind3] post_option
      post_bind2 [where P = "cmd_ok (holds inv c)" and m = "if _ then _ else _"]
      exec_getattr_keeps [THEN post_bind3] bad_keeps cas_setattr_keeps post_call;
    use assms in \<open>simp\<close>)

end

lemma guards_keep:
  assumes "cmd_ok H cmd"
  shows "post (\<lambda>(ret, cmd'). cmd_ok H cmd') (check_no_continuations cmd n pid oid)"
    "post (\<lambda>(ret, cmd'). cmd_ok H cmd') (verify_enough_input_data cmd len)"
    "post (\<lambda>(ret, cmd'). cmd_ok H cmd') (unimplemented cmd)"
    "post (cmd_ok H) (warn_descriptors pid oid cmd)"
proof -
  obtain s where s: "sense_basic_build (c_sense cmd) OSD_SSK_ILLEGAL_REQUEST 0 0 0 = Some (40, s)"
    "length s = length (c_sense cmd)"
    by (rule sense_build_sdd_ok [OF cmd_okD(1) [OF assms]])
  show "post (\<lambda>(ret, cmd'). cmd_ok H cmd') (check_no_continuations cmd n pid oid)"
    using bad_keeps(1) [OF assms] assms by (simp add: check_no_continuations_def)
  show "post (\<lambda>(ret, cmd'). cmd_ok H cmd') (verify_enough_input_data cmd len)"
    using s assms by (simp add: verify_enough_input_data_def osd_error_bad_cdb_def cmd_ok_def)
  show "post (\<lambda>(ret, cmd'). cmd_ok H cmd') (unimplemented cmd)"
    using s assms by (simp add: unimplemented_def osd_error_unimplemented_def cmd_ok_def)
  show "post (cmd_ok H) (warn_descriptors pid oid cmd)"
    using bad_keeps(1) [OF assms, of pid oid] assms by (auto simp: warn_descriptors_def post_def)
qed

lemma and_then_keeps:
  assumes "post (\<lambda>(ret, cmd'). P cmd') m" and "\<And>cmd'. P cmd' \<Longrightarrow> post (\<lambda>(ret, cmd'). Q cmd') (k cmd')"
    and "\<And>cmd'. P cmd' \<Longrightarrow> Q cmd'"
  shows "post (\<lambda>(ret, cmd'). Q cmd') (and_then m k)"
  unfolding and_then_def by (rule post_bind2 [OF assms(1)]) (simp add: assms(2,3))

context attribute_invariant begin

lemmas and_then_holds = and_then_keeps [where P = "cmd_ok (holds inv c)" and Q = "cmd_ok (holds inv c)"]

lemma data_answers:
  assumes "holds inv c osd" and "252 \<le> length sense"
  shows "post (\<lambda>(ret, s, osd'). answer_ok (holds inv c) s osd') (osd_write osd pid oid len offset data dinbuf sglist sense ddt)"
    "post (\<lambda>(ret, s, osd'). answer_ok (holds inv c) s osd') (osd_append osd pid oid len data dinbuf cont sense ddt)"
    "post (\<lambda>(ret, s, osd'). answer_ok (holds inv c) s osd') (osd_clear osd pid oid len offset sense)"
    "post (\<lambda>(ret, s, osd'). answer_ok (holds inv c) s osd') (osd_punch osd pid oid len offset sense)"
    "post (\<lambda>(ret, s, osd'). answer_ok (holds inv c) s osd') (osd_flush osd pid oid len offset scope sense)"
  by (rule frames_post [OF assms data_frames(1) [OF assms(2)]] frames_post [OF assms data_frames(2) [OF assms(2)]]
      frames_post [OF assms data_frames(3) [OF assms(2)]] frames_post [OF assms data_frames(4) [OF assms(2)]]
      frames_post [OF assms data_frames(5) [OF assms(2)]])+

lemma writes_keep:
  assumes "cmd_ok (holds inv c) cmd"
  shows "post (\<lambda>(ret, cmd'). cmd_ok (holds inv c) cmd') (exec_write st cmd n)"
    "post (\<lambda>(ret, cmd'). cmd_ok (holds inv c) cmd') (exec_append st cmd n)"
    "post (\<lambda>(ret, cmd'). cmd_ok (holds inv c) cmd') (exec_range st cmd n osd_clear)"
    "post (\<lambda>(ret, cmd'). cmd_ok (holds inv c) cmd') (exec_range st cmd n osd_punch)"
  unfolding exec_write_def exec_append_def exec_range_def
  by (intro and_then_holds guards_keep(1,2) post_bind [OF guards_keep(4) [where H = "holds inv c"]]
      std_attributes_keep on_device_keeps data_answers post_call post_pair;
    use assms in \<open>simp add: cmd_ok_def\<close>)+

lemma flushes_keep:
  assumes "holds inv c osd" and "252 \<le> length sense"
  shows "post (\<lambda>(ret, s, osd'). answer_ok (holds inv c) s osd') (osd_flush osd pid oid len offset scope sense)"
    "post (\<lambda>(ret, s, osd'). answer_ok (holds inv c) s osd') (osd_flush_collection osd sense)"
    "post (\<lambda>(ret, s, osd'). answer_ok (holds inv c) s osd') (osd_flush_osd osd sense)"
    "post (\<lambda>(ret, s, osd'). answer_ok (holds inv c) s osd') (osd_flush_partition osd sense)"
    "post (\<lambda>(ret, s, osd'). answer_ok (holds inv c) s osd') (osd_get_member_attributes osd sense)"
    "post (\<lambda>(ret, s, osd'). answer_ok (holds inv c) s osd') (osd_set_key osd sense)"
    "post (\<lambda>(ret, s, osd'). answer_ok (holds inv c) s osd') (osd_set_master_key osd sense)"
    "post (\<lambda>(ret, s, osd'). answer_ok (holds inv c) s osd') (osd_remove_member_objects osd sense)"
  by (simp_all add: data_answers [OF assms] unimplemented_post [OF assms]
      osd_flush_collection_def osd_flush_osd_def osd_flush_partition_def osd_get_member_attributes_def
      osd_set_key_def osd_set_master_key_def osd_remove_member_objects_def)

end

section \<open>Every service action keeps the invariant\<close>

lemma untouched_eq: "untouched osd = holds (steady (t_obj (tabs (dbc osd)))) (ic osd, root osd)"
  by (rule ext) (simp add: untouched_def)

text \<open>What leaves the objects alone keeps the invariant.\<close>

lemma keeps_inv:
  assumes "cmd_ok dev_inv cmd"
    and "\<And>t k. cmd_ok (holds (steady t) k) cmd \<Longrightarrow> post (\<lambda>(ret, cmd'). cmd_ok (holds (steady t) k) cmd') m"
  shows "post (\<lambda>(ret, cmd'). cmd_ok (\<lambda>osd. dev_inv osd \<and> untouched (c_osd cmd) osd) cmd') m"
proof -
  have "cmd_ok (untouched (c_osd cmd)) cmd" using assms(1) by (simp add: cmd_ok_def untouched_refl)
  then have "post (\<lambda>(ret, cmd'). cmd_ok (untouched (c_osd cmd)) cmd') m"
    unfolding untouched_eq by (rule assms(2))
  then show ?thesis
    by (rule post_mono) (use assms(1) untouched_inv in \<open>auto simp: cmd_ok_def\<close>)
qed

lemma keeps_dev_inv:
  assumes "cmd_ok dev_inv cmd"
    and "\<And>t k. cmd_ok (holds (steady t) k) cmd \<Longrightarrow> post (\<lambda>(ret, cmd'). cmd_ok (holds (steady t) k) cmd') m"
  shows "post (\<lambda>(ret, cmd'). cmd_ok dev_inv cmd') m"
  by (rule post_mono [OF keeps_inv [where m = m, OF assms]]) (auto simp: cmd_ok_def)

lemma total_answer: "total (cmd_post osd sense) m \<Longrightarrow> 252 \<le> length sense \<Longrightarrow>
    post (\<lambda>(ret, s, osd'). answer_ok dev_inv s osd') m"
  by (erule post_mono [OF total_post]) (auto simp: cmd_post_def answer_ok_def)

lemma txn_dev_inv: "dev_inv osd \<Longrightarrow> dev_inv (snd (osd_begin_txn osd))" "dev_inv osd \<Longrightarrow> dev_inv (snd (osd_end_txn osd))"
  using untouched_inv untouched_refl steady.txn_holds unfolding untouched_eq by blast+

lemma txn_room: "room (snd (osd_begin_txn osd)) = room osd"
proof -
  have "tabs (dbc (snd (osd_begin_txn osd))) = tabs (dbc osd)" "ic (snd (osd_begin_txn osd)) = ic osd"
    by (auto simp: osd_begin_txn_def db_begin_txn_def sq_exec_def split: prod.splits)
  then show ?thesis by (simp add: room_def)
qed

lemma remove_quietly_inv: "cmd_ok dev_inv cmd \<Longrightarrow> post (\<lambda>(ret, cmd'). cmd_ok dev_inv cmd') (remove_quietly pid i cmd)"
  unfolding remove_quietly_def
  by (rule post_bind [OF total_post [OF osd_remove_cmd_total [where sense = local_sense]]])
    (auto simp: cmd_ok_def cmd_post_def local_sense_def OSD_MAX_SENSE_def)

lemma cdb_create_inv:
  assumes ok: "cmd_ok dev_inv cmd" and rm: "room (c_osd cmd)" and id: "\<And>oid. oid_of cmd = Some oid \<Longrightarrow> id_ok oid"
  shows "post (\<lambda>(ret, cmd'). cmd_ok dev_inv cmd') (cdb_create st cmd)"
proof -
  have b: "dev_inv (c_osd (begin_txn cmd))" "room (c_osd (begin_txn cmd))" "252 \<le> length (c_sense (begin_txn cmd))"
    using ok rm by (simp_all add: begin_txn_def cmd_ok_def txn_dev_inv txn_room)
  have e: "cmd_ok dev_inv (end_txn cmd')" if "cmd_ok dev_inv cmd'" for cmd'
    using that by (simp add: end_txn_def cmd_ok_def txn_dev_inv)
  have attrs: "post (\<lambda>(ret, cmd'). cmd_ok dev_inv cmd') (set_attributes c pid oid k)"
    "post (\<lambda>(ret, cmd'). cmd_ok dev_inv cmd') (get_attributes st c pid oid n)" if "cmd_ok dev_inv c" for c pid oid k n
    by (rule keeps_dev_inv [OF that], rule steady.attributes_keep, assumption)+
  show ?thesis
    unfolding cdb_create_def Let_def
    by (intro post_if bad_keeps on_device_keeps [THEN post_bind2] attrs(1) [THEN post_bind2] post_bind2 [where P = "cmd_ok dev_inv" and m = "if _ then _ else _"] attrs(2)
        for_oids_keeps [where P = "cmd_ok dev_inv", THEN post_bind2] remove_quietly_inv post_call;
      (rule total_answer, rule osd_create_total)?; use ok b e id in \<open>simp\<close>)
qed

text \<open>The answers of the commands that change the objects.\<close>

lemmas object_answers = osd_create_total [THEN total_answer] osd_create_collection_total [THEN total_answer]
  osd_create_partition_total [THEN total_answer] osd_create_user_tracking_collection_total [THEN total_answer]
  osd_copy_user_objects_total [THEN total_answer] osd_remove_cmd_total [THEN total_answer]
  osd_remove_partition_total [THEN total_answer] osd_remove_collection_total [THEN total_answer]

lemma std_inv: "cmd_ok dev_inv cmd \<Longrightarrow>
    post (\<lambda>(ret, cmd'). cmd_ok (\<lambda>osd. dev_inv osd \<and> untouched (c_osd cmd) osd) cmd') (std_get_set_attr st cmd pid oid)"
  by (rule keeps_inv, assumption, rule steady.std_attributes_keep)

lemma std_dev_inv: "cmd_ok dev_inv cmd \<Longrightarrow> post (\<lambda>(ret, cmd'). cmd_ok dev_inv cmd') (std_get_set_attr st cmd pid oid)"
  by (rule keeps_dev_inv, assumption, rule steady.std_attributes_keep)

lemma attributes_or_remove_inv:
  assumes "cmd_ok dev_inv cmd"
  shows "post (\<lambda>(ret, cmd'). cmd_ok dev_inv cmd') (attributes_or_remove st pid oid cmd)"
  unfolding attributes_or_remove_def
  by (intro std_dev_inv [THEN post_bind2] remove_quietly_inv [THEN post_bind2] post_if) (use assms in simp_all)

lemma creates_inv:
  assumes ok: "cmd_ok dev_inv cmd" and rm: "room (c_osd cmd)" and id: "\<And>oid. oid_of cmd = Some oid \<Longrightarrow> id_ok oid"
  shows "post (\<lambda>(ret, cmd'). cmd_ok dev_inv cmd') (cdb_create_collection st cmd)"
    "post (\<lambda>(ret, cmd'). cmd_ok dev_inv cmd') (cdb_create_partition st cmd)"
    "post (\<lambda>(ret, cmd'). cmd_ok dev_inv cmd') (cdb_copy_user_objects st cmd)"
proof -
  have inv: "dev_inv (c_osd cmd)" "252 \<le> length (c_sense cmd)" "252 \<le> length local_sense"
    using ok by (simp_all add: cmd_ok_def local_sense_def OSD_MAX_SENSE_def)
  have copy: "post (\<lambda>(ret, cmd'). cmd_ok dev_inv cmd') (on_device (\<lambda>osd. osd_copy_user_objects osd pid oid a b) cmd)"
    if "oid_of cmd = Some oid" for pid oid a b
    by (intro on_device_keeps object_answers inv rm id that)
  show "post (\<lambda>(ret, cmd'). cmd_ok dev_inv cmd') (cdb_copy_user_objects st cmd)"
    unfolding cdb_copy_user_objects_def
    by (intro post_option post_if bad_keeps copy [THEN post_bind2] post_call post_pair) (use ok in simp_all)
  have part: "post (\<lambda>(ret, cmd'). cmd_ok dev_inv cmd') (on_device (\<lambda>osd. osd_create_partition osd pid) cmd)" for pid
    by (intro on_device_keeps object_answers inv rm)
  show "post (\<lambda>(ret, cmd'). cmd_ok dev_inv cmd') (cdb_create_partition st cmd)"
    unfolding cdb_create_partition_def
    by (intro part [THEN post_bind2] attributes_or_remove_inv post_if post_call) simp_all
  have coll: "post (\<lambda>(ret, s, osd'). answer_ok dev_inv s osd') (osd_create_collection (c_osd cmd) pid cid local_sense)"
    if "oid_of cmd = Some cid" for pid cid
    by (intro object_answers inv rm id that)
  show "post (\<lambda>(ret, cmd'). cmd_ok dev_inv cmd') (cdb_create_collection st cmd)"
    unfolding cdb_create_collection_def Let_def
    by (intro coll [THEN post_bind2 [where P = "\<lambda>(s, osd'). answer_ok dev_inv s osd'"]] attributes_or_remove_inv
        post_if post_call post_pair)
      (use inv in \<open>simp_all add: cmd_ok_def answer_ok_def\<close>)
qed

lemma removes_inv:
  assumes ok: "cmd_ok dev_inv cmd" and rm: "room (c_osd cmd)"
  shows "post (\<lambda>(ret, cmd'). cmd_ok dev_inv cmd') (cdb_remove st cmd)"
    "post (\<lambda>(ret, cmd'). cmd_ok dev_inv cmd') (cdb_remove_partition st cmd)"
proof -
  have "post (\<lambda>(ret, cmd'). cmd_ok dev_inv cmd') (on_device (\<lambda>osd. osd_remove_partition osd pid) cmd')"
    if "cmd_ok (\<lambda>osd. dev_inv osd \<and> untouched (c_osd cmd) osd) cmd'" for cmd' pid
    using that untouched_room [OF rm]
    by (intro on_device_keeps object_answers) (simp_all add: cmd_ok_def)
  then show "post (\<lambda>(ret, cmd'). cmd_ok dev_inv cmd') (cdb_remove_partition st cmd)"
    unfolding cdb_remove_partition_def
    by (intro std_inv [THEN post_bind2] post_if post_call) (use ok in \<open>simp_all add: cmd_ok_def\<close>)
  show "post (\<lambda>(ret, cmd'). cmd_ok dev_inv cmd') (cdb_remove st cmd)"
    unfolding cdb_remove_def
    by (intro std_dev_inv [THEN post_bind2] on_device_keeps object_answers post_if post_call)
      (use ok in \<open>simp_all add: cmd_ok_def\<close>)
qed

lemma exec_create_and_write_inv:
  assumes ok: "cmd_ok dev_inv cmd" and rm: "room (c_osd cmd)" and id: "\<And>oid. oid_of cmd = Some oid \<Longrightarrow> id_ok oid"
  shows "post (\<lambda>(ret, cmd'). cmd_ok dev_inv cmd') (exec_create_and_write st cmd n)"
proof -
  let ?P = "\<lambda>osd. dev_inv osd \<and> room osd"
  let ?A = "\<lambda>(s, osd'). answer_ok dev_inv s osd'"
  have wr: "post (\<lambda>(ret, s, osd'). answer_ok dev_inv s osd') (osd_write osd pid oid l off data src sg s ddt)"
    if "?A (s, osd)" for osd pid oid l off data src sg s ddt
    by (rule post_mono [OF data_frames(1)]) (use that data_frame_inv in \<open>fastforce simp: answer_ok_def\<close>)+
  have cw: "post (\<lambda>(ret, s, osd'). answer_ok dev_inv s osd') (osd_create_and_write osd pid oid l off data src sg sense ddt)"
    if "?P osd" "252 \<le> length sense" "id_ok oid" for osd pid oid l off data src sg sense ddt
    unfolding osd_create_and_write_def
    by (intro object_answers(1) [THEN post_bind2 [where P = ?A]] wr [THEN post_bind2 [where P = ?A]]
        object_answers(6) [THEN post_bind2 [where P = ?A]] post_if post_pair)
      (use that in \<open>simp_all add: answer_ok_def\<close>)
  have "cmd_ok ?P cmd" using ok rm by (simp add: cmd_ok_def)
  then show ?thesis
    unfolding exec_create_and_write_def
    by (intro and_then_keeps [where P = "cmd_ok ?P" and Q = "cmd_ok dev_inv"] guards_keep(2) post_bind [OF guards_keep(4) [where H = ?P]]
        on_device_keeps cw post_call post_pair) (use id in \<open>simp_all add: cmd_ok_def\<close>)
qed

text \<open>The test for a continuation leaves the command as it is, or ends it.\<close>

lemma check_then_inv:
  assumes "cmd_ok dev_inv cmd" and "post (\<lambda>(ret, cmd'). cmd_ok dev_inv cmd') (k cmd)"
  shows "post (\<lambda>(ret, cmd'). cmd_ok dev_inv cmd') (and_then (check_no_continuations cmd n pid oid) k)"
proof (cases "n = 0")
  case True
  then show ?thesis using assms(2) by (simp add: check_no_continuations_def and_then_def)
next
  case False
  have "post (\<lambda>(ret, cmd'). cmd_ok dev_inv cmd' \<and> ret \<noteq> 0) (bad_cdb pid oid cmd)"
    using bad_keeps(1) [OF assms(1), of pid oid] bad_cdb_not_ok [OF cmd_okD(1) [OF assms(1)], of pid oid]
    by (cases "bad_cdb pid oid cmd") auto
  then show ?thesis
    unfolding check_no_continuations_def and_then_def using False by (auto simp: post_def split: Option.bind_splits)
qed

lemma no_continuation_inv:
  assumes "cmd_ok dev_inv cmd" and "\<And>pid oid. oid_of cmd = Some oid \<Longrightarrow> post (\<lambda>(ret, cmd'). cmd_ok dev_inv cmd') (f pid oid cmd)"
  shows "post (\<lambda>(ret, cmd'). cmd_ok dev_inv cmd') (no_continuation cmd n f)"
  unfolding no_continuation_def by (intro post_call check_then_inv assms)

lemma attributes_dev_inv:
  assumes "cmd_ok dev_inv cmd"
  shows "post (\<lambda>(ret, cmd'). cmd_ok dev_inv cmd') (get_attributes st cmd pid oid n)"
    "post (\<lambda>(ret, cmd'). cmd_ok dev_inv cmd') (set_attributes cmd pid oid k)"
  by (rule keeps_dev_inv [OF assms], rule steady.attributes_keep, assumption)+

lemma quiet_actions_inv:
  assumes "cmd_ok dev_inv cmd"
  shows "post (\<lambda>(ret, cmd'). cmd_ok dev_inv cmd') (cdb_read st cmd n)"
    "post (\<lambda>(ret, cmd'). cmd_ok dev_inv cmd') (cdb_read_map st cmd)"
    "post (\<lambda>(ret, cmd'). cmd_ok dev_inv cmd') (cdb_query cmd pid cid)"
    "post (\<lambda>(ret, cmd'). cmd_ok dev_inv cmd') (cdb_list cmd)"
    "post (\<lambda>(ret, cmd'). cmd_ok dev_inv cmd') (cdb_list_collection st cmd)"
    "post (\<lambda>(ret, cmd'). cmd_ok dev_inv cmd') (cdb_set_member_attributes cmd)"
    "post (\<lambda>(ret, cmd'). cmd_ok dev_inv cmd') (cdb_cas st cmd)"
    "post (\<lambda>(ret, cmd'). cmd_ok dev_inv cmd') (cdb_fa st cmd)"
    "post (\<lambda>(ret, cmd'). cmd_ok dev_inv cmd') (cdb_gen_cas st cmd k)"
    "post (\<lambda>(ret, cmd'). cmd_ok dev_inv cmd') (exec_write st cmd n)"
    "post (\<lambda>(ret, cmd'). cmd_ok dev_inv cmd') (exec_append st cmd n)"
    "post (\<lambda>(ret, cmd'). cmd_ok dev_inv cmd') (exec_range st cmd n osd_clear)"
    "post (\<lambda>(ret, cmd'). cmd_ok dev_inv cmd') (exec_range st cmd n osd_punch)"
  by (rule keeps_dev_inv [OF assms], rule steady.data_keeps steady.lists_keep steady.atomics_keep
      steady.gen_cas_keeps steady.writes_keep, assumption)+

lemma quiet_devices_inv:
  assumes "cmd_ok dev_inv cmd"
  shows "post (\<lambda>(ret, cmd'). cmd_ok dev_inv cmd') (on_device (\<lambda>osd. osd_flush osd pid oid len offset scope) cmd)"
    "post (\<lambda>(ret, cmd'). cmd_ok dev_inv cmd') (on_device osd_flush_collection cmd)"
    "post (\<lambda>(ret, cmd'). cmd_ok dev_inv cmd') (on_device osd_flush_osd cmd)"
    "post (\<lambda>(ret, cmd'). cmd_ok dev_inv cmd') (on_device osd_flush_partition cmd)"
    "post (\<lambda>(ret, cmd'). cmd_ok dev_inv cmd') (on_device osd_get_member_attributes cmd)"
    "post (\<lambda>(ret, cmd'). cmd_ok dev_inv cmd') (on_device osd_set_key cmd)"
    "post (\<lambda>(ret, cmd'). cmd_ok dev_inv cmd') (on_device osd_set_master_key cmd)"
    "post (\<lambda>(ret, cmd'). cmd_ok dev_inv cmd') (on_device osd_remove_member_objects cmd)"
  by (rule keeps_dev_inv [OF assms], rule on_device_keeps, rule steady.flushes_keep; simp add: cmd_ok_def)+

lemma and_then_inv:
  assumes "post (\<lambda>(ret, cmd'). cmd_ok dev_inv cmd') m" and "\<And>cmd'. cmd_ok dev_inv cmd' \<Longrightarrow> post (\<lambda>(ret, cmd'). cmd_ok dev_inv cmd') (k cmd')"
  shows "post (\<lambda>(ret, cmd'). cmd_ok dev_inv cmd') (and_then m k)"
  by (rule and_then_keeps [OF assms]) simp_all

lemma exec_action_inv:
  assumes ok: "cmd_ok dev_inv cmd" and rm: "room (c_osd cmd)" and id: "\<And>oid. oid_of cmd = Some oid \<Longrightarrow> id_ok oid"
    and fmt: "c_action cmd \<noteq> OSD_FORMAT_OSD"
  shows "post (\<lambda>(ret, cmd'). cmd_ok dev_inv cmd') (exec_action st cmd n)"
proof -
  have inv: "dev_inv (c_osd cmd)" "252 \<le> length (c_sense cmd)" using ok by (simp_all add: cmd_ok_def)
  have track: "post (\<lambda>(ret, cmd'). cmd_ok dev_inv cmd')
      (on_device (\<lambda>osd. osd_create_user_tracking_collection osd pid cid src n) cmd)" if "oid_of cmd = Some cid" for pid cid src
    by (intro on_device_keeps object_answers inv rm id that)
  have rmcoll: "post (\<lambda>(ret, cmd'). cmd_ok dev_inv cmd') (on_device (\<lambda>osd. osd_remove_collection osd pid cid b) cmd)" for pid cid b
    by (intro on_device_keeps object_answers inv rm)
  show ?thesis
    unfolding exec_actions Let_def
    by (intro post_if no_continuation_inv check_then_inv and_then_inv quiet_actions_inv quiet_devices_inv attributes_dev_inv
        std_dev_inv cdb_create_inv creates_inv removes_inv exec_create_and_write_inv guards_keep(3) track rmcoll ok rm id
        post_call; (assumption | use fmt in \<open>simp add: ok\<close>)?)
qed

section \<open>The entry point keeps the invariant\<close>

text \<open>What the parser of the continuation does not change.\<close>

definition same_request :: "command \<Rightarrow> command \<Rightarrow> bool" where
  "same_request cmd cmd' \<longleftrightarrow> 252 \<le> length (c_sense cmd') \<and> c_osd cmd' = c_osd cmd \<and> c_cdb cmd' = c_cdb cmd \<and>
     c_action cmd' = c_action cmd"

lemma bad_cdb_same:
  assumes "252 \<le> length (c_sense cmd)"
  shows "post (\<lambda>(ret, cmd'). same_request cmd cmd') (bad_cdb pid oid cmd)"
    and "post (\<lambda>(ret, cmd'). same_request cmd cmd') (bad_cdb pid oid (cmd\<lparr>c_cont := ds\<rparr>))"
proof -
  obtain s where "sense_basic_build (c_sense cmd) OSD_SSK_ILLEGAL_REQUEST OSD_ASC_INVALID_FIELD_IN_CDB pid oid = Some (40, s)"
    "length s = length (c_sense cmd)"
    by (rule sense_build_sdd_ok [OF assms])
  then show "post (\<lambda>(ret, cmd'). same_request cmd cmd') (bad_cdb pid oid cmd)"
    "post (\<lambda>(ret, cmd'). same_request cmd cmd') (bad_cdb pid oid (cmd\<lparr>c_cont := ds\<rparr>))"
    using assms by (simp_all add: bad_cdb_def basic_error_def same_request_def)
qed

lemma parse_segment_same:
  assumes "252 \<le> length (c_sense cmd)"
  shows "post (\<lambda>(ret, cmd'). same_request cmd cmd') (parse_cdb_continuation_segment cmd n pid oid)"
  unfolding parse_cdb_continuation_segment_def Let_def
  by (intro post_if bad_cdb_same post_call post_pair) (use assms in \<open>simp_all add: same_request_def\<close>)

lemma exec_service_action_inv:
  assumes ok: "cmd_ok dev_inv cmd" and rm: "room (c_osd cmd)" and id: "\<And>oid. oid_of cmd = Some oid \<Longrightarrow> id_ok oid"
    and fmt: "c_action cmd \<noteq> OSD_FORMAT_OSD"
  shows "post (cmd_ok dev_inv) (exec_service_action st cmd)"
proof -
  have len: "252 \<le> length (c_sense cmd)" using ok by (simp add: cmd_ok_def)
  have seg: "post (\<lambda>(ret, cmd'). same_request cmd cmd')
      (if n \<noteq> 0 then parse_cdb_continuation_segment cmd n pid oid else Some (0, cmd))" for n pid oid
    using parse_segment_same [OF len] len by (simp add: same_request_def)
  have act: "post (\<lambda>(ret, cmd'). cmd_ok dev_inv cmd') (exec_action st cmd' n)" if "same_request cmd cmd'" for cmd' n
    using that ok rm id fmt by (intro exec_action_inv) (simp_all add: same_request_def cmd_ok_def oid_of_def)
  have fin: "cmd_ok dev_inv cmd'" if "same_request cmd cmd'" for cmd'
    using that ok by (simp add: same_request_def cmd_ok_def)
  show ?thesis
    unfolding exec_service_action_def
    by (intro post_call [where m = "get_ntohl _ _"] post_call [where m = "pid_of _"] post_call [where m = "oid_of _"]
        and_then_keeps [where P = "same_request cmd" and Q = "cmd_ok dev_inv", THEN post_bind2] seg act fin) simp_all
qed

lemma reply_device: "reply_with cmd data len = Some r \<Longrightarrow> r_osd r = c_osd cmd"
  by (auto simp: reply_with_def split: if_splits Option.bind_splits)

lemma header_error_device: "header_error cmd key code data = Some r \<Longrightarrow> r_osd r = c_osd cmd"
  by (auto simp: header_error_def dest!: reply_device split: Option.bind_splits)

lemma finish_device: "finish_output cmd = Some cmd' \<Longrightarrow> c_osd cmd' = c_osd cmd"
  by (auto simp: finish_output_def put_outdata_def split: if_splits Option.bind_splits)

lemma max_out_same: "post (\<lambda>(ok, cmd'). c_osd cmd' = c_osd cmd \<and> c_cdb cmd' = c_cdb cmd \<and> c_action cmd' = c_action cmd \<and>
    c_sense cmd' = c_sense cmd) (calc_max_out_len cmd)"
  unfolding calc_max_out_len_def Let_def
  by (intro post_call post_if post_map_option) (auto simp: post_def)

lemma replies_keep:
  assumes "dev_inv (c_osd cmd)"
  shows "post (\<lambda>r. dev_inv (r_osd r)) (reply_with cmd data len)" "post (\<lambda>r. dev_inv (r_osd r)) (header_error cmd key code data)"
  using assms by (auto intro!: postI simp: reply_device header_error_device)

lemma submit_inv:
  assumes inv: "dev_inv osd" and rm: "room osd" and id: "\<And>oid. get_ntohll cdb 24 = Some oid \<Longrightarrow> id_ok oid"
    and fmt: "get_ntohs cdb 8 \<noteq> Some OSD_FORMAT_OSD"
  shows "post (\<lambda>r. dev_inv (r_osd r)) (osdemu_cmd_submit st osd cdb data_in data_in_len data_out out_len)"
proof -
  have run: "post (cmd_ok dev_inv) (exec_service_action st (cmd\<lparr>c_outdata := b\<rparr>))"
    if "get_ntohs cdb 8 = Some action" "c_osd cmd = osd \<and> c_cdb cmd = cdb \<and> c_action cmd = action \<and> c_sense cmd = replicate OSD_MAX_SENSE 0"
    for cmd action b
    using that inv rm id fmt
    by (intro exec_service_action_inv) (auto simp: cmd_ok_def OSD_MAX_SENSE_def oid_of_def)
  show ?thesis
    unfolding osdemu_cmd_submit_def Let_def
  proof (intro post_call post_if, goal_cases)
    case (1 opcode cdb_len action fmt)
    then show ?case using inv by (intro replies_keep) (simp add: new_command_def)
  next
    case (2 opcode cdb_len action fmt r)
    obtain ok cmd where r: "r = (ok, cmd)" by (cases r)
    have same: "c_osd cmd = osd \<and> c_cdb cmd = cdb \<and> c_action cmd = action \<and> c_sense cmd = replicate OSD_MAX_SENSE 0"
      using postD [OF max_out_same 2(6)] r by (simp add: new_command_def)
    have fin: "post (\<lambda>r. dev_inv (r_osd r)) (exec_service_action st (cmd\<lparr>c_outdata := b\<rparr>) \<bind> (\<lambda>cmd. finish_output cmd \<bind> (\<lambda>cmd.
        if c_outlen cmd = 0 then reply_with cmd data_out out_len
        else if c_used cmd > 0 then reply_with cmd (c_outdata cmd) (c_used cmd)
        else reply_with cmd (map_option (\<lambda>_. outdata cmd) data_out) 0)))" for b
      by (rule post_bind [OF run [OF 2(3) same]], rule post_call)
        (auto simp: cmd_ok_def dest!: finish_device intro!: replies_keep)
    show ?case unfolding r prod.case using same inv by (intro post_if replies_keep fin) simp_all
  qed
qed

end
