(* ===== verification/Osd_Target.thy ===== *)
theory Osd_Target
  imports Cdb_Inv
begin

text \<open>
  The target as the initiator sees it, through \<open>osdemu_cmd_submit\<close> only: the states a target that
  serves descriptor blocks comes to, and what a READ answers after a WRITE.
\<close>

section \<open>Serving descriptor blocks\<close>

text \<open>
  The blocks for which the invariant is claimed: FORMAT OSD is left out, since it frees the path of the
  root and the target goes on using it. The identifier a command asks for is one an object can have.
\<close>

definition request_ok :: "bytes \<Rightarrow> bool" where
  "request_ok cdb \<longleftrightarrow> get_ntohs cdb 8 \<noteq> Some OSD_FORMAT_OSD \<and>
     (case get_ntohll cdb 24 of None \<Rightarrow> True | Some oid \<Rightarrow> id_ok oid)"

inductive served :: "osd_device \<Rightarrow> bool" where
  served_fresh: "fresh_device osd \<Longrightarrow> served osd"
| served_command: "served osd \<Longrightarrow> room osd \<Longrightarrow> request_ok cdb \<Longrightarrow>
    osdemu_cmd_submit st osd cdb data_in data_in_len data_out out_len = Some r \<Longrightarrow> served (r_osd r)"
| served_environment: "served osd \<Longrightarrow> served (osd\<lparr>files := f, dbc := (dbc osd)\<lparr>step_evs := es, bind_evs := bs\<rparr>\<rparr>)"

lemma served_inv: "served osd \<Longrightarrow> dev_inv osd"
proof (induction rule: served.induct)
  case (served_command osd cdb st data_in data_in_len data_out out_len r)
  from served_command.hyps(3) have "post (\<lambda>r. dev_inv (r_osd r)) (osdemu_cmd_submit st osd cdb data_in data_in_len data_out out_len)"
    by (intro submit_inv served_command.IH served_command.hyps(2)) (auto simp: request_ok_def)
  from postD [OF this served_command.hyps(4)] show ?case .
next
  case (served_environment osd bs es f)
  have "db_good ((dbc osd)\<lparr>step_evs := es, bind_evs := bs\<rparr>) = db_good (dbc osd)" by (simp add: db_good_def)
  with served_environment show ?case by (simp add: dev_inv_def sound_def root_fits_def)
qed (rule fresh_inv)

section \<open>A request without attributes and continuation\<close>

definition request :: "bytes \<Rightarrow> u16 \<Rightarrow> u64 \<Rightarrow> u64 \<Rightarrow> u64 \<Rightarrow> u64 \<Rightarrow> bool" where
  "request cdb action pid oid len off \<longleftrightarrow> length cdb = OSD_CDB_SIZE \<and> buf_get cdb 0 1 = Some [VARLEN_CDB] \<and>
     buf_get cdb 7 1 = Some [of_nat (OSD_CDB_SIZE - 8)] \<and> get_ntohs cdb 8 = Some action \<and>
     buf_get cdb 11 1 = Some [0x10] \<and> get_ntohll cdb 16 = Some pid \<and> get_ntohll cdb 24 = Some oid \<and>
     get_ntohll cdb 32 = Some len \<and> get_ntohll cdb 40 = Some off \<and> get_ntohl cdb 48 = Some 0 \<and>
     get_ntohl cdb 52 = Some 0"

lemma requestD:
  assumes "request cdb action pid oid len off"
  shows "buf_get cdb 0 1 = Some [VARLEN_CDB]" "buf_get cdb 7 1 = Some [of_nat (OSD_CDB_SIZE - 8)]"
    "get_ntohs cdb 8 = Some action" "buf_get cdb 11 1 = Some [0x10]" "get_ntohll cdb 16 = Some pid"
    "get_ntohll cdb 24 = Some oid" "get_ntohll cdb 32 = Some len" "get_ntohll cdb 40 = Some off"
    "get_ntohl cdb 48 = Some 0" "get_ntohl cdb 52 = Some 0" "length cdb = 236"
  using assms by (simp_all add: request_def OSD_CDB_SIZE_def del: One_nat_def)

lemma request_no_attributes:
  assumes "request (c_cdb cmd) action pid oid len off" and "getset_cdbfmt cmd = GETFIELD_SETVALUE"
  shows "std_get_set_attr st cmd p q = Some (0, cmd)"
proof -
  note r = requestD [OF assms(1)]
  have "56 + 4 \<le> length (c_cdb cmd)" "60 + 2 \<le> length (c_cdb cmd)" using r(11) by simp_all
  then obtain n l where "get_ntohl (c_cdb cmd) 56 = Some n" "get_ntohs (c_cdb cmd) 60 = Some l"
    using ntohl.get_defined [of "c_cdb cmd" 56] ntohs.get_defined [of "c_cdb cmd" 60] by auto
  then show ?thesis
    using assms(2) r(10)
    by (simp add: std_get_set_attr_def set_attributes_def get_attributes_def set_one_attr_value_def osd_consts)
qed

text \<open>What the entry point makes of such a request: the service action, without a continuation.\<close>

definition request_command :: "osd_device \<Rightarrow> bytes \<Rightarrow> u16 \<Rightarrow> bytes option \<Rightarrow> u64 \<Rightarrow> u64 \<Rightarrow> bytes option \<Rightarrow> command" where
  "request_command osd cdb action data_in n outlen buffer =
     (new_command osd cdb action GETFIELD_SETVALUE data_in n)\<lparr>c_outlen := outlen, c_outdata := buffer\<rparr>"

lemma request_action:
  assumes "request cdb action pid oid len off"
  shows "exec_service_action st (request_command osd cdb action data_in n outlen b)
    = exec_action st (request_command osd cdb action data_in n outlen b) 0 \<bind> (\<lambda>(ret, cmd). Some (cmd\<lparr>c_senselen := ret\<rparr>))"
  using requestD [OF assms]
  by (cases "exec_action st (request_command osd cdb action data_in n outlen b) 0")
    (auto simp: exec_service_action_def request_command_def new_command_def pid_of_def oid_of_def and_then_def)

text \<open>
  The reply to a request: the output buffer, which the target has allocated, if the action has output
  and used it.
\<close>

lemma request_reply:
  assumes r: "request cdb action pid oid len off" and act: "action \<noteq> OSD_SET_MASTER_KEY"
    and n: "outlen = (if action \<in> {OSD_LIST, OSD_LIST_COLLECTION, OSD_READ, OSD_QUERY, OSD_CAS, OSD_FA, OSD_GEN_CAS} then len else 0)"
    and b: "b = (if outlen \<noteq> 0 then s_malloc st outlen else None)" "outlen \<noteq> 0 \<Longrightarrow> b \<noteq> None"
    and ex: "exec_action st (request_command osd cdb action data_in m outlen b) 0 = Some (ret, cmd)"
    and cmd: "get_used cmd = 0" "c_outlen cmd = outlen"
  shows "osdemu_cmd_submit st osd cdb data_in m None 0 = reply_with (cmd\<lparr>c_senselen := ret\<rparr>)
    (if outlen = 0 \<or> c_used cmd = 0 then None else c_outdata cmd) (if outlen = 0 then 0 else c_used cmd)"
proof -
  note q = requestD [OF r]
  have fmt: "drop_bit 4 (hd [0x10 :: u8] AND 0x30) = GETFIELD_SETVALUE" by (simp add: GETFIELD_SETVALUE_def)
  have hd: "hd [VARLEN_CDB] = VARLEN_CDB" "unat (hd [of_nat (OSD_CDB_SIZE - 8) :: u8]) = OSD_CDB_SIZE - 8"
    by (simp_all add: OSD_CDB_SIZE_def)
  have mx: "calc_max_out_len (new_command osd cdb action GETFIELD_SETVALUE data_in m)
      = Some (True, request_command osd cdb action data_in m outlen None)"
    using q(7) act n by (simp add: calc_max_out_len_def data_out_len_def request_command_def new_command_def
        GETFIELD_SETVALUE_def GETPAGE_SETVALUE_def GETLIST_SETLIST_def Let_def)
  have out: "c_outlen (request_command osd cdb action data_in m k None) = k"
    "(request_command osd cdb action data_in m k None)\<lparr>c_outdata := d\<rparr> = request_command osd cdb action data_in m k d" for k d
    by (simp_all add: request_command_def)
  have run: "exec_service_action st (request_command osd cdb action data_in m outlen b) = Some (cmd\<lparr>c_senselen := ret\<rparr>)"
    using request_action [OF r] ex by simp
  have fin: "finish_output (cmd\<lparr>c_senselen := ret\<rparr>) = Some (cmd\<lparr>c_senselen := ret\<rparr>)" using cmd(1) by (simp add: finish_output_def)
  have cond: "\<not> (outlen \<noteq> 0 \<and> b = None)" using b(2) by auto
  show ?thesis
    unfolding osdemu_cmd_submit_def q(1-4) bind.bind_lunit fmt hd Let_def mx prod.case
    using cond cmd b(1) run by (cases "outlen = 0"; cases "c_used cmd = 0")
      (auto simp: out fin word_neq_0_conv [symmetric])
qed

lemma request_submit:
  assumes r: "request cdb action pid oid len off" and act: "action \<noteq> OSD_SET_MASTER_KEY"
    and n: "outlen = (if action \<in> {OSD_LIST, OSD_LIST_COLLECTION, OSD_READ, OSD_QUERY, OSD_CAS, OSD_FA, OSD_GEN_CAS} then len else 0)"
    and b: "b = (if outlen \<noteq> 0 then s_malloc st outlen else None)" "outlen \<noteq> 0 \<Longrightarrow> b \<noteq> None"
    and ex: "exec_action st (request_command osd cdb action data_in m outlen b) 0 = Some (0, cmd)"
    and cmd: "get_used cmd = 0" "c_outlen cmd = outlen"
  shows "osdemu_cmd_submit st osd cdb data_in m None 0 = Some \<lparr>r_status = SAM_STAT_GOOD,
    r_data = (if outlen = 0 \<or> c_used cmd = 0 then None else c_outdata cmd), r_len = (if outlen = 0 then 0 else c_used cmd),
    r_sense = [], r_osd = c_osd cmd\<rparr>"
proof -
  note request_reply [OF assms]
  also have "reply_with (cmd\<lparr>c_senselen := 0\<rparr>) d k = Some \<lparr>r_status = SAM_STAT_GOOD, r_data = d, r_len = k,
      r_sense = [], r_osd = c_osd cmd\<rparr>" for d k
    by (simp add: reply_with_def)
  finally show ?thesis .
qed

lemma request_write:
  assumes r: "request cdb OSD_WRITE pid oid len off" and o: "object_file osd pid oid path c" and len: "unat len \<le> rw_max"
    and off: "unat off < 2 ^ 63" and room: "unat len \<le> length data" "length data < 2 ^ 64"
  shows "osdemu_cmd_submit st osd cdb (Some data) (of_nat (length data)) None 0 = Some \<lparr>r_status = SAM_STAT_GOOD,
    r_data = None, r_len = 0, r_sense = [], r_osd = file_replaced osd path (write_at c (unat off) (take (unat len) data))
      (fill_ccap None USEROBJECT pid oid 0)\<rparr>"
proof -
  let ?cmd = "request_command osd cdb OSD_WRITE (Some data) (of_nat (length data)) 0 None"
  let ?osd = "file_replaced osd path (write_at c (unat off) (take (unat len) data)) (fill_ccap None USEROBJECT pid oid 0)"
  note q = requestD [OF r]
  have n: "unat (of_nat (length data) :: u64) = length data" using room(2) by (simp add: unsigned_of_nat take_bit_nat_eq_self)
  have dev: "contig_write osd pid oid len off data 0 sense = Some (OSD_OK, sense, ?osd)" for sense
    using contig_write_ok [OF o len off, of data 0 "take (unat len) data" sense] room(1) by (simp add: buf_get_def)
  have "exec_write st ?cmd 0 = Some (0, ?cmd\<lparr>c_osd := ?osd\<rparr>)"
    using q n room(1) request_no_attributes [of "?cmd\<lparr>c_osd := ?osd\<rparr>" OSD_WRITE pid oid len off st pid oid] r
    by (simp add: exec_write_def request_command_def new_command_def pid_of_def oid_of_def len_of_def offset_of_def
        verify_enough_input_data_def and_then_def word_less_nat_alt warn_descriptors_def bad_descriptors_def
        transfer_kind_def on_device_def indata_def osd_write_def dev OSD_OK_def)
  then have "exec_action st ?cmd 0 = Some (0, ?cmd\<lparr>c_osd := ?osd\<rparr>)"
    by (simp add: exec_actions osd_consts request_command_def new_command_def)
  from request_submit [OF r _ _ _ _ this] show ?thesis
    by (simp add: request_command_def new_command_def osd_consts)
qed

lemma request_read:
  assumes r: "request cdb OSD_READ pid oid len off" and o: "object_file osd pid oid path c" and len: "unat len \<le> rw_max"
    and off: "unat off < 2 ^ 63" "unat off + unat len \<le> length c" and n: "len \<noteq> 0"
    and m: "s_malloc st len = Some m" "length m = unat len"
  shows "osdemu_cmd_submit st osd cdb None 0 None 0 = Some \<lparr>r_status = SAM_STAT_GOOD,
    r_data = Some (take (unat len) (drop (unat off) c)), r_len = len, r_sense = [],
    r_osd = osd\<lparr>ccap := fill_ccap None USEROBJECT pid oid 0\<rparr>\<rparr>"
proof -
  let ?cmd = "request_command osd cdb OSD_READ None 0 len (Some m)"
  let ?bs = "take (unat len) (drop (unat off) c)"
  let ?osd = "osd\<lparr>ccap := fill_ccap None USEROBJECT pid oid 0\<rparr>"
  let ?cmd' = "?cmd\<lparr>c_outdata := Some ?bs, c_used := len, c_osd := ?osd\<rparr>"
  note q = requestD [OF r]
  have lb: "length ?bs = unat len" using off(2) by simp
  obtain m' where p: "buf_put m 0 ?bs = Some m'"
    "contig_read osd pid oid len off m 0 0 (replicate OSD_MAX_SENSE 0) = Some (OSD_OK, (m', len), replicate OSD_MAX_SENSE 0, ?osd)"
    using contig_read_ok [OF o len off, of 0 m 0] m(2) by auto
  have "m' = ?bs" using p(1) lb m(2) by (auto simp: buf_put_def split: if_splits)
  then have "cdb_read st ?cmd 0 = Some (0, ?cmd')"
    using q p(2) request_no_attributes [of ?cmd' OSD_READ pid oid len off st pid oid] r
    by (simp add: cdb_read_def request_command_def new_command_def pid_of_def oid_of_def len_of_def offset_of_def
        bad_descriptors_def transfer_kind_def with_output_def outdata_def put_outdata_def osd_read_device_def OSD_OK_def)
  then have "exec_action st ?cmd 0 = Some (0, ?cmd')"
    by (simp add: exec_actions osd_consts request_command_def new_command_def)
  from request_submit [OF r _ _ _ _ this] n m(1) show ?thesis
    by (simp add: request_command_def new_command_def osd_consts)
qed

section \<open>Properties\<close>

text \<open>
  C1. A target that serves descriptor blocks keeps its invariant, whatever the blocks ask for, whatever
  data come with them and whatever the engine and the file system answer: the constraints of the
  schema hold, every object lies in a partition that exists, no object has a reserved identifier, and
  the cached next identifier names no object. Formatting is excluded, and an identifier that is asked
  for is one an object can have.
\<close>

theorem served_invariant:
  assumes "served osd"
  defines "t \<equiv> tabs (dbc osd)"
  shows "tables_ok t \<and>
    (\<forall>r \<in> set (t_obj t). o_oid r \<noteq> 0 \<longrightarrow> 0x10000 \<le> o_oid r \<and> (\<exists>q \<in> set (t_obj t). o_pid q = o_pid r \<and> o_oid q = 0)) \<and>
    (cur_pid (ic osd) \<noteq> 0 \<longrightarrow> obj_map t (okey (cur_pid (ic osd)) (next_id (ic osd))) = None)"
proof -
  have i: "dev_inv osd" by (rule served_inv [OF assms(1)])
  then have "tables_inv t" using soundD(2) by (simp add: dev_inv_def t_def)
  moreover have "obj_map t (okey (cur_pid (ic osd)) (next_id (ic osd))) = None" if "cur_pid (ic osd) \<noteq> 0"
    using i that obj_map_some [of t "sint (cur_pid (ic osd))" "sint (next_id (ic osd))"] by (auto simp: dev_inv_def t_def)
  ultimately show ?thesis using i unfolding tables_inv_def dev_inv_def t_def by blast
qed

text \<open>A block for the object of the sample device: two bytes at the offset 5.\<close>

definition sample_cdb :: "u8 \<Rightarrow> u8 \<Rightarrow> bytes" where
  "sample_cdb hi lo = [0x7f, 0, 0, 0, 0, 0, 0, 228, hi, lo, 0, 0x10, 0, 0, 0, 0] @ [0, 0, 0, 0, 0, 1, 0, 0] @
     [0, 0, 0, 0, 0, 1, 0, 1] @ [0, 0, 0, 0, 0, 0, 0, 2] @ [0, 0, 0, 0, 0, 0, 0, 5] @ replicate 188 0"

lemma sample_request:
  "request (sample_cdb 0x88 0x86) OSD_WRITE 0x10000 0x10001 2 5"
  "request (sample_cdb 0x88 0x85) OSD_READ 0x10000 0x10001 2 5"
  by code_simp+

theorem served_invariant_witness:
  "\<exists>r. osdemu_cmd_submit blank (new_device [] []) (sample_cdb 0x88 0x86) (Some [7, 8]) 2 None 0 = Some r \<and>
     tables_ok (tabs (dbc (r_osd r)))"
proof -
  let ?d = "new_device [] []"
  have "object_file ?d 0x10000 0x10001 sample_path []"
    using sample_object [of "[]"] by (simp add: object_file_def new_device_def sample_device_def)
  from request_write [OF sample_request(1) this, of "[7, 8]" blank]
  obtain r where r: "osdemu_cmd_submit blank ?d (sample_cdb 0x88 0x86) (Some [7, 8]) 2 None 0 = Some r"
    by (simp add: rw_max_def)
  have "request_ok (sample_cdb 0x88 0x86)"
    using requestD(3,6) [OF sample_request(1)] by (simp add: request_ok_def id_ok_def osd_consts)
  from served_invariant [OF served_command [OF served_fresh [OF new_device_fresh(1)] new_device_fresh(2) this r]] r
  show ?thesis by blast
qed

text \<open>
  C3. What the initiator has written it reads back: after a WRITE block with its data, a READ block for
  the same range is answered with the status GOOD, the length and exactly those bytes. The WRITE leaves every
  other file and the database as they were.
\<close>

theorem target_read_after_write:
  assumes "request wcdb OSD_WRITE pid oid len off" and "request rcdb OSD_READ pid oid len off"
    and "object_file osd pid oid path c" and "unat len \<le> rw_max" and "len \<noteq> 0" and "unat off < 2 ^ 63"
    and "unat len \<le> length data" and "length data < 2 ^ 64"
    and "s_malloc st len = Some m" and "length m = unat len"
  shows "\<exists>r1 r2. osdemu_cmd_submit st osd wcdb (Some data) (of_nat (length data)) None 0 = Some r1 \<and>
    r_status r1 = SAM_STAT_GOOD \<and>
    osdemu_cmd_submit st (r_osd r1) rcdb None 0 None 0 = Some r2 \<and>
    r_status r2 = SAM_STAT_GOOD \<and> r_data r2 = Some (take (unat len) data) \<and> r_len r2 = len \<and>
    dbc (r_osd r2) = dbc osd \<and> (\<forall>p. p \<noteq> path \<longrightarrow> nodes (files (r_osd r2)) p = nodes (files osd) p)"
proof -
  let ?bs = "take (unat len) data"
  let ?c = "write_at c (unat off) ?bs"
  let ?osd = "file_replaced osd path ?c (fill_ccap None USEROBJECT pid oid 0)"
  have lb: "length ?bs = unat len" using assms(7) by simp
  then have "?bs \<noteq> []" using assms(5) by (metis list.size(3) unat_eq_0)
  then have long: "unat off + unat len \<le> length ?c" using lb by (simp add: write_at_length)
  have same: "take (unat len) (drop (unat off) ?c) = ?bs" using write_at_same [of ?bs "unat off" c] lb by simp
  show ?thesis
    using request_write [OF assms(1,3,4,6,7,8), of st]
      request_read [OF assms(2) object_file_replaced [OF assms(3)] assms(4,6) long assms(5,9,10)]
    unfolding same by (simp add: file_replaced_def)
qed

theorem target_read_after_write_witness:
  "\<exists>r1 r2. osdemu_cmd_submit blank (sample_device [] [1, 2, 3]) (sample_cdb 0x88 0x86) (Some [7, 8]) 2 None 0 = Some r1 \<and>
     osdemu_cmd_submit blank (r_osd r1) (sample_cdb 0x88 0x85) None 0 None 0 = Some r2 \<and> r_data r2 = Some [7, 8]"
proof -
  have m: "s_malloc blank 2 = Some [0, 0]" by code_simp
  have "unat (2 :: u64) \<le> rw_max" by (simp add: rw_max_def)
  from target_read_after_write [OF sample_request sample_object this, where data = "[7, 8]", OF _ _ _ _ m, where c = "[1, 2, 3]"]
  show ?thesis by auto
qed


section \<open>Types\<close>




end
