(* ===== verification/Osd_Effects.thy ===== *)
theory Osd_Effects
  imports Osd_Lifecycle
begin

text \<open>
  What the commands of the life cycle do when neither the database engine nor the file system fails:
  the objects a creation adds, the rollback of a creation that meets a file in its way, the effect of
  a removal. The commands read and write the object table as a finite map, and the data files as a
  map from paths.
\<close>

section \<open>Calm devices\<close>

definition calm :: "osd_device \<Rightarrow> bool" where
  "calm osd \<longleftrightarrow> db_clean (dbc osd) \<and> fs_clean (files osd)"

definition object_path :: "osd_device \<Rightarrow> u64 \<Rightarrow> u64 \<Rightarrow> string" where
  "object_path osd pid oid = the (get_dfile_name (root osd) pid oid)"

lemma object_path: "root_fits osd \<Longrightarrow> oid \<noteq> 0 \<Longrightarrow> get_dfile_name (root osd) pid oid = Some (object_path osd pid oid)"
  using root_fits_path [of osd oid pid] by (auto simp: object_path_def)

lemma object_path_eq [simp]:
  "root_fits osd \<Longrightarrow> oid \<noteq> 0 \<Longrightarrow> oid' \<noteq> 0 \<Longrightarrow>
    object_path osd pid oid = object_path osd pid' oid' \<longleftrightarrow> pid = pid' \<and> oid = oid'"
  using dfile_names [of "root osd" oid oid' pid pid'] by (auto simp: root_fits_def object_path_def)

lemma object_path_updates [simp]:
  "object_path (osd\<lparr>dbc := d\<rparr>) = object_path osd" "object_path (osd\<lparr>files := f\<rparr>) = object_path osd"
  "object_path (osd\<lparr>ic := i\<rparr>) = object_path osd" "object_path (osd\<lparr>ccap := c\<rparr>) = object_path osd"
  by (simp_all add: object_path_def fun_eq_iff)

text \<open>No data file without an object in the partition.\<close>

definition no_strays :: "osd_device \<Rightarrow> u64 \<Rightarrow> bool" where
  "no_strays osd pid \<longleftrightarrow> (\<forall>oid. user_object pid oid \<longrightarrow> obj_map (tabs (dbc osd)) (okey pid oid) = None \<longrightarrow>
     nodes (files osd) (object_path osd pid oid) = None)"

section \<open>The loop of osd_create\<close>

lemma create_datafile_new:
  assumes "root_fits osd" and "oid \<noteq> 0" and "fs_clean (files osd)" and "nodes (files osd) (object_path osd pid oid) = None"
  shows "osd_create_datafile osd pid oid = Some (0, osd\<lparr>files := (files osd)\<lparr>nodes :=
    (nodes (files osd))(object_path osd pid oid \<mapsto> RegFile [])\<rparr>\<rparr>)"
  using assms object_path [OF assms(1,2), of pid]
  by (simp add: osd_create_datafile_def fs_stat_def fs_creat_def fs_close_def is_dir_def)

lemma create_datafile_exists:
  assumes "root_fits osd" and "oid \<noteq> 0" and "fs_clean (files osd)" and "nodes (files osd) (object_path osd pid oid) = Some (RegFile c)"
  shows "osd_create_datafile osd pid oid = Some (- EEXIST, osd)"
  using assms object_path [OF assms(1,2), of pid]
  by (simp add: osd_create_datafile_def fs_stat_def)

text \<open>The data files of new objects.\<close>

definition new_files :: "osd_device \<Rightarrow> u64 \<Rightarrow> u64 list \<Rightarrow> (string \<rightharpoonup> node) \<Rightarrow> (string \<rightharpoonup> node)" where
  "new_files osd pid ids m = (\<lambda>p. if p \<in> object_path osd pid ` set ids then Some (RegFile []) else m p)"

lemma new_files_Nil [simp]: "new_files osd pid [] m = m"
  by (simp add: new_files_def)

lemma new_files_Cons: "new_files osd pid ids (m(object_path osd pid i \<mapsto> RegFile [])) = new_files osd pid (i # ids) m"
  by (auto simp: new_files_def fun_eq_iff)

lemma new_files_frame [simp]: "new_files (osd\<lparr>dbc := d\<rparr>) = new_files osd" "new_files (osd\<lparr>files := f\<rparr>) = new_files osd"
  by (simp_all add: new_files_def fun_eq_iff)

lemma inserted:
  assumes "sound osd" and "db_clean (dbc osd)" and "obj_map (tabs (dbc osd)) (okey pid i) = None"
    and "obj_map (tabs (dbc osd)) (okey pid 0) \<noteq> None" and "typed_row (obj_row_of pid i ty)"
  shows "\<exists>d. obj_insert (dbc osd) pid i ty = Some (0, d) \<and> sound (osd\<lparr>dbc := d\<rparr>) \<and> db_frame (dbc osd) d \<and>
    tabs d = (tabs (dbc osd))\<lparr>t_obj := t_obj (tabs (dbc osd)) @ [obj_row_of pid i ty]\<rparr>"
proof -
  obtain ret d where r: "obj_insert (dbc osd) pid i ty = Some (ret, d)" "stored (dbc osd) (add_obj pid i ty) (ret, d)"
    using obj_insert_stored [OF soundD(1) [OF assms(1)], of pid i ty] by (auto simp: total_def)
  have a: "add_obj pid i ty (tabs (dbc osd)) = Some ((tabs (dbc osd))\<lparr>t_obj := t_obj (tabs (dbc osd)) @ [obj_row_of pid i ty]\<rparr>)"
    using assms(3) by (simp add: add_obj_def)
  then have s: "ret = 0" "db_good d" "db_frame (dbc osd) d" "add_obj pid i ty (tabs (dbc osd)) = Some (tabs d)"
    using r(2) assms(2) by (auto simp: stored_def)
  have "sound (osd\<lparr>dbc := d\<rparr>)"
    using sound_dbc [OF assms(1) s(2)] tables_inv_add [OF soundD(2) [OF assms(1)] s(4)] assms(4,5) by simp
  then show ?thesis using r(1) s a by auto
qed

lemma obj_map_append_row:
  "obj_map (t\<lparr>t_obj := t_obj t @ [obj_row_of pid i ty]\<rparr>) (p, q) \<noteq> None \<longleftrightarrow>
    obj_map t (p, q) \<noteq> None \<or> p = sint pid \<and> q = sint i"
  unfolding obj_map_some by (auto simp: obj_row_of_def)

lemma user_object_next: "user_object pid oid \<Longrightarrow> oid \<le> i \<Longrightarrow> user_object pid i"
  by (auto simp: user_object_def intro: order_trans)

lemma create_loop_success:
  assumes "sound osd" and "user_object pid oid" and "oid \<le> i" and "calm osd"
    and "obj_map (tabs (dbc osd)) (okey pid 0) \<noteq> None"
    and "\<forall>k. i \<le> k \<and> k < e \<longrightarrow> obj_map (tabs (dbc osd)) (okey pid k) = None \<and>
      nodes (files osd) (object_path osd pid k) = None"
  shows "\<exists>d. create_loop osd pid oid i e sense = Some (True, sense, osd\<lparr>dbc := d, files := (files osd)\<lparr>nodes :=
      new_files osd pid (id_range i e) (nodes (files osd))\<rparr>\<rparr>) \<and> db_good d \<and> db_frame (dbc osd) d \<and>
    tabs d = (tabs (dbc osd))\<lparr>t_obj := t_obj (tabs (dbc osd)) @ map (user_row pid) (id_range i e)\<rparr>"
  using assms
proof (induction osd pid oid i e sense rule: create_loop.induct)
  case (1 osd pid oid i e sense)
  let ?t = "tabs (dbc osd)" and ?n = "nodes (files osd)"
  show ?case
  proof (cases "i < e")
    case True
    have i0: "i \<noteq> 0" using user_object_nonzero [OF 1(3)] 1(4) by auto
    have le: "i \<le> i + 1" using word_Suc [OF True] by (simp add: word_le_nat_alt)
    have cl: "db_clean (dbc osd)" "fs_clean (files osd)" using 1(5) by (simp_all add: calm_def)
    have fr: "obj_map ?t (okey pid i) = None" "?n (object_path osd pid i) = None" using 1(7) True by simp_all
    obtain d where d: "obj_insert (dbc osd) pid i (ucast USEROBJECT) = Some (0, d)" "sound (osd\<lparr>dbc := d\<rparr>)"
      "db_frame (dbc osd) d" "tabs d = ?t\<lparr>t_obj := t_obj ?t @ [user_row pid i]\<rparr>"
      using inserted [OF 1(2) cl(1) fr(1) 1(6) typed_new(3) [OF 1(3) i0]] by blast
    let ?o = "osd\<lparr>dbc := d, files := (files osd)\<lparr>nodes := ?n(object_path osd pid i \<mapsto> RegFile [])\<rparr>\<rparr>"
    have dat: "osd_create_datafile (osd\<lparr>dbc := d\<rparr>) pid i = Some (0, ?o)"
      using create_datafile_new [of "osd\<lparr>dbc := d\<rparr>" i pid] soundD(4) [OF d(2)] i0 cl(2) fr(2) by simp
    have so: "sound ?o" using d(2) by (simp add: sound_def root_fits_def)
    have fresh: "\<forall>k. i + 1 \<le> k \<and> k < e \<longrightarrow> obj_map (tabs (dbc ?o)) (okey pid k) = None \<and>
        nodes (files ?o) (object_path ?o pid k) = None"
    proof (intro allI impI)
      fix k assume k: "i + 1 \<le> k \<and> k < e"
      then have "i \<noteq> k" "k \<noteq> 0" "i \<le> k" using word_Suc [OF True] le i0 by (auto simp: word_le_nat_alt)
      then show "obj_map (tabs (dbc ?o)) (okey pid k) = None \<and> nodes (files ?o) (object_path ?o pid k) = None"
        using 1(7) k i0 obj_map_append_row [of ?t pid i "ucast USEROBJECT" "sint pid" "sint k"] soundD(4) [OF 1(2)] d(4)
        by (auto simp del: not_None_eq)
    qed
    have c: "calm ?o" using cl d(3) by (simp add: calm_def db_frame_clean)
    have z: "\<not> (0 :: int) \<noteq> 0" by simp
    have p: "obj_map (tabs (dbc ?o)) (okey pid 0) \<noteq> None"
      using 1(6) obj_map_append_row [of ?t pid i "ucast USEROBJECT" "sint pid" 0] d(4) by simp
    have "\<exists>d'. create_loop ?o pid oid (i + 1) e sense = Some (True, sense, ?o\<lparr>dbc := d', files := (files ?o)\<lparr>nodes :=
        new_files ?o pid (id_range (i + 1) e) (nodes (files ?o))\<rparr>\<rparr>) \<and> db_good d' \<and> db_frame (dbc ?o) d' \<and>
      tabs d' = (tabs (dbc ?o))\<lparr>t_obj := t_obj (tabs (dbc ?o)) @ map (user_row pid) (id_range (i + 1) e)\<rparr>"
      by (rule 1(1) [OF True d(1) refl refl z dat refl z so 1(3) order_trans [OF 1(4) le] c p fresh])
    then obtain d' where d': "create_loop ?o pid oid (i + 1) e sense = Some (True, sense, ?o\<lparr>dbc := d', files := (files ?o)\<lparr>nodes :=
        new_files ?o pid (id_range (i + 1) e) (nodes (files ?o))\<rparr>\<rparr>)" "db_good d'" "db_frame (dbc ?o) d'"
      "tabs d' = (tabs (dbc ?o))\<lparr>t_obj := t_obj (tabs (dbc ?o)) @ map (user_row pid) (id_range (i + 1) e)\<rparr>"
      by (elim exE conjE)
    have "new_files osd pid (i # id_range (i + 1) e) ?n = new_files ?o pid (id_range (i + 1) e) (nodes (files ?o))"
      unfolding new_files_Cons [symmetric] by simp
    then have "create_loop ?o pid oid (i + 1) e sense = Some (True, sense, osd\<lparr>dbc := d', files := (files osd)\<lparr>nodes :=
        new_files osd pid (id_range i e) ?n\<rparr>\<rparr>)"
      using d'(1) True by (simp add: id_range_Cons)
    moreover have "create_loop osd pid oid i e sense = create_loop ?o pid oid (i + 1) e sense"
      by (subst create_loop.simps) (simp add: True d(1) dat Let_def)
    ultimately show ?thesis
      using d'(2-4) d(3,4) True by (auto simp: id_range_Cons intro: db_frame_trans)
  next
    case False
    then show ?thesis using 1(2)
      by (subst create_loop.simps) (auto simp: id_range_Nil sound_def intro!: exI [of _ "dbc osd"])
  qed
qed

text \<open>A file in the way of the identifier \<open>k\<close>: what the loop created before is removed again.\<close>

definition object_rows :: "u64 \<Rightarrow> u64 list \<Rightarrow> obj_row \<Rightarrow> bool" where
  "object_rows pid ids r \<longleftrightarrow> o_pid r = sint pid \<and> o_oid r \<in> sint ` set ids"

text \<open>The attributes and the memberships that rows for these identifiers hold go with them.\<close>

definition forgotten :: "u64 \<Rightarrow> u64 list \<Rightarrow> tables \<Rightarrow> tables" where
  "forgotten pid ids t = t\<lparr>
     t_attr := filter (\<lambda>r. \<not> (a_pid r = sint pid \<and> a_oid r \<in> sint ` set ids)) (t_attr t),
     t_coll := filter (\<lambda>r. \<not> (c_pid r = sint pid \<and> c_oid r \<in> sint ` set ids)) (t_coll t)\<rparr>"

lemma removed_rows:
  "fold (removed pid) ids t = (forgotten pid ids t)\<lparr>t_obj := filter (\<lambda>r. \<not> object_rows pid ids r) (t_obj t)\<rparr>"
proof (induction ids arbitrary: t)
  case Nil
  then show ?case by (simp add: forgotten_def object_rows_def)
next
  case (Cons i ids)
  then show ?case
    by (auto simp: forgotten_def object_rows_def removed_def del_obj_def delete_rows_def del_memberships_def del_attrs_def
        intro!: tables.equality filter_cong)
qed

lemma forgotten_simps [simp]: "t_obj (forgotten pid ids t) = t_obj t"
  "forgotten pid ids (t\<lparr>t_obj := rs\<rparr>) = (forgotten pid ids t)\<lparr>t_obj := rs\<rparr>"
  by (simp_all add: forgotten_def)

lemma unlink_object_clean:
  assumes "root_fits osd" and "i \<noteq> 0" and "fs_clean f" and "nodes f (object_path osd pid i) \<noteq> Some Directory"
  shows "unlink_object (root osd) pid i f = f\<lparr>nodes := (nodes f)(object_path osd pid i := None)\<rparr>"
  using assms object_path [OF assms(1,2), of pid]
  by (cases "nodes f (object_path osd pid i)")
    (auto simp: unlink_object_def fs_unlink_def is_dir_def fun_upd_idem split: node.splits)

lemma unlink_objects_clean:
  assumes "root_fits osd" and "0 \<notin> set ids" and "fs_clean f" and "\<forall>i \<in> set ids. nodes f (object_path osd pid i) \<noteq> Some Directory"
  shows "fold (unlink_object (root osd) pid) ids f = f\<lparr>nodes := nodes f |` (- object_path osd pid ` set ids)\<rparr>"
  using assms(2-4)
proof (induction ids arbitrary: f)
  case (Cons i ids)
  have "nodes f |` (- object_path osd pid ` set (i # ids)) =
      (nodes f)(object_path osd pid i := None) |` (- object_path osd pid ` set ids)"
    by (auto simp: restrict_map_def fun_eq_iff)
  then show ?case
    using Cons assms(1) by (simp add: unlink_object_clean)
qed (simp add: restrict_map_def)

lemma stored_clean:
  assumes "db_good d" and "db_clean d" and "total (stored d (\<lambda>t. Some (eff t))) m"
  shows "\<exists>d'. m = Some (0, d') \<and> db_good d' \<and> db_frame d d' \<and> tabs d' = eff (tabs d)"
  using assms by (auto simp: total_def stored_def)

definition blocked_post :: "osd_device \<Rightarrow> u64 \<Rightarrow> u64 list \<Rightarrow> bytes \<Rightarrow> bool \<times> bytes \<times> osd_device \<Rightarrow> bool" where
  "blocked_post osd pid ids sense = (\<lambda>(ok, s, osd'). \<not> ok \<and> s = sense \<and> sound osd' \<and> root osd' = root osd \<and>
     db_frame (dbc osd) (dbc osd') \<and>
     tabs (dbc osd') = fold (removed pid) ids (tabs (dbc osd)) \<and>
     nodes (files osd') = nodes (files osd) |` (- object_path osd pid ` set ids))"

text \<open>The branch that meets the file.\<close>

lemma create_loop_meets_file:
  assumes "sound osd" and "user_object pid oid" and "oid \<le> k" and "calm osd" and "k < e" and "252 \<le> length sense"
    and "obj_map (tabs (dbc osd)) (okey pid 0) \<noteq> None" and "obj_map (tabs (dbc osd)) (okey pid k) = None"
    and "nodes (files osd) (object_path osd pid k) = Some (RegFile c)"
    and "\<forall>j. oid \<le> j \<and> j < k \<longrightarrow> nodes (files osd) (object_path osd pid j) \<noteq> Some Directory"
  shows "total (blocked_post osd pid (id_range oid k) sense) (create_loop osd pid oid k e sense)"
proof -
  let ?t = "tabs (dbc osd)"
  have cl: "db_clean (dbc osd)" "fs_clean (files osd)" using assms(4) by (simp_all add: calm_def)
  have k0: "k \<noteq> 0" using user_object_nonzero [OF assms(2)] assms(3) by auto
  obtain d where d: "obj_insert (dbc osd) pid k (ucast USEROBJECT) = Some (0, d)" "sound (osd\<lparr>dbc := d\<rparr>)"
    "db_frame (dbc osd) d" "tabs d = ?t\<lparr>t_obj := t_obj ?t @ [user_row pid k]\<rparr>"
    using inserted [OF assms(1) cl(1) assms(8,7) typed_new(3) [OF assms(2) k0]] by blast
  have dat: "osd_create_datafile (osd\<lparr>dbc := d\<rparr>) pid k = Some (- EEXIST, osd\<lparr>dbc := d\<rparr>)"
    using create_datafile_exists [of "osd\<lparr>dbc := d\<rparr>" k pid c] soundD(4) [OF d(2)] k0 cl(2) assms(9) by simp
  have gd: "db_good d" "db_clean d" using soundD(1) [OF d(2)] db_frame_clean [OF d(3) cl(1)] by simp_all
  obtain d' where d': "obj_delete d pid k = Some (0, d')" "db_good d'" "db_frame d d'" "tabs d' = del_obj pid k (tabs d)"
    using stored_clean [OF gd statements_stored(1) [OF gd(1)], of pid k] by blast
  have no: "\<not> (o_pid r = sint pid \<and> o_oid r = sint k)" if "r \<in> set (t_obj ?t)" for r
    using assms(8) that obj_map_some [of ?t "sint pid" "sint k"] by auto
  have "filter (\<lambda>r. \<not> (o_pid r = sint pid \<and> o_oid r = sint k)) (t_obj ?t) = t_obj ?t"
    using no by (intro filter_True) simp
  then have rows: "tabs d' = ?t" using d'(4) d(4) by (simp add: del_obj_def delete_rows_def obj_row_of_def)
  have fr: "db_frame (dbc osd) d'" using d(3) d'(3) by (rule db_frame_trans)
  have inv: "tables_inv (tabs d')"
    using d'(4) tables_inv_del_obj [of "tabs d" k pid] soundD(2) [OF d(2)] k0 by simp
  have s': "sound (osd\<lparr>dbc := d'\<rparr>)" by (rule sound_dbc [OF assms(1) d'(2) inv])
  have ids: "0 \<notin> set (id_range oid k)" "\<forall>j \<in> set (id_range oid k). nodes (files osd) (object_path osd pid j) \<noteq> Some Directory"
    using assms(10) user_object_nonzero [OF assms(2)] by (auto simp: set_id_range)
  have un: "fold (unlink_object (root osd) pid) (id_range oid k) (files osd) =
      (files osd)\<lparr>nodes := nodes (files osd) |` (- object_path osd pid ` set (id_range oid k))\<rparr>"
    by (rule unlink_objects_clean [OF soundD(4) [OF assms(1)] ids(1) cl(2) ids(2)])
  have "create_loop osd pid oid k e sense = (do {
      (sense, osd) \<leftarrow> osd_remove_tmp_objects (osd\<lparr>dbc := d'\<rparr>) pid oid k sense; Some (False, sense, osd) })"
    by (subst create_loop.simps) (simp add: assms(5) d(1) dat d'(1) EEXIST_def)
  moreover have "total (blocked_post osd pid (id_range oid k) sense) (do {
      (sense, osd) \<leftarrow> osd_remove_tmp_objects (osd\<lparr>dbc := d'\<rparr>) pid oid k sense; Some (False, sense, osd) })"
    by (rule total_pair_bind [OF osd_remove_tmp_objects_total [OF s' assms(2,6)]])
      (use un rows fr cl(1) in \<open>auto simp: tmp_post_def blocked_post_def db_frame_clean intro: db_frame_trans\<close>)
  ultimately show ?thesis by simp
qed

lemma create_loop_blocked:
  assumes "sound osd" and "user_object pid oid" and "oid \<le> i" and "calm osd" and "k < e" and "i \<le> k" and "252 \<le> length sense"
    and "obj_map (tabs (dbc osd)) (okey pid 0) \<noteq> None"
    and "\<forall>j. i \<le> j \<and> j \<le> k \<longrightarrow> obj_map (tabs (dbc osd)) (okey pid j) = None"
    and "\<forall>j. i \<le> j \<and> j < k \<longrightarrow> nodes (files osd) (object_path osd pid j) = None"
    and "nodes (files osd) (object_path osd pid k) = Some (RegFile c)"
    and "\<forall>j. oid \<le> j \<and> j < k \<longrightarrow> nodes (files osd) (object_path osd pid j) \<noteq> Some Directory"
  shows "total (blocked_post osd pid (id_range oid k) sense) (create_loop osd pid oid i e sense)"
  using assms
proof (induction "unat (k - i)" arbitrary: osd i)
  case 0
  then have "unat k = unat i" by (simp add: unat_sub word_le_nat_alt)
  then have "i = k" by (simp add: word_unat_eq_iff)
  show ?case
    unfolding \<open>i = k\<close>
    by (rule create_loop_meets_file [where c = c]) (use 0 \<open>i = k\<close> in auto)
next
  case (Suc x i osd)
  let ?t = "tabs (dbc osd)" and ?n = "nodes (files osd)"
  have less: "i < k"
    using Suc(2,8) by (auto simp: unat_sub word_le_nat_alt word_less_nat_alt order_less_le)
  note nx = word_Suc [OF less]
  have le: "i \<le> i + 1" "i + 1 \<le> k" "oid \<le> i + 1"
    using nx less Suc(5) by (simp_all add: word_le_nat_alt word_less_nat_alt)
  have x: "x = unat (k - (i + 1))" using Suc(2) nx less le by (simp add: unat_sub word_le_nat_alt)
  have i0: "i \<noteq> 0" "k \<noteq> 0" using user_object_nonzero [OF Suc(4)] Suc(5) less by auto
  have cl: "db_clean (dbc osd)" "fs_clean (files osd)" using Suc(6) by (simp_all add: calm_def)
  have fr: "obj_map ?t (okey pid i) = None" "?n (object_path osd pid i) = None" using Suc(11,12) less by (simp_all add: order_less_imp_le)
  obtain d where d: "obj_insert (dbc osd) pid i (ucast USEROBJECT) = Some (0, d)" "sound (osd\<lparr>dbc := d\<rparr>)"
    "db_frame (dbc osd) d" "tabs d = ?t\<lparr>t_obj := t_obj ?t @ [user_row pid i]\<rparr>"
    using inserted [OF Suc(3) cl(1) fr(1) Suc(10) typed_new(3) [OF Suc(4) i0(1)]] by blast
  define o1 where "o1 = osd\<lparr>dbc := d, files := (files osd)\<lparr>nodes := ?n(object_path osd pid i \<mapsto> RegFile [])\<rparr>\<rparr>"
  have o1: "dbc o1 = d" "nodes (files o1) = ?n(object_path osd pid i \<mapsto> RegFile [])" "root o1 = root osd"
    "object_path o1 = object_path osd" "fs_clean (files o1)"
    using cl(2) by (simp_all add: o1_def)
  have dat: "osd_create_datafile (osd\<lparr>dbc := d\<rparr>) pid i = Some (0, o1)"
    using create_datafile_new [of "osd\<lparr>dbc := d\<rparr>" i pid] soundD(4) [OF d(2)] i0 cl(2) fr(2) by (simp add: o1_def)
  have so: "sound o1" using d(2) by (simp add: sound_def root_fits_def o1_def)
  have other: "object_path osd pid j = object_path osd pid i \<longleftrightarrow> j = i" if "j \<noteq> 0" for j
    using object_path_eq [OF soundD(4) [OF Suc(3)] that i0(1), of pid pid] by simp
  have later: "i \<le> j \<and> i \<noteq> j \<and> j \<noteq> 0" if "i + 1 \<le> j" for j
    using that nx by (auto simp: word_le_nat_alt)
  have c1: "calm o1" using cl d(3) o1 by (simp add: calm_def db_frame_clean)
  have p1: "obj_map (tabs (dbc o1)) (okey pid 0) \<noteq> None"
    using Suc(10) obj_map_append_row [of ?t pid i "ucast USEROBJECT" "sint pid" 0] d(4) by (simp add: o1)
  have free: "obj_map (tabs (dbc o1)) (okey pid j) = None" if "i + 1 \<le> j" "j \<le> k" for j
    using Suc(11) that later [OF that(1)] obj_map_append_row [of ?t pid i "ucast USEROBJECT" "sint pid" "sint j"] d(4)
    by (auto simp: o1 simp del: not_None_eq)
  have gone: "nodes (files o1) (object_path o1 pid j) = None" if "i + 1 \<le> j" "j < k" for j
    using Suc(12) that later [OF that(1)] other [of j] by (auto simp: o1)
  have there: "nodes (files o1) (object_path o1 pid k) = Some (RegFile c)"
    using Suc(13) other [of k] i0 less by (auto simp: o1)
  have nodir: "nodes (files o1) (object_path o1 pid j) \<noteq> Some Directory" if "oid \<le> j" "j < k" for j
    using Suc(14) that by (auto simp: o1)
  have "total (blocked_post o1 pid (id_range oid k) sense) (create_loop o1 pid oid (i + 1) e sense)"
    by (rule Suc(1) [OF x so Suc(4) le(3) c1 Suc(7) le(2) Suc(9) p1]) (use free gone there nodir in auto)
  moreover have "create_loop osd pid oid i e sense = create_loop o1 pid oid (i + 1) e sense"
    using less_trans [OF less Suc(7)] by (subst create_loop.simps) (simp add: d(1) dat)
  moreover have "blocked_post osd pid (id_range oid k) sense r" if "blocked_post o1 pid (id_range oid k) sense r" for r
  proof -
    have mem: "i \<in> set (id_range oid k)" using Suc(5) less by (simp add: set_id_range)
    then have "object_rows pid (id_range oid k) (user_row pid i)" by (simp add: object_rows_def obj_row_of_def)
    moreover have "?n(object_path osd pid i \<mapsto> RegFile []) |` (- object_path osd pid ` set (id_range oid k)) =
        ?n |` (- object_path osd pid ` set (id_range oid k))"
      using mem by (auto simp: restrict_map_def fun_eq_iff)
    ultimately show ?thesis using that d(3,4) by (auto simp: blocked_post_def removed_rows o1 intro: db_frame_trans)
  qed
  ultimately show ?case by (auto simp: total_def)
qed

section \<open>Creating objects\<close>

lemma present_calm:
  assumes "dev_inv osd" and "calm osd"
  shows "\<exists>d. is_present osd pid oid = Some (0, obj_map (tabs (dbc osd)) (okey pid oid) \<noteq> None, osd\<lparr>dbc := d\<rparr>) \<and> asked (dbc osd) d"
proof -
  have "total (\<lambda>(ret, present, o'). ret = 0 \<and> (present \<longleftrightarrow> obj_map (tabs (dbc osd)) (okey pid oid) \<noteq> None) \<and>
      (\<exists>d. o' = osd\<lparr>dbc := d\<rparr> \<and> asked (dbc osd) d)) (is_present osd pid oid \<bind> Some)"
    by (rule total_query [OF assms(1)]) (use assms(2) in \<open>auto simp: calm_def\<close>)
  then show ?thesis unfolding total_def Option.bind_runit by auto
qed

definition create_tail :: "osd_device \<Rightarrow> u64 \<Rightarrow> u64 \<Rightarrow> u64 \<Rightarrow> u16 \<Rightarrow> bytes \<Rightarrow> answer option" where
  "create_tail osd pid requested oid n sense = do {
     (ok, sense, osd) \<leftarrow> create_loop osd pid oid oid (oid + ucast n) sense;
     if \<not> ok then out_hw_err (osd\<lparr>ic := no_cache\<rparr>) sense pid requested
     else Some (OSD_OK, sense, osd\<lparr>
       ic := (ic osd)\<lparr>next_id := next_id (ic osd) + ucast (n - 1)\<rparr>,
       ccap := fill_ccap None USEROBJECT pid (oid + ucast n - 1) 0\<rparr>) }"

definition at_least_one :: "u16 \<Rightarrow> u16" where
  "at_least_one n = (if n = 0 then 1 else n)"

lemma range_above:
  assumes "0x10000 \<le> sint (oid :: u64)" and "sint oid \<le> 2 ^ 62" and "oid \<le> k" and "k < oid + ucast (n :: u16)"
  shows "sint oid \<le> sint k"
  using between_sint [of oid k "oid + ucast n"] range_end(1) [OF assms(1,2), of n] assms by simp

lemma range_nonempty:
  assumes "0x10000 \<le> sint (oid :: u64)" and "sint oid \<le> 2 ^ 62" and "0 < (n :: u16)"
  shows "oid < oid + ucast n"
proof -
  let ?e = "oid + ucast n"
  have n: "0 < unat n" using assms(3) by (simp add: word_less_nat_alt)
  note e = range_end [OF assms(1,2), of n]
  have "unat oid = nat (sint oid)" "unat ?e = nat (sint ?e)" using sint_unat [of oid] sint_le_unat [OF e(1)] assms(1) by simp_all
  then have "unat oid < unat ?e" unfolding e(2) using n assms(1) by linarith
  then show ?thesis by (simp add: word_less_nat_alt)
qed

text \<open>Up to the loop: the partition is there and the identifier can be chosen.\<close>

lemma osd_create_calm:
  assumes inv: "dev_inv osd" and rm: "room osd" and cl: "calm osd" and pid: "0x10000 \<le> pid"
    and part: "obj_map (tabs (dbc osd)) (okey pid 0) \<noteq> None"
    and req: "requested = 0 \<or> 0x10000 \<le> requested \<and> id_ok requested \<and>
      obj_map (tabs (dbc osd)) (okey pid requested) = None \<and> \<not> 1 < numoid"
  shows "\<exists>oid osd2. osd_create osd pid requested numoid sense = create_tail osd2 pid requested oid (at_least_one numoid) sense \<and>
    sound osd2 \<and> calm osd2 \<and> tabs (dbc osd2) = tabs (dbc osd) \<and> files osd2 = files osd \<and> root osd2 = root osd \<and>
    db_frame (dbc osd) (dbc osd2) \<and> user_object pid oid \<and> oid < oid + ucast (at_least_one numoid) \<and>
    (requested \<noteq> 0 \<longrightarrow> oid = requested) \<and>
    (\<forall>k. oid \<le> k \<and> k < oid + ucast (at_least_one numoid) \<longrightarrow> obj_map (tabs (dbc osd)) (okey pid k) = None)"
proof -
  let ?n = "at_least_one numoid" and ?t = "tabs (dbc osd)"
  obtain d where d: "is_present osd pid 0 = Some (0, True, osd\<lparr>dbc := d\<rparr>)" "asked (dbc osd) d"
    using present_calm [OF inv cl, of pid 0] part by auto
  let ?o = "osd\<lparr>dbc := d\<rparr>"
  have pid0: "pid \<noteq> 0" using pid by auto
  have t: "tabs d = ?t" "db_frame (dbc osd) d" using d(2) by (simp_all add: asked_def)
  have clean: "db_clean d" using cl t(2) by (simp add: calm_def db_frame_clean)
  have "requested = 0 \<or> 0x10000 \<le> requested \<and> unat requested \<le> 2 ^ 62" using req by (auto simp: id_ok_def)
  from choose_id_total [OF dev_inv_asked [OF inv d(2)] room_asked [OF rm d(2)] pid0 _ this]
  obtain c osd2 where c: "choose_id ?o pid requested 0x10000 = Some (c, osd2)" "choice_ok ?o pid requested (c, osd2)"
    using part t by (auto simp: total_def)
  obtain oid where oid: "c = Chosen oid"
    using c(2) req clean t by (cases c) (auto simp: choice_ok_def)
  note ch = c(2) [unfolded oid] and st = choice_state [OF c(2)]
  have lim: "0x10000 \<le> sint oid" "sint oid \<le> 2 ^ 62" using ch by (simp_all add: choice_ok_def)
  have n1: "0 < ?n" by (simp add: at_least_one_def word_gt_0)
  have lt: "oid < oid + ucast ?n" by (rule range_nonempty [OF lim n1])
  have fresh: "obj_map ?t (okey pid k) = None" if k: "oid \<le> k" "k < oid + ucast ?n" for k
  proof (cases "requested = 0")
    case True
    have "sint oid \<le> sint k" by (rule range_above [OF lim k])
    then show ?thesis using ch True t obj_map_some [of ?t "sint pid" "sint k"] by (auto simp: choice_ok_def)
  next
    case False
    then have "\<not> 1 < numoid" using req by simp
    then have "?n = 1" by (cases "numoid = 0") (simp_all add: at_least_one_def one_or_more)
    then have "unat k < unat oid + 1" using k lt word_Suc [of oid "oid + 1"] by (simp add: word_less_nat_alt)
    then have "k = oid" using k(1) by (simp add: word_le_nat_alt word_unat_eq_iff)
    then show ?thesis using ch t by (simp add: choice_ok_def)
  qed
  have conds: "(1 < numoid \<and> requested \<noteq> 0) = False" "(requested \<noteq> 0 \<and> requested < 0x10000) = False"
    "(pid = 0 \<or> pid < 0x10000) = False" "((0 :: int) \<noteq> OSD_OK \<or> \<not> True) = False"
    using req pid pid0 by auto
  have "osd_create osd pid requested numoid sense = create_tail osd2 pid requested oid ?n sense"
    unfolding osd_create_def id_bounds conds if_False d(1) Option.bind.simps prod.case c(1) oid chosen.case
      create_tail_def at_least_one_def Let_def ..
  moreover have "user_object pid oid" using pid lim by (intro user_object_sint)
  moreover have "calm osd2" using cl clean st(3,6) by (simp add: calm_def db_frame_clean)
  moreover have "requested \<noteq> 0 \<longrightarrow> oid = requested" using ch by (simp add: choice_ok_def)
  ultimately show ?thesis using st t lt fresh by (auto intro: db_frame_trans)
qed

lemma length_id_range: "length (id_range j e) = unat e - unat j"
  by (simp add: id_range_def)

lemma length_range:
  assumes "oid < oid + ucast (n :: u16)"
  shows "length (id_range oid (oid + ucast n)) = unat n"
proof -
  have un: "unat (ucast n :: u64) = unat n"
    using unsigned_less [of n, where ?'a = nat] by (simp add: unsigned_ucast_eq take_bit_nat_eq_self)
  have "unat (oid + ucast n) = unat oid + unat (ucast n :: u64)"
    using unat_plus_simple [of oid "ucast n"] order_less_imp_le [OF assms] by blast
  then show ?thesis using un by (simp add: length_id_range)
qed

lemma create_tail_success:
  assumes "sound osd" and "user_object pid oid" and "calm osd" and "obj_map (tabs (dbc osd)) (okey pid 0) \<noteq> None"
    and "\<forall>k \<in> set (id_range oid (oid + ucast n)). obj_map (tabs (dbc osd)) (okey pid k) = None \<and>
      nodes (files osd) (object_path osd pid k) = None"
  shows "\<exists>d i. create_tail osd pid requested oid n sense = Some (0, sense, osd\<lparr>dbc := d,
      files := (files osd)\<lparr>nodes := new_files osd pid (id_range oid (oid + ucast n)) (nodes (files osd))\<rparr>,
      ic := i, ccap := fill_ccap None USEROBJECT pid (oid + ucast n - 1) 0\<rparr>) \<and> db_frame (dbc osd) d \<and>
    tabs d = (tabs (dbc osd))\<lparr>t_obj := t_obj (tabs (dbc osd)) @ map (user_row pid) (id_range oid (oid + ucast n))\<rparr>"
proof -
  have "\<forall>k. oid \<le> k \<and> k < oid + ucast n \<longrightarrow> obj_map (tabs (dbc osd)) (okey pid k) = None \<and>
      nodes (files osd) (object_path osd pid k) = None" using assms(5) by (simp add: set_id_range)
  from create_loop_success [OF assms(1,2) order_refl assms(3,4) this, of sense]
  obtain d where "create_loop osd pid oid oid (oid + ucast n) sense = Some (True, sense, osd\<lparr>dbc := d,
      files := (files osd)\<lparr>nodes := new_files osd pid (id_range oid (oid + ucast n)) (nodes (files osd))\<rparr>\<rparr>)"
    and "db_frame (dbc osd) d" "tabs d = (tabs (dbc osd))\<lparr>t_obj := t_obj (tabs (dbc osd)) @ map (user_row pid) (id_range oid (oid + ucast n))\<rparr>"
    by (elim exE conjE)
  then show ?thesis
    by (intro exI [of _ d] exI [of _ "(ic osd)\<lparr>next_id := next_id (ic osd) + ucast (n - 1)\<rparr>"]) (simp add: create_tail_def)
qed

lemma takeWhile_id_range:
  assumes "oid \<le> k" and "k < e" and "\<And>j. oid \<le> j \<Longrightarrow> j < k \<Longrightarrow> P j" and "\<not> P k"
  shows "takeWhile P (id_range oid e) = id_range oid k"
proof -
  have "unat oid \<le> unat k" "unat k \<le> unat e" using assms(1,2) by (simp_all add: word_le_nat_alt word_less_nat_alt)
  then have "[unat oid..<unat e] = [unat oid..<unat k] @ [unat k..<unat e]" by (metis le_iff_add upt_add_eq_append)
  then have "id_range oid e = id_range oid k @ k # id_range (k + 1) e"
    using id_range_Cons [OF assms(2)] by (simp add: id_range_def)
  moreover have "takeWhile P (id_range oid k @ k # id_range (k + 1) e) = id_range oid k @ takeWhile P (k # id_range (k + 1) e)"
    by (rule takeWhile_append2) (simp add: assms(3) set_id_range)
  ultimately show ?thesis using assms(4) by simp
qed

text \<open>The identifiers before the first whose data file exists.\<close>

definition made_before :: "osd_device \<Rightarrow> u64 \<Rightarrow> u64 list \<Rightarrow> u64 list" where
  "made_before osd pid ids = takeWhile (\<lambda>k. nodes (files osd) (object_path osd pid k) = None) ids"

lemma create_tail_blocked:
  assumes "sound osd" and "user_object pid oid" and "calm osd" and "obj_map (tabs (dbc osd)) (okey pid 0) \<noteq> None"
    and fresh: "\<forall>k \<in> set (id_range oid (oid + ucast n)). obj_map (tabs (dbc osd)) (okey pid k) = None"
    and files: "\<forall>k \<in> set (id_range oid (oid + ucast n)). nodes (files osd) (object_path osd pid k) \<noteq> Some Directory"
    and blocked: "\<exists>k \<in> set (id_range oid (oid + ucast n)). nodes (files osd) (object_path osd pid k) \<noteq> None"
    and len: "252 \<le> length sense"
  shows "total (\<lambda>(ret, s, osd'). ret \<noteq> 0 \<and>
    tabs (dbc osd') = forgotten pid (made_before osd pid (id_range oid (oid + ucast n))) (tabs (dbc osd)) \<and>
    nodes (files osd') = nodes (files osd)) (create_tail osd pid requested oid n sense)"
proof -
  let ?P = "\<lambda>k. k \<in> set (id_range oid (oid + ucast n)) \<and> nodes (files osd) (object_path osd pid k) \<noteq> None"
  obtain k where k: "?P k" "\<forall>j < k. \<not> ?P j" using blocked exists_least_iff [of ?P] by blast
  have kr: "oid \<le> k" "k < oid + ucast n" using k(1) by (simp_all add: set_id_range)
  obtain c where c: "nodes (files osd) (object_path osd pid k) = Some (RegFile c)"
    using k(1) files by (cases "nodes (files osd) (object_path osd pid k)") (auto split: node.splits intro: node.exhaust)
  have before: "nodes (files osd) (object_path osd pid j) = None" if "oid \<le> j" "j < k" for j
    using k(2) that less_trans [OF that(2) kr(2)] by (auto simp: set_id_range)
  have rows: "obj_map (tabs (dbc osd)) (okey pid j) = None" if "oid \<le> j" "j \<le> k" for j
    using fresh that kr(2) by (auto simp: set_id_range)
  have "total (blocked_post osd pid (id_range oid k) sense) (create_loop osd pid oid oid (oid + ucast n) sense)"
    by (rule create_loop_blocked [OF assms(1,2) order_refl assms(3) kr(2,1) len assms(4) _ _ c]) (use before rows in auto)
  then have "total (\<lambda>(ret, s, osd'). ret \<noteq> 0 \<and> tabs (dbc osd') = forgotten pid (id_range oid k) (tabs (dbc osd)) \<and>
      nodes (files osd') = nodes (files osd)) (create_loop osd pid oid oid (oid + ucast n) sense \<bind> (\<lambda>(ok, sense, osd).
        if \<not> ok then out_hw_err (osd\<lparr>ic := no_cache\<rparr>) sense pid requested
        else Some (OSD_OK, sense, osd\<lparr>ic := (ic osd)\<lparr>next_id := next_id (ic osd) + ucast (n - 1)\<rparr>,
          ccap := fill_ccap None USEROBJECT pid (oid + ucast n - 1) 0\<rparr>)))"
  proof (rule total_bind, clarify)
    fix ok s osd'
    assume p: "blocked_post osd pid (id_range oid k) sense (ok, s, osd')"
    have "filter (\<lambda>r. \<not> object_rows pid (id_range oid k) r) (t_obj (tabs (dbc osd))) = t_obj (tabs (dbc osd))"
    proof (rule filter_True, intro ballI notI)
      fix r assume r: "r \<in> set (t_obj (tabs (dbc osd)))" "object_rows pid (id_range oid k) r"
      then obtain j where "oid \<le> j" "j < k" "o_pid r = sint pid" "o_oid r = sint j" by (auto simp: object_rows_def set_id_range)
      then show False using rows [of j] r(1) obj_map_some [of "tabs (dbc osd)" "sint pid" "sint j"] by auto
    qed
    then have "fold (removed pid) (id_range oid k) (tabs (dbc osd)) = forgotten pid (id_range oid k) (tabs (dbc osd))"
      by (simp add: removed_rows forgotten_def)
    moreover have "nodes (files osd) |` (- object_path osd pid ` set (id_range oid k)) = nodes (files osd)"
      using before by (auto simp: restrict_map_def fun_eq_iff set_id_range)
    moreover have "252 \<le> length s" "\<not> ok" using p len by (simp_all add: blocked_post_def)
    ultimately show "total (\<lambda>(ret, s, osd'). ret \<noteq> 0 \<and> tabs (dbc osd') = forgotten pid (id_range oid k) (tabs (dbc osd)) \<and>
        nodes (files osd') = nodes (files osd)) (if \<not> ok then out_hw_err (osd'\<lparr>ic := no_cache\<rparr>) s pid requested
        else Some (OSD_OK, s, osd'\<lparr>ic := (ic osd')\<lparr>next_id := next_id (ic osd') + ucast (n - 1)\<rparr>,
          ccap := fill_ccap None USEROBJECT pid (oid + ucast n - 1) 0\<rparr>))"
      using p by (simp add: blocked_post_def) (rule total_mono [OF error_answers_total(2)], auto simp: answered_def)
  qed
  moreover have "made_before osd pid (id_range oid (oid + ucast n)) = id_range oid k"
    unfolding made_before_def by (rule takeWhile_id_range [OF kr before]) (simp_all add: c)
  ultimately show ?thesis by (simp only: create_tail_def)
qed

section \<open>Properties\<close>

lemma created_oid:
  "(oid :: u64) + ucast (at_least_one n) - 1 - (if 0 < (ucast n :: u32) then ucast ((ucast n :: u32) - 1) else 0) = oid"
proof (cases "n = 0")
  case False
  have un: "unat (ucast n :: u32) = unat n" "unat (ucast n :: u64) = unat n" "unat n < 2 ^ 16"
    using unsigned_less [of n, where ?'a = nat] by (simp_all add: unsigned_ucast_eq take_bit_nat_eq_self)
  have n0: "0 < unat n" using False by (simp add: unat_gt_0)
  have p: "0 < (ucast n :: u32)" using un n0 by (simp add: word_less_nat_alt)
  have "unat ((ucast n :: u32) - 1) = unat n - 1" using un n0 by (simp add: unat_sub word_le_nat_alt)
  then have "unat (ucast ((ucast n :: u32) - 1) :: u64) = unat n - 1"
    using un by (simp add: unsigned_ucast_eq take_bit_nat_eq_self)
  moreover have "unat ((ucast n :: u64) - 1) = unat n - 1" using un n0 by (simp add: unat_sub word_le_nat_alt)
  ultimately have "(ucast ((ucast n :: u32) - 1) :: u64) = ucast n - 1" by (simp add: word_unat_eq_iff)
  then show ?thesis using False p by (simp add: at_least_one_def)
qed (simp add: at_least_one_def)

lemma distinct_id_range: "distinct (id_range j e)"
proof -
  have "inj_on (of_nat :: nat \<Rightarrow> u64) (set [unat j..<unat e])"
  proof (rule inj_onI)
    fix x y assume b: "x \<in> set [unat j..<unat e]" "y \<in> set [unat j..<unat e]" and eq: "(of_nat x :: u64) = of_nat y"
    have u: "unat (of_nat z :: u64) = z" if "z < unat e" for z
      using that unsigned_less [of e, where ?'a = nat] by (simp add: unsigned_of_nat take_bit_nat_eq_self)
    have "unat (of_nat x :: u64) = x" "unat (of_nat y :: u64) = y"
      by (rule u; use b in simp)+
    then show "x = y" using eq by metis
  qed
  then show ?thesis by (simp add: id_range_def distinct_map)
qed

text \<open>No directory where a data file belongs.\<close>

definition unobstructed :: "osd_device \<Rightarrow> u64 \<Rightarrow> bool" where
  "unobstructed osd pid \<longleftrightarrow> (\<forall>oid. user_object pid oid \<longrightarrow> nodes (files osd) (object_path osd pid oid) \<noteq> Some Directory)"

text \<open>
  C8. Creating n objects (one for the request 0) in a partition that exists, on a device without failures and without directories in the way, chooses a range of
  consecutive identifiers, all unused. When no file is in the way the answer is 0, one row is added
  for each identifier in order, every data file exists and is empty, and
  \<open>osd_get_created_oid\<close> returns the first identifier. When the data file of one of them
  exists already, the answer is an error, the files and the rows of all objects are as before, and no
  attribute and no membership changed but those that the identifiers tried before the one in the way had
  without an object to them: the clean-up by \<open>osd_remove\<close> deletes these.
\<close>

theorem create_all_or_nothing:
  assumes inv: "dev_inv osd" and rm: "room osd" and cl: "calm osd" and pid: "0x10000 \<le> pid"
    and part: "obj_map (tabs (dbc osd)) (okey pid 0) \<noteq> None" and nd: "unobstructed osd pid"
    and req: "requested = 0 \<or> 0x10000 \<le> requested \<and> id_ok requested \<and>
      obj_map (tabs (dbc osd)) (okey pid requested) = None \<and> \<not> 1 < n"
    and len: "252 \<le> length sense"
  shows "\<exists>oid ids ret s osd'. osd_create osd pid requested n sense = Some (ret, s, osd') \<and>
    (requested \<noteq> 0 \<longrightarrow> oid = requested) \<and> ids = id_range oid (oid + ucast (at_least_one n)) \<and>
    length ids = max 1 (unat n) \<and> distinct ids \<and>
    (\<forall>k \<in> set ids. user_object pid k \<and> obj_map (tabs (dbc osd)) (okey pid k) = None) \<and>
    (if \<forall>k \<in> set ids. nodes (files osd) (object_path osd pid k) = None
     then ret = 0 \<and> s = sense \<and> osd_get_created_oid osd' (ucast n) = oid \<and>
       tabs (dbc osd') = (tabs (dbc osd))\<lparr>t_obj := t_obj (tabs (dbc osd)) @ map (user_row pid) ids\<rparr> \<and>
       nodes (files osd') = new_files osd pid ids (nodes (files osd))
     else ret \<noteq> 0 \<and> tabs (dbc osd') = forgotten pid (made_before osd pid ids) (tabs (dbc osd)) \<and>
       nodes (files osd') = nodes (files osd))"
proof -
  obtain oid osd2 where c: "osd_create osd pid requested n sense = create_tail osd2 pid requested oid (at_least_one n) sense"
    "sound osd2" "calm osd2" "tabs (dbc osd2) = tabs (dbc osd)" "files osd2 = files osd" "root osd2 = root osd"
    "user_object pid oid" "oid < oid + ucast (at_least_one n)" "requested \<noteq> 0 \<longrightarrow> oid = requested"
    "\<forall>k. oid \<le> k \<and> k < oid + ucast (at_least_one n) \<longrightarrow> obj_map (tabs (dbc osd)) (okey pid k) = None"
    using osd_create_calm [OF inv rm cl pid part req, of sense] by blast
  define ids where "ids = id_range oid (oid + ucast (at_least_one n))"
  have paths: "object_path osd2 = object_path osd" "new_files osd2 = new_files osd" "made_before osd2 = made_before osd"
    by (simp_all add: fun_eq_iff object_path_def new_files_def made_before_def c(5,6))
  have fresh: "\<forall>k \<in> set ids. user_object pid k \<and> obj_map (tabs (dbc osd)) (okey pid k) = None"
    using c(10) user_object_next [OF c(7)] by (simp add: ids_def set_id_range)
  have "max 1 (unat n) = unat (at_least_one n)" by (cases "n = 0") (auto simp: at_least_one_def max_def Suc_le_eq unat_gt_0)
  then have size: "length ids = max 1 (unat n)" using length_range [OF c(8)] by (simp add: ids_def)
  have "\<exists>ret s osd'. osd_create osd pid requested n sense = Some (ret, s, osd') \<and>
    (if \<forall>k \<in> set ids. nodes (files osd) (object_path osd pid k) = None
     then ret = 0 \<and> s = sense \<and> osd_get_created_oid osd' (ucast n) = oid \<and>
       tabs (dbc osd') = (tabs (dbc osd))\<lparr>t_obj := t_obj (tabs (dbc osd)) @ map (user_row pid) ids\<rparr> \<and>
       nodes (files osd') = new_files osd pid ids (nodes (files osd))
     else ret \<noteq> 0 \<and> tabs (dbc osd') = forgotten pid (made_before osd pid ids) (tabs (dbc osd)) \<and>
       nodes (files osd') = nodes (files osd))"
  proof (cases "\<forall>k \<in> set ids. nodes (files osd) (object_path osd pid k) = None")
    case True
    with create_tail_success [OF c(2,7,3), of "at_least_one n" requested sense] part fresh
    show ?thesis
      using created_oid [of oid n]
      by (auto simp: c(1,4,5) paths ids_def [symmetric] osd_get_created_oid_def Let_def fill_ccap_def)
  next
    case False
    have "\<forall>k \<in> set ids. nodes (files osd) (object_path osd pid k) \<noteq> Some Directory"
      using fresh nd by (simp add: unobstructed_def)
    then have "total (\<lambda>(ret, s, osd'). ret \<noteq> 0 \<and> tabs (dbc osd') = forgotten pid (made_before osd pid ids) (tabs (dbc osd)) \<and>
        nodes (files osd') = nodes (files osd)) (osd_create osd pid requested n sense)"
      using create_tail_blocked [OF c(2,7,3) _ _ _ _ len, of "at_least_one n" requested] part fresh False
      unfolding c(1,4,5) paths ids_def [symmetric] by blast
    then show ?thesis unfolding if_not_P [OF False] total_def by auto
  qed
  then obtain ret s osd' where "osd_create osd pid requested n sense = Some (ret, s, osd') \<and>
    (if \<forall>k \<in> set ids. nodes (files osd) (object_path osd pid k) = None
     then ret = 0 \<and> s = sense \<and> osd_get_created_oid osd' (ucast n) = oid \<and>
       tabs (dbc osd') = (tabs (dbc osd))\<lparr>t_obj := t_obj (tabs (dbc osd)) @ map (user_row pid) ids\<rparr> \<and>
       nodes (files osd') = new_files osd pid ids (nodes (files osd))
     else ret \<noteq> 0 \<and> tabs (dbc osd') = forgotten pid (made_before osd pid ids) (tabs (dbc osd)) \<and>
       nodes (files osd') = nodes (files osd))"
    by (elim exE)
  note r = conjunct1 [OF this] conjunct2 [OF this]
  show ?thesis
    by (rule exI [of _ oid], rule exI [of _ ids], rule exI [of _ ret], rule exI [of _ s], rule exI [of _ osd'], intro conjI)
      (rule r(1) c(9) ids_def size distinct_id_range [of oid "oid + ucast (at_least_one n)", folded ids_def] fresh r(2))+
qed

text \<open>A device with one partition and no files, and one with a file in the way of the second object.\<close>

definition part_device :: "(string \<rightharpoonup> node) \<Rightarrow> osd_device" where
  "part_device m = (new_device [] [])\<lparr>dbc := (dbc (new_device [] []))\<lparr>tabs :=
     \<lparr>t_obj = [obj_row_of ROOT_PID ROOT_OID (ucast ROOT), obj_row_of 0x10000 0 (ucast PARTITION)], t_attr = [], t_coll = []\<rparr>\<rparr>,
     files := (files (new_device [] []))\<lparr>nodes := m\<rparr>\<rparr>"

lemma part_device:
  "dev_inv (part_device m)" "room (part_device m)" "calm (part_device m)" "root_fits (part_device m)"
  "obj_map (tabs (dbc (part_device m))) (okey 0x10000 0) \<noteq> None" "nodes (files (part_device m)) = m"
  unfolding obj_map_some
  by (simp_all add: part_device_def new_device_def sample_device_def sample_db_def dev_inv_def sound_def tables_inv_def
      typed_row_def tables_ok_def root_fits_def room_def calm_def no_cache_def obj_row_of_def osd_consts db_good_def db_clean_def fs_clean_def obj_key_def)

theorem create_all_or_nothing_witness:
  "\<exists>ids s osd'. osd_create (part_device Map.empty) 0x10000 0 3 (replicate 252 0) = Some (0, s, osd') \<and> length ids = 3 \<and>
    t_obj (tabs (dbc osd')) = t_obj (tabs (dbc (part_device Map.empty))) @ map (user_row 0x10000) ids"
proof -
  have "unobstructed (part_device Map.empty) 0x10000" by (simp add: unobstructed_def part_device)
  from create_all_or_nothing [OF part_device(1-3) _ part_device(5) this, of 0 3 "replicate 252 0"]
  show ?thesis by (auto simp: part_device(6))
qed

lemma obj_map_del: "obj_map (del_obj pid oid t) = (obj_map t)(okey pid oid := None)"
proof -
  have "(\<lambda>r. o_pid r = sint pid \<and> o_oid r = sint oid) = (\<lambda>r. obj_key r \<in> {okey pid oid})"
    by (simp add: obj_key_def fun_eq_iff)
  then show ?thesis by (simp only: del_obj_def obj_map_delete restrict_complement_singleton_eq)
qed

lemma obj_map_removed: "obj_map (removed pid oid t) = (obj_map t)(okey pid oid := None)"
  unfolding removed_def obj_map_del by (subst obj_map_of_rows [of "del_memberships pid oid (del_attrs pid oid t)" t]) simp_all

lemma remove_object:
  assumes inv: "dev_inv osd" and cl: "calm osd" and uo: "user_object pid oid" and len: "252 \<le> length sense"
    and nd: "nodes (files osd) (object_path osd pid oid) \<noteq> Some Directory"
  shows "\<exists>osd'. osd_remove osd pid oid sense = Some (0, sense, osd') \<and> dev_inv osd' \<and> calm osd' \<and> root osd' = root osd \<and>
    tabs (dbc osd') = removed pid oid (tabs (dbc osd)) \<and>
    nodes (files osd') = (nodes (files osd))(object_path osd pid oid := None)"
proof -
  have s: "sound osd" using inv by (simp add: dev_inv_def)
  obtain ret s osd' where r: "osd_remove osd pid oid sense = Some (ret, s, osd')" "remove_post osd pid oid sense (ret, s, osd')"
    using osd_remove_total [OF s uo len] by (auto simp: total_def)
  have oid: "oid \<noteq> 0" using user_object_nonzero [OF uo] by simp
  have p: "get_dfile_name (root osd) pid oid = Some (object_path osd pid oid)" by (rule object_path [OF soundD(4) [OF s] oid])
  have f: "files osd' = (files osd)\<lparr>nodes := (nodes (files osd))(object_path osd pid oid := None)\<rparr>"
    using unlink_object_clean [OF soundD(4) [OF s] oid, of "files osd" pid] cl nd r(2) p
    by (auto simp: unlink_object_def remove_post_def calm_def)
  have "dev_inv osd'" using osd_remove_cmd_total [OF inv len, of pid oid] r(1) by (simp add: total_def cmd_post_def)
  moreover have "calm osd'" using r(2) cl f by (auto simp: remove_post_def calm_def db_clean_def db_frame_def fs_clean_def)
  ultimately show ?thesis using r cl f by (auto simp: remove_post_def calm_def)
qed

text \<open>
  C12. Removing a user object that exists, on a device without failures, answers 0; the identifier is unused then,
  nothing else changes in the object table; the attributes of the object and its memberships in all
  collections are gone, those of other objects are as before; its data file is gone and no other file changed.
\<close>

theorem remove_effect:
  assumes "dev_inv osd" and "calm osd" and "user_object pid oid" and "252 \<le> length sense"
    and "nodes (files osd) (object_path osd pid oid) \<noteq> Some Directory"
    and "obj_map (tabs (dbc osd)) (okey pid oid) = Some (uint USEROBJECT)"
  shows "\<exists>osd'. osd_remove osd pid oid sense = Some (0, sense, osd') \<and>
    obj_map (tabs (dbc osd')) = (obj_map (tabs (dbc osd)))(okey pid oid := None) \<and>
    t_attr (tabs (dbc osd')) = filter (\<lambda>r. \<not> (a_pid r = sint pid \<and> a_oid r = sint oid)) (t_attr (tabs (dbc osd))) \<and>
    t_coll (tabs (dbc osd')) = filter (\<lambda>r. \<not> (c_pid r = sint pid \<and> c_oid r = sint oid)) (t_coll (tabs (dbc osd))) \<and>
    nodes (files osd') = (nodes (files osd))(object_path osd pid oid := None)"
proof -
  obtain osd' where r: "osd_remove osd pid oid sense = Some (0, sense, osd')" "tabs (dbc osd') = removed pid oid (tabs (dbc osd))"
    "nodes (files osd') = (nodes (files osd))(object_path osd pid oid := None)"
    using remove_object [OF assms(1-5)] by blast
  have "obj_map (tabs (dbc osd')) = (obj_map (tabs (dbc osd)))(okey pid oid := None)" by (simp add: r(2) obj_map_removed)
  then show ?thesis using r by (simp add: removed_def del_obj_def del_memberships_def del_attrs_def delete_rows_def)
qed

text \<open>Its object is in a collection and has an attribute.\<close>

definition full_device :: osd_device where
  "full_device = (part_device Map.empty)\<lparr>dbc := (dbc (part_device Map.empty))\<lparr>tabs :=
     \<lparr>t_obj = [obj_row_of 0x10000 0 (ucast PARTITION), user_row 0x10000 0x10001],
      t_attr = [\<lparr>a_pid = 0x10000, a_oid = 0x10001, a_page = 1, a_number = 1, a_value = Some [7]\<rparr>],
      t_coll = [\<lparr>c_pid = 0x10000, c_cid = 0x10002, c_oid = 0x10001, c_number = 0\<rparr>]\<rparr>\<rparr>\<rparr>"

lemma full_device:
  "dev_inv full_device" "room full_device" "calm full_device" "nodes (files full_device) = Map.empty"
  by (simp_all add: full_device_def part_device_def new_device_def sample_device_def sample_db_def dev_inv_def sound_def
      tables_inv_def typed_row_def tables_ok_def root_fits_def room_def calm_def no_cache_def obj_row_of_def osd_consts db_good_def
      db_clean_def fs_clean_def obj_key_def attr_key_def coll_key_def coll_slot_def)

theorem remove_effect_witness:
  "\<exists>osd'. osd_remove full_device 0x10000 0x10001 (replicate 252 0) = Some (0, replicate 252 0, osd') \<and>
    t_attr (tabs (dbc osd')) = [] \<and> t_coll (tabs (dbc osd')) = []"
proof -
  have "obj_map (tabs (dbc full_device)) (okey 0x10000 0x10001) = Some (uint USEROBJECT)"
    by (simp add: full_device_def obj_map_def obj_key_def obj_row_of_def osd_consts)
  then show ?thesis
    using remove_effect [OF full_device(1,3), of "0x10000" "0x10001" "replicate 252 0"]
    by (auto simp: user_object_def osd_consts full_device(4)) (auto simp: full_device_def)
qed

text \<open>
  An identifier without an object is removed just as well: the command never asks whether the object exists,
  nor does it look at the answer of \<open>unlink\<close>.
\<close>

lemma remove_absent_succeeds:
  assumes "dev_inv osd" and "calm osd" and "user_object pid oid" and "252 \<le> length sense"
    and "nodes (files osd) (object_path osd pid oid) = None" and "obj_map (tabs (dbc osd)) (okey pid oid) = None"
  shows "\<exists>osd'. osd_remove osd pid oid sense = Some (0, sense, osd') \<and>
    obj_map (tabs (dbc osd')) = obj_map (tabs (dbc osd)) \<and> nodes (files osd') = nodes (files osd)"
  using remove_object [OF assms(1-4)] assms(5,6) by (auto simp: obj_map_removed fun_upd_idem)

text \<open>
  C15. Whatever the database answers, a partition in which an object or a collection lives is not
  removed: the command fails and the tables are as before.
\<close>

theorem full_partition_is_kept:
  assumes "dev_inv osd" and "room osd" and "252 \<le> length sense"
    and "r \<in> set (t_obj (tabs (dbc osd)))" and "o_pid r = sint pid" and "o_oid r \<noteq> 0"
  shows "\<exists>ret s osd'. osd_remove_partition osd pid sense = Some (ret, s, osd') \<and> ret \<noteq> 0 \<and> tabs (dbc osd') = tabs (dbc osd)"
proof -
  have good: "db_good (dbc osd)" "length (t_obj (tabs (dbc osd))) < 2 ^ 31"
    using assms(1,2) soundD by (simp_all add: dev_inv_def room_def)
  let ?Q = "\<lambda>(ret, s :: bytes, osd'). ret \<noteq> (0 :: int) \<and> tabs (dbc osd') = tabs (dbc osd)"
  have err: "total ?Q (out_cdb_err o' sense p q)" "total ?Q (out_not_empty o' sense p q)"
    if "tabs (dbc o') = tabs (dbc osd)" for o' p q
    using total_mono [OF error_answers_total(1) [OF assms(3)]] total_mono [OF error_answers_total(3) [OF assms(3)]] that
    by (auto simp: answered_def)
  have "total ?Q (osd_remove_partition osd pid sense)"
    unfolding osd_remove_partition_def
  proof (rule total_if, rule err(1) [OF refl], rule total_bind [OF obj_isempty_pid_total [OF good]], clarify)
    fix ret :: int and isempty d
    assume a: "asked (dbc osd) d" and c: "ret = 0 \<and> isempty = (\<forall>r \<in> set (t_obj (tabs (dbc osd))). o_pid r = sint pid \<longrightarrow> o_oid r = 0)
        \<or> ret \<noteq> 0 \<and> \<not> db_clean (dbc osd)"
    then have "(ret \<noteq> OSD_OK \<or> \<not> isempty) = True" using assms(4-6) by auto
    then show "total ?Q (let osd = osd\<lparr>dbc := d\<rparr> in
        if ret \<noteq> OSD_OK \<or> \<not> isempty then out_not_empty osd sense pid PARTITION_OID
        else do {
          (ret, d) \<leftarrow> attr_delete_all (dbc osd) pid PARTITION_OID;
          let osd = osd\<lparr>ic := no_cache, dbc := d\<rparr>;
          if ret \<noteq> 0 then out_hw_err osd sense pid PARTITION_OID
          else do {
            (ret, d) \<leftarrow> obj_delete (dbc osd) pid PARTITION_OID;
            let osd = osd\<lparr>dbc := d\<rparr>;
            if ret \<noteq> 0 then out_hw_err osd sense pid PARTITION_OID
            else Some (OSD_OK, sense, osd\<lparr>ccap := fill_ccap None PARTITION pid PARTITION_OID 0\<rparr>) } })"
      using err(2) [of "osd\<lparr>dbc := d\<rparr>"] a by (simp add: asked_def cong: if_cong)
  qed
  then show ?thesis by (auto simp: total_def)
qed

theorem full_partition_is_kept_witness:
  "\<exists>ret s osd'. osd_remove_partition full_device 0x10000 (replicate 252 0) = Some (ret, s, osd') \<and> ret \<noteq> 0 \<and>
    t_obj (tabs (dbc osd')) = [obj_row_of 0x10000 0 (ucast PARTITION), user_row 0x10000 0x10001]"
  using full_partition_is_kept [OF full_device(1,2), of "replicate 252 0" "user_row 0x10000 0x10001" "0x10000"]
  by (auto simp: obj_row_of_def) (auto simp: full_device_def obj_row_of_def)




lemma write_zero: "ddt \<noteq> DDT_VEC \<Longrightarrow> osd_write osd pid 0 len off data src sg sense ddt = out_cdb_err osd sense pid 0"
  by (simp add: osd_write_def contig_write_def sgl_write_def vec_write_def user_object_def osd_consts)

lemma remove_zero: "osd_remove osd pid 0 sense = out_cdb_err osd sense pid 0"
  by (simp add: osd_remove_def user_object_def osd_consts)

text \<open>
  CREATE AND WRITE for an identifier the target is to choose (request 0) creates an object, then
  writes to and removes the identifier 0 (with contiguous or scatter/gather data): the answer is an error, nothing is written, and the new
  object stays behind, empty.
\<close>

lemma create_and_write_leaves_object:
  assumes inv: "dev_inv osd" and rm: "room osd" and cl: "calm osd" and pid: "0x10000 \<le> pid"
    and part: "obj_map (tabs (dbc osd)) (okey pid 0) \<noteq> None" and st: "no_strays osd pid" and len: "252 \<le> length sense"
    and ddt: "ddt \<noteq> DDT_VEC"
  shows "\<exists>oid ret s osd'. osd_create_and_write osd pid 0 l off data src sg sense ddt = Some (ret, s, osd') \<and> ret \<noteq> 0 \<and>
    obj_map (tabs (dbc osd)) (okey pid oid) = None \<and>
    tabs (dbc osd') = (tabs (dbc osd))\<lparr>t_obj := t_obj (tabs (dbc osd)) @ [user_row pid oid]\<rparr> \<and>
    nodes (files osd') = (nodes (files osd))(object_path osd pid oid \<mapsto> RegFile [])"
proof -
  obtain oid osd2 where c: "osd_create osd pid 0 1 sense = create_tail osd2 pid 0 oid (at_least_one 1) sense"
    "sound osd2" "calm osd2" "tabs (dbc osd2) = tabs (dbc osd)" "files osd2 = files osd" "root osd2 = root osd"
    "user_object pid oid" "oid < oid + ucast (at_least_one 1)"
    "\<forall>k. oid \<le> k \<and> k < oid + ucast (at_least_one 1) \<longrightarrow> obj_map (tabs (dbc osd)) (okey pid k) = None"
    using osd_create_calm [OF inv rm cl pid part disjI1 [OF refl], of 1 sense] by blast
  have one: "at_least_one 1 = 1" by (simp add: at_least_one_def)
  have ids: "id_range oid (oid + ucast (1 :: u16)) = [oid]"
    using c(8) id_range_Cons [of oid "oid + 1"] id_range_Nil [of "oid + 1" "oid + 1"] by (simp add: one)
  have path: "object_path osd2 = object_path osd" by (simp add: fun_eq_iff object_path_def c(6))
  have new: "obj_map (tabs (dbc osd)) (okey pid oid) = None" using c(8,9) by simp
  then have free: "nodes (files osd) (object_path osd pid oid) = None" using st c(7) by (simp add: no_strays_def)
  obtain d i where t: "create_tail osd2 pid 0 oid 1 sense = Some (0, sense, osd2\<lparr>dbc := d,
      files := (files osd2)\<lparr>nodes := new_files osd2 pid [oid] (nodes (files osd2))\<rparr>,
      ic := i, ccap := fill_ccap None USEROBJECT pid (oid + ucast (1 :: u16) - 1) 0\<rparr>)"
    "tabs d = (tabs (dbc osd2))\<lparr>t_obj := t_obj (tabs (dbc osd2)) @ map (user_row pid) [oid]\<rparr>"
    using create_tail_success [OF c(2,7,3), of 1 0 sense] part new free unfolding ids c(4,5) path by auto
  define o1 where "o1 = osd2\<lparr>dbc := d, files := (files osd2)\<lparr>nodes := new_files osd2 pid [oid] (nodes (files osd2))\<rparr>,
      ic := i, ccap := fill_ccap None USEROBJECT pid (oid + ucast (1 :: u16) - 1) 0\<rparr>"
  have cr: "osd_create osd pid 0 1 sense = Some (0, sense, o1)" using c(1) t(1) by (simp add: one o1_def)
  have o1: "tabs (dbc o1) = (tabs (dbc osd))\<lparr>t_obj := t_obj (tabs (dbc osd)) @ [user_row pid oid]\<rparr>"
    "nodes (files o1) = (nodes (files osd))(object_path osd pid oid \<mapsto> RegFile [])"
    using t(2) c(4,5) path by (auto simp: o1_def new_files_def fun_eq_iff)
  obtain r1 s1 where e1: "out_cdb_err o1 sense pid 0 = Some (r1, s1, o1)" "r1 \<noteq> 0" "length s1 = length sense"
    using error_answers_total(1) [OF len, of o1 pid 0] by (auto simp: total_def answered_def)
  obtain r2 s2 where e2: "out_cdb_err o1 s1 pid 0 = Some (r2, s2, o1)"
    using error_answers_total(1) [of s1 o1 pid 0] e1(3) len by (auto simp: total_def answered_def)
  have "osd_create_and_write osd pid 0 l off data src sg sense ddt = Some (r1, s2, o1)"
    using e1(2) by (simp add: osd_create_and_write_def cr write_zero [OF ddt] remove_zero e1(1) e2)
  then show ?thesis using e1(2) new o1 by blast
qed

lemma create_and_write_leaves_object_witness:
  "\<exists>oid ret s osd'. osd_create_and_write (part_device Map.empty) 0x10000 0 2 0 [1, 2] 0 [] (replicate 252 0) DDT_CONTIG =
      Some (ret, s, osd') \<and> ret \<noteq> 0 \<and>
    t_obj (tabs (dbc osd')) = t_obj (tabs (dbc (part_device Map.empty))) @ [user_row 0x10000 oid]"
proof -
  have "no_strays (part_device Map.empty) 0x10000" by (simp add: no_strays_def part_device(6))
  from create_and_write_leaves_object [OF part_device(1-3) _ part_device(5) this, of "replicate 252 0" DDT_CONTIG 2 0 "[1, 2]" 0 "[]"]
  show ?thesis by (auto simp: osd_consts)
qed

end
