(* ===== verification/Osd_Life.thy ===== *)
theory Osd_Life
  imports Osd_Target Osd_Effects
begin

text \<open>
  The life of one object as the initiator sees it: created, written, read and removed by one
  descriptor block each; and what happens to a block for an object that is not there.
\<close>

section \<open>Lemmas: creating and removing on the device\<close>

lemma id_range_single: "user_object pid oid \<Longrightarrow> id_ok oid \<Longrightarrow> id_range oid (oid + 1) = [oid]"
proof -
  assume a: "user_object pid oid" "id_ok oid"
  have "oid < oid + 1" using a(2) by (auto simp: id_ok_def word_less_nat_alt unat_word_ariths)
  then show ?thesis using id_range_Cons [of oid "oid + 1"] id_range_Nil [of "oid + 1" "oid + 1"] by simp
qed

lemma create_object:
  assumes inv: "dev_inv osd" and rm: "room osd" and cl: "calm osd" and uo: "user_object pid oid" and ok: "id_ok oid"
    and part: "obj_map (tabs (dbc osd)) (okey pid 0) \<noteq> None" and new: "obj_map (tabs (dbc osd)) (okey pid oid) = None"
    and nf: "nodes (files osd) (object_path osd pid oid) = None" and len: "252 \<le> length sense"
  shows "\<exists>osd'. osd_create osd pid oid 1 sense = Some (0, sense, osd') \<and> dev_inv osd' \<and> root osd' = root osd \<and>
    db_frame (dbc osd) (dbc osd') \<and> ccap osd' = fill_ccap None USEROBJECT pid oid 0 \<and>
    files osd' = (files osd)\<lparr>nodes := (nodes (files osd))(object_path osd pid oid \<mapsto> RegFile [])\<rparr> \<and>
    tabs (dbc osd') = (tabs (dbc osd))\<lparr>t_obj := t_obj (tabs (dbc osd)) @ [user_row pid oid]\<rparr>"
proof -
  have b: "0x10000 \<le> pid" "0x10000 \<le> oid" "oid \<noteq> 0" using uo user_object_nonzero [OF uo] by (auto simp: user_object_def osd_consts)
  have one: "at_least_one 1 = 1" by (simp add: at_least_one_def)
  note ids = id_range_single [OF uo ok]
  obtain osd2 where c: "osd_create osd pid oid 1 sense = create_tail osd2 pid oid oid 1 sense" "sound osd2" "calm osd2"
    "tabs (dbc osd2) = tabs (dbc osd)" "files osd2 = files osd" "root osd2 = root osd" "db_frame (dbc osd) (dbc osd2)"
    using osd_create_calm [OF inv rm cl b(1) part, of oid 1 sense] b ok new unfolding one by auto
  have path: "object_path osd2 = object_path osd" by (simp add: fun_eq_iff object_path_def c(6))
  obtain d i where d: "create_tail osd2 pid oid oid 1 sense = Some (0, sense, osd2\<lparr>dbc := d,
      files := (files osd2)\<lparr>nodes := new_files osd2 pid [oid] (nodes (files osd2))\<rparr>,
      ic := i, ccap := fill_ccap None USEROBJECT pid (oid + 1 - 1) 0\<rparr>)" "db_frame (dbc osd2) d"
    "tabs d = (tabs (dbc osd2))\<lparr>t_obj := t_obj (tabs (dbc osd2)) @ [user_row pid oid]\<rparr>"
    using create_tail_success [OF c(2) uo c(3), of 1 oid sense] part new nf by (auto simp: ids c(4,5) path)
  have nodes: "new_files osd2 pid [oid] (nodes (files osd)) = (nodes (files osd))(object_path osd pid oid \<mapsto> RegFile [])"
    by (simp add: new_files_def path fun_eq_iff)
  let ?osd' = "osd2\<lparr>dbc := d, files := (files osd)\<lparr>nodes := (nodes (files osd))(object_path osd pid oid \<mapsto> RegFile [])\<rparr>,
      ic := i, ccap := fill_ccap None USEROBJECT pid oid 0\<rparr>"
  have r: "osd_create osd pid oid 1 sense = Some (0, sense, ?osd')"
    using c(1) d(1) by (simp add: c(5) nodes)
  have "dev_inv ?osd'" using osd_create_total [OF inv rm ok len, of pid 1] r by (simp add: total_def cmd_post_def)
  then show ?thesis using r d(2,3) c(4,6) db_frame_trans [OF c(7) d(2)] by (intro exI [of _ ?osd']) simp
qed

lemma removed_new:
  assumes "obj_map t (okey pid oid) = None"
  shows "t_obj (removed pid oid (t\<lparr>t_obj := t_obj t @ [user_row pid oid]\<rparr>)) = t_obj t"
proof -
  have "filter (\<lambda>r. \<not> (o_pid r = sint pid \<and> o_oid r = sint oid)) (t_obj t) = t_obj t"
    using assms obj_map_some [of t "sint pid" "sint oid"] by (auto simp: filter_id_conv)
  then show ?thesis
    by (simp add: removed_def del_obj_def del_memberships_def del_attrs_def delete_rows_def obj_row_of_def)
qed

section \<open>Lemmas: the blocks\<close>

lemma txn_device:
  "snd (osd_begin_txn osd) = osd\<lparr>dbc := snd (db_begin_txn (dbc osd))\<rparr>"
  "snd (osd_end_txn osd) = osd\<lparr>dbc := snd (db_end_txn (dbc osd))\<rparr>"
  by (simp_all add: osd_begin_txn_def osd_end_txn_def split: prod.split)

lemma txn_tables:
  "tabs (snd (db_begin_txn d)) = tabs d" "tabs (snd (db_end_txn d)) = tabs d"
  "db_clean (snd (db_begin_txn d)) = db_clean d" "db_clean (snd (db_end_txn d)) = db_clean d"
  by (cases "next_event True (exec_evs d)"; simp add: db_begin_txn_def db_end_txn_def sq_exec_def db_clean_def)+

lemma txn_clean:
  assumes "calm osd"
  shows "calm (snd (osd_begin_txn osd))" "calm (snd (osd_end_txn osd))"
    "root (snd (osd_begin_txn osd)) = root osd" "root (snd (osd_end_txn osd)) = root osd"
    "tabs (dbc (snd (osd_begin_txn osd))) = tabs (dbc osd)" "tabs (dbc (snd (osd_end_txn osd))) = tabs (dbc osd)"
    "files (snd (osd_begin_txn osd)) = files osd" "files (snd (osd_end_txn osd)) = files osd"
    "ccap (snd (osd_end_txn osd)) = ccap osd"
  using assms by (simp_all add: txn_device txn_tables calm_def)

lemma request_attribute_parts:
  assumes "request (c_cdb cmd) action pid oid len off" and "getset_cdbfmt cmd = GETFIELD_SETVALUE"
  shows "set_attributes cmd p q 1 = Some (0, cmd)" "get_attributes st cmd p q 1 = Some (0, cmd)"
proof -
  note r = requestD [OF assms(1)]
  have "56 + 4 \<le> length (c_cdb cmd)" "60 + 2 \<le> length (c_cdb cmd)" using r(11) by simp_all
  then obtain n l where "get_ntohl (c_cdb cmd) 56 = Some n" "get_ntohs (c_cdb cmd) 60 = Some l"
    using ntohl.get_defined [of "c_cdb cmd" 56] ntohs.get_defined [of "c_cdb cmd" 60] by auto
  then show "set_attributes cmd p q 1 = Some (0, cmd)" "get_attributes st cmd p q 1 = Some (0, cmd)"
    using assms(2) r(10) by (simp_all add: set_attributes_def get_attributes_def set_one_attr_value_def osd_consts)
qed

text \<open>The sense buffer a command starts with.\<close>

lemma new_sense: "252 \<le> length (replicate OSD_MAX_SENSE (0 :: u8))"
  by (simp add: OSD_MAX_SENSE_def)

lemma request_create:
  assumes r: "request cdb OSD_CREATE pid oid n x" and num: "get_ntohs cdb 32 = Some 1"
    and inv: "dev_inv osd" and rm: "room osd" and cl: "calm osd" and uo: "user_object pid oid" and ok: "id_ok oid"
    and part: "obj_map (tabs (dbc osd)) (okey pid 0) \<noteq> None" and new: "obj_map (tabs (dbc osd)) (okey pid oid) = None"
    and nf: "nodes (files osd) (object_path osd pid oid) = None"
  shows "\<exists>osd'. osdemu_cmd_submit st osd cdb None 0 None 0 = Some \<lparr>r_status = SAM_STAT_GOOD, r_data = None, r_len = 0,
      r_sense = [], r_osd = osd'\<rparr> \<and> dev_inv osd' \<and> calm osd' \<and> root osd' = root osd \<and>
    files osd' = (files osd)\<lparr>nodes := (nodes (files osd))(object_path osd pid oid \<mapsto> RegFile [])\<rparr> \<and>
    tabs (dbc osd') = (tabs (dbc osd))\<lparr>t_obj := t_obj (tabs (dbc osd)) @ [user_row pid oid]\<rparr>"
proof -
  let ?cmd = "request_command osd cdb OSD_CREATE None 0 0 None" and ?b = "snd (osd_begin_txn osd)"
  let ?s = "replicate OSD_MAX_SENSE (0 :: u8)"
  note q = requestD [OF r]
  note b = txn_clean [OF cl]
  have p: "object_path ?b = object_path osd" by (simp add: fun_eq_iff object_path_def b(3))
  obtain o1 where o1: "osd_create ?b pid oid 1 ?s = Some (0, ?s, o1)" "dev_inv o1" "root o1 = root osd"
    "db_frame (dbc ?b) (dbc o1)" "ccap o1 = fill_ccap None USEROBJECT pid oid 0"
    "files o1 = (files osd)\<lparr>nodes := (nodes (files osd))(object_path osd pid oid \<mapsto> RegFile [])\<rparr>"
    "tabs (dbc o1) = (tabs (dbc osd))\<lparr>t_obj := t_obj (tabs (dbc osd)) @ [user_row pid oid]\<rparr>"
    using create_object [of ?b pid oid ?s] txn_dev_inv(1) [OF inv] rm txn_room [of osd] b(1,3,5,7) uo ok part new nf new_sense
    unfolding p by auto
  have c1: "calm o1" using o1(4,6) b(1) cl by (auto simp: calm_def db_clean_def db_frame_def fs_clean_def)
  note e = txn_clean [OF c1]
  let ?osd = "snd (osd_end_txn o1)"
  let ?cmd' = "?cmd\<lparr>c_sense := ?s, c_osd := ?osd\<rparr>"
  have attr: "set_attributes ?cmd' pid oid 1 = Some (0, ?cmd')" "get_attributes st ?cmd' pid oid 1 = Some (0, ?cmd')"
    using request_attribute_parts [of ?cmd' OSD_CREATE pid oid n x] r by (simp_all add: request_command_def new_command_def)
  obtain pg where pg: "get_ntohl cdb 52 = Some pg" using q(10) by blast
  have "cdb_create st ?cmd = Some (0, ?cmd')"
    using q num o1(1) attr e(9) o1(5)
    by (simp add: cdb_create_def request_command_def new_command_def pid_of_def oid_of_def begin_txn_def end_txn_def
        on_device_def osd_get_created_oid_def fill_ccap_def)
  then have "exec_action st ?cmd 0 = Some (0, ?cmd')"
    using q by (simp add: exec_actions osd_consts request_command_def new_command_def no_continuation_def
        pid_of_def oid_of_def check_no_continuations_def and_then_def)
  from request_submit [OF r _ _ _ _ this] have "osdemu_cmd_submit st osd cdb None 0 None 0 = Some \<lparr>r_status = SAM_STAT_GOOD,
      r_data = None, r_len = 0, r_sense = [], r_osd = ?osd\<rparr>"
    by (simp add: request_command_def new_command_def osd_consts)
  then show ?thesis using txn_dev_inv(2) [OF o1(2)] e(2,4,6,8) o1(3,6,7) by (intro exI [of _ ?osd]) simp
qed

lemma request_remove:
  assumes r: "request cdb OSD_REMOVE pid oid n x" and inv: "dev_inv osd" and cl: "calm osd" and uo: "user_object pid oid"
    and nd: "nodes (files osd) (object_path osd pid oid) \<noteq> Some Directory"
  shows "\<exists>osd'. osdemu_cmd_submit st osd cdb None 0 None 0 = Some \<lparr>r_status = SAM_STAT_GOOD, r_data = None, r_len = 0,
      r_sense = [], r_osd = osd'\<rparr> \<and> dev_inv osd' \<and> calm osd' \<and> root osd' = root osd \<and> tabs (dbc osd') = removed pid oid (tabs (dbc osd)) \<and>
    nodes (files osd') = (nodes (files osd))(object_path osd pid oid := None)"
proof -
  let ?cmd = "request_command osd cdb OSD_REMOVE None 0 0 None" and ?s = "replicate OSD_MAX_SENSE (0 :: u8)"
  note q = requestD [OF r]
  obtain o1 where o1: "osd_remove osd pid oid ?s = Some (0, ?s, o1)" "dev_inv o1" "calm o1" "root o1 = root osd"
    "tabs (dbc o1) = removed pid oid (tabs (dbc osd))" "nodes (files o1) = (nodes (files osd))(object_path osd pid oid := None)"
    using remove_object [OF inv cl uo new_sense nd] by blast
  let ?cmd' = "?cmd\<lparr>c_sense := ?s, c_osd := o1\<rparr>"
  have "std_get_set_attr st ?cmd pid oid = Some (0, ?cmd)"
    using request_no_attributes [of ?cmd OSD_REMOVE pid oid n x] r by (simp add: request_command_def new_command_def)
  then have "cdb_remove st ?cmd = Some (0, ?cmd')"
    using q o1(1) by (simp add: cdb_remove_def request_command_def new_command_def pid_of_def oid_of_def on_device_def)
  then have "exec_action st ?cmd 0 = Some (0, ?cmd')"
    using q by (simp add: exec_actions osd_consts request_command_def new_command_def no_continuation_def
        pid_of_def oid_of_def check_no_continuations_def and_then_def)
  from request_submit [OF r _ _ _ _ this] have "osdemu_cmd_submit st osd cdb None 0 None 0 = Some \<lparr>r_status = SAM_STAT_GOOD,
      r_data = None, r_len = 0, r_sense = [], r_osd = o1\<rparr>"
    by (simp add: request_command_def new_command_def osd_consts)
  then show ?thesis using o1(2-6) by (intro exI [of _ o1]) simp
qed

section \<open>Lemmas: an object that is not there\<close>

lemma buf_get_take: "i + k \<le> n \<Longrightarrow> n \<le> length s \<Longrightarrow> buf_get (take n s) i k = buf_get s i k"
proof -
  assume a: "i + k \<le> n" "n \<le> length s"
  have "take k (drop i (take n s)) = take (min k (n - i)) (drop i s)" by (simp only: drop_take take_take)
  also have "min k (n - i) = k" using a(1) by simp
  finally show ?thesis using a by (simp only: buf_get_def length_take min_absorb2 if_P order_trans)
qed

lemma get_ntohll_take: "i + 8 \<le> n \<Longrightarrow> n \<le> length s \<Longrightarrow> get_ntohll (take n s) i = get_ntohll s i"
proof -
  assume a: "i + 8 \<le> n" "n \<le> length s"
  show ?thesis unfolding ntohll.getv_eq [of "take n s"] ntohll.getv_eq [of s] buf_get_take [OF a] by (rule refl)
qed

text \<open>The sense data that name the object, as an initiator gets them.\<close>

definition refused :: "u64 \<Rightarrow> u64 \<Rightarrow> bytes \<Rightarrow> bool" where
  "refused pid oid s \<longleftrightarrow> length s = 40 \<and> take 4 s = [0x72, OSD_SSK_ILLEGAL_REQUEST, 0x24, 0] \<and>
     get_ntohll s 24 = Some pid \<and> get_ntohll s 32 = Some oid"

lemma sense_refused:
  assumes "252 \<le> length sense"
  shows "\<exists>s. sense_build_sdd sense OSD_SSK_ILLEGAL_REQUEST OSD_ASC_INVALID_FIELD_IN_CDB pid oid = Some (40, s) \<and>
    buf_get s 0 40 = Some (take 40 s) \<and> refused pid oid (take 40 s) \<and>
    sense_test_type s OSD_SSK_RECOVERED_ERROR OSD_ASC_READ_PAST_END_OF_USER_OBJECT = Some False"
proof -
  obtain s where s: "sense_build_sdd sense OSD_SSK_ILLEGAL_REQUEST OSD_ASC_INVALID_FIELD_IN_CDB pid oid = Some (40, s)"
    "length s = length sense" "buf_get s 0 4 = Some [0x72, OSD_SSK_ILLEGAL_REQUEST, 0x24, 0]"
    "get_ntohll s 24 = Some pid" "get_ntohll s 32 = Some oid"
    using sense_build_sdd_ok [OF assms, of OSD_SSK_ILLEGAL_REQUEST OSD_ASC_INVALID_FIELD_IN_CDB pid oid]
    by (auto simp: ASC_def ASCQ_def osd_consts)
  have t: "take 4 s = [0x72, OSD_SSK_ILLEGAL_REQUEST, 0x24, 0]" using s(3) by (simp add: buf_get_def split: if_splits)
  then have "take 3 (drop 1 s) = [OSD_SSK_ILLEGAL_REQUEST, 0x24, 0]" using drop_take [of 1 4 s] by simp
  then have "sense_test_type s OSD_SSK_RECOVERED_ERROR OSD_ASC_READ_PAST_END_OF_USER_OBJECT = Some False"
    using s(2) assms by (simp add: sense_test_type_def buf_get_def osd_consts)
  moreover have "refused pid oid (take 40 s)"
    using s(2,4,5) assms t by (simp add: refused_def get_ntohll_take)
  moreover have "buf_get s 0 40 = Some (take 40 s)" using s(2) assms by (simp add: buf_get_def)
  ultimately show ?thesis using s(1) by blast
qed

lemma open_missing: "nodes f p = None \<Longrightarrow> fs_open w p f = (False, snd (io_next f))"
  by (auto simp: fs_open_def io_next_def split: list.split)

lemma io_next_keeps: "nodes (snd (io_next f)) = nodes f" "open_fds (snd (io_next f)) = open_fds f"
  by (simp_all add: io_next_def split: list.split)

section \<open>Properties\<close>

text \<open>
  C4. An object lives as the initiator asks. On a target where nothing fails, a CREATE block for a free
  identifier of a partition, a WRITE block with its data, a READ block for the same range and a REMOVE
  block are all answered with GOOD; the object appears in the table with an empty file, the read returns
  the bytes that were written, and in the end the table of the objects and the files are as they were.
\<close>

theorem target_object_life:
  assumes "dev_inv osd" and "room osd" and "calm osd" and "user_object pid oid" and "id_ok oid"
    and "obj_map (tabs (dbc osd)) (okey pid 0) \<noteq> None" and "obj_map (tabs (dbc osd)) (okey pid oid) = None"
    and "nodes (files osd) (object_path osd pid oid) = None"
    and "request ccdb OSD_CREATE pid oid n x" and "get_ntohs ccdb 32 = Some 1"
    and "request wcdb OSD_WRITE pid oid len off" and "request rcdb OSD_READ pid oid len off"
    and "request dcdb OSD_REMOVE pid oid y z"
    and "unat len \<le> rw_max" and "len \<noteq> 0" and "unat off < 2 ^ 63"
    and "unat len \<le> length data" and "length data < 2 ^ 64"
    and "s_malloc st len = Some m" and "length m = unat len"
  shows "\<exists>r1 r2 r3 r4. osdemu_cmd_submit st osd ccdb None 0 None 0 = Some r1 \<and>
    osdemu_cmd_submit st (r_osd r1) wcdb (Some data) (of_nat (length data)) None 0 = Some r2 \<and>
    osdemu_cmd_submit st (r_osd r2) rcdb None 0 None 0 = Some r3 \<and>
    osdemu_cmd_submit st (r_osd r3) dcdb None 0 None 0 = Some r4 \<and>
    (\<forall>r \<in> {r1, r2, r3, r4}. r_status r = SAM_STAT_GOOD) \<and>
    obj_map (tabs (dbc (r_osd r1))) = (obj_map (tabs (dbc osd)))(okey pid oid \<mapsto> uint USEROBJECT) \<and>
    nodes (files (r_osd r1)) = (nodes (files osd))(object_path osd pid oid \<mapsto> RegFile []) \<and>
    r_data r3 = Some (take (unat len) data) \<and>
    t_obj (tabs (dbc (r_osd r4))) = t_obj (tabs (dbc osd)) \<and> nodes (files (r_osd r4)) = nodes (files osd)"
proof -
  let ?p = "object_path osd pid oid" and ?cc = "fill_ccap None USEROBJECT pid oid 0"
  let ?bs = "take (unat len) data"
  let ?c = "write_at [] (unat off) ?bs"
  obtain o1 where o1: "osdemu_cmd_submit st osd ccdb None 0 None 0 = Some \<lparr>r_status = SAM_STAT_GOOD, r_data = None, r_len = 0,
      r_sense = [], r_osd = o1\<rparr>" "dev_inv o1" "calm o1" "root o1 = root osd"
    "files o1 = (files osd)\<lparr>nodes := (nodes (files osd))(?p \<mapsto> RegFile [])\<rparr>"
    "tabs (dbc o1) = (tabs (dbc osd))\<lparr>t_obj := t_obj (tabs (dbc osd)) @ [user_row pid oid]\<rparr>"
    using request_create [OF assms(9,10,1-8), of st] by blast
  have "get_dfile_name (root osd) pid oid = Some ?p"
    using object_path soundD(4) [of osd] assms(1) user_object_nonzero [OF assms(4)] by (simp add: dev_inv_def)
  then have f1: "object_file o1 pid oid ?p []" using o1(3-5) assms(4) by (simp add: object_file_def calm_def)
  let ?o2 = "file_replaced o1 ?p ?c ?cc"
  let ?o3 = "?o2\<lparr>ccap := ?cc\<rparr>"
  note w = request_write [OF assms(11) f1 assms(14,16,17,18), of st]
  have lb: "length ?bs = unat len" using assms(17) by simp
  then have "?bs \<noteq> []" using assms(15) by (metis list.size(3) unat_eq_0)
  then have long: "unat off + unat len \<le> length ?c" using lb by (simp add: write_at_length)
  have same: "take (unat len) (drop (unat off) ?c) = ?bs" using write_at_same [of ?bs "unat off" "[]"] lb by simp
  note rd = request_read [OF assms(12) object_file_replaced [OF f1, of ?c ?cc] assms(14,16) long assms(15,19,20), unfolded same]
  have p3: "object_path ?o3 pid oid = ?p" by (simp add: object_path_def file_replaced_def o1(4))
  have "dev_inv ?o3" "calm ?o3" using o1(2,3) by (simp_all add: file_replaced_def dev_inv_def calm_def fs_clean_def)
  from request_remove [OF assms(13) this assms(4), of st] obtain o4 where o4:
    "osdemu_cmd_submit st ?o3 dcdb None 0 None 0 = Some \<lparr>r_status = SAM_STAT_GOOD, r_data = None, r_len = 0, r_sense = [], r_osd = o4\<rparr>"
    "tabs (dbc o4) = removed pid oid (tabs (dbc o1))" "nodes (files o4) = (nodes (files ?o3))(?p := None)"
    unfolding p3 by (auto simp: file_replaced_def)
  have "nodes (files o4) = nodes (files osd)" using o4(3) o1(5) assms(8) by (auto simp: file_replaced_def)
  moreover have "t_obj (tabs (dbc o4)) = t_obj (tabs (dbc osd))" using removed_new [OF assms(7)] o1(6) o4(2) by simp
  moreover have "obj_map (tabs (dbc o1)) = (obj_map (tabs (dbc osd)))(okey pid oid \<mapsto> uint USEROBJECT)"
    unfolding o1(6) by (simp add: obj_map_append [OF assms(7)] osd_consts)
  ultimately show ?thesis
    using o1(1,5) w rd o4(1)
    by (intro exI [of _ "\<lparr>r_status = SAM_STAT_GOOD, r_data = None, r_len = 0, r_sense = [], r_osd = o1\<rparr>"]
        exI [of _ "\<lparr>r_status = SAM_STAT_GOOD, r_data = None, r_len = 0, r_sense = [], r_osd = ?o2\<rparr>"]
        exI [of _ "\<lparr>r_status = SAM_STAT_GOOD, r_data = Some ?bs, r_len = len, r_sense = [], r_osd = ?o3\<rparr>"]
        exI [of _ "\<lparr>r_status = SAM_STAT_GOOD, r_data = None, r_len = 0, r_sense = [], r_osd = o4\<rparr>"]) simp
qed

text \<open>The blocks for the object \<open>0x10001\<close>, on a device with one partition and no files.\<close>

lemma life_requests:
  "request ((sample_cdb 0x88 0x82)[33 := 1]) OSD_CREATE 0x10000 0x10001 0x1000000000002 5"
  "get_ntohs ((sample_cdb 0x88 0x82)[33 := 1]) 32 = Some 1"
  "request (sample_cdb 0x88 0x8a) OSD_REMOVE 0x10000 0x10001 2 5"
  by code_simp+

theorem target_object_life_witness:
  "\<exists>r1 r2 r3 r4. osdemu_cmd_submit blank (part_device Map.empty) ((sample_cdb 0x88 0x82)[33 := 1]) None 0 None 0 = Some r1 \<and>
     osdemu_cmd_submit blank (r_osd r1) (sample_cdb 0x88 0x86) (Some [7, 8]) 2 None 0 = Some r2 \<and>
     osdemu_cmd_submit blank (r_osd r2) (sample_cdb 0x88 0x85) None 0 None 0 = Some r3 \<and>
     osdemu_cmd_submit blank (r_osd r3) (sample_cdb 0x88 0x8a) None 0 None 0 = Some r4 \<and>
     r_data r3 = Some [7, 8] \<and> nodes (files (r_osd r4)) = Map.empty"
proof -
  let ?d = "part_device Map.empty"
  have m: "s_malloc blank 2 = Some [0, 0]" by code_simp
  have "user_object 0x10000 0x10001" "id_ok 0x10001" by (simp_all add: user_object_def osd_consts id_ok_def)
  moreover have "obj_map (tabs (dbc ?d)) (okey 0x10000 0x10001) = None"
    by (simp add: part_device_def obj_map_def obj_key_def obj_row_of_def osd_consts)
  ultimately show ?thesis
    using target_object_life [OF part_device(1-3) [of Map.empty] _ _ part_device(5) _ _ life_requests(1,2) sample_request life_requests(3),
        where data = "[7, 8]", OF _ _ _ _ _ _ _ _ _ m] by (auto simp: part_device(6) rw_max_def)
qed

text \<open>
  C7. A WRITE or a READ block for a user object that has no data file is answered with CHECK CONDITION and
  sense data of 40 bytes, an illegal request with an invalid field that names the object, without
  data; whatever the file system answers, the database and the files are as they were and no file
  stays open.
\<close>

theorem target_missing_object:
  assumes "root_fits osd" and "user_object pid oid" and "nodes (files osd) (object_path osd pid oid) = None"
    and "request wcdb OSD_WRITE pid oid len off" and "request rcdb OSD_READ pid oid len off"
    and "unat len \<le> length data" and "length data < 2 ^ 64" and "s_malloc st len = Some m"
  shows "\<exists>w r. osdemu_cmd_submit st osd wcdb (Some data) (of_nat (length data)) None 0 = Some w \<and>
    osdemu_cmd_submit st osd rcdb None 0 None 0 = Some r \<and>
    (\<forall>a \<in> {w, r}. r_status a = SAM_STAT_CHECK_CONDITION \<and> r_data a = None \<and> r_len a = 0 \<and> refused pid oid (r_sense a) \<and>
      dbc (r_osd a) = dbc osd \<and> nodes (files (r_osd a)) = nodes (files osd) \<and>
      open_fds (files (r_osd a)) = open_fds (files osd))"
proof -
  let ?osd = "osd\<lparr>files := snd (io_next (files osd))\<rparr>" and ?sense = "replicate OSD_MAX_SENSE (0 :: u8)"
  have path: "get_dfile_name (root osd) pid oid = Some (object_path osd pid oid)"
    using object_path [OF assms(1)] user_object_nonzero [OF assms(2)] by simp
  obtain s where s: "sense_build_sdd ?sense OSD_SSK_ILLEGAL_REQUEST OSD_ASC_INVALID_FIELD_IN_CDB pid oid = Some (40, s)"
    "buf_get s 0 40 = Some (take 40 s)" "refused pid oid (take 40 s)"
    "sense_test_type s OSD_SSK_RECOVERED_ERROR OSD_ASC_READ_PAST_END_OF_USER_OBJECT = Some False"
    using sense_refused [OF new_sense] by blast
  let ?w = "request_command osd wcdb OSD_WRITE (Some data) (of_nat (length data)) 0 None"
  let ?b = "if len \<noteq> 0 then s_malloc st len else None"
  let ?r = "request_command osd rcdb OSD_READ None 0 len ?b"
  have n: "unat (of_nat (length data) :: u64) = length data" using assms(7) by (simp add: unsigned_of_nat take_bit_nat_eq_self)
  have w: "exec_action st ?w 0 = Some (40, ?w\<lparr>c_sense := s, c_osd := ?osd\<rparr>)"
    using requestD [OF assms(4)] n assms(2,6) s(1) path open_missing [OF assms(3)]
    by (simp add: exec_actions exec_write_def request_command_def new_command_def pid_of_def oid_of_def len_of_def
        offset_of_def verify_enough_input_data_def and_then_def word_less_nat_alt warn_descriptors_def bad_descriptors_def
        transfer_kind_def on_device_def osd_write_def contig_write_def out_cdb_err_def with_sense_def osd_consts)
  have r: "exec_action st ?r 0 = Some (40, put_outdata (outdata ?r) (?r\<lparr>c_sense := s, c_osd := ?osd\<rparr>))"
    using requestD [OF assms(5)] assms(2) s(1,4) path open_missing [OF assms(3)]
    by (simp add: exec_actions cdb_read_def request_command_def new_command_def pid_of_def oid_of_def len_of_def
        offset_of_def bad_descriptors_def transfer_kind_def with_output_def osd_read_device_def contig_read_def
        with_out_def out_cdb_err_def with_sense_def outdata_def put_outdata_def osd_consts)
  have "osdemu_cmd_submit st osd wcdb (Some data) (of_nat (length data)) None 0 = Some \<lparr>r_status = SAM_STAT_CHECK_CONDITION,
      r_data = None, r_len = 0, r_sense = take 40 s, r_osd = ?osd\<rparr>"
    using request_reply [OF assms(4) _ _ _ _ w] s(2) by (simp add: request_command_def new_command_def reply_with_def osd_consts)
  moreover have "osdemu_cmd_submit st osd rcdb None 0 None 0 = Some \<lparr>r_status = SAM_STAT_CHECK_CONDITION,
      r_data = None, r_len = 0, r_sense = take 40 s, r_osd = ?osd\<rparr>"
    using request_reply [OF assms(5) _ _ _ _ r] s(2) assms(8)
    by (simp add: request_command_def new_command_def reply_with_def put_outdata_def osd_consts)
  ultimately show ?thesis
    using s(3) io_next_keeps
    by (intro exI [of _ "\<lparr>r_status = SAM_STAT_CHECK_CONDITION, r_data = None, r_len = 0, r_sense = take 40 s, r_osd = ?osd\<rparr>"]) simp
qed

theorem target_missing_object_witness:
  "\<exists>w r. osdemu_cmd_submit blank (part_device Map.empty) (sample_cdb 0x88 0x86) (Some [7, 8]) 2 None 0 = Some w \<and>
     osdemu_cmd_submit blank (part_device Map.empty) (sample_cdb 0x88 0x85) None 0 None 0 = Some r \<and>
     r_status w = SAM_STAT_CHECK_CONDITION \<and> refused 0x10000 0x10001 (r_sense r)"
proof -
  have m: "s_malloc blank 2 = Some [0, 0]" by code_simp
  have "user_object 0x10000 0x10001" by (simp add: user_object_def osd_consts)
  from target_missing_object [OF part_device(4) [of Map.empty] this _ sample_request, where data = "[7, 8]", OF _ _ _ m]
  show ?thesis by (auto simp: part_device(6))
qed

end
