(* ===== verification/Osd_Store.thy ===== *)
theory Osd_Store
  imports Osd_Life
begin

text \<open>
  The target as an object store: a map from identifiers to contents, on which CREATE, WRITE, READ and
  REMOVE blocks act. The database and the files of a target that holds nothing but user objects are
  an implementation of it.
\<close>

section \<open>The abstract store\<close>

type_synonym store = "u64 \<times> u64 \<rightharpoonup> bytes"

datatype store_op = Make | Put nat bytes | Get nat nat | Drop

text \<open>What an operation returns and the store after it; not every operation is possible.\<close>

fun store_step :: "store_op \<Rightarrow> u64 \<times> u64 \<Rightarrow> store \<Rightarrow> (bytes option \<times> store) option" where
  "store_step Make k s = (if s k = None then Some (None, s(k \<mapsto> [])) else None)"
| "store_step (Put off bs) k s = map_option (\<lambda>c. (None, s(k \<mapsto> write_at c off bs))) (s k)"
| "store_step (Get off n) k s = (case s k of None \<Rightarrow> None
     | Some c \<Rightarrow> if off + n \<le> length c then Some (Some (take n (drop off c)), s) else None)"
| "store_step Drop k s = map_option (\<lambda>_. (None, s(k := None))) (s k)"

text \<open>The block of an operation and the data that come with it.\<close>

fun asks :: "store_op \<Rightarrow> u64 \<Rightarrow> u64 \<Rightarrow> bytes \<Rightarrow> bytes option \<Rightarrow> bool" where
  "asks Make pid oid cdb data \<longleftrightarrow> (\<exists>len off. request cdb OSD_CREATE pid oid len off) \<and> get_ntohs cdb 32 = Some 1 \<and> data = None"
| "asks (Put p bs) pid oid cdb data \<longleftrightarrow> request cdb OSD_WRITE pid oid (of_nat (length bs)) (of_nat p) \<and> p < 2 ^ 63 \<and>
     length bs \<le> rw_max \<and> data = Some bs"
| "asks (Get p n) pid oid cdb data \<longleftrightarrow> request cdb OSD_READ pid oid (of_nat n) (of_nat p) \<and> p < 2 ^ 63 \<and>
     0 < n \<and> n \<le> rw_max \<and> data = None"
| "asks Drop pid oid cdb data \<longleftrightarrow> (\<exists>len off. request cdb OSD_REMOVE pid oid len off) \<and> data = None"

definition data_len :: "bytes option \<Rightarrow> u64" where
  "data_len data = of_nat (length (case data of None \<Rightarrow> [] | Some b \<Rightarrow> b))"

text \<open>A quiet target that holds the objects of the store and no collections.\<close>

definition holds_store :: "osd_device \<Rightarrow> store \<Rightarrow> bool" where
  "holds_store osd s \<longleftrightarrow> dev_inv osd \<and> calm osd \<and> (\<forall>pid oid. user_object pid oid \<longrightarrow>
     obj_map (tabs (dbc osd)) (okey pid oid) = map_option (\<lambda>_. uint USEROBJECT) (s (pid, oid)) \<and>
     nodes (files osd) (object_path osd pid oid) = map_option RegFile (s (pid, oid)))"

section \<open>Lemmas\<close>

lemma holds_storeD:
  assumes "holds_store osd s" and "user_object pid oid"
  shows "obj_map (tabs (dbc osd)) (okey pid oid) = map_option (\<lambda>_. uint USEROBJECT) (s (pid, oid))"
    "nodes (files osd) (object_path osd pid oid) = map_option RegFile (s (pid, oid))"
  using assms by (auto simp: holds_store_def)

lemma path_root: "root osd' = root osd \<Longrightarrow> object_path osd' = object_path osd"
  by (simp add: object_path_def fun_eq_iff)

text \<open>One object changes, in the table, in the files and in the store.\<close>

lemma holds_store_update:
  assumes h: "holds_store osd s" and uo: "user_object pid oid" and inv: "dev_inv osd'" "calm osd'" "root osd' = root osd"
    and rows: "obj_map (tabs (dbc osd')) = (obj_map (tabs (dbc osd)))(okey pid oid := ty)"
    and fl: "nodes (files osd') = (nodes (files osd))(object_path osd pid oid := map_option RegFile v)"
    and ty: "ty = map_option (\<lambda>_. uint USEROBJECT) v"
  shows "holds_store osd' (s((pid, oid) := v))"
proof -
  have fit: "root_fits osd" using h soundD(4) [of osd] by (simp add: holds_store_def dev_inv_def)
  have "obj_map (tabs (dbc osd')) (okey p q) = map_option (\<lambda>_. uint USEROBJECT) ((s((pid, oid) := v)) (p, q)) \<and>
      nodes (files osd') (object_path osd p q) = map_option RegFile ((s((pid, oid) := v)) (p, q))"
    if q: "user_object p q" for p q
  proof (cases "p = pid \<and> q = oid")
    case True
    then show ?thesis by (simp add: rows fl ty)
  next
    case False
    have "object_path osd p q = object_path osd pid oid \<longleftrightarrow> p = pid \<and> q = oid"
      using object_path_eq [OF fit, of q oid p pid] user_object_nonzero [OF q] user_object_nonzero [OF uo] by simp
    then have "nodes (files osd') (object_path osd p q) = nodes (files osd) (object_path osd p q)" using False by (simp add: fl)
    moreover have "okey p q \<noteq> okey pid oid" using False signed_word_eqI by auto
    then have "obj_map (tabs (dbc osd')) (okey p q) = obj_map (tabs (dbc osd)) (okey p q)" unfolding rows by (rule fun_upd_other)
    moreover have "(s((pid, oid) := v)) (p, q) = s (p, q)" using False by auto
    ultimately show ?thesis using holds_storeD [OF h q] by simp
  qed
  then show ?thesis using inv(1,2) unfolding holds_store_def path_root [OF inv(3)] by blast
qed

lemma store_file:
  assumes "holds_store osd s" and "user_object pid oid" and "s (pid, oid) = Some c"
  shows "object_file osd pid oid (object_path osd pid oid) c"
proof -
  have "get_dfile_name (root osd) pid oid = Some (object_path osd pid oid)"
    using assms(1) object_path soundD(4) [of osd] user_object_nonzero [OF assms(2)] by (simp add: holds_store_def dev_inv_def)
  then show ?thesis
    using assms holds_storeD(2) [OF assms(1,2)] by (simp add: object_file_def holds_store_def calm_def)
qed

lemma holds_store_ccap: "holds_store osd s \<Longrightarrow> holds_store (osd\<lparr>ccap := cc\<rparr>) s"
  by (simp add: holds_store_def dev_inv_def calm_def)

lemma small_word: "n \<le> rw_max \<Longrightarrow> unat (of_nat n :: u64) = n" "n < 2 ^ 63 \<Longrightarrow> unat (of_nat n :: u64) = n"
  by (simp_all add: unsigned_of_nat take_bit_nat_eq_self rw_max_def)

section \<open>Properties\<close>

text \<open>
  C2. The target refines an object store. Where an operation is possible on the store, the block
  that asks for it is answered with GOOD and what the store returns, and the target then holds the
  store after the operation: what happens to one object is what the store says, and no block touches
  another object. An object is made where there is none, and written, read and dropped where there is one. The partition of the object exists and there is room for it.
\<close>

theorem target_refines_store:
  assumes "holds_store osd s" and "user_object pid oid" and "id_ok oid" and "room osd"
    and "obj_map (tabs (dbc osd)) (okey pid 0) \<noteq> None" and "\<forall>n. \<exists>m. s_malloc st n = Some m \<and> length m = unat n"
    and "asks x pid oid cdb data" and "store_step x (pid, oid) s = Some (out, s')"
  shows "\<exists>r. osdemu_cmd_submit st osd cdb data (data_len data) None 0 = Some r \<and> r_status r = SAM_STAT_GOOD \<and>
    r_data r = out \<and> holds_store (r_osd r) s'"
proof (cases x)
  case Make
  then have n: "s (pid, oid) = None" and o: "out = None" "s' = s((pid, oid) \<mapsto> [])"
    using assms(8) by (auto split: if_splits)
  obtain len off where r: "request cdb OSD_CREATE pid oid len off" "get_ntohs cdb 32 = Some 1" "data = None"
    using assms(7) Make by auto
  have i: "dev_inv osd" "calm osd" using assms(1) by (simp_all add: holds_store_def)
  have f: "obj_map (tabs (dbc osd)) (okey pid oid) = None" "nodes (files osd) (object_path osd pid oid) = None"
    using holds_storeD [OF assms(1,2)] n by simp_all
  obtain o1 where o1: "osdemu_cmd_submit st osd cdb None 0 None 0 = Some \<lparr>r_status = SAM_STAT_GOOD, r_data = None, r_len = 0,
      r_sense = [], r_osd = o1\<rparr>" "dev_inv o1" "calm o1" "root o1 = root osd"
    "files o1 = (files osd)\<lparr>nodes := (nodes (files osd))(object_path osd pid oid \<mapsto> RegFile [])\<rparr>"
    "tabs (dbc o1) = (tabs (dbc osd))\<lparr>t_obj := t_obj (tabs (dbc osd)) @ [user_row pid oid]\<rparr>"
    using request_create [OF r(1,2) i(1) assms(4) i(2) assms(2,3,5) f, of st] by blast
  have "holds_store o1 (s((pid, oid) := Some []))"
    by (rule holds_store_update [OF assms(1,2) o1(2-4)])
      (simp_all add: o1(5,6) obj_map_append [OF f(1)] osd_consts)
  then show ?thesis using o1(1) o r(3) by (simp add: data_len_def)
next
  case (Put p bs)
  then obtain c where c: "s (pid, oid) = Some c" and o: "out = None" "s' = s((pid, oid) \<mapsto> write_at c p bs)"
    using assms(8) by auto
  have r: "request cdb OSD_WRITE pid oid (of_nat (length bs)) (of_nat p)" "p < 2 ^ 63" "length bs \<le> rw_max" "data = Some bs"
    using assms(7) Put by auto
  note u = small_word(1) [OF r(3)] small_word(2) [OF r(2)]
  let ?o = "file_replaced osd (object_path osd pid oid) (write_at c p bs) (fill_ccap None USEROBJECT pid oid 0)"
  have "length bs < 2 ^ 64" using r(3) by (simp add: rw_max_def)
  then have w: "osdemu_cmd_submit st osd cdb (Some bs) (of_nat (length bs)) None 0 = Some \<lparr>r_status = SAM_STAT_GOOD,
      r_data = None, r_len = 0, r_sense = [], r_osd = ?o\<rparr>"
    using request_write [OF r(1) store_file [OF assms(1,2) c], of bs st] r(2,3) by (simp add: u)
  have "holds_store ?o (s((pid, oid) := Some (write_at c p bs)))"
    by (rule holds_store_update [OF assms(1,2)])
      (use assms(1) holds_storeD(1) [OF assms(1,2)] c in
        \<open>simp_all add: file_replaced_def holds_store_def dev_inv_def calm_def fs_clean_def fun_upd_idem\<close>)
  then show ?thesis using w o r(4) by (simp add: data_len_def)
next
  case (Get p n)
  then obtain c where c: "s (pid, oid) = Some c" "p + n \<le> length c" and o: "out = Some (take n (drop p c))" "s' = s"
    using assms(8) by (auto split: option.splits if_splits)
  have r: "request cdb OSD_READ pid oid (of_nat n) (of_nat p)" "p < 2 ^ 63" "0 < n" "n \<le> rw_max" "data = None"
    using assms(7) Get by auto
  note u = small_word(1) [OF r(4)] small_word(2) [OF r(2)]
  have nz: "(of_nat n :: u64) \<noteq> 0" using u(1) r(3) by (metis unat_0 less_irrefl)
  obtain m where m: "s_malloc st (of_nat n) = Some m" "length m = unat (of_nat n :: u64)" using assms(6) by blast
  have "osdemu_cmd_submit st osd cdb None 0 None 0 = Some \<lparr>r_status = SAM_STAT_GOOD, r_data = Some (take n (drop p c)),
      r_len = of_nat n, r_sense = [], r_osd = osd\<lparr>ccap := fill_ccap None USEROBJECT pid oid 0\<rparr>\<rparr>"
    using request_read [OF r(1) store_file [OF assms(1,2) c(1)] _ _ _ nz m] r(2,4) c(2) by (simp add: u)
  then show ?thesis using o r(5) holds_store_ccap [OF assms(1)] by (simp add: data_len_def)
next
  case Drop
  obtain len off where r: "request cdb OSD_REMOVE pid oid len off" "data = None" using assms(7) Drop by auto
  have o: "out = None" "s' = s((pid, oid) := None)" using assms(8) Drop by auto
  have nd: "nodes (files osd) (object_path osd pid oid) \<noteq> Some Directory"
    using holds_storeD(2) [OF assms(1,2)] by (cases "s (pid, oid)") auto
  have i: "dev_inv osd" "calm osd" using assms(1) by (simp_all add: holds_store_def)
  obtain o1 where o1: "osdemu_cmd_submit st osd cdb None 0 None 0 = Some \<lparr>r_status = SAM_STAT_GOOD, r_data = None, r_len = 0,
      r_sense = [], r_osd = o1\<rparr>" "dev_inv o1" "calm o1" "root o1 = root osd" "tabs (dbc o1) = removed pid oid (tabs (dbc osd))"
    "nodes (files o1) = (nodes (files osd))(object_path osd pid oid := None)"
    using request_remove [OF r(1) i assms(2) nd, of st] by blast
  have "holds_store o1 (s((pid, oid) := None))"
    by (rule holds_store_update [OF assms(1,2) o1(2-4)]) (simp_all add: o1(5,6) obj_map_removed)
  then show ?thesis using o1(1) o r(2) by (simp add: data_len_def)
qed

text \<open>A device with one partition holds the empty store.\<close>

lemma empty_store: "holds_store (part_device Map.empty) Map.empty"
proof -
  have "obj_map (tabs (dbc (part_device Map.empty))) (okey pid oid) = None" if "user_object pid oid" for pid oid
    using user_object_nonzero [OF that] signed_word_eqI [of oid 0]
    by (auto simp: part_device_def obj_map_def obj_key_def obj_row_of_def osd_consts)
  then show ?thesis by (simp add: holds_store_def part_device)
qed

theorem target_refines_store_witness:
  "\<exists>r. osdemu_cmd_submit blank (part_device Map.empty) ((sample_cdb 0x88 0x82)[33 := 1]) None 0 None 0 = Some r \<and>
     r_status r = SAM_STAT_GOOD \<and> holds_store (r_osd r) [(0x10000, 0x10001) \<mapsto> []]"
proof -
  let ?cdb = "(sample_cdb 0x88 0x82)[33 := 1]"
  have id: "user_object 0x10000 0x10001" "id_ok 0x10001" by (simp_all add: user_object_def osd_consts id_ok_def)
  have mem: "\<forall>n. \<exists>m. s_malloc blank n = Some m \<and> length m = unat n" by (simp add: blank_def)
  have "asks Make 0x10000 0x10001 ?cdb None" using life_requests(1,2) by auto
  from target_refines_store [OF empty_store id part_device(2,5) mem this, of None "[(0x10000, 0x10001) \<mapsto> []]"]
  show ?thesis by (auto simp: data_len_def)
qed

end
