(* ===== verification/Osd_Open_Spec.thy ===== *)
theory Osd_Open_Spec
  imports Osd_Open Osd_Steady
begin

text \<open>
  What emptying a directory and formatting a target leave behind.
\<close>

section \<open>Lemmas: paths and trees\<close>

definition entry_name :: "string \<Rightarrow> bool" where
  "entry_name n \<longleftrightarrow> n \<noteq> [] \<and> CHR ''/'' \<notin> set n"

definition below :: "string \<Rightarrow> string \<Rightarrow> bool" where
  "below p q \<longleftrightarrow> (\<exists>t. q = p @ ''/'' @ t)"

text \<open>\<open>readdir\<close> yields the entries of a directory, each once, and their types.\<close>

definition listing_ok :: "listing \<Rightarrow> bool" where
  "listing_ok rd \<longleftrightarrow> (\<forall>s p. finite (dom (nodes s)) \<longrightarrow> is_dir s p \<longrightarrow> distinct (map fst (rd s p)) \<and>
     (\<forall>n b. \<not> dot_entry n \<longrightarrow>
       ((n, b) \<in> set (rd s p) \<longleftrightarrow> entry_name n \<and> nodes s (p @ ''/'' @ n) \<noteq> None \<and> b = is_dir s (p @ ''/'' @ n))))"

text \<open>The paths of what exists are written with single slashes and lie in a directory that exists.\<close>

definition tree_ok :: "fs \<Rightarrow> bool" where
  "tree_ok s \<longleftrightarrow> finite (dom (nodes s)) \<and> (\<forall>q. nodes s q \<noteq> None \<longrightarrow> squeeze q = q) \<and> (\<forall>q n. entry_name n \<longrightarrow> nodes s (q @ ''/'' @ n) \<noteq> None \<longrightarrow> q \<noteq> [] \<longrightarrow> is_dir s q \<and> \<not> dot_entry n)"

lemma squeeze_name: "entry_name n \<Longrightarrow> squeeze n = n"
proof (induction n rule: squeeze.induct)
  case (3 a b cs)
  then show ?case by (auto simp: entry_name_def)
qed (simp_all add: entry_name_def)

lemma squeeze_slash_name: "entry_name n \<Longrightarrow> squeeze (CHR ''/'' # n) = CHR ''/'' # n"
  using squeeze_name [of n] by (cases n) (auto simp: entry_name_def)

lemma squeeze_entry: "entry_name n \<Longrightarrow> squeeze (d @ CHR ''/'' # n) = squeeze d @ CHR ''/'' # n"
proof (induction d rule: squeeze.induct)
  case (2 a)
  then show ?case using squeeze_slash_name [OF 2] by simp
next
  case (3 a b cs)
  then show ?case by auto
qed (simp_all add: squeeze_slash_name)

lemma below_trans: "below p q \<Longrightarrow> below q r \<Longrightarrow> below p r"
  by (auto simp: below_def)

lemma below_entry: "below p (p @ CHR ''/'' # n)"
  by (auto simp: below_def)

lemma squeeze_nonempty: "b \<noteq> CHR ''/'' \<Longrightarrow> squeeze (b # cs) \<noteq> []"
  by (cases cs) auto

lemma squeeze_last: "squeeze p \<noteq> [] \<Longrightarrow> last (squeeze p) \<noteq> CHR ''/''"
  by (induction p rule: squeeze.induct) (auto split: if_splits dest: squeeze_nonempty)

lemma below_first:
  assumes "tree_ok s" and "p \<noteq> []" and "nodes s (p @ CHR ''/'' # t) \<noteq> None"
  shows "\<exists>n. entry_name n \<and> \<not> dot_entry n \<and> nodes s (p @ CHR ''/'' # n) \<noteq> None"
  using assms(3)
proof (induction "length t" arbitrary: t rule: less_induct)
  case less
  let ?q = "p @ CHR ''/'' # t"
  have sq: "squeeze ?q = ?q" using less.prems assms(1) by (simp add: tree_ok_def)
  then have "last ?q \<noteq> CHR ''/''" using squeeze_last [of ?q] by simp
  then have t: "t \<noteq> []" "last t \<noteq> CHR ''/''" by (auto split: if_splits)
  show ?case
  proof (cases "CHR ''/'' \<in> set t")
    case False
    then have "entry_name t" using t by (simp add: entry_name_def)
    then show ?thesis using less.prems assms(1,2) by (fastforce simp: tree_ok_def)
  next
    case True
    then obtain u n where u: "t = u @ CHR ''/'' # n" "CHR ''/'' \<notin> set n" using split_list_last by metis
    then have "entry_name n" using t by (auto simp: entry_name_def)
    then have "is_dir s (p @ CHR ''/'' # u)"
      using less.prems u assms(1) unfolding tree_ok_def by (metis append.assoc append_Cons append_is_Nil_conv list.simps(3) self_append_conv2 append_Nil)
    then have "nodes s (p @ CHR ''/'' # u) \<noteq> None" by (auto simp: is_dir_def split: option.splits)
    then show ?thesis using less.hyps [of u] u by simp
  qed
qed

section \<open>Lemmas: what is removed\<close>

definition shrinks :: "string \<Rightarrow> fs \<Rightarrow> fs \<Rightarrow> bool" where
  "shrinks p f f' \<longleftrightarrow> (\<forall>q. nodes f' q = nodes f q \<or> nodes f' q = None \<and> (q = p \<or> below p q))"

definition gone :: "string \<Rightarrow> fs \<Rightarrow> bool" where
  "gone p f \<longleftrightarrow> (\<forall>q. q = p \<or> below p q \<longrightarrow> nodes f q = None)"

lemma shrinks_refl [simp]: "nodes f' = nodes f \<Longrightarrow> shrinks p f f'"
  by (simp add: shrinks_def)

lemma shrinks_trans: "shrinks p f g \<Longrightarrow> shrinks p g h \<Longrightarrow> shrinks p f h"
  unfolding shrinks_def by metis

lemma shrinks_entry: "shrinks (p @ CHR ''/'' # n) f g \<Longrightarrow> shrinks p f g"
  unfolding shrinks_def using below_entry below_trans by blast

lemma shrinks_none: "shrinks p f g \<Longrightarrow> nodes f q = None \<Longrightarrow> nodes g q = None"
  unfolding shrinks_def by metis

lemma tree_ok_cong: "nodes g = nodes f \<Longrightarrow> tree_ok g = tree_ok f"
  by (simp add: tree_ok_def is_dir_def)

lemma is_dir_cong: "nodes g = nodes f \<Longrightarrow> is_dir g p = is_dir f p"
  by (simp add: is_dir_def)

lemma remove_leaf:
  assumes "tree_ok f" and "\<And>n. entry_name n \<Longrightarrow> nodes f (p @ ''/'' @ n) = None" and "nodes g = (nodes f)(p := None)"
  shows "tree_ok g"
  using assms unfolding tree_ok_def is_dir_def by (auto split: if_splits intro: finite_subset)

lemma open_close:
  "fs_opendir p f = (ok, g) \<Longrightarrow> nodes g = nodes f \<and> (ok \<longrightarrow> is_dir f p \<and> open_fds g = open_fds f + 1)"
  "fs_close f = (ok, g) \<Longrightarrow> nodes g = nodes f \<and> open_fds g = open_fds f - 1"
  by (auto simp: fs_opendir_def fs_close_def io_next_def is_dir_def Let_def split: list.splits if_splits)

lemma unlinked:
  assumes "fs_unlink p f = (ok, g)" and "tree_ok f" and "p \<noteq> []"
  shows "tree_ok g \<and> shrinks p f g \<and> open_fds g = open_fds f"
proof -
  obtain f1 ev where f1: "io_next f = (ev, f1)" "nodes f1 = nodes f" "open_fds f1 = open_fds f"
    by (cases "io_evs f") (auto simp: io_next_def)
  show ?thesis
  proof (cases "ev = IoFail \<or> nodes f1 p = None \<or> is_dir f1 p")
    case True
    then have "g = f1" using assms(1) f1(1) by (simp add: fs_unlink_def)
    then show ?thesis using f1 assms(2) tree_ok_cong [of f1 f] by simp
  next
    case False
    then have g: "g = f1\<lparr>nodes := (nodes f1)(p := None)\<rparr>" using assms(1) f1(1) by (auto simp: fs_unlink_def split: if_splits)
    have "nodes f (p @ ''/'' @ n) = None" if "entry_name n" for n
      using assms(2,3) that False f1(2) unfolding tree_ok_def by (metis is_dir_cong)
    from remove_leaf [OF assms(2) this] show ?thesis using g f1 by (simp add: shrinks_def)
  qed
qed

lemma listing_okD:
  "listing_ok rd \<Longrightarrow> tree_ok s \<Longrightarrow> is_dir s p \<Longrightarrow> \<not> dot_entry n \<Longrightarrow>
     (n, b) \<in> set (rd s p) \<longleftrightarrow> entry_name n \<and> nodes s (p @ ''/'' @ n) \<noteq> None \<and> b = is_dir s (p @ ''/'' @ n)"
  unfolding listing_ok_def tree_ok_def by blast

lemma rmdir_removed:
  assumes "fs_rmdir rd p f = (ok, g)" and "listing_ok rd" and "tree_ok f" and "p \<noteq> []"
  shows "tree_ok g \<and> shrinks p f g \<and> open_fds g = open_fds f \<and> (ok \<longrightarrow> gone p g)"
proof -
  obtain f1 ev where f1: "io_next f = (ev, f1)" "nodes f1 = nodes f" "open_fds f1 = open_fds f"
    by (cases "io_evs f") (auto simp: io_next_def)
  show ?thesis
  proof (cases "ev = IoFail \<or> \<not> is_dir f1 p \<or> (\<exists>e \<in> set (rd f1 p). \<not> dot_entry (fst e))")
    case True
    then have "g = f1 \<and> \<not> ok" using assms(1) f1(1) by (simp add: fs_rmdir_def)
    then show ?thesis using f1 assms(3) tree_ok_cong [of f1 f] by simp
  next
    case False
    then have g: "g = f1\<lparr>nodes := (nodes f1)(p := None)\<rparr>"
      using assms(1) unfolding fs_rmdir_def f1(1) Let_def prod.case by (subst (asm) if_not_P) simp_all
    from False have d: "is_dir f1 p" "\<And>e. e \<in> set (rd f1 p) \<Longrightarrow> dot_entry (fst e)" by blast+
    have t1: "tree_ok f1" using assms(3) f1(2) tree_ok_cong by blast
    have "\<not> (entry_name n \<and> \<not> dot_entry n \<and> nodes f1 (p @ CHR ''/'' # n) \<noteq> None)" for n
    proof
      assume n: "entry_name n \<and> \<not> dot_entry n \<and> nodes f1 (p @ CHR ''/'' # n) \<noteq> None"
      then have "(n, is_dir f1 (p @ ''/'' @ n)) \<in> set (rd f1 p)"
        using listing_okD [OF assms(2) t1 d(1), of n] by simp
      with d(2) n show False by fastforce
    qed
    then have none: "nodes f1 (p @ CHR ''/'' # t) = None" for t
      using below_first [OF t1 assms(4)] by blast
    then have "tree_ok g" using remove_leaf [OF t1, of p g] g by simp
    moreover have "shrinks p f g" using g f1(2) by (simp add: shrinks_def)
    moreover have "gone p g" using g none by (auto simp: gone_def below_def)
    ultimately show ?thesis using g f1(3) by simp
  qed
qed

lemma empty_dir_removes:
  "empty_dir rd d f = Some (ret, f') \<Longrightarrow> listing_ok rd \<Longrightarrow> tree_ok f \<Longrightarrow> squeeze d \<noteq> [] \<Longrightarrow>
     tree_ok f' \<and> shrinks (squeeze d) f f' \<and> (ret = 0 \<longrightarrow> gone (squeeze d) f' \<and> open_fds f' = open_fds f)"
  "empty_entries rd d es f = Some (ret, f') \<Longrightarrow> listing_ok rd \<Longrightarrow> tree_ok f \<Longrightarrow> squeeze d \<noteq> [] \<Longrightarrow>
     (\<And>n b. (n, b) \<in> set es \<Longrightarrow> \<not> dot_entry n \<Longrightarrow> entry_name n) \<Longrightarrow>
     tree_ok f' \<and> shrinks (squeeze d) f f' \<and> (ret = 0 \<longrightarrow> open_fds f' = open_fds f)"
proof (induction rd d f and rd d es f arbitrary: ret f' and ret f' rule: empty_dir_empty_entries.induct)
  case (1 rd dirname f)
  let ?p = "squeeze dirname"
  obtain ok f1 where o: "fs_opendir ?p f = (ok, f1)" by (cases "fs_opendir ?p f")
  note o1 = open_close(1) [OF o]
  have t1: "tree_ok f1" using 1(3) o1 tree_ok_cong [of f1 f] 1 by simp
  show ?case
  proof (cases ok)
    case False
    then show ?thesis using 1 o o1 t1 by (simp add: empty_dir.simps)
  next
    case True
    then obtain r f2 where e: "empty_entries rd dirname (rd f1 ?p) f1 = Some (r, f2)"
      using 1(2) o by (cases "empty_entries rd dirname (rd f1 ?p) f1") (auto simp: empty_dir.simps)
    have "entry_name n" if "(n, b) \<in> set (rd f1 ?p)" "\<not> dot_entry n" for n b
      using listing_okD [OF 1(3) t1 _ that(2)] that(1) True o1 is_dir_cong [of f1 f ?p] by blast
    then have e2: "tree_ok f2 \<and> shrinks ?p f1 f2 \<and> (r = 0 \<longrightarrow> open_fds f2 = open_fds f1)"
      using 1(1) [OF refl o [symmetric] _ e] True 1(3,5) t1 by blast
    obtain c f3 where c: "fs_close f2 = (c, f3)" by (cases "fs_close f2")
    obtain rm f4 where m: "fs_rmdir rd ?p f3 = (rm, f4)" by (cases "fs_rmdir rd ?p f3")
    note c3 = open_close(2) [OF c]
    have m4: "tree_ok f4 \<and> shrinks ?p f3 f4 \<and> open_fds f4 = open_fds f3 \<and> (rm \<longrightarrow> gone ?p f4)"
      using rmdir_removed [OF m 1(3) _ 1(5)] e2 c3 tree_ok_cong [of f3 f2] by simp
    have s2: "shrinks ?p f f2" using shrinks_trans [of ?p f f1 f2] o1 e2 by simp
    have s4: "shrinks ?p f f4" using shrinks_trans [OF shrinks_trans [OF s2], of f3 f4] c3 m4 by simp
    show ?thesis
      using 1(2) o True e c m e2 m4 s2 s4 o1 c3 by (auto simp: empty_dir.simps split: if_splits)
  qed
next
  case (2 rd dirname f)
  then show ?case by (simp add: empty_entries.simps)
next
  case (3 rd dirname name dt_dir es f)
  show ?case
  proof (cases "dot_entry name")
    case True
    then show ?thesis using 3(1) [of ret f'] 3(4-) by (simp add: empty_entries.simps) blast
  next
    case False
    then have n: "entry_name name" using 3(8) by auto
    obtain path where path: "path_buf (dirname @ ''/'' @ name) = Some path"
      using 3(4) False by (auto simp: empty_entries.simps split: Option.bind_splits)
    have sq: "squeeze path = squeeze dirname @ CHR ''/'' # name"
      using path_buf_bound [OF path] squeeze_entry [OF n, of dirname] by simp
    obtain r f1 where r: "(if dt_dir then empty_dir rd path f
        else let (ok, f) = fs_unlink (squeeze path) f in Some (if ok then 0 else - 1, f)) = Some (r, f1)"
      using 3(4) False path by (auto simp: empty_entries.simps split: Option.bind_splits)
    have t: "tree_ok f1 \<and> shrinks (squeeze path) f f1 \<and> (r = 0 \<longrightarrow> open_fds f1 = open_fds f)"
    proof (cases dt_dir)
      case True
      then show ?thesis using 3(2) [OF False path True, of r f1] r 3(5,6) sq by simp
    next
      case F: False
      then show ?thesis using r unlinked [of "squeeze path" f _ f1] 3(6) sq
        by (auto split: prod.splits)
    qed
    then have s1: "shrinks (squeeze dirname) f f1" using shrinks_entry sq by metis
    show ?thesis
    proof (cases "r = 0")
      case True
      have "empty_entries rd dirname es f1 = Some (ret, f')"
        using 3(4) False path r True by (auto simp: empty_entries.simps)
      with 3(3) [OF False path r refl _ this] 3(5,7,8) t True s1 show ?thesis
        using shrinks_trans [OF s1] by fastforce
    next
      case F: False
      then show ?thesis using 3(4) False path r t s1 by (auto simp: empty_entries.simps)
    qed
  qed
qed

lemma squeeze_slash_end: "squeeze (p @ ''/'') = squeeze p"
  by (induction p rule: squeeze.induct) auto

lemma empty_dirs_removes:
  assumes "empty_dirs rd ps f = Some (ret, f')" and "listing_ok rd" and "tree_ok f" and "\<forall>p \<in> set ps. squeeze p \<noteq> []"
  shows "(\<forall>q. nodes f' q = nodes f q \<or> nodes f' q = None) \<and> (ret = 0 \<longrightarrow> (\<forall>p \<in> set ps. gone (squeeze p) f'))"
  using assms
proof (induction ps arbitrary: f)
  case (Cons p ps)
  obtain path where path: "path_buf p = Some path" using Cons.prems(1) by (auto split: Option.bind_splits)
  obtain r f1 where r: "empty_dir rd path f = Some (r, f1)"
    using Cons.prems(1) path by (auto split: Option.bind_splits)
  have p: "path = p" using path_buf_bound [OF path] by simp
  have e: "tree_ok f1" "shrinks (squeeze p) f f1" "r = 0 \<Longrightarrow> gone (squeeze p) f1"
    using empty_dir_removes(1) [OF r Cons.prems(2,3)] Cons.prems(4) p by simp_all
  show ?case
  proof (cases "r = 0")
    case False
    then show ?thesis using Cons.prems(1) path r e(2) by (auto simp: shrinks_def)
  next
    case True
    then have "empty_dirs rd ps f1 = Some (ret, f')" using Cons.prems(1) path r by simp
    from Cons.IH [OF this Cons.prems(2) e(1)] Cons.prems(4)
    have ih: "\<forall>q. nodes f' q = nodes f1 q \<or> nodes f' q = None" "ret = 0 \<longrightarrow> (\<forall>p \<in> set ps. gone (squeeze p) f')" by simp_all
    then have "gone (squeeze p) f'" using e(3) [OF True] unfolding gone_def by metis
    moreover have "\<forall>q. nodes f' q = nodes f q \<or> nodes f' q = None" using ih(1) e(2) unfolding shrinks_def by metis
    ultimately show ?thesis using ih(2) by simp
  qed
qed simp

definition only_dirs :: "string set \<Rightarrow> fs \<Rightarrow> fs \<Rightarrow> bool" where
  "only_dirs P f g \<longleftrightarrow> (\<forall>q. nodes g q = nodes f q \<or> q \<in> P \<and> nodes g q = Some Directory)"

lemma stat_nodes: "fs_stat p f = (a, g) \<Longrightarrow> nodes g = nodes f \<and> (a = StNoEnt \<longrightarrow> nodes f p = None) \<and>
    (\<forall>b n. a = StOk b n \<longrightarrow> nodes f p \<noteq> None)"
  by (auto simp: fs_stat_def io_next_def Let_def split: list.splits if_splits option.splits node.splits)

lemma mkdir_nodes: "fs_mkdir p f = (ok, g) \<Longrightarrow> only_dirs {p} f g"
  by (auto simp: fs_mkdir_def io_next_def Let_def only_dirs_def split: list.splits if_splits)

lemma create_dir_nodes:
  assumes "create_dir d f = (ret, g)" shows "only_dirs {squeeze d} f g"
proof -
  obtain a f1 where a: "fs_stat (squeeze d) f = (a, f1)" by (cases "fs_stat (squeeze d) f")
  then have n: "nodes f1 = nodes f" using stat_nodes by blast
  show ?thesis
  proof (cases a)
    case StNoEnt
    obtain ok f2 where "fs_mkdir (squeeze d) f1 = (ok, f2)" by (cases "fs_mkdir (squeeze d) f1")
    then show ?thesis using assms a StNoEnt n mkdir_nodes [of "squeeze d" f1 ok f2]
      by (simp add: create_dir_def only_dirs_def)
  qed (use assms a n in \<open>auto simp: create_dir_def only_dirs_def split: bool.splits\<close>)
qed

lemma create_dirs_nodes:
  "create_dirs ps f = Some (ret, g) \<Longrightarrow> only_dirs (squeeze ` set ps) f g"
proof (induction ps arbitrary: f)
  case (Cons p ps)
  obtain path where path: "path_buf p = Some path" using Cons.prems(1) by (auto split: Option.bind_splits)
  obtain r f1 where r: "create_dir p f = (r, f1)" by (cases "create_dir p f")
  have e: "only_dirs {squeeze p} f f1" by (rule create_dir_nodes [OF r])
  show ?case
  proof (cases "r = 0")
    case True
    then have "only_dirs (squeeze ` set ps) f1 g" using Cons path_buf_bound [OF path] path r by simp
    then show ?thesis using e unfolding only_dirs_def by (metis image_insert insertCI insertE list.simps(15) singletonD)
  next
    case False
    then show ?thesis using Cons.prems path_buf_bound [OF path] path r e by (auto simp: only_dirs_def)
  qed
qed (simp add: only_dirs_def)

section \<open>Lemmas: a new database\<close>

text \<open>The rows that \<open>osd_initialize_db\<close> writes for its tables of names, and all of its attributes.\<close>

definition name_row :: "u32 \<times> u32 \<times> string \<Rightarrow> attr_row" where
  "name_row = (\<lambda>(page, number, s). attr_row_of ROOT_PID ROOT_OID page number (Some (cstr s)))"

definition initial_attrs :: "attr_row list" where
  "initial_attrs = map name_row (root_info @ partition_info) @
     [attr_row_of ROOT_PID ROOT_OID (PARTITION_PG + 1) 1 (Some (replicate 8 0))]"

definition initial :: "attr_row list \<Rightarrow> db_context \<Rightarrow> bool" where
  "initial rows d \<longleftrightarrow> db_good d \<and> tables_ok (tabs d) \<and>
     tabs d = \<lparr>t_obj = [obj_row_of ROOT_PID ROOT_OID (ucast ROOT)], t_attr = rows, t_coll = []\<rparr>"

lemma initial_set_attr:
  assumes "initial rows d" and "unat len = length v"
    and "attr_set_attr_raw d pid oid page number (Some v) len = Some (0, d')"
  shows "initial (replace_row attr_key (attr_row_of pid oid page number (Some v)) rows) d'"
proof -
  let ?r = "attr_row_of pid oid page number (Some v)"
  let ?eff = "\<lambda>t. Some (t\<lparr>t_attr := replace_row attr_key ?r (t_attr t)\<rparr>)"
  have g: "db_good d" using assms(1) by (simp add: initial_def)
  have b: "blob_of (Some v) len = Some (Some v)" using assms(2) by (simp add: blob_of_def buf_get_def)
  obtain ret d1 where "run_dms ?eff d = Some (ret, d1)" "db_good d1" "ret = OSD_OK \<and> tabs d1 = (tabs d)\<lparr>t_attr := replace_row attr_key ?r (t_attr (tabs d))\<rparr> \<or> ret = OSD_ERROR"
    using run_dms_ok [OF g, of ?eff] by auto
  then show ?thesis
    using assms(1,3) b unfolding attr_set_attr_raw_def on_attr_def
    by (auto simp: initial_def tables_ok_def replace_row_distinct OSD_OK_def OSD_ERROR_def split: if_splits)
qed

lemma cstr_size: "length s < 65535 \<Longrightarrow> unat (of_nat (length s + 1) :: u16) = length (cstr s)"
  unfolding unsigned_of_nat by (subst take_bit_nat_eq_self) (simp_all add: cstr_def)

lemma initial_set_names:
  "initial rows d \<Longrightarrow> \<forall>(page, number, s) \<in> set ias. length s < 65535 \<Longrightarrow> set_names ias d = Some (0, d') \<Longrightarrow>
    initial (fold (replace_row attr_key) (map name_row ias) rows) d'"
proof (induction ias arbitrary: d rows)
  case (Cons ia ias)
  obtain page number s where ia: "ia = (page, number, s)" by (cases ia)
  have len: "unat (of_nat (length s + 1) :: u16) = length (cstr s)" using Cons.prems(2) ia cstr_size by simp
  obtain d1 where d1: "attr_set_attr_raw d ROOT_PID ROOT_OID page number (Some (cstr s)) (of_nat (length s + 1)) = Some (0, d1)"
    "set_names ias d1 = Some (0, d')"
    using Cons.prems(3) by (auto simp: ia split: Option.bind_splits if_splits)
  show ?case
    using Cons.IH [OF initial_set_attr [OF Cons.prems(1) len d1(1)] _ d1(2)] Cons.prems(2) by (simp add: name_row_def ia)
qed simp

lemma names_small: "\<forall>(page, number, s) \<in> set (root_info @ partition_info). length s < 65535"
  by (simp add: root_info_def partition_info_def)

lemma initial_attrs: "replace_row attr_key (attr_row_of ROOT_PID ROOT_OID (PARTITION_PG + 1) 1 (Some (replicate 8 0)))
    (fold (replace_row attr_key) (map name_row partition_info) (fold (replace_row attr_key) (map name_row root_info) [])) = initial_attrs"
  by (simp add: initial_attrs_def root_info_def partition_info_def name_row_def attr_row_of_def attr_key_def replace_row_def osd_consts)

lemma initialize_db_initial:
  assumes "db_good (dbc osd)" and "tabs (dbc osd) = \<lparr>t_obj = [], t_attr = [], t_coll = []\<rparr>"
    and run: "osd_initialize_db osd = Some (0, osd')"
  shows "initial initial_attrs (dbc osd') \<and> ic osd' = no_cache \<and> root osd' = root osd \<and> files osd' = files osd"
proof -
  let ?o = "osd\<lparr>ccap := no_ccap, ic := \<lparr>cur_pid = 0, next_id = 0\<rparr>\<rparr>"
  let ?z = "Some (replicate 8 0)"
  obtain ret d where i: "obj_insert (dbc osd) ROOT_PID ROOT_OID (ucast ROOT) = Some (ret, d)"
    "ret = 0 \<longrightarrow> initial [] d"
    using obj_insert_ok [OF assms(1), of ROOT_PID ROOT_OID "ucast ROOT"] assms(2)
    by (auto simp: initial_def tables_ok_def OSD_OK_def OSD_ERROR_def)
  then obtain d1 d2 where n: "ret = 0" "set_names root_info d = Some (0, d1)" "set_names partition_info d1 = Some (0, d2)"
    "attr_set_attr (?o\<lparr>dbc := d2\<rparr>) ROOT_PID ROOT_OID (PARTITION_PG + 1) 1 ?z 8 = Some (0, osd')"
    using run by (auto simp: osd_initialize_db_def Let_def split: Option.bind_splits if_splits)
  then obtain d3 where d3: "attr_set_attr_raw d2 ROOT_PID ROOT_OID (PARTITION_PG + 1) 1 ?z 8 = Some (0, d3)" "osd' = ?o\<lparr>dbc := d3\<rparr>"
    by (auto simp: attr_set_attr_def with_dbc_def osd_consts)
  have small: "\<forall>(page, number, s) \<in> set root_info. length s < 65535" "\<forall>(page, number, s) \<in> set partition_info. length s < 65535"
    using names_small by auto
  have "initial [] d" using i(2) n(1) by simp
  from initial_set_attr [OF initial_set_names [OF initial_set_names [OF this small(1) n(2)] small(2) n(3)] _ d3(1)]
  have "initial initial_attrs d3" unfolding initial_attrs by simp
  then show ?thesis using d3(2) by (simp add: no_cache_def)
qed

lemma open_database_new:
  assumes "open_database env path osd = Some (ret, osd')" and "nodes (files osd) path = None"
    and "\<forall>b \<in> set (prep_evs (dbc osd)). b"
  shows "ret \<noteq> 0 \<and> (ret = 1 \<longrightarrow> db_good (dbc osd') \<and> tabs (dbc osd') = \<lparr>t_obj = [], t_attr = [], t_coll = []\<rparr>) \<and>
    root osd' = root osd \<and> (\<forall>q. q \<noteq> path \<longrightarrow> nodes (files osd') q = nodes (files osd) q)"
proof -
  obtain a f where a: "fs_stat path (files osd) = (a, f)" by (cases "fs_stat path (files osd)")
  have st: "nodes f = nodes (files osd)" "\<And>b n. a \<noteq> StOk b n" using stat_nodes [OF a] assms(2) by auto
  then have "a = StNoEnt \<or> a = StFail" by (cases a) auto
  then show ?thesis
  proof
    assume "a = StFail"
    then show ?thesis using assms(1) a st by (auto simp: open_database_def stat_db_def osd_db_open_def)
  next
    assume "a = StNoEnt"
    then have sd: "stat_db path (files osd) = (StatNoEnt, f)" using a by (simp add: stat_db_def)
    obtain ok d where d: "sq_exec (no_context (dbc osd)) = (ok, d)" "prep_evs d = prep_evs (dbc osd)"
      "coll_tab d = NoTab \<and> obj_tab d = NoTab \<and> attr_tab d = NoTab"
      by (cases "exec_evs (no_context (dbc osd))") (auto simp: sq_exec_def no_context_def)
    let ?d = "d\<lparr>tabs := \<lparr>t_obj = [], t_attr = [], t_coll = []\<rparr>\<rparr>"
    obtain es where es: "db_initialize ?d = Some (OSD_OK, ?d\<lparr>coll_tab := Prepared, obj_tab := Prepared,
      attr_tab := Prepared, prep_evs := es\<rparr>)" "\<forall>b \<in> set es. b"
      using db_initialize_ok [of ?d] d(2,3) assms(3) by auto
    show ?thesis
      using assms(1) es d(1) st unfolding open_database_def sd
      by (cases "o_open env"; cases ok) (auto simp: osd_db_open_def OSD_OK_def OSD_ERROR_def db_good_def)
  qed
qed

lemma pragma_initial:
  assumes "initial rows d" shows "initial rows (snd (db_exec_pragma d))"
proof -
  obtain ok es where "sq_exec d = (ok, d\<lparr>exec_evs := es\<rparr>)" by (cases "exec_evs d") (auto simp: sq_exec_def)
  then show ?thesis using assms by (auto simp: db_exec_pragma_def initial_def db_good_def)
qed

definition file_at :: "fs \<Rightarrow> string \<Rightarrow> bool" where
  "file_at f q \<longleftrightarrow> (\<exists>c. nodes f q = Some (RegFile c))"

lemma hex_byte_name: "entry_name (hex_byte i)"
proof -
  have "hex_digit i \<in> set ''0123456789abcdef''" for i
    unfolding hex_digit_def by (rule nth_mem) simp
  moreover have "CHR ''/'' \<notin> set ''0123456789abcdef''" by simp
  ultimately have "hex_digit i \<noteq> CHR ''/''" for i by metis
  then show ?thesis by (metis entry_name_def hex_byte_def list.distinct(1) set_ConsD empty_iff list.set(1))
qed

lemma root_dirs_squeezed:
  assumes "squeeze r = r"
  shows "squeeze ` set (root_dirs r) \<subseteq> {r @ ''/dfiles'', r @ ''/stranded'', r @ ''/md''} \<union> range (\<lambda>i. r @ ''/dfiles/'' @ hex_byte i)"
proof -
  have s: "squeeze (r @ ''/'' @ n @ ''/'') = r @ ''/'' @ n" if "entry_name n" for n
    using squeeze_slash_end [of "r @ ''/'' @ n"] squeeze_entry [OF that, of r] assms by simp
  note h = hex_byte_name
  have d: "squeeze (r @ ''/dfiles/'' @ hex_byte i @ ''/'') = r @ ''/dfiles/'' @ hex_byte i" for i
    using squeeze_slash_end [of "r @ ''/dfiles/'' @ hex_byte i"] squeeze_entry [OF h, of "r @ ''/dfiles''"]
      squeeze_entry [of "''dfiles''" r] assms by (simp add: entry_name_def)
  show ?thesis
    using s [of "''dfiles''"] s [of "''stranded''"] s [of "''md''"] d
    by (auto simp: root_dirs_def dfiles_def stranded_def md_def entry_name_def)
qed

lemma setup_new:
  assumes run: "setup_root_paths env r osd = Some (0, osd')" and r: "squeeze r = r"
    and none: "nodes (files osd) (r @ ''/md/osd.db'') = None" and good: "\<forall>b \<in> set (prep_evs (dbc osd)). b"
  shows "initial initial_attrs (dbc osd') \<and> ic osd' = no_cache \<and> root osd' = r \<and> length r \<le> MAXROOTLEN \<and>
    (\<forall>q. q \<noteq> r @ ''/md/osd.db'' \<longrightarrow> file_at (files osd') q \<longrightarrow> file_at (files osd) q)"
proof -
  have len: "length r \<le> MAXROOTLEN" using run by (auto simp: setup_root_paths_def ENAMETOOLONG_def split: if_splits)
  let ?o = "osd\<lparr>root := freed_root, dbc := no_context (dbc osd), ccap := no_ccap, ic := \<lparr>cur_pid = 0, next_id = 0\<rparr>\<rparr>"
  obtain r1 f1 where c1: "create_dir r (files osd) = (r1, f1)" by (cases "create_dir r (files osd)")
  have r1: "r1 = 0" using run len c1 by (auto simp: setup_root_paths_def Let_def split: Option.bind_splits if_splits)
  obtain r2 f2 where c2: "create_dirs (root_dirs r) f1 = Some (r2, f2)"
    using run len c1 r1 by (auto simp: setup_root_paths_def Let_def split: Option.bind_splits)
  have r2: "r2 = 0" using run len c1 r1 c2 by (auto simp: setup_root_paths_def Let_def split: Option.bind_splits if_splits)
  have d1: "only_dirs {r} (files osd) f1" using create_dir_nodes [OF c1] r by simp
  have d2: "only_dirs (squeeze ` set (root_dirs r)) f1 f2" by (rule create_dirs_nodes [OF c2])
  have "r @ ''/md/osd.db'' \<notin> squeeze ` set (root_dirs r)" using root_dirs_squeezed [OF r] by auto
  then have none2: "nodes f2 (r @ ''/md/osd.db'') = None" using none d1 d2 unfolding only_dirs_def by (metis append_self_conv list.distinct(1) singletonD)
  have old: "file_at f2 q \<Longrightarrow> file_at (files osd) q" for q
    using d1 d2 unfolding only_dirs_def file_at_def by (metis node.distinct(1) option.inject)
  obtain path where "get_dbname r = Some path"
    using run len c1 r1 c2 r2 by (auto simp: setup_root_paths_def Let_def split: Option.bind_splits)
  then have path: "get_dbname r = Some (r @ ''/md/osd.db'')"
    by (auto simp: get_dbname_def md_def dbname_def dest: path_buf_bound)
  obtain r3 o3 where c3: "open_database env (r @ ''/md/osd.db'') (?o\<lparr>files := f2, root := r\<rparr>) = Some (r3, o3)"
    using run len c1 r1 c2 r2 path by (auto simp: setup_root_paths_def Let_def split: Option.bind_splits)
  have o3: "r3 \<noteq> 0" "r3 = 1 \<Longrightarrow> db_good (dbc o3) \<and> tabs (dbc o3) = \<lparr>t_obj = [], t_attr = [], t_coll = []\<rparr>"
    "root o3 = r" "\<And>q. q \<noteq> r @ ''/md/osd.db'' \<Longrightarrow> nodes (files o3) q = nodes f2 q"
    using open_database_new [OF c3] none2 good by (simp_all add: no_context_def)
  have r3: "r3 = 1" using run len c1 r1 c2 r2 path c3 o3(1)
    by (auto simp: setup_root_paths_def Let_def split: Option.bind_splits if_splits)
  obtain r4 o4 where c4: "osd_initialize_db o3 = Some (r4, o4)"
    using run len c1 r1 c2 r2 path c3 r3 by (auto simp: setup_root_paths_def Let_def split: Option.bind_splits)
  have r4: "r4 = 0" "osd' = o4\<lparr>dbc := snd (db_exec_pragma (dbc o4))\<rparr>"
    using run len c1 r1 c2 r2 path c3 r3 c4
    by (auto simp: setup_root_paths_def Let_def split: Option.bind_splits if_splits prod.splits)
  have "initial initial_attrs (dbc o4) \<and> ic o4 = no_cache \<and> root o4 = root o3 \<and> files o4 = files o3"
    using initialize_db_initial [of o3 o4] c4 o3(2) [OF r3] r4(1) by simp
  then show ?thesis
    using r4(2) pragma_initial [of initial_attrs "dbc o4"] o3(3,4) old len by (auto simp: file_at_def)
qed

section \<open>Lemmas: formatting succeeds when nothing fails\<close>

text \<open>The paths of what lies below the directory fit the buffer, as \<open>empty_dir\<close> writes them.\<close>

definition fits :: "string \<Rightarrow> fs \<Rightarrow> bool" where
  "fits d f \<longleftrightarrow> (\<forall>t. nodes f (squeeze d @ CHR ''/'' # t) \<noteq> None \<longrightarrow> length d + length t < 255)"

lemma fits_shrinks: "fits d f \<Longrightarrow> shrinks p f g \<Longrightarrow> fits d g"
  unfolding fits_def using shrinks_none by metis

lemma sibling_unchanged:
  assumes "shrinks (p @ CHR ''/'' # n) f g" and "CHR ''/'' \<notin> set m" and "m \<noteq> n"
  shows "nodes g (p @ CHR ''/'' # m) = nodes f (p @ CHR ''/'' # m)" "nodes g p = nodes f p"
proof -
  have "\<not> below (p @ CHR ''/'' # n) (p @ CHR ''/'' # m)" using assms(2) by (auto simp: below_def)
  moreover have "\<not> below (p @ CHR ''/'' # n) p" by (auto simp: below_def dest: arg_cong [of _ _ length])
  ultimately show "nodes g (p @ CHR ''/'' # m) = nodes f (p @ CHR ''/'' # m)" "nodes g p = nodes f p"
    using assms(1,3) unfolding shrinks_def by (metis append_same_eq list.inject same_append_eq, metis append_self_conv list.distinct(1))
qed

definition listed_in :: "string \<Rightarrow> fs \<Rightarrow> string \<times> bool \<Rightarrow> bool" where
  "listed_in p f e \<longleftrightarrow> dot_entry (fst e) \<or> entry_name (fst e) \<and> nodes f (p @ CHR ''/'' # fst e) \<noteq> None \<and>
     snd e = is_dir f (p @ CHR ''/'' # fst e)"

lemma empty_dir_total:
  "fs_clean f \<Longrightarrow> listing_ok rd \<Longrightarrow> tree_ok f \<Longrightarrow> squeeze d \<noteq> [] \<Longrightarrow> is_dir f (squeeze d) \<Longrightarrow> fits d f \<Longrightarrow>
     \<exists>f'. empty_dir rd d f = Some (0, f') \<and> fs_clean f'"
  "fs_clean f \<Longrightarrow> listing_ok rd \<Longrightarrow> tree_ok f \<Longrightarrow> squeeze d \<noteq> [] \<Longrightarrow> is_dir f (squeeze d) \<Longrightarrow> fits d f \<Longrightarrow>
     distinct (map fst es) \<Longrightarrow> \<forall>e \<in> set es. listed_in (squeeze d) f e \<Longrightarrow>
     \<exists>f'. empty_entries rd d es f = Some (0, f') \<and> fs_clean f' \<and> is_dir f' (squeeze d) \<and>
       (\<forall>e \<in> set es. \<not> dot_entry (fst e) \<longrightarrow> nodes f' (squeeze d @ CHR ''/'' # fst e) = None)"
proof (induction rd d f and rd d es f rule: empty_dir_empty_entries.induct)
  case (1 rd d f)
  let ?p = "squeeze d"
  let ?f1 = "f\<lparr>open_fds := open_fds f + 1\<rparr>"
  have o: "fs_opendir ?p f = (True, ?f1)" using 1(2,6) by (simp add: fs_opendir_def)
  have t1: "tree_ok ?f1" using 1(4) tree_ok_cong [of ?f1 f] by simp
  have d1: "is_dir ?f1 ?p" "fits d ?f1" using 1(6,7) by (simp_all add: is_dir_def fits_def)
  have l: "distinct (map fst (rd ?f1 ?p))" "\<forall>e \<in> set (rd ?f1 ?p). listed_in ?p ?f1 e"
    using 1(3) t1 d1(1) listing_okD [OF 1(3) t1 d1(1)] unfolding listing_ok_def tree_ok_def listed_in_def
    by (blast, metis append_Cons append_Nil prod.collapse)
  obtain f2 where f2: "empty_entries rd d (rd ?f1 ?p) ?f1 = Some (0, f2)" "fs_clean f2" "is_dir f2 ?p"
    "\<forall>e \<in> set (rd ?f1 ?p). \<not> dot_entry (fst e) \<longrightarrow> nodes f2 (?p @ CHR ''/'' # fst e) = None"
    using 1(1) [OF refl o [symmetric] _ _ 1(3) t1 1(5) d1 l] 1(2) by (auto simp: fs_clean_def)
  have r2: "tree_ok f2" "shrinks ?p ?f1 f2"
    using empty_dir_removes(2) [OF f2(1) 1(3) t1 1(5)] l(2) unfolding listed_in_def by fastforce+
  obtain c f3 where c: "fs_close f2 = (c, f3)" by (cases "fs_close f2")
  have f3: "nodes f3 = nodes f2" "fs_clean f3" using c f2(2) by (auto simp: fs_close_def fs_clean_def io_next_def)
  have t3: "tree_ok f3" "is_dir f3 ?p" using r2 f2(3) f3(1) tree_ok_cong is_dir_cong by metis+
  have "dot_entry (fst e)" if e: "e \<in> set (rd f3 ?p)" for e
  proof (rule ccontr)
    assume nd: "\<not> dot_entry (fst e)"
    then have n: "entry_name (fst e) \<and> nodes f3 (?p @ ''/'' @ fst e) \<noteq> None"
      using listing_okD [OF 1(3) t3 nd, of "snd e"] e by simp
    then have "nodes ?f1 (?p @ ''/'' @ fst e) \<noteq> None" using shrinks_none [OF r2(2)] f3(1) by metis
    then have "(fst e, is_dir ?f1 (?p @ ''/'' @ fst e)) \<in> set (rd ?f1 ?p)"
      using listing_okD [OF 1(3) t1 d1(1) nd] n by blast
    then have "nodes f2 (?p @ CHR ''/'' # fst e) = None" using f2(4) nd by fastforce
    then show False using n f3(1) by simp
  qed
  then have "fs_rmdir rd ?p f3 = (True, f3\<lparr>nodes := (nodes f3)(?p := None)\<rparr>)"
    using f3(2) t3(2) by (auto simp: fs_rmdir_def)
  then show ?case using o f2(1) c f3(2) by (simp add: empty_dir.simps fs_clean_def)
next
  case (2 rd d f)
  then show ?case by (simp add: empty_entries.simps)
next
  case (3 rd d name dt_dir es f)
  let ?p = "squeeze d"
  show ?case
  proof (cases "dot_entry name")
    case True
    then show ?thesis using 3(1) 3(4-) by (simp add: empty_entries.simps)
  next
    case False
    let ?q = "?p @ CHR ''/'' # name"
    have n: "entry_name name" "nodes f ?q \<noteq> None" "dt_dir = is_dir f ?q" using 3(11) False by (auto simp: listed_in_def)
    then have len: "length d + length name < 255" using 3(9) by (simp add: fits_def)
    let ?path = "d @ ''/'' @ name"
    have path: "path_buf ?path = Some ?path" using len by (simp add: path_buf_def MAXNAMELEN_def)
    have sq: "squeeze ?path = ?q" using squeeze_entry [OF n(1), of d] by simp
    have "\<exists>f1. (if dt_dir then empty_dir rd ?path f
        else let (ok, f) = fs_unlink (squeeze ?path) f in Some (if ok then 0 else - 1, f)) = Some (0, f1) \<and> fs_clean f1 \<and>
        tree_ok f1 \<and> shrinks ?q f f1 \<and> nodes f1 ?q = None"
    proof (cases dt_dir)
      case True
      have "fits ?path f"
      proof (unfold fits_def, intro allI impI)
        fix t assume "nodes f (squeeze ?path @ CHR ''/'' # t) \<noteq> None"
        then have "nodes f (?p @ CHR ''/'' # (name @ ''/'' @ t)) \<noteq> None" using sq by simp
        then have "length d + length (name @ ''/'' @ t) < 255" using 3(9) unfolding fits_def by blast
        then show "length ?path + length t < 255" by simp
      qed
      then obtain f1 where f1: "empty_dir rd ?path f = Some (0, f1)" "fs_clean f1"
        using 3(2) [OF False path True 3(4-6)] sq n(3) True by auto
      then show ?thesis using empty_dir_removes(1) [OF f1(1) 3(5,6)] sq True by (auto simp: gone_def)
    next
      case F: False
      then have u: "fs_unlink ?q f = (True, f\<lparr>nodes := (nodes f)(?q := None)\<rparr>)" using n 3(4) by (auto simp: fs_unlink_def)
      then show ?thesis using unlinked [OF u 3(6)] F sq 3(4) by (auto simp: fs_clean_def)
    qed
    then obtain f1 where f1: "(if dt_dir then empty_dir rd ?path f
        else let (ok, f) = fs_unlink (squeeze ?path) f in Some (if ok then 0 else - 1, f)) = Some (0, f1)" "fs_clean f1"
      "tree_ok f1" "shrinks ?q f f1" "nodes f1 ?q = None" by blast
    have keep: "nodes f1 ?p = nodes f ?p" using sibling_unchanged(2) [OF f1(4), of "[]"] n(1) by (auto simp: entry_name_def)
    have sib: "listed_in ?p f1 e" if "e \<in> set es" for e
    proof (cases "dot_entry (fst e)")
      case nd: False
      then have "entry_name (fst e)" "listed_in ?p f e" using 3(11) that by (auto simp: listed_in_def)
      moreover have "fst e \<noteq> name" using 3(10) that by auto
      ultimately show ?thesis
        using sibling_unchanged(1) [OF f1(4), of "fst e"] by (simp add: listed_in_def is_dir_def entry_name_def)
    qed (simp add: listed_in_def)
    have "\<exists>f'. empty_entries rd d es f1 = Some (0, f') \<and> fs_clean f' \<and> is_dir f' ?p \<and>
       (\<forall>e \<in> set es. \<not> dot_entry (fst e) \<longrightarrow> nodes f' (?p @ CHR ''/'' # fst e) = None)"
      using 3(3) [OF False path f1(1) refl _ f1(2) 3(5) f1(3) 3(7) _ _ _] keep 3(8,10) sib fits_shrinks [OF 3(9) f1(4)]
      by (simp add: is_dir_def)
    then obtain f' where f': "empty_entries rd d es f1 = Some (0, f')" "fs_clean f'" "is_dir f' ?p"
       "\<forall>e \<in> set es. \<not> dot_entry (fst e) \<longrightarrow> nodes f' (?p @ CHR ''/'' # fst e) = None" by blast
    have "shrinks ?p f1 f'"
      using empty_dir_removes(2) [OF f'(1) 3(5) f1(3) 3(7)] sib by (fastforce simp: listed_in_def)
    then have "nodes f' ?q = None" using f1(5) shrinks_none by blast
    then show ?thesis using False path f1(1) f' by (auto simp: empty_entries.simps)
  qed
qed

lemma empty_dirs_total:
  assumes "fs_clean f" and "listing_ok rd" and "tree_ok f"
    and "\<And>p. p \<in> set ps \<Longrightarrow> length p < 256 \<and> squeeze p \<noteq> [] \<and> is_dir f (squeeze p) \<and> fits p f"
    and "distinct (map squeeze ps)" and "\<And>p q. p \<in> set ps \<Longrightarrow> q \<in> set ps \<Longrightarrow> \<not> below (squeeze p) (squeeze q)"
  shows "\<exists>g. empty_dirs rd ps f = Some (0, g) \<and> fs_clean g \<and>
    (\<forall>q. (\<forall>p \<in> set ps. q \<noteq> squeeze p \<and> \<not> below (squeeze p) q) \<longrightarrow> nodes g q = nodes f q)"
  using assms
proof (induction ps arbitrary: f)
  case (Cons p ps)
  have p: "path_buf p = Some p" using Cons.prems(4) [of p] by (simp add: path_buf_def MAXNAMELEN_def)
  obtain f1 where f1: "empty_dir rd p f = Some (0, f1)" "fs_clean f1"
    using empty_dir_total(1) [OF Cons.prems(1-3), of p] Cons.prems(4) [of p] by auto
  have r: "tree_ok f1" "shrinks (squeeze p) f f1"
    using empty_dir_removes(1) [OF f1(1) Cons.prems(2,3)] Cons.prems(4) [of p] by auto
  have "is_dir f1 (squeeze q)" if "q \<in> set ps" for q
  proof -
    have "squeeze q \<noteq> squeeze p \<and> \<not> below (squeeze p) (squeeze q)" 
      using Cons.prems(5) Cons.prems(6) [of p q] that by (simp, metis imageI)
    then show ?thesis using r(2) Cons.prems(4) [of q] that by (metis is_dir_def list.set_intros(2) shrinks_def)
  qed
  then have "length q < 256 \<and> squeeze q \<noteq> [] \<and> is_dir f1 (squeeze q) \<and> fits q f1" if "q \<in> set ps" for q
    using Cons.prems(4) [of q] fits_shrinks [OF _ r(2)] that by simp
  then obtain g where "empty_dirs rd ps f1 = Some (0, g)" "fs_clean g"
    "\<forall>q. (\<forall>p \<in> set ps. q \<noteq> squeeze p \<and> \<not> below (squeeze p) q) \<longrightarrow> nodes g q = nodes f1 q"
    using Cons.IH [OF f1(2) Cons.prems(2) r(1)] Cons.prems(5,6) by auto
  then show ?case using p f1(1) r(2) unfolding shrinks_def by auto
qed simp

lemma parent_entry: "CHR ''/'' \<notin> set n \<Longrightarrow> parent (p @ CHR ''/'' # n) = p"
proof -
  assume "CHR ''/'' \<notin> set n"
  then have "dropWhile (\<lambda>c. c \<noteq> CHR ''/'') (rev n @ CHR ''/'' # rev p) = CHR ''/'' # rev p"
    by (subst dropWhile_append2) auto
  then show ?thesis by (simp add: parent_def)
qed

lemma create_dir_ok:
  assumes "fs_clean f" and "\<not> file_at f (squeeze d)" and "parent (squeeze d) = [] \<or> is_dir f (parent (squeeze d)) \<or> is_dir f (squeeze d)"
  shows "\<exists>g. create_dir d f = (0, g) \<and> fs_clean g \<and> nodes g = (nodes f)(squeeze d \<mapsto> Directory)"
proof (cases "nodes f (squeeze d)")
  case None
  then have "fs_stat (squeeze d) f = (StNoEnt, f)" using assms(1) by (simp add: fs_stat_def)
  moreover have "fs_mkdir (squeeze d) f = (True, f\<lparr>nodes := (nodes f)(squeeze d \<mapsto> Directory)\<rparr>)"
    using assms None by (auto simp: fs_mkdir_def is_dir_def)
  ultimately show ?thesis using assms(1) by (simp add: create_dir_def fs_clean_def)
next
  case (Some nd)
  then have "nd = Directory" using assms(2) by (cases nd) (auto simp: file_at_def)
  then have "fs_stat (squeeze d) f = (StOk False 4096, f)" using assms(1) Some by (simp add: fs_stat_def)
  then show ?thesis using assms(1) Some \<open>nd = Directory\<close> by (auto simp: create_dir_def)
qed

lemma create_dirs_ok:
  assumes "fs_clean f" and "\<And>p. p \<in> set ps \<Longrightarrow> length p < 256 \<and> \<not> file_at f (squeeze p) \<and> is_dir f (parent (squeeze p))"
  shows "\<exists>g. create_dirs ps f = Some (0, g) \<and> fs_clean g"
  using assms
proof (induction ps arbitrary: f)
  case (Cons p ps)
  have p: "path_buf p = Some p" using Cons.prems(2) [of p] by (simp add: path_buf_def MAXNAMELEN_def)
  obtain f1 where f1: "create_dir p f = (0, f1)" "fs_clean f1" "nodes f1 = (nodes f)(squeeze p \<mapsto> Directory)"
    using create_dir_ok [OF Cons.prems(1), of p] Cons.prems(2) [of p] by auto
  have "length q < 256 \<and> \<not> file_at f1 (squeeze q) \<and> is_dir f1 (parent (squeeze q))" if "q \<in> set ps" for q
    using Cons.prems(2) [of q] that f1(3) by (auto simp: file_at_def is_dir_def)
  from Cons.IH [OF f1(2) this] show ?case using p f1(1) by auto
qed simp

definition calm :: "db_context \<Rightarrow> bool" where
  "calm d \<longleftrightarrow> db_clean d \<and> exec_evs d = []"

lemma calm_frame: "calm d \<Longrightarrow> db_frame d d' \<Longrightarrow> calm d'"
  by (auto simp: calm_def db_clean_def db_frame_def)

lemma initial_set_attr_total:
  assumes "initial rows d" and "calm d" and "unat len = length v"
  shows "\<exists>d'. attr_set_attr_raw d pid oid page number (Some v) len = Some (0, d') \<and>
    initial (replace_row attr_key (attr_row_of pid oid page number (Some v)) rows) d' \<and> calm d'"
proof -
  let ?r = "attr_row_of pid oid page number (Some v)"
  have g: "db_good d" using assms(1) by (simp add: initial_def)
  have b: "blob_of (Some v) len = Some (Some v)" using assms(3) by (simp add: blob_of_def buf_get_def)
  obtain d' where d': "run_dms (\<lambda>t. Some (t\<lparr>t_attr := replace_row attr_key ?r (t_attr t)\<rparr>)) d = Some (0, d')" "db_frame d d'"
    using run_dms_ok [OF g, of "\<lambda>t. Some (t\<lparr>t_attr := replace_row attr_key ?r (t_attr t)\<rparr>)"] assms(2) by (auto simp: OSD_OK_def calm_def)
  then have run: "attr_set_attr_raw d pid oid page number (Some v) len = Some (0, d')"
    using g b by (simp add: attr_set_attr_raw_def on_attr_def db_good_def)
  then show ?thesis using initial_set_attr [OF assms(1,3) run] calm_frame [OF assms(2) d'(2)] by blast
qed

lemma initial_set_names_total:
  "initial rows d \<Longrightarrow> calm d \<Longrightarrow> \<forall>(page, number, s) \<in> set ias. length s < 65535 \<Longrightarrow>
    \<exists>d' rows'. set_names ias d = Some (0, d') \<and> initial rows' d' \<and> calm d'"
proof (induction ias arbitrary: d rows)
  case (Cons ia ias)
  obtain page number s where ia: "ia = (page, number, s)" by (cases ia)
  have "unat (of_nat (length s + 1) :: u16) = length (cstr s)" using Cons.prems(3) ia cstr_size by simp
  from initial_set_attr_total [OF Cons.prems(1,2) this]
  obtain d1 rows1 where "attr_set_attr_raw d ROOT_PID ROOT_OID page number (Some (cstr s)) (of_nat (length s + 1)) = Some (0, d1)"
    "initial rows1 d1" "calm d1" by blast
  with Cons.IH [of rows1 d1] Cons.prems(3) ia show ?case by simp
qed auto

lemma initialize_db_total:
  assumes "db_good (dbc osd)" and "tabs (dbc osd) = \<lparr>t_obj = [], t_attr = [], t_coll = []\<rparr>" and "calm (dbc osd)"
  shows "\<exists>osd'. osd_initialize_db osd = Some (0, osd') \<and> exec_evs (dbc osd') = []"
proof -
  let ?o = "osd\<lparr>ccap := no_ccap, ic := \<lparr>cur_pid = 0, next_id = 0\<rparr>\<rparr>"
  obtain d where d: "obj_insert (dbc osd) ROOT_PID ROOT_OID (ucast ROOT) = Some (0, d)" "initial [] d" "calm d"
    using obj_insert_ok [OF assms(1), of ROOT_PID ROOT_OID "ucast ROOT"] assms(2) calm_frame [OF assms(3)] assms(3)
    by (auto simp: initial_def tables_ok_def OSD_OK_def OSD_ERROR_def obj_map_def calm_def)
  have small: "\<forall>(page, number, s) \<in> set root_info. length s < 65535" "\<forall>(page, number, s) \<in> set partition_info. length s < 65535"
    using names_small by auto
  obtain d1 rows1 where d1: "set_names root_info d = Some (0, d1)" "initial rows1 d1" "calm d1"
    using initial_set_names_total [OF d(2,3) small(1)] by blast
  obtain d2 rows2 where d2: "set_names partition_info d1 = Some (0, d2)" "initial rows2 d2" "calm d2"
    using initial_set_names_total [OF d1(2,3) small(2)] by blast
  obtain d3 where d3: "attr_set_attr_raw d2 ROOT_PID ROOT_OID (PARTITION_PG + 1) 1 (Some (replicate 8 0)) 8 = Some (0, d3)" "calm d3"
    using initial_set_attr_total [OF d2(2,3), of 8 "replicate 8 0" ROOT_PID ROOT_OID "PARTITION_PG + 1" 1] by auto
  from d3(1) have "attr_set_attr (?o\<lparr>dbc := d2\<rparr>) ROOT_PID ROOT_OID (PARTITION_PG + 1) 1 (Some (replicate 8 0)) 8 = Some (0, ?o\<lparr>dbc := d3\<rparr>)"
    by (simp add: attr_set_attr_def with_dbc_def osd_consts)
  then show ?thesis using d(1) d1(1) d2(1) d3(2) by (simp add: osd_initialize_db_def Let_def calm_def)
qed

lemma open_database_total:
  assumes "fs_clean (files osd)" and "nodes (files osd) path = None" and "\<forall>b \<in> set (prep_evs (dbc osd)). b"
    and "calm (dbc osd)" and "o_open env"
  shows "\<exists>osd'. open_database env path osd = Some (1, osd') \<and> calm (dbc osd')"
proof -
  have st: "stat_db path (files osd) = (StatNoEnt, files osd)" using assms(1,2) by (simp add: stat_db_def fs_stat_def)
  let ?n = "no_context (dbc osd)" let ?d = "?n\<lparr>tabs := \<lparr>t_obj = [], t_attr = [], t_coll = []\<rparr>\<rparr>"
  have x: "sq_exec ?n = (True, ?n)" using assms(4) by (simp add: sq_exec_def no_context_def calm_def)
  obtain es where "db_initialize ?d = Some (OSD_OK, ?d\<lparr>coll_tab := Prepared, obj_tab := Prepared,
      attr_tab := Prepared, prep_evs := es\<rparr>)"
    by (rule db_initialize_ok [of ?d]) (use assms(3) in \<open>simp_all add: no_context_def\<close>)
  then show ?thesis
    using x assms(4,5) unfolding open_database_def st by (simp add: osd_db_open_def no_context_def db_clean_def calm_def; blast)
qed

text \<open>A target that is open, and nothing of what it calls fails.\<close>

definition healthy :: "open_env \<Rightarrow> osd_device \<Rightarrow> bool" where
  "healthy env osd \<longleftrightarrow> fs_clean (files osd) \<and> db_good (dbc osd) \<and> calm (dbc osd) \<and>
     o_open env \<and> root osd \<noteq> [] \<and> squeeze (root osd) = root osd \<and> length (root osd) \<le> MAXROOTLEN \<and>
     is_dir (files osd) (root osd) \<and> file_at (files osd) (root osd @ ''/md/osd.db'') \<and>
     (\<forall>p \<in> {root osd @ ''/md/'', root osd @ ''/stranded'', root osd @ ''/dfiles''}.
        is_dir (files osd) (squeeze p) \<and> fits p (files osd))"

lemma setup_total:
  assumes f: "fs_clean (files osd)" and r: "squeeze r = r" "length r \<le> MAXROOTLEN" "is_dir (files osd) r"
    and none: "\<And>q. q \<in> {r @ ''/dfiles'', r @ ''/stranded'', r @ ''/md''} \<or> below (r @ ''/dfiles'') q \<or> below (r @ ''/md'') q \<Longrightarrow>
      nodes (files osd) q = None"
    and d: "\<forall>b \<in> set (prep_evs (dbc osd)). b" "calm (dbc osd)" and env: "o_open env"
  shows "\<exists>osd'. setup_root_paths env r osd = Some (0, osd')"
proof -
  let ?o = "osd\<lparr>root := freed_root, dbc := no_context (dbc osd), ccap := no_ccap, ic := \<lparr>cur_pid = 0, next_id = 0\<rparr>\<rparr>"
  obtain f1 where f1: "create_dir r (files osd) = (0, f1)" "fs_clean f1" "nodes f1 = nodes (files osd)"
    using create_dir_ok [OF f, of r] r by (auto simp: file_at_def is_dir_def fun_upd_idem split: option.splits node.splits)
  have par: "parent (r @ ''/dfiles'') = r" using parent_entry [of "''dfiles''" r] by simp
  have sqd: "squeeze (r @ ''/dfiles/'') = r @ ''/dfiles''"
    using squeeze_slash_end [of "r @ ''/dfiles''"] squeeze_entry [of "''dfiles''" r] r(1) by (simp add: entry_name_def)
  obtain f2 where f2: "create_dir (r @ ''/dfiles/'') f1 = (0, f2)" "fs_clean f2" "nodes f2 = (nodes f1)(r @ ''/dfiles'' \<mapsto> Directory)"
    using create_dir_ok [OF f1(2), of "r @ ''/dfiles/''"] r(3) none [of "r @ ''/dfiles''"] f1(3) sqd par
    by (auto simp: file_at_def is_dir_def)
  let ?rest = "map (\<lambda>i. r @ ''/'' @ dfiles @ ''/'' @ hex_byte i @ ''/'') [0..<256] @ [r @ ''/'' @ stranded @ ''/'', r @ ''/'' @ md @ ''/'']"
  have rest: "length p < 256 \<and> \<not> file_at f2 (squeeze p) \<and> is_dir f2 (parent (squeeze p))" if "p \<in> set ?rest" for p
  proof -
    have rd: "is_dir f2 r" "is_dir f2 (r @ ''/dfiles'')" using r(3) f1(3) f2(3) by (simp_all add: is_dir_def)
    from that consider (hex) i where "p = r @ ''/dfiles/'' @ hex_byte i @ ''/''" | (str) "p = r @ ''/stranded/''" | (md) "p = r @ ''/md/''"
      by (auto simp: dfiles_def stranded_def md_def)
    then show ?thesis
    proof cases
      case hex
      note n = hex_byte_name [of i]
      have sq: "squeeze p = (r @ ''/dfiles'') @ CHR ''/'' # hex_byte i"
        using squeeze_slash_end [of "r @ ''/dfiles/'' @ hex_byte i"] squeeze_entry [OF n, of "r @ ''/dfiles''"]
          squeeze_entry [of "''dfiles''" r] r(1) hex by (simp add: entry_name_def)
      have "parent (squeeze p) = r @ ''/dfiles''" unfolding sq by (rule parent_entry) (use n in \<open>simp add: entry_name_def\<close>)
      moreover have "nodes f2 (squeeze p) = None" using none [of "squeeze p"] f1(3) f2(3) sq by (auto simp: below_def)
      ultimately show ?thesis using rd(2) hex r(2) by (simp add: file_at_def hex_byte_def MAXROOTLEN_def)
    next
      case str
      have sq: "squeeze p = r @ ''/stranded''"
        using squeeze_slash_end [of "r @ ''/stranded''"] squeeze_entry [of "''stranded''" r] r(1) str by (simp add: entry_name_def)
      then show ?thesis using none [of "r @ ''/stranded''"] f1(3) f2(3) rd(1) parent_entry [of "''stranded''" r] str r(2)
        by (simp add: file_at_def MAXROOTLEN_def)
    next
      case md
      have sq: "squeeze p = r @ ''/md''"
        using squeeze_slash_end [of "r @ ''/md''"] squeeze_entry [of "''md''" r] r(1) md by (simp add: entry_name_def)
      then show ?thesis using none [of "r @ ''/md''"] f1(3) f2(3) rd(1) parent_entry [of "''md''" r] md r(2)
        by (simp add: file_at_def MAXROOTLEN_def)
    qed
  qed
  obtain f3 where f3: "create_dirs ?rest f2 = Some (0, f3)" "fs_clean f3" using create_dirs_ok [OF f2(2) rest] by blast
  have "path_buf (r @ ''/dfiles/'') = Some (r @ ''/dfiles/'')" using r(2) by (simp add: path_buf_def MAXROOTLEN_def MAXNAMELEN_def)
  then have dirs: "create_dirs (root_dirs r) f1 = Some (0, f3)"
    using f2(1) f3(1) by (simp add: root_dirs_def dfiles_def)
  have "nodes f3 (r @ ''/md/osd.db'') = None"
  proof -
    have "r @ ''/md/osd.db'' \<notin> squeeze ` set (root_dirs r)" using root_dirs_squeezed [OF r(1)] by auto
    then have "nodes f3 (r @ ''/md/osd.db'') = nodes f1 (r @ ''/md/osd.db'')"
      using create_dirs_nodes [OF dirs] unfolding only_dirs_def by metis
    then show ?thesis using none [of "r @ ''/md/osd.db''"] f1(3) below_entry [of "r @ ''/md''" "''osd.db''"] by simp
  qed
  moreover have path: "get_dbname r = Some (r @ ''/md/osd.db'')"
    using r(2) by (simp add: get_dbname_def path_buf_def md_def dbname_def MAXROOTLEN_def MAXNAMELEN_def)
  ultimately obtain o4 where o4: "open_database env (r @ ''/md/osd.db'') (?o\<lparr>files := f3, root := r\<rparr>) = Some (1, o4)"
    "calm (dbc o4)"
    using open_database_total [of "?o\<lparr>files := f3, root := r\<rparr>" "r @ ''/md/osd.db''" env] f3(2) d env
    by (auto simp: no_context_def db_clean_def calm_def)
  have good: "db_good (dbc o4) \<and> tabs (dbc o4) = \<lparr>t_obj = [], t_attr = [], t_coll = []\<rparr>"
    using open_database_new [OF o4(1)] \<open>nodes f3 (r @ ''/md/osd.db'') = None\<close> d(1) by (simp add: no_context_def)
  obtain o5 where o5: "osd_initialize_db o4 = Some (0, o5)" "exec_evs (dbc o5) = []"
    using initialize_db_total [of o4] good o4(2) by blast
  have "setup_root_paths env r osd = Some (0, o5\<lparr>dbc := snd (db_exec_pragma (dbc o5))\<rparr>)"
    using f1(1) dirs path o4(1) o5 r(2)
    by (simp add: setup_root_paths_def Let_def db_exec_pragma_def sq_exec_def OSD_OK_def)
  then show ?thesis by blast
qed

lemma healthy_format:
  assumes h: "healthy env osd" and l: "listing_ok (o_readdir env)" and t: "tree_ok (files osd)"
  shows "\<exists>osd'. osd_format_osd env osd capacity sense = Some (OSD_OK, sense, osd')"
proof -
  let ?r = "root osd" let ?f = "files osd"
  let ?dirs = "[?r @ ''/md/'', ?r @ ''/stranded'', ?r @ ''/dfiles'']"
  have f: "fs_clean ?f" and r: "?r \<noteq> []" "squeeze ?r = ?r" "length ?r \<le> MAXROOTLEN" and rd: "is_dir ?f ?r"
    and db: "file_at ?f (?r @ ''/md/osd.db'')" and d: "db_good (dbc osd)" "calm (dbc osd)" and env: "o_open env"
    and dirs: "\<And>p. p \<in> set ?dirs \<Longrightarrow> is_dir ?f (squeeze p) \<and> fits p ?f"
    using h by (auto simp: healthy_def)
  have sq: "squeeze (?r @ ''/md/'') = ?r @ ''/md''" "squeeze (?r @ ''/dfiles'') = ?r @ ''/dfiles''"
    "squeeze (?r @ ''/stranded'') = ?r @ ''/stranded''"
    using squeeze_slash_end [of "?r @ ''/md''"] squeeze_entry [of _ ?r] r(2) by (simp_all add: entry_name_def)
  have path: "get_dbname ?r = Some (?r @ ''/md/osd.db'')"
    using r(3) by (simp add: get_dbname_def path_buf_def md_def dbname_def MAXROOTLEN_def MAXNAMELEN_def)
  have st: "stat_db (?r @ ''/md/osd.db'') ?f = (StatReg, ?f)"
    using f db by (auto simp: stat_db_def fs_stat_def file_at_def)
  have ps: "length p < 256 \<and> squeeze p \<noteq> [] \<and> is_dir ?f (squeeze p) \<and> fits p ?f" if "p \<in> set ?dirs" for p
    using dirs [OF that] that sq r by (auto simp: MAXROOTLEN_def)
  have apart: "distinct (map squeeze ?dirs)" "\<And>p q. p \<in> set ?dirs \<Longrightarrow> q \<in> set ?dirs \<Longrightarrow> \<not> below (squeeze p) (squeeze q)"
    using sq by (auto simp: below_def)
  obtain g where g: "empty_dirs (o_readdir env) ?dirs ?f = Some (0, g)" "fs_clean g"
    "\<And>q. (\<forall>p \<in> set ?dirs. q \<noteq> squeeze p \<and> \<not> below (squeeze p) q) \<Longrightarrow> nodes g q = nodes ?f q"
    using empty_dirs_total [OF f l t ps apart] by blast
  have gone: "\<forall>p \<in> set ?dirs. gone (squeeze p) g"
    using empty_dirs_removes [OF g(1) l t] ps by simp
  have "nodes g ?r = nodes ?f ?r" using g(3) [of ?r] sq by (auto simp: below_def)
  then have gr: "is_dir g ?r" using rd by (simp add: is_dir_def)
  let ?o = "osd\<lparr>files := g, dbc := no_context (dbc osd), root := freed_root\<rparr>"
  have "coll_finalize (dbc osd) \<noteq> None" using d(1) by (simp add: coll_finalize_def finalize_tab_def db_good_def)
  then have c: "osd_close (osd\<lparr>files := g\<rparr>) = Some (OSD_OK, ?o)"
    using d(1) by (simp add: osd_close_def osd_db_close_def db_finalize_def coll_finalize_def obj_finalize_def
        attr_finalize_def finalize_tab_def db_good_def)
  have "nodes g q = None" if "q \<in> {?r @ ''/dfiles'', ?r @ ''/stranded'', ?r @ ''/md''} \<or> below (?r @ ''/dfiles'') q \<or> below (?r @ ''/md'') q" for q
    using gone that sq by (auto simp: gone_def)
  moreover have "\<forall>b \<in> set (prep_evs (dbc ?o)). b" using d(1) by (simp add: db_good_def no_context_def; blast)
  moreover have "calm (dbc ?o)" using d(2) by (simp add: calm_def db_clean_def no_context_def) blast
  ultimately obtain o3 where s: "setup_root_paths env ?r ?o = Some (0, o3)"
    using setup_total [of ?o ?r env] g(2) r(2,3) gr env by auto
  show ?thesis
    using path st g(1) c s
    by (simp del: empty_dirs.simps add: osd_format_osd_def format_osd_def osd_open_def md_def stranded_def dfiles_def Let_def OSD_OK_def)
qed

section \<open>Properties\<close>

text \<open>
  C11. Formatting a target whose database file \<open>stat\<close> finds, answered with success: the object table has
  the root object alone, there are no collections, the attributes are the ones \<open>osd_initialize_db\<close> writes
  and no others, no data file is left, and the cache is empty; but the path of its root
  has been freed. Whatever the engine and the file system answered on the way. (When \<open>stat\<close> fails, nothing
  is erased and the answer can be success all the same.)
\<close>

theorem format_erases:
  assumes "osd_format_osd env osd capacity sense = Some (OSD_OK, sense', osd')"
    and "fst (stat_db (root osd @ ''/md/osd.db'') (files osd)) = StatReg"
    and "listing_ok (o_readdir env)" and "tree_ok (files osd)" and "db_good (dbc osd)"
    and "root osd \<noteq> []" and "squeeze (root osd) = root osd" and "252 \<le> length sense"
  shows "fresh_device (osd'\<lparr>root := root osd\<rparr>) \<and>
    t_attr (tabs (dbc osd')) = initial_attrs \<and> t_coll (tabs (dbc osd')) = [] \<and>
    (\<forall>q c. below (root osd @ ''/dfiles'') q \<longrightarrow> nodes (files osd') q \<noteq> Some (RegFile c)) \<and> root osd' = freed_root"
proof -
  let ?r = "root osd"
  obtain o1 where o1: "format_osd env osd sense = Some (OSD_OK, sense', o1)" "osd' = o1\<lparr>root := freed_root\<rparr>"
    using assms(1) by (auto simp: osd_format_osd_def split: Option.bind_splits)
  obtain path where "get_dbname ?r = Some path" using o1(1) by (auto simp del: empty_dirs.simps simp: format_osd_def Let_def split: Option.bind_splits)
  then have path: "get_dbname ?r = Some (?r @ ''/md/osd.db'')"
    by (auto simp: get_dbname_def md_def dbname_def dest: path_buf_bound)
  obtain f0 where f0: "stat_db (?r @ ''/md/osd.db'') (files osd) = (StatReg, f0)"
    using assms(2) by (cases "stat_db (?r @ ''/md/osd.db'') (files osd)") auto
  have n0: "nodes f0 = nodes (files osd)"
  proof -
    obtain a f where a: "fs_stat (?r @ ''/md/osd.db'') (files osd) = (a, f)"
      by (cases "fs_stat (?r @ ''/md/osd.db'') (files osd)")
    then have "f0 = f" using f0 by (cases a) (simp_all add: stat_db_def split: if_splits)
    then show ?thesis using stat_nodes [OF a] by simp
  qed
  let ?dirs = "[?r @ ''/md/'', ?r @ ''/stranded'', ?r @ ''/dfiles'']"
  obtain r1 f1 where e: "empty_dirs (o_readdir env) ?dirs f0 = Some (r1, f1)"
    using o1(1) path f0 by (auto simp del: empty_dirs.simps simp: format_osd_def md_def stranded_def dfiles_def Let_def split: Option.bind_splits)
  have err: "with_sense osd1 sense key code 0 0 \<noteq> Some (OSD_OK, s, o')" for osd1 s o' key code
    by (rule sense_build_sdd_ok [OF assms(8), of key code 0 0]) (simp add: with_sense_def OSD_OK_def)
  have r1: "r1 = 0"
    using o1(1) path f0 e err
    by (auto simp del: empty_dirs.simps simp: format_osd_def md_def stranded_def dfiles_def Let_def split: Option.bind_splits if_splits)
  obtain r2 o2 where c: "osd_close (osd\<lparr>files := f1\<rparr>) = Some (r2, o2)"
    using o1(1) path f0 e r1 by (auto simp del: empty_dirs.simps simp: format_osd_def md_def stranded_def dfiles_def Let_def split: Option.bind_splits)
  have r2: "r2 = 0" using c by (auto simp: osd_close_def osd_db_close_def OSD_OK_def split: Option.bind_splits)
  have o2: "files o2 = f1" "prep_evs (dbc o2) = prep_evs (dbc osd)"
    using c by (auto simp: osd_close_def no_context_def split: Option.bind_splits)
  obtain r3 o3 where s: "setup_root_paths env ?r o2 = Some (r3, o3)"
    using o1(1) path f0 e r1 c r2
    by (auto simp del: empty_dirs.simps simp: format_osd_def osd_open_def md_def stranded_def dfiles_def Let_def split: Option.bind_splits)
  have r3: "r3 = 0" "o1 = o3\<lparr>ccap := no_ccap\<rparr>"
    using o1(1) path f0 e r1 c r2 s err
    by (auto simp del: empty_dirs.simps simp: format_osd_def osd_open_def md_def stranded_def dfiles_def Let_def split: Option.bind_splits if_splits)
  have sq: "squeeze (?r @ ''/md/'') = ?r @ ''/md''" "squeeze (?r @ ''/dfiles'') = ?r @ ''/dfiles''"
    "squeeze (?r @ ''/stranded'') = ?r @ ''/stranded''"
    using squeeze_slash_end [of "?r @ ''/md''"] squeeze_entry [of _ ?r] assms(7) by (simp_all add: entry_name_def)
  have t0: "tree_ok f0" using assms(4) n0 tree_ok_cong by blast
  have em: "\<forall>q. nodes f1 q = nodes f0 q \<or> nodes f1 q = None" "gone (?r @ ''/md'') f1" "gone (?r @ ''/dfiles'') f1"
    using empty_dirs_removes [OF e assms(3) t0] sq r1 by simp_all
  have "nodes (files o2) (?r @ ''/md/osd.db'') = None"
    using em(2) o2(1) below_entry [of "?r @ ''/md''" "''osd.db''"] unfolding gone_def by auto
  moreover have "\<forall>b \<in> set (prep_evs (dbc o2)). b" using o2(2) assms(5) unfolding db_good_def by metis
  ultimately have "initial initial_attrs (dbc o3) \<and> ic o3 = no_cache \<and> root o3 = ?r \<and> length ?r \<le> MAXROOTLEN \<and>
    (\<forall>q. q \<noteq> ?r @ ''/md/osd.db'' \<longrightarrow> file_at (files o3) q \<longrightarrow> file_at (files o2) q)"
    using setup_new [OF _ assms(7), of env o2 o3] s r3(1) by blast
  then have i: "initial initial_attrs (dbc o3)" "ic o3 = no_cache" "root o3 = ?r" "length ?r \<le> MAXROOTLEN"
    "\<And>q. q \<noteq> ?r @ ''/md/osd.db'' \<Longrightarrow> file_at (files o3) q \<Longrightarrow> file_at (files o2) q"
    by blast+
  have "nodes (files o3) q \<noteq> Some (RegFile c)" if "below (?r @ ''/dfiles'') q" for q c
  proof -
    have "q \<noteq> ?r @ ''/md/osd.db''" using that by (auto simp: below_def)
    moreover have "\<not> file_at f1 q" using em(3) that by (auto simp: gone_def file_at_def)
    ultimately show ?thesis using i(5) o2(1) by (auto simp: file_at_def)
  qed
  moreover have "db_good (dbc o3)" "tables_ok (tabs (dbc o3))" "t_obj (tabs (dbc o3)) = [obj_row_of ROOT_PID ROOT_OID (ucast ROOT)]"
    "t_attr (tabs (dbc o3)) = initial_attrs" "t_coll (tabs (dbc o3)) = []"
    using i(1) unfolding initial_def by (blast, blast, simp_all)
  ultimately show ?thesis
    using i(2,4) o1(2) r3(2) by (simp add: fresh_device_def root_fits_def)
qed

lemma listing_exists: "\<exists>rd. listing_ok rd"
proof -
  let ?P = "\<lambda>s p xs. finite (dom (nodes s)) \<longrightarrow> is_dir s p \<longrightarrow> distinct (map fst xs) \<and>
     (\<forall>n b. \<not> dot_entry n \<longrightarrow>
       ((n, b) \<in> set xs \<longleftrightarrow> entry_name n \<and> nodes s (p @ ''/'' @ n) \<noteq> None \<and> b = is_dir s (p @ ''/'' @ n)))"
  have "\<exists>xs. ?P s p xs" for s :: fs and p
  proof (cases "finite (dom (nodes s))")
    case True
    let ?N = "{n. entry_name n \<and> nodes s (p @ ''/'' @ n) \<noteq> None}"
    have "finite ((\<lambda>n. p @ ''/'' @ n) ` ?N)" by (rule finite_subset [OF _ True]) (auto simp: dom_def)
    then have "finite ?N" by (rule finite_imageD) (simp add: inj_on_def)
    from finite_distinct_list [OF this] obtain ns where ns: "set ns = ?N" "distinct ns" by (elim exE conjE)
    have "?P s p (map (\<lambda>n. (n, is_dir s (p @ ''/'' @ n))) ns)"
    proof (intro impI conjI allI)
      show "distinct (map fst (map (\<lambda>n. (n, is_dir s (p @ ''/'' @ n))) ns))" using ns(2) by (simp add: comp_def)
      fix n b
      have "n \<in> set ns \<longleftrightarrow> entry_name n \<and> nodes s (p @ ''/'' @ n) \<noteq> None" using ns(1) by blast
      then show "(n, b) \<in> set (map (\<lambda>n. (n, is_dir s (p @ ''/'' @ n))) ns) \<longleftrightarrow>
          entry_name n \<and> nodes s (p @ ''/'' @ n) \<noteq> None \<and> b = is_dir s (p @ ''/'' @ n)"
        by (simp only: set_map image_iff prod.inject) blast
    qed
    then show ?thesis by blast
  qed simp
  then obtain rd where "\<And>s p. ?P s p (rd s p)" by metis
  then show ?thesis unfolding listing_ok_def by blast
qed

lemma tree_okI:
  assumes "finite (dom (nodes s))"
    and "\<And>x. nodes s x \<noteq> None \<Longrightarrow> squeeze x = x \<and> (parent x = [] \<or> is_dir s (parent x)) \<and> \<not> dot_entry (drop (Suc (length (parent x))) x)"
  shows "tree_ok s"
proof -
  have "is_dir s q \<and> \<not> dot_entry n" if "entry_name n" "nodes s (q @ ''/'' @ n) \<noteq> None" "q \<noteq> []" for q n
  proof -
    have "parent (q @ ''/'' @ n) = q" using parent_entry [of n q] that(1) by (simp add: entry_name_def)
    then show ?thesis using assms(2) [OF that(2)] that(3) by simp
  qed
  then show ?thesis using assms unfolding tree_ok_def by blast
qed

definition used_device :: osd_device where
  "used_device = (sample_device [] [])\<lparr>files := (files (sample_device [] []))\<lparr>nodes :=
     [''/r'' \<mapsto> Directory, ''/r/md'' \<mapsto> Directory, ''/r/md/osd.db'' \<mapsto> RegFile [], ''/r/stranded'' \<mapsto> Directory,
      ''/r/dfiles'' \<mapsto> Directory, ''/r/dfiles/01'' \<mapsto> Directory, ''/r/dfiles/01/10000.10001'' \<mapsto> RegFile [1, 2, 3]]\<rparr>\<rparr>"

lemma used_device_tree: "tree_ok (files used_device)"
proof (rule tree_okI)
  fix x assume "nodes (files used_device) x \<noteq> None"
  then have "x \<in> {''/r'', ''/r/md'', ''/r/md/osd.db'', ''/r/stranded'', ''/r/dfiles'', ''/r/dfiles/01'', ''/r/dfiles/01/10000.10001''}"
    by (auto simp: used_device_def split: if_splits)
  then show "squeeze x = x \<and> (parent x = [] \<or> is_dir (files used_device) (parent x)) \<and>
    \<not> dot_entry (drop (Suc (length (parent x))) x)"
    by (auto simp: used_device_def is_dir_def parent_def dot_entry_def)
qed (simp add: used_device_def)

lemma used_device_healthy: "healthy \<lparr>o_readdir = rd, o_open = True, o_tables = []\<rparr> used_device"
proof -
  let ?f = "files used_device"
  have fits: "fits p ?f" if "length p < 200" for p
  proof -
    have "length t < 50" if "nodes ?f (squeeze p @ CHR ''/'' # t) \<noteq> None" for t
    proof -
      have "length x < 30" if "nodes ?f x \<noteq> None" for x using that by (auto simp: used_device_def split: if_splits)
      from this [OF that] show ?thesis by simp
    qed
    then show ?thesis using that unfolding fits_def by fastforce
  qed
  show ?thesis
    using fits [of "''/r/md/''"] fits [of "''/r/stranded''"] fits [of "''/r/dfiles''"]
    by (simp add: healthy_def used_device_def sample_device_def is_dir_def file_at_def fs_clean_def calm_def
        MAXROOTLEN_def) (simp add: sample_db_def)
qed

theorem format_erases_witness:
  "\<exists>rd osd'. osd_format_osd \<lparr>o_readdir = rd, o_open = True, o_tables = []\<rparr> used_device 0 (replicate 252 0)
      = Some (OSD_OK, replicate 252 0, osd') \<and> nodes (files osd') ''/r/dfiles/01/10000.10001'' \<noteq> Some (RegFile [1, 2, 3])"
proof -
  obtain rd where rd: "listing_ok rd" using listing_exists by blast
  let ?env = "\<lparr>o_readdir = rd, o_open = True, o_tables = []\<rparr>"
  obtain osd' where f: "osd_format_osd ?env used_device 0 (replicate 252 0) = Some (OSD_OK, replicate 252 0, osd')"
    using healthy_format [OF used_device_healthy _ used_device_tree, of rd] rd by auto
  have db: "fst (stat_db (root used_device @ ''/md/osd.db'') (files used_device)) = StatReg"
    by (simp add: used_device_def sample_device_def stat_db_def fs_stat_def fs_clean_def)
  have "below (root used_device @ ''/dfiles'') ''/r/dfiles/01/10000.10001''"
    by (simp add: below_def used_device_def sample_device_def)
  then show ?thesis
    using format_erases [OF f db _ used_device_tree] rd f
    by (auto simp: used_device_def sample_device_def)
qed

end
