(* ===== verification/Pan_Device.thy ===== *)
theory Pan_Device
  imports Osd_Open
begin

text \<open>
  The other back end of the target, for the Panasas file system: its object table \<^verbatim>\<open>pan_obj.c\<close>,
  its collections \<^verbatim>\<open>pan_coll.c\<close> and its queries \<^verbatim>\<open>pan_mtq.c\<close>. The functions have the names of
  the other back end in the code, here they start with \<open>pan\<close>.

  The file system is not in the repository. What its \<open>ioctl\<close> requests do is an argument of the model: a
  record of functions on the state of the kernel, which are the directory tree and a state of its own.
\<close>

section \<open>The device\<close>

type_synonym 'w kern = "fs \<times> 'w"

text \<open>The attributes of the file system the target uses, by the names of their macros.\<close>

datatype pan_attr = DEVICE_UserName | DEVICE_ID | DEVICE_Vendor | DEVICE_ProductID | DEVICE_ModelNumber
  | DEVICE_ProductRev | DEVICE_SerialNumber | DEVICE_TotalCapacity | DEVICE_RemainingCapacity
  | DEVICE_GroupCount | DEVICE_Clock

text \<open>
  The requests: the return value, then what they leave in the structure of the request. A read stores
  the bytes it reports; a write reports a length.
\<close>

record 'w osdfs =
  io_create_object :: "u64 \<Rightarrow> u64 \<Rightarrow> 'w kern \<Rightarrow> int \<times> 'w kern"
  io_create_group :: "u64 \<Rightarrow> 'w kern \<Rightarrow> int \<times> 'w kern"
  io_remove_object :: "u64 \<Rightarrow> u64 \<Rightarrow> 'w kern \<Rightarrow> int \<times> 'w kern"
  io_remove_group :: "u64 \<Rightarrow> 'w kern \<Rightarrow> int \<times> 'w kern"
  io_read :: "u64 \<Rightarrow> u64 \<Rightarrow> u64 \<Rightarrow> u64 \<Rightarrow> 'w kern \<Rightarrow> int \<times> bytes \<times> 'w kern"
  io_write :: "u64 \<Rightarrow> u64 \<Rightarrow> u64 \<Rightarrow> bytes \<Rightarrow> 'w kern \<Rightarrow> int \<times> u64 \<times> 'w kern"
  io_setattr :: "u64 \<Rightarrow> u64 \<Rightarrow> bytes \<Rightarrow> 'w kern \<Rightarrow> int \<times> 'w kern"
  io_getattr :: "u64 \<Rightarrow> u64 \<Rightarrow> bytes \<Rightarrow> 'w kern \<Rightarrow> int \<times> (u32 \<times> bytes) \<times> 'w kern"
  make_attribute :: "u32 \<Rightarrow> u32 \<Rightarrow> u32"
  attribute_page :: "pan_attr \<Rightarrow> u32"
  attribute_id :: "pan_attr \<Rightarrow> u32"
  max_std_attr_page :: u32

record 'w pan_device =
  p_root :: string
  p_ccap :: cur_cmd_attr_pg
  p_kern :: "'w kern"

definition on_kern :: "('w kern \<Rightarrow> 'a \<times> 'w kern) \<Rightarrow> 'w pan_device \<Rightarrow> 'a \<times> 'w pan_device" where
  "on_kern f osd = (let (a, k) = f (p_kern osd) in (a, osd\<lparr>p_kern := k\<rparr>))"

definition on_files :: "(fs \<Rightarrow> 'a \<times> fs) \<Rightarrow> 'w pan_device \<Rightarrow> 'a \<times> 'w pan_device" where
  "on_files f osd = (let (a, t) = f (fst (p_kern osd)) in (a, osd\<lparr>p_kern := (t, snd (p_kern osd))\<rparr>))"

text \<open>\<open>%llu\<close>, and the names of the objects with this back end.\<close>

fun dec_string :: "nat \<Rightarrow> string" where
  "dec_string n = (if n < 10 then [hex_digit n] else dec_string (n div 10) @ [hex_digit (n mod 10)])"

declare dec_string.simps [simp del]

definition pan_dfile_name :: "string \<Rightarrow> u64 \<Rightarrow> u64 \<Rightarrow> string option" where
  "pan_dfile_name r pid oid =
     (if oid = 0 then path_buf (r @ ''/'' @ dfiles @ ''/'' @ dec_string (unat pid))
      else if pid = 0 then path_buf (r @ ''/'' @ dfiles)
      else path_buf (r @ ''/'' @ dfiles @ ''/'' @ dec_string (unat pid) @ ''/'' @ dec_string (unat oid)))"

section \<open>The object table\<close>

definition pan_obj_initialize :: "'w pan_device \<Rightarrow> int \<times> 'w pan_device" where
  "pan_obj_initialize osd = (0, osd)"

definition pan_obj_finalize :: "'w pan_device \<Rightarrow> int \<times> 'w pan_device" where
  "pan_obj_finalize osd = (0, osd)"

definition pan_obj_getname :: string where
  "pan_obj_getname = ''pan_obj_name''"

definition pan_obj_insert :: "'w osdfs \<Rightarrow> 'w pan_device \<Rightarrow> u64 \<Rightarrow> u64 \<Rightarrow> u32 \<Rightarrow> int \<times> 'w pan_device" where
  "pan_obj_insert P osd pid oid type =
     on_kern (if oid \<noteq> 0 then io_create_object P pid oid else io_create_group P pid) osd"

text \<open>The answer of the request is only logged.\<close>

definition pan_obj_delete :: "'w osdfs \<Rightarrow> 'w pan_device \<Rightarrow> u64 \<Rightarrow> u64 \<Rightarrow> int \<times> 'w pan_device" where
  "pan_obj_delete P osd pid oid =
     (let (_, osd) = on_kern (if oid \<noteq> 0 then io_remove_object P pid oid else io_remove_group P pid) osd
      in (0, osd))"

text \<open>Functions that succeed and do nothing. What they should have stored keeps its value.\<close>

definition pan_obj_delete_pid :: "'w pan_device \<Rightarrow> u64 \<Rightarrow> int \<times> 'w pan_device" where
  "pan_obj_delete_pid osd pid = (0, osd)"

definition pan_obj_get_nextoid :: "'w pan_device \<Rightarrow> u64 \<Rightarrow> u64 \<Rightarrow> int \<times> u64 \<times> 'w pan_device" where
  "pan_obj_get_nextoid osd pid oid = (0, oid, osd)"

definition pan_obj_get_nextpid :: "'w pan_device \<Rightarrow> u64 \<Rightarrow> int \<times> u64 \<times> 'w pan_device" where
  "pan_obj_get_nextpid osd pid = (0, pid, osd)"

text \<open>The path buffer of \<open>obj_ispresent\<close> is \<open>MAXPATHLEN\<close> bytes long, on BSD systems.\<close>

definition MAXPATHLEN :: nat where
  "MAXPATHLEN = 1024"

definition pan_long_name :: "string \<Rightarrow> u64 \<Rightarrow> u64 \<Rightarrow> string option" where
  "pan_long_name r pid oid =
     (let p = (if oid = 0 then r @ ''/'' @ dfiles @ ''/'' @ dec_string (unat pid)
        else if pid = 0 then r @ ''/'' @ dfiles
        else r @ ''/'' @ dfiles @ ''/'' @ dec_string (unat pid) @ ''/'' @ dec_string (unat oid)) in
      if length p < MAXPATHLEN then Some p else None)"

definition pan_obj_ispresent :: "'w pan_device \<Rightarrow> u64 \<Rightarrow> u64 \<Rightarrow> (int \<times> bool \<times> 'w pan_device) option" where
  "pan_obj_ispresent osd pid oid = do {
     path \<leftarrow> pan_long_name (p_root osd) pid oid;
     if pid = 0 \<and> oid = 0 then Some (0, True, osd)
     else do {
       let (st, osd) = on_files (fs_stat (squeeze path)) osd;
       Some (0, st \<noteq> StNoEnt \<and> st \<noteq> StFail, osd) } }"

text \<open>
  A partition is empty if reading its directory yields no entry at all, not even the two entries every
  directory has. The directory stays open.
\<close>

definition pan_obj_isempty_pid ::
  "listing \<Rightarrow> 'w pan_device \<Rightarrow> u64 \<Rightarrow> (int \<times> bool \<times> 'w pan_device) option" where
  "pan_obj_isempty_pid rd osd pid = do {
     path \<leftarrow> pan_dfile_name (p_root osd) pid 0;
     let (opened, osd) = on_files (fs_opendir (squeeze path)) osd;
     if \<not> opened then Some (- 1, False, osd)
     else Some (0, rd (fst (p_kern osd)) (squeeze path) = [], osd) }"

definition pan_obj_get_type :: "'w pan_device \<Rightarrow> u64 \<Rightarrow> u64 \<Rightarrow> int \<times> u8 \<times> 'w pan_device" where
  "pan_obj_get_type osd pid oid =
     (0, if pid = 0 \<and> oid = 0 then ROOT
         else if pid > 0 \<and> oid = 0 then PARTITION
         else if pid > 0 \<and> oid > 0 then USEROBJECT
         else ILLEGAL_OBJ, osd)"

text \<open>The listings: the output buffer, the length used, the additional length and the continuation.\<close>

type_synonym listing_out = "bytes \<times> u64 \<times> u64 \<times> u64"

definition pan_obj_get_oids_in_pid :: "'w pan_device \<Rightarrow> u64 \<Rightarrow> u64 \<Rightarrow> u64 \<Rightarrow> listing_out \<Rightarrow> int \<times> listing_out \<times> 'w pan_device" where
  "pan_obj_get_oids_in_pid osd pid initial_oid alloc_len out = (0, out, osd)"

definition pan_obj_get_cids_in_pid :: "'w pan_device \<Rightarrow> u64 \<Rightarrow> u64 \<Rightarrow> u64 \<Rightarrow> listing_out \<Rightarrow> int \<times> listing_out \<times> 'w pan_device" where
  "pan_obj_get_cids_in_pid osd pid initial_cid alloc_len out = (0, out, osd)"

definition pan_obj_get_all_pids :: "'w pan_device \<Rightarrow> u64 \<Rightarrow> u64 \<Rightarrow> listing_out \<Rightarrow> int \<times> listing_out \<times> 'w pan_device" where
  "pan_obj_get_all_pids osd initial_pid alloc_len out = (0, out, osd)"

section \<open>Collections and queries\<close>

text \<open>This back end has none: every function succeeds and does nothing, except the last one.\<close>

definition pan_coll_initialize :: "'w pan_device \<Rightarrow> int \<times> 'w pan_device" where
  "pan_coll_initialize osd = (0, osd)"

definition pan_coll_finalize :: "'w pan_device \<Rightarrow> int \<times> 'w pan_device" where
  "pan_coll_finalize osd = (0, osd)"

definition pan_coll_getname :: "string option" where
  "pan_coll_getname = None"

definition pan_coll_insert :: "'w pan_device \<Rightarrow> u64 \<Rightarrow> u64 \<Rightarrow> u64 \<Rightarrow> u32 \<Rightarrow> int \<times> 'w pan_device" where
  "pan_coll_insert osd pid cid oid number = (0, osd)"

definition pan_coll_copyoids :: "'w pan_device \<Rightarrow> u64 \<Rightarrow> u64 \<Rightarrow> u64 \<Rightarrow> int \<times> 'w pan_device" where
  "pan_coll_copyoids osd pid dest_cid source_cid = (0, osd)"

definition pan_coll_delete :: "'w pan_device \<Rightarrow> u64 \<Rightarrow> u64 \<Rightarrow> u64 \<Rightarrow> int \<times> 'w pan_device" where
  "pan_coll_delete osd pid cid oid = (0, osd)"

definition pan_coll_delete_cid :: "'w pan_device \<Rightarrow> u64 \<Rightarrow> u64 \<Rightarrow> int \<times> 'w pan_device" where
  "pan_coll_delete_cid osd pid cid = (0, osd)"

definition pan_coll_delete_oid :: "'w pan_device \<Rightarrow> u64 \<Rightarrow> u64 \<Rightarrow> int \<times> 'w pan_device" where
  "pan_coll_delete_oid osd pid oid = (0, osd)"

definition pan_coll_isempty_cid :: "'w pan_device \<Rightarrow> u64 \<Rightarrow> u64 \<Rightarrow> bool \<Rightarrow> int \<times> bool \<times> 'w pan_device" where
  "pan_coll_isempty_cid osd pid cid isempty = (0, isempty, osd)"

definition pan_coll_get_cid :: "'w pan_device \<Rightarrow> u64 \<Rightarrow> u64 \<Rightarrow> u32 \<Rightarrow> u64 \<Rightarrow> int \<times> u64 \<times> 'w pan_device" where
  "pan_coll_get_cid osd pid oid number cid = (0, cid, osd)"

definition pan_coll_get_oids_in_cid ::
  "'w pan_device \<Rightarrow> u64 \<Rightarrow> u64 \<Rightarrow> u64 \<Rightarrow> u64 \<Rightarrow> listing_out \<Rightarrow> int \<times> listing_out \<times> 'w pan_device" where
  "pan_coll_get_oids_in_cid osd pid cid initial_oid alloc_len out = (0, out, osd)"

definition pan_coll_get_cap :: "'w pan_device \<Rightarrow> u64 \<Rightarrow> u64 \<Rightarrow> bytes \<times> u32 \<Rightarrow> int \<times> (bytes \<times> u32) \<times> 'w pan_device" where
  "pan_coll_get_cap osd pid oid out = (OSD_ERROR, out, osd)"

definition pan_mtq_run_query :: "'w pan_device \<Rightarrow> u64 \<Rightarrow> u64 \<Rightarrow> bytes \<times> u64 \<Rightarrow> int \<times> (bytes \<times> u64) \<times> 'w pan_device" where
  "pan_mtq_run_query osd pid cid out = (0, out, osd)"

definition pan_mtq_list_oids_attr ::
  "'w pan_device \<Rightarrow> u64 \<Rightarrow> u64 \<Rightarrow> getattr_list_entry list \<Rightarrow> u64 \<Rightarrow> listing_out \<Rightarrow> int \<times> listing_out \<times> 'w pan_device" where
  "pan_mtq_list_oids_attr osd pid initial_oid get_attr alloc_len out = (0, out, osd)"

definition pan_mtq_set_member_attrs :: "'w pan_device \<Rightarrow> u64 \<Rightarrow> u64 \<Rightarrow> list_entry list \<Rightarrow> int \<times> 'w pan_device" where
  "pan_mtq_set_member_attrs osd pid cid set_attr = (0, osd)"

end
