(* ===== verification/Pan_Io.thy ===== *)
theory Pan_Io
  imports Pan_Device
begin

text \<open>
  The data commands of the Panasas back end, \<^verbatim>\<open>pan_io.c\<close>: reading and writing through requests to
  the file system, opening, closing and formatting.
\<close>

section \<open>Answers\<close>

type_synonym 'w pan_answer = "int \<times> bytes \<times> 'w pan_device"
type_synonym 'w pan_out = "int \<times> (bytes \<times> u64) \<times> bytes \<times> 'w pan_device"

definition pan_error :: "u8 \<Rightarrow> 'w pan_device \<Rightarrow> bytes \<Rightarrow> u64 \<Rightarrow> u64 \<Rightarrow> 'w pan_answer option" where
  "pan_error key osd sense pid oid = do {
     (ret, sense) \<leftarrow> sense_build_sdd sense key OSD_ASC_INVALID_FIELD_IN_CDB pid oid;
     Some (ret, sense, osd) }"

definition pan_cdb_err :: "'w pan_device \<Rightarrow> bytes \<Rightarrow> u64 \<Rightarrow> u64 \<Rightarrow> 'w pan_answer option" where
  "pan_cdb_err = pan_error OSD_SSK_ILLEGAL_REQUEST"

definition pan_hw_err :: "'w pan_device \<Rightarrow> bytes \<Rightarrow> u64 \<Rightarrow> u64 \<Rightarrow> 'w pan_answer option" where
  "pan_hw_err = pan_error OSD_SSK_HARDWARE_ERROR"

definition pan_with_out :: "bytes \<Rightarrow> u64 \<Rightarrow> 'w pan_answer option \<Rightarrow> 'w pan_out option" where
  "pan_with_out m used a = map_option (\<lambda>(ret, sense, osd). (ret, (m, used), sense, osd)) a"

definition pan_done :: "'w pan_device \<Rightarrow> u64 \<Rightarrow> u64 \<Rightarrow> 'w pan_device" where
  "pan_done osd pid oid = osd\<lparr>p_ccap := fill_ccap None USEROBJECT pid oid 0\<rparr>"

text \<open>One read request: its return value, how many bytes it stored, the buffer and the device.\<close>

definition pan_read ::
  "'w osdfs \<Rightarrow> u64 \<Rightarrow> u64 \<Rightarrow> u64 \<Rightarrow> u64 \<Rightarrow> bytes \<Rightarrow> nat \<Rightarrow> 'w pan_device
    \<Rightarrow> (int \<times> u64 \<times> bytes \<times> 'w pan_device) option" where
  "pan_read P pid oid offset len m outdata osd = do {
     let (ret, bs, k) = io_read P pid oid offset len (p_kern osd);
     m \<leftarrow> buf_put m outdata bs;
     Some (ret, of_nat (length bs), m, osd\<lparr>p_kern := k\<rparr>) }"

definition pan_write ::
  "'w osdfs \<Rightarrow> u64 \<Rightarrow> u64 \<Rightarrow> u64 \<Rightarrow> u64 \<Rightarrow> bytes \<Rightarrow> nat \<Rightarrow> 'w pan_device
    \<Rightarrow> (int \<times> u64 \<times> 'w pan_device) option" where
  "pan_write P pid oid offset len data src osd = do {
     bs \<leftarrow> buf_get data src (unat len);
     let (ret, n, k) = io_write P pid oid offset bs (p_kern osd);
     Some (ret, n, osd\<lparr>p_kern := k\<rparr>) }"

section \<open>Reading\<close>

text \<open>
  A read of fewer bytes than asked for is an error, so the test for it that follows is never true. A
  recovered error would be dropped: the function answers success.
\<close>

definition pan_contig_read ::
  "'w osdfs \<Rightarrow> 'w pan_device \<Rightarrow> u64 \<Rightarrow> u64 \<Rightarrow> u64 \<Rightarrow> u64 \<Rightarrow> bytes \<Rightarrow> nat \<Rightarrow> u64 \<Rightarrow> bytes \<Rightarrow> 'w pan_out option" where
  "pan_contig_read P osd pid oid len offset m outdata used sense =
     (if \<not> user_object pid oid then pan_with_out m used (pan_cdb_err osd sense pid oid)
      else do {
        (ret, readlen, m, osd) \<leftarrow> pan_read P pid oid offset len m outdata osd;
        if ret < 0 \<or> readlen \<noteq> len then pan_with_out m used (pan_hw_err osd sense pid oid)
        else do {
          (m, sense) \<leftarrow>
            (if readlen < len
             then do {
               m \<leftarrow> buf_zero m (outdata + unat readlen) (unat (len - readlen));
               (_, sense) \<leftarrow> sense_build_sdd_csi sense OSD_SSK_RECOVERED_ERROR
                 OSD_ASC_READ_PAST_END_OF_USER_OBJECT pid oid readlen;
               Some (m, sense) }
             else Some (m, sense));
          Some (OSD_OK, (m, len), sense, pan_done osd pid oid) } })"

text \<open>The length goes through a variable of type \<open>int\<close>.\<close>

definition int_u64 :: "u64 \<Rightarrow> u64" where
  "int_u64 n = scast (ucast n :: u32)"

fun pan_sgl_read_loop ::
  "'w osdfs \<Rightarrow> u64 \<Rightarrow> u64 \<Rightarrow> u64 \<Rightarrow> nat \<Rightarrow> sg_list_entry list \<Rightarrow> bytes \<Rightarrow> u64 \<Rightarrow> 'w pan_device
    \<Rightarrow> (bool \<times> bytes \<times> u64 \<times> 'w pan_device) option" where
  "pan_sgl_read_loop P pid oid offset outdata [] m data_offset osd = Some (True, m, data_offset, osd)"
| "pan_sgl_read_loop P pid oid offset outdata (e # es) m data_offset osd = do {
     let len = bytes_to_transfer e;
     (ret, n, m, osd) \<leftarrow> pan_read P pid oid (offset + sg_offset e) len m (outdata + unat data_offset) osd;
     if ret < 0 then Some (False, m, data_offset, osd)
     else do {
       let ret = int_u64 n;
       (m, len) \<leftarrow>
         (if ret < len
          then do {
            m \<leftarrow> buf_zero m (outdata + unat (data_offset + ret)) (unat (len - ret));
            Some (m, ret) }
          else Some (m, len));
       pan_sgl_read_loop P pid oid offset outdata es m (data_offset + len) osd } }"

text \<open>The sense data of a short read are built, and the answer is success.\<close>

definition pan_sgl_read ::
  "'w osdfs \<Rightarrow> 'w pan_device \<Rightarrow> u64 \<Rightarrow> u64 \<Rightarrow> u64 \<Rightarrow> u64 \<Rightarrow> sg_list_entry list \<Rightarrow> bytes \<Rightarrow> nat \<Rightarrow> u64 \<Rightarrow> bytes
    \<Rightarrow> 'w pan_out option" where
  "pan_sgl_read P osd pid oid len offset sglist m outdata used sense =
     (if \<not> user_object pid oid then pan_with_out m used (pan_cdb_err osd sense pid oid)
      else do {
        (ok, m, readlen, osd) \<leftarrow> pan_sgl_read_loop P pid oid offset outdata sglist m 0 osd;
        if \<not> ok then pan_with_out m used (pan_hw_err osd sense pid oid)
        else do {
          sense \<leftarrow>
            (if readlen < len
             then map_option snd (sense_build_sdd_csi sense OSD_SSK_RECOVERED_ERROR
               OSD_ASC_READ_PAST_END_OF_USER_OBJECT pid oid readlen)
             else Some sense);
          Some (OSD_OK, (m, readlen), sense, pan_done osd pid oid) } })"

partial_function (option) pan_vec_read_loop ::
  "'w osdfs \<Rightarrow> u64 \<Rightarrow> u64 \<Rightarrow> u64 \<Rightarrow> u64 \<Rightarrow> nat \<Rightarrow> u64 \<Rightarrow> u64 \<Rightarrow> u64 \<Rightarrow> u64 \<Rightarrow> u64 \<Rightarrow> bytes \<Rightarrow> 'w pan_device
    \<Rightarrow> (bool \<times> bytes \<times> u64 \<times> 'w pan_device) option" where
  "pan_vec_read_loop P pid oid offset stride outdata bytes len data_offset offset_val readlen m osd =
     (if bytes = 0 then Some (True, m, readlen, osd)
      else do {
        (ret, n, m, osd) \<leftarrow> pan_read P pid oid (offset + offset_val) len m (outdata + unat data_offset) osd;
        if ret < 0 \<or> n \<noteq> len then Some (False, m, readlen, osd)
        else do {
          let bytes' = bytes - len;
          pan_vec_read_loop P pid oid offset stride outdata bytes' (if bytes' < len then bytes' else len)
            (data_offset + len) (offset_val + stride) (readlen + int_u64 n) m osd } })"

definition pan_vec_read ::
  "'w osdfs \<Rightarrow> 'w pan_device \<Rightarrow> u64 \<Rightarrow> u64 \<Rightarrow> u64 \<Rightarrow> u64 \<Rightarrow> bytes \<Rightarrow> nat \<Rightarrow> bytes \<Rightarrow> nat \<Rightarrow> u64 \<Rightarrow> bytes
    \<Rightarrow> 'w pan_out option" where
  "pan_vec_read P osd pid oid len offset hdr indata m outdata used sense = do {
     stride \<leftarrow> get_ntohll hdr indata;
     elem \<leftarrow> get_ntohll hdr (indata + 8);
     if \<not> user_object pid oid then pan_with_out m used (pan_cdb_err osd sense pid oid)
     else do {
       (ok, m, readlen, osd) \<leftarrow> pan_vec_read_loop P pid oid offset stride outdata len elem 0 0 0 m osd;
       if \<not> ok then pan_with_out m used (pan_hw_err osd sense pid oid)
       else do {
         sense \<leftarrow>
           (if readlen < len
            then map_option snd (sense_build_sdd_csi sense OSD_SSK_RECOVERED_ERROR
              OSD_ASC_READ_PAST_END_OF_USER_OBJECT pid oid readlen)
            else Some sense);
         Some (OSD_OK, (m, readlen), sense, pan_done osd pid oid) } } }"

section \<open>Writing\<close>

definition pan_contig_write ::
  "'w osdfs \<Rightarrow> 'w pan_device \<Rightarrow> u64 \<Rightarrow> u64 \<Rightarrow> u64 \<Rightarrow> u64 \<Rightarrow> bytes \<Rightarrow> nat \<Rightarrow> bytes \<Rightarrow> 'w pan_answer option" where
  "pan_contig_write P osd pid oid len offset data dinbuf sense =
     (if \<not> user_object pid oid then pan_cdb_err osd sense pid oid
      else do {
        (ret, n, osd) \<leftarrow> pan_write P pid oid offset len data dinbuf osd;
        if ret < 0 \<or> n \<noteq> len then pan_hw_err osd sense pid oid
        else Some (OSD_OK, sense, pan_done osd pid oid) })"

fun pan_sgl_write_loop ::
  "'w osdfs \<Rightarrow> u64 \<Rightarrow> u64 \<Rightarrow> u64 \<Rightarrow> bytes \<Rightarrow> nat \<Rightarrow> sg_list_entry list \<Rightarrow> u64 \<Rightarrow> 'w pan_device
    \<Rightarrow> (bool \<times> 'w pan_device) option" where
  "pan_sgl_write_loop P pid oid offset data dinbuf [] data_offset osd = Some (True, osd)"
| "pan_sgl_write_loop P pid oid offset data dinbuf (e # es) data_offset osd = do {
     let len = bytes_to_transfer e;
     (ret, n, osd) \<leftarrow> pan_write P pid oid (sg_offset e + offset) len data (dinbuf + unat data_offset) osd;
     if ret < 0 \<or> n \<noteq> len then Some (False, osd)
     else pan_sgl_write_loop P pid oid offset data dinbuf es (data_offset + len) osd }"

definition pan_sgl_write ::
  "'w osdfs \<Rightarrow> 'w pan_device \<Rightarrow> u64 \<Rightarrow> u64 \<Rightarrow> u64 \<Rightarrow> u64 \<Rightarrow> bytes \<Rightarrow> nat \<Rightarrow> sg_list_entry list \<Rightarrow> bytes
    \<Rightarrow> 'w pan_answer option" where
  "pan_sgl_write P osd pid oid len offset data dinbuf sglist sense =
     (if \<not> user_object pid oid then pan_cdb_err osd sense pid oid
      else do {
        (ok, osd) \<leftarrow> pan_sgl_write_loop P pid oid offset data dinbuf sglist 0 osd;
        if \<not> ok then pan_hw_err osd sense pid oid
        else Some (OSD_OK, sense, pan_done osd pid oid) })"

partial_function (option) pan_vec_write_loop ::
  "'w osdfs \<Rightarrow> u64 \<Rightarrow> u64 \<Rightarrow> u64 \<Rightarrow> u64 \<Rightarrow> bytes \<Rightarrow> nat \<Rightarrow> u64 \<Rightarrow> u64 \<Rightarrow> u64 \<Rightarrow> u64 \<Rightarrow> 'w pan_device
    \<Rightarrow> (bool \<times> 'w pan_device) option" where
  "pan_vec_write_loop P pid oid offset stride data dinbuf bytes len data_offset offset_val osd =
     (if bytes = 0 then Some (True, osd)
      else do {
        (ret, n, osd) \<leftarrow> pan_write P pid oid (offset_val + offset) len data (dinbuf + unat data_offset) osd;
        if ret < 0 \<or> n \<noteq> len then Some (False, osd)
        else do {
          let bytes' = bytes - len;
          pan_vec_write_loop P pid oid offset stride data dinbuf bytes' (if bytes' < len then bytes' else len)
            (data_offset + len) (offset_val + stride) osd } })"

definition pan_vec_write ::
  "'w osdfs \<Rightarrow> 'w pan_device \<Rightarrow> u64 \<Rightarrow> u64 \<Rightarrow> u64 \<Rightarrow> u64 \<Rightarrow> bytes \<Rightarrow> nat \<Rightarrow> bytes \<Rightarrow> 'w pan_answer option" where
  "pan_vec_write P osd pid oid len offset data dinbuf sense = do {
     stride \<leftarrow> get_ntohll data dinbuf;
     elem \<leftarrow> get_ntohll data (dinbuf + 8);
     if \<not> user_object pid oid then pan_cdb_err osd sense pid oid
     else do {
       (ok, osd) \<leftarrow> pan_vec_write_loop P pid oid offset stride data dinbuf (len - 16) elem 16 0 osd;
       if \<not> ok then pan_hw_err osd sense pid oid
       else Some (OSD_OK, sense, pan_done osd pid oid) } }"

section \<open>Opening, closing, formatting\<close>

text \<open>
  A failure of the last \<open>open\<close> is logged, and the descriptor \<open>-1\<close> is kept: the flag of the answer tells
  whether the handle has a descriptor. Reading the speed of the processor, for profiling, is left out.
\<close>

definition pan_setup_root_paths :: "string \<Rightarrow> 'w pan_device \<Rightarrow> (int \<times> bool \<times> 'w pan_device) option" where
  "pan_setup_root_paths r osd =
     (if length r > MAXROOTLEN then Some (- ENAMETOOLONG, False, osd)
      else do {
        let osd = osd\<lparr>p_root := freed_root, p_ccap := no_ccap\<rparr>;
        let (ret, osd) = on_files (create_dir r) osd;
        if ret \<noteq> 0 then Some (ret, False, osd)
        else do {
          path \<leftarrow> path_buf (r @ ''/'' @ dfiles @ ''/'');
          let (ret, osd) = on_files (create_dir path) osd;
          if ret \<noteq> 0 then Some (ret, False, osd)
          else do {
            path \<leftarrow> path_buf (r @ ''/'' @ dfiles);
            let (opened, osd) = on_files (fs_open False (squeeze path)) (osd\<lparr>p_root := r\<rparr>);
            Some (0, opened, osd) } } })"

definition pan_osd_create_datafile :: "'w pan_device \<Rightarrow> u64 \<Rightarrow> u64 \<Rightarrow> int \<times> 'w pan_device" where
  "pan_osd_create_datafile osd pid oid = (0, osd)"

definition pan_osd_begin_txn :: "'w pan_device \<Rightarrow> int \<times> 'w pan_device" where
  "pan_osd_begin_txn osd = (0, osd)"

definition pan_osd_end_txn :: "'w pan_device \<Rightarrow> int \<times> 'w pan_device" where
  "pan_osd_end_txn osd = (0, osd)"

definition pan_osd_close :: "'w pan_device \<Rightarrow> int \<times> 'w pan_device" where
  "pan_osd_close osd = (0, osd\<lparr>p_root := freed_root\<rparr>)"

text \<open>
  Formatting does nothing when the handle has a descriptor, that is, whenever the target works. The flag is whether it has.
\<close>

definition pan_format_osd :: "bool \<Rightarrow> 'w pan_device \<Rightarrow> bytes \<Rightarrow> 'w pan_answer option" where
  "pan_format_osd has_fd osd sense =
     (if has_fd then Some (0, sense, osd)
      else do {
        let r = p_root osd;
        let (_, osd) = pan_osd_close osd;
        (ret, _, osd) \<leftarrow> pan_setup_root_paths r osd;
        if ret \<noteq> 0 then do {
          (ret, sense) \<leftarrow> sense_build_sdd sense OSD_SSK_HARDWARE_ERROR OSD_ASC_SYSTEM_RESOURCE_FAILURE 0 0;
          Some (ret, sense, osd) }
        else Some (OSD_OK, sense, osd\<lparr>p_ccap := no_ccap\<rparr>) })"

end
