(* ===== verification/Pan_Attr.thy ===== *)
theory Pan_Attr
  imports Pan_Io
begin

text \<open>
  The attributes of the Panasas back end, \<^verbatim>\<open>pan_attr.c\<close>: the information pages are translated to the
  attributes of the file system, every other attribute is passed through.

  The host is little-endian. The uninitialised local buffers are an argument, as in the theory of the
  other back end; a pointer to a value is the list of bytes from there to the end of its buffer.
\<close>

section \<open>The requests\<close>

definition host_l :: "u32 \<Rightarrow> bytes" where
  "host_l v = rev (store_be32 v)"

definition host_s :: "u16 \<Rightarrow> bytes" where
  "host_s v = rev (store_be16 v)"

definition pan_attr_getname :: string where
  "pan_attr_getname = ''Attr_Name''"

text \<open>The number of attributes, the attribute, the length, and the value.\<close>

definition pan_attr_set_raw ::
  "'w osdfs \<Rightarrow> 'w pan_device \<Rightarrow> u64 \<Rightarrow> u64 \<Rightarrow> u32 \<Rightarrow> u32 \<Rightarrow> bytes option \<Rightarrow> u16 \<Rightarrow> (int \<times> 'w pan_device) option" where
  "pan_attr_set_raw P osd pid oid page number val len = do {
     v \<leftarrow> (case val of None \<Rightarrow> if len = 0 then Some [] else None | Some v \<Rightarrow> buf_get v 0 (unat len));
     let tmp = host_l 1 @ host_l (make_attribute P page number) @ host_s len @ v;
     Some (on_kern (io_setattr P pid oid tmp) osd) }"

definition pan_attr_set_attr ::
  "'w osdfs \<Rightarrow> 'w pan_device \<Rightarrow> u64 \<Rightarrow> u64 \<Rightarrow> u32 \<Rightarrow> u32 \<Rightarrow> bytes option \<Rightarrow> u16 \<Rightarrow> (int \<times> 'w pan_device) option" where
  "pan_attr_set_attr P osd pid oid page number val len =
     (let dev = (\<lambda>a len. pan_attr_set_raw P osd pid oid (attribute_page P a) (attribute_id P a) val len) in
      if page = USER_INFO_PG then
        (if number = UIAP_USERNAME then dev DEVICE_UserName len
         else if number = UIAP_LOGICAL_LEN then do {
           v \<leftarrow> pointed_ll val;
           let len = (ucast v :: u16);
           if oid \<noteq> 0 then None
           else do {
             let (ok, osd) = on_files (fs_truncate (''/root/dfiles/'' @ dec_string (unat pid)) (ucast len)) osd;
             Some (if ok then OSD_OK else OSD_ERROR, osd) } }
         else Some (OSD_OK, osd))
      else if page = ROOT_INFO_PG then
        (if number = RIAP_OSD_SYSTEM_ID then dev DEVICE_ID (of_nat RIAP_OSD_SYSTEM_ID_LEN)
         else if number = RIAP_OSD_NAME then
           (case val of None \<Rightarrow> None | Some v \<Rightarrow> if 0 \<in> set v then dev DEVICE_UserName len else None)
         else if number \<in> {RIAP_CLOCK, RIAP_VENDOR_IDENTIFICATION, RIAP_PRODUCT_IDENTIFICATION,
           RIAP_PRODUCT_MODEL, RIAP_PRODUCT_REVISION_LEVEL, RIAP_PRODUCT_SERIAL_NUMBER, RIAP_TOTAL_CAPACITY,
           RIAP_USED_CAPACITY, RIAP_NUMBER_OF_PARTITIONS}
         then Some (OSD_OK, osd)
         else pan_attr_set_raw P osd pid oid page number val len)
      else pan_attr_set_raw P osd pid oid page number val len)"

definition pan_attr_delete_attr :: "'w pan_device \<Rightarrow> u64 \<Rightarrow> u64 \<Rightarrow> u32 \<Rightarrow> u32 \<Rightarrow> int \<times> 'w pan_device" where
  "pan_attr_delete_attr osd pid oid page number = (0, osd)"

definition pan_attr_delete_all :: "'w pan_device \<Rightarrow> u64 \<Rightarrow> u64 \<Rightarrow> int \<times> 'w pan_device" where
  "pan_attr_delete_all osd pid oid = (0, osd)"

section \<open>Retrieving one attribute\<close>

text \<open>
  Without a format the value goes nowhere: the pointer that is set is a copy. With one, the attribute
  is packed as a list entry whatever the format is.
\<close>

type_synonym 'w pan_got = "(int \<times> (bytes \<times> u32) \<times> 'w pan_device) option"

definition pan_attr_get_raw ::
  "'w osdfs \<Rightarrow> 'w pan_device \<Rightarrow> u64 \<Rightarrow> u64 \<Rightarrow> u32 \<Rightarrow> u32 \<Rightarrow> u32 \<Rightarrow> u32 \<Rightarrow> u64 \<Rightarrow> nat \<Rightarrow> u8 \<Rightarrow> bytes \<times> u32 \<Rightarrow> 'w pan_got" where
  "pan_attr_get_raw P osd pid oid orig_page orig_num page number outlen outdata listfmt = (\<lambda>(m, used). do {
     let tmp = host_l 1 @ host_l (make_attribute P page number);
     let (ret, (len, val), k) = io_getattr P pid oid tmp (p_kern osd);
     let osd = osd\<lparr>p_kern := k\<rparr>;
     if ret < 0 then Some (ret, (m, used), osd)
     else if listfmt = 0 then Some (0, (m, used), osd)
     else do {
       (ret, m) \<leftarrow> le_pack_attr 0 m outdata (ucast outlen) orig_page orig_num (ucast len) (Some val);
       let (ret, used) = used_of ret used;
       Some (ret, (m, used), osd) } })"

definition pan_user_info ::
  "locals \<Rightarrow> 'w pan_device \<Rightarrow> u64 \<Rightarrow> u64 \<Rightarrow> u32 \<Rightarrow> (attr_source \<times> 'w pan_device) option" where
  "pan_user_info ls osd pid oid number =
     (let on = (\<lambda>v osd. map_option (\<lambda>s. (s, osd)) v) in
      if number = 0 then on (page_name ls ''INCITS  T10 User Object Information'') osd
      else if number = UIAP_PID then on (number_ll ls pid UIAP_PID_LEN) osd
      else if number = UIAP_OID then on (number_ll ls pid UIAP_OID_LEN) osd
      else if number = UIAP_USED_CAPACITY then do {
        path \<leftarrow> pan_dfile_name (p_root osd) pid oid;
        (if oid = 0
         then (case on_files (fs_statfs path) osd of
             (None, osd) \<Rightarrow> on (Some NoSource) osd
           | (Some (blocks, bfree), osd) \<Rightarrow>
               on (number_ll ls ((blocks - bfree) * BLOCK_SZ) UIAP_USED_CAPACITY_LEN) osd)
         else (case on_files (stat_size path) osd of
             (None, osd) \<Rightarrow> on (Some NoSource) osd
           | (Some _, osd) \<Rightarrow>
               on (number_ll ls (st_blocks (fst (p_kern osd)) path * BLOCK_SZ) UIAP_USED_CAPACITY_LEN) osd)) }
      else if number = UIAP_LOGICAL_LEN then do {
        path \<leftarrow> pan_dfile_name (p_root osd) pid oid;
        (case on_files (stat_size path) osd of
           (None, osd) \<Rightarrow> on (Some NoSource) osd
         | (Some sz, osd) \<Rightarrow> on (number_ll ls sz UIAP_LOGICAL_LEN_LEN) osd) }
      else if number = PARTITION_CAPACITY_QUOTA then do {
        path \<leftarrow> pan_dfile_name (p_root osd) pid oid;
        (case on_files (fs_statfs path) osd of
           (None, osd) \<Rightarrow> on (Some NoSource) osd
         | (Some (blocks, _), osd) \<Rightarrow> on (number_ll ls (blocks * BLOCK_SZ) UIAP_USED_CAPACITY_LEN) osd) }
      else if number = UIAP_USERNAME then on (Some (Stored UIAP_USERNAME)) osd
      else on (Some NoSource) osd)"

text \<open>The attribute of the file system an attribute of the root page stands for.\<close>

definition root_attribute :: "u32 \<Rightarrow> pan_attr option" where
  "root_attribute number =
     (if number = RIAP_TOTAL_CAPACITY then Some DEVICE_TotalCapacity
      else if number = RIAP_NUMBER_OF_PARTITIONS then Some DEVICE_GroupCount
      else if number = RIAP_CLOCK then Some DEVICE_Clock
      else if number = RIAP_OSD_NAME then Some DEVICE_UserName
      else None)"

definition pan_names :: "u32 set" where
  "pan_names = {RIAP_OSD_SYSTEM_ID, RIAP_VENDOR_IDENTIFICATION, RIAP_PRODUCT_IDENTIFICATION, RIAP_PRODUCT_MODEL,
     RIAP_PRODUCT_REVISION_LEVEL, RIAP_PRODUCT_SERIAL_NUMBER}"

text \<open>
  The used capacity: both retrievals are without a format, and what is read as the total and as the
  remaining capacity is what the output buffer holds anyway.
\<close>

definition host_int :: "bytes \<Rightarrow> nat \<Rightarrow> int option" where
  "host_int m off = do { b \<leftarrow> buf_get m off 4; v \<leftarrow> get_ntohl (rev b) 0; Some (sint v) }"

definition pan_used_capacity ::
  "'w osdfs \<Rightarrow> locals \<Rightarrow> 'w pan_device \<Rightarrow> u64 \<Rightarrow> u64 \<Rightarrow> u64 \<Rightarrow> nat \<Rightarrow> bytes \<times> u32
    \<Rightarrow> (attr_source \<times> (bytes \<times> u32) \<times> 'w pan_device) option" where
  "pan_used_capacity P ls osd pid oid outlen outdata out = do {
     let get = (\<lambda>a out osd. pan_attr_get_raw P osd pid oid (attribute_page P a) (attribute_id P a)
       (attribute_page P a) (attribute_id P a) outlen outdata 0 out);
     (_, out, osd) \<leftarrow> get DEVICE_TotalCapacity out osd;
     total_cap \<leftarrow> host_int (fst out) outdata;
     (_, out, osd) \<leftarrow> get DEVICE_RemainingCapacity out osd;
     remaining \<leftarrow> host_int (fst out) outdata;
     s \<leftarrow> number_ll ls (word_of_int (total_cap - remaining)) RIAP_USED_CAPACITY_LEN;
     Some (s, out, osd) }"

definition pan_attr_get_attr ::
  "'w osdfs \<Rightarrow> locals \<Rightarrow> 'w pan_device \<Rightarrow> u64 \<Rightarrow> u64 \<Rightarrow> u32 \<Rightarrow> u32 \<Rightarrow> u64 \<Rightarrow> nat \<Rightarrow> u8 \<Rightarrow> bytes \<times> u32 \<Rightarrow> 'w pan_got" where
  "pan_attr_get_attr P ls osd pid oid page number outlen outdata listfmt out = do {
     let get = (\<lambda>p n osd. pan_attr_get_raw P osd pid oid page number p n outlen outdata listfmt out);
     let dev = (\<lambda>a. get (attribute_page P a) (attribute_id P a));
     let done = (\<lambda>source out osd. (case source of
         Computed val len \<Rightarrow> do {
           (ret, out) \<leftarrow> pack_computed oid page number len (Some val) outlen outdata listfmt out;
           Some (ret, out, osd) }
       | Stored _ \<Rightarrow> dev DEVICE_UserName osd
       | _ \<Rightarrow> Some (OSD_ERROR, out, osd)));
     if page = USER_INFO_PG then do {
       (source, osd) \<leftarrow> pan_user_info ls osd pid oid number;
       done source out osd }
     else if page = ROOT_INFO_PG then
       (if number = 0 then do {
          source \<leftarrow> page_name ls ''INCITS  T10 Root Information'';
          done source out osd }
        else if number \<in> pan_names then done (Computed (cstr ''PANASAS-OSC_OSD'') 16) out osd
        else if number = RIAP_USED_CAPACITY then do {
          (source, out, osd) \<leftarrow> pan_used_capacity P ls osd pid oid outlen outdata out;
          done source out osd }
        else (case root_attribute number of Some a \<Rightarrow> dev a osd | None \<Rightarrow> get 0 0 osd))
     else get 0 0 osd }"

section \<open>Pages\<close>

text \<open>Functions that succeed and retrieve nothing.\<close>

definition pan_attr_get_val :: "'w pan_device \<Rightarrow> u64 \<Rightarrow> u64 \<Rightarrow> u32 \<Rightarrow> u32 \<Rightarrow> bytes \<times> u32 \<Rightarrow> int \<times> (bytes \<times> u32) \<times> 'w pan_device" where
  "pan_attr_get_val osd pid oid page number out = (0, out, osd)"

definition pan_attr_get_page_as_list :: "'w pan_device \<Rightarrow> u64 \<Rightarrow> u64 \<Rightarrow> u32 \<Rightarrow> bytes \<times> u32 \<Rightarrow> int \<times> (bytes \<times> u32) \<times> 'w pan_device" where
  "pan_attr_get_page_as_list osd pid oid page out = (0, out, osd)"

definition pan_attr_get_all_attrs :: "'w pan_device \<Rightarrow> u64 \<Rightarrow> u64 \<Rightarrow> bytes \<times> u32 \<Rightarrow> int \<times> (bytes \<times> u32) \<times> 'w pan_device" where
  "pan_attr_get_all_attrs osd pid oid out = (0, out, osd)"

definition pan_attr_get_dir_page :: "'w pan_device \<Rightarrow> u64 \<Rightarrow> u64 \<Rightarrow> u32 \<Rightarrow> bytes \<times> u32 \<Rightarrow> int \<times> (bytes \<times> u32) \<times> 'w pan_device" where
  "pan_attr_get_dir_page osd pid oid page out = (0, out, osd)"

text \<open>The pages below the last one, each written over the one before; the last answer counts.\<close>

fun pan_for_pages ::
  "'w osdfs \<Rightarrow> u64 \<Rightarrow> u64 \<Rightarrow> u32 \<Rightarrow> u64 \<Rightarrow> nat \<Rightarrow> u8 \<Rightarrow> u32 list \<Rightarrow> int \<times> (bytes \<times> u32) \<times> 'w pan_device \<Rightarrow> 'w pan_got" where
  "pan_for_pages P pid oid number outlen outdata listfmt [] r = Some r"
| "pan_for_pages P pid oid number outlen outdata listfmt (p # ps) r = do {
     let (_, out, osd) = r;
     r \<leftarrow> pan_attr_get_raw P osd pid oid p number p number outlen outdata listfmt out;
     pan_for_pages P pid oid number outlen outdata listfmt ps r }"

definition pan_attr_get_for_all_pages ::
  "'w osdfs \<Rightarrow> 'w pan_device \<Rightarrow> u64 \<Rightarrow> u64 \<Rightarrow> u32 \<Rightarrow> u64 \<Rightarrow> nat \<Rightarrow> u8 \<Rightarrow> bytes \<times> u32 \<Rightarrow> 'w pan_got" where
  "pan_attr_get_for_all_pages P osd pid oid number outlen outdata listfmt out =
     pan_for_pages P pid oid number outlen outdata listfmt [0, 1, 2, 3, 4, 5] (0, out, osd)"

definition converted_page :: "'w osdfs \<Rightarrow> u32 \<Rightarrow> u32" where
  "converted_page P page = (page AND 0xffff) + max_std_attr_page P + 1"

definition pan_attr_get_conversion ::
  "'w osdfs \<Rightarrow> 'w pan_device \<Rightarrow> u64 \<Rightarrow> u64 \<Rightarrow> u32 \<Rightarrow> u32 \<Rightarrow> u64 \<Rightarrow> nat \<Rightarrow> u8 \<Rightarrow> bytes \<times> u32 \<Rightarrow> 'w pan_got" where
  "pan_attr_get_conversion P osd pid oid page number outlen outdata listfmt out =
     pan_attr_get_raw P osd pid oid page number (converted_page P page) (number AND 0xffff) outlen outdata listfmt out"

definition pan_attr_set_conversion ::
  "'w osdfs \<Rightarrow> 'w pan_device \<Rightarrow> u64 \<Rightarrow> u64 \<Rightarrow> u32 \<Rightarrow> u32 \<Rightarrow> bytes option \<Rightarrow> u16 \<Rightarrow> (int \<times> 'w pan_device) option" where
  "pan_attr_set_conversion P osd pid oid page number val len =
     pan_attr_set_raw P osd pid oid (converted_page P page) (number AND 0xffff) val len"

end
