(* ===== verification/Pan_Spec.thy ===== *)
theory Pan_Spec
  imports Pan_Attr Osd_Transfers
begin

text \<open>
  The Panasas back end against the other one: where the two agree, where they do not, and what the
  attributes of the Panasas back end say.
\<close>

section \<open>Requests that answer as the calls do\<close>



lemma hw_errors:
  assumes "252 \<le> length sense"
  obtains s where "\<forall>osd. out_hw_err osd sense pid oid = Some (40, s, osd)"
    and "\<forall>pan :: 'w pan_device. pan_hw_err pan sense pid oid = Some (40, s, pan)"
    and "buf_get s 0 4 = Some [0x72, OSD_SSK_HARDWARE_ERROR, ASC OSD_ASC_INVALID_FIELD_IN_CDB,
      ASCQ OSD_ASC_INVALID_FIELD_IN_CDB]"
proof -
  obtain s where "sense_build_sdd sense OSD_SSK_HARDWARE_ERROR OSD_ASC_INVALID_FIELD_IN_CDB pid oid = Some (40, s)"
    "buf_get s 0 4 = Some [0x72, OSD_SSK_HARDWARE_ERROR, ASC OSD_ASC_INVALID_FIELD_IN_CDB,
      ASCQ OSD_ASC_INVALID_FIELD_IN_CDB]"
    by (rule sense_build_sdd_ok [OF assms])
  then show thesis using that by (simp add: out_hw_err_def with_sense_def pan_hw_err_def pan_error_def)
qed



lemma pan_read_short:
  assumes "io_read P pid oid offset len (p_kern pan) = (r, data, k)" and "user_object pid oid"
    and "length data < unat len" and "outdata + unat len \<le> length m" and "252 \<le> length sense"
  obtains m' s where "pan_contig_read P pan pid oid len offset m outdata used sense = Some (40, (m', used), s, pan\<lparr>p_kern := k\<rparr>)"
    and "m' = take outdata m @ data @ drop (outdata + length data) m"
    and "buf_get s 0 4 = Some [0x72, OSD_SSK_HARDWARE_ERROR, ASC OSD_ASC_INVALID_FIELD_IN_CDB,
      ASCQ OSD_ASC_INVALID_FIELD_IN_CDB]"
proof -
  obtain s where s: "\<forall>osd. out_hw_err osd sense pid oid = Some (40, s, osd)"
    "\<forall>pan :: 'a pan_device. pan_hw_err pan sense pid oid = Some (40, s, pan)"
    "buf_get s 0 4 = Some [0x72, OSD_SSK_HARDWARE_ERROR, ASC OSD_ASC_INVALID_FIELD_IN_CDB,
      ASCQ OSD_ASC_INVALID_FIELD_IN_CDB]"
    by (rule hw_errors [OF assms(5), where ?'w = 'a and pid = pid and oid = oid])
  have ne: "of_nat (length data) \<noteq> len"
  proof
    assume "of_nat (length data) = len"
    then have "unat (of_nat (length data) :: u64) = unat len" by simp
    moreover have "unat (of_nat (length data) :: u64) \<le> length data"
      by (simp add: unsigned_of_nat take_bit_nat_less_eq_self)
    ultimately show False using assms(3) by simp
  qed
  obtain m1 where m1: "buf_put m outdata data = Some m1" "m1 = take outdata m @ data @ drop (outdata + length data) m"
    using assms(3,4) by (auto simp: buf_put_def)
  show thesis
    by (rule that [of m1 s]) (use assms(1,2) ne m1 s in \<open>simp_all add: pan_contig_read_def pan_read_def pan_with_out_def\<close>)
qed

section \<open>Agreement\<close>

text \<open>A concrete file system: its state maps the identifiers of objects to their contents.\<close>

type_synonym store = "u64 \<times> u64 \<Rightarrow> bytes option"

definition store_requests :: "store osdfs" where
  "store_requests = \<lparr>io_create_object = (\<lambda>pid oid (t, w). (0, (t, w((pid, oid) \<mapsto> [])))), io_create_group = (\<lambda>pid k. (0, k)),
     io_remove_object = (\<lambda>pid oid (t, w). (0, (t, w((pid, oid) := None)))), io_remove_group = (\<lambda>pid k. (0, k)),
     io_read = (\<lambda>pid oid off len (t, w). (case w (pid, oid) of None \<Rightarrow> (- 1, [], (t, w))
       | Some c \<Rightarrow> (0, take (unat len) (drop (unat off) c), (t, w)))),
     io_write = (\<lambda>pid oid off bs (t, w). (case w (pid, oid) of None \<Rightarrow> (- 1, 0, (t, w))
       | Some c \<Rightarrow> (0, of_nat (length bs), (t, w((pid, oid) \<mapsto> write_at c (unat off) bs))))),
     io_setattr = (\<lambda>pid oid tmp k. (0, k)), io_getattr = (\<lambda>pid oid tmp k. (- 1, (0, []), k)),
     make_attribute = (\<lambda>page number. page), attribute_page = (\<lambda>a. 0), attribute_id = (\<lambda>a. 0), max_std_attr_page = 5\<rparr>"

definition sample_pan :: "bytes \<Rightarrow> store pan_device" where
  "sample_pan c = \<lparr>p_root = ''/r'', p_ccap = no_ccap, p_kern = (files (sample_device [] []), [(0x10000, 0x10001) \<mapsto> c])\<rparr>"




section \<open>Disagreement\<close>

text \<open>
  C35. A read that runs over the end of the object, where the request of the Panasas back end stores the bytes
  that exist, whatever else it answers. The other back end answers a recovered error with
  the rest of the buffer zeroed and the full length as the length used (the tests want the number of
  bytes read); the Panasas one answers
  a hardware error with the ASC of an invalid field, does not touch the length used nor the rest of the
  buffer, although the bytes that exist have been stored, and leaves the current command page alone.
\<close>

theorem back_ends_differ_past_end:
  assumes "object_file osd pid oid path c" and "io_read P pid oid offset len (p_kern pan) = (r, drop (unat offset) c, k)"
    and "unat len \<le> rw_max" and "unat offset < 2 ^ 63" and "length c < unat offset + unat len"
    and "outdata + unat len \<le> length m" and "252 \<le> length sense" and "0 < unat len"
  shows "\<exists>m1 s1 m2 s2.
    contig_read osd pid oid len offset m outdata used sense
      = Some (52, (m1, len), s1, osd\<lparr>ccap := fill_ccap None USEROBJECT pid oid 0\<rparr>) \<and>
    buf_get m1 outdata (unat len)
      = Some (drop (unat offset) c @ replicate (unat len - length (drop (unat offset) c)) 0) \<and>
    buf_get s1 0 4 = Some [0x72, OSD_SSK_RECOVERED_ERROR, ASC OSD_ASC_READ_PAST_END_OF_USER_OBJECT,
      ASCQ OSD_ASC_READ_PAST_END_OF_USER_OBJECT] \<and>
    pan_contig_read P pan pid oid len offset m outdata used sense = Some (40, (m2, used), s2, pan\<lparr>p_kern := k\<rparr>) \<and>
    m2 = take outdata m @ drop (unat offset) c @ drop (outdata + length (drop (unat offset) c)) m \<and>
    buf_get s2 0 4 = Some [0x72, OSD_SSK_HARDWARE_ERROR, ASC OSD_ASC_INVALID_FIELD_IN_CDB,
      ASCQ OSD_ASC_INVALID_FIELD_IN_CDB]"
proof -
  have u: "user_object pid oid" using assms(1) by (simp add: object_file_def)
  have lt: "length (drop (unat offset) c) < unat len" using assms(5,8) by (simp add: less_diff_conv2)
  obtain m2 s2 where p: "pan_contig_read P pan pid oid len offset m outdata used sense = Some (40, (m2, used), s2, pan\<lparr>p_kern := k\<rparr>)"
    "m2 = take outdata m @ drop (unat offset) c @ drop (outdata + length (drop (unat offset) c)) m"
    "buf_get s2 0 4 = Some [0x72, OSD_SSK_HARDWARE_ERROR, ASC OSD_ASC_INVALID_FIELD_IN_CDB,
      ASCQ OSD_ASC_INVALID_FIELD_IN_CDB]"
    by (rule pan_read_short [OF assms(2) u lt assms(6,7)])
  show ?thesis
    using contig_read_past_end [OF assms(1,3-8), of used] p by blast
qed

theorem back_ends_differ_past_end_witness:
  "\<exists>m1 s1 m2 s2.
    contig_read (sample_device [] [1, 2, 3]) 0x10000 0x10001 4 2 [9, 9, 9, 9] 0 0 (replicate 252 0)
      = Some (52, (m1, 4), s1, (sample_device [] [1, 2, 3])\<lparr>ccap := fill_ccap None USEROBJECT 0x10000 0x10001 0\<rparr>) \<and>
    pan_contig_read store_requests (sample_pan [1, 2, 3]) 0x10000 0x10001 4 2 [9, 9, 9, 9] 0 0 (replicate 252 0)
      = Some (40, (m2, 0), s2, sample_pan [1, 2, 3]) \<and> m2 = [3, 9, 9, 9]"
proof -
  have "take 0 [9, 9, 9, 9] @ drop (unat (2 :: u64)) [1, 2, 3 :: u8]
      @ drop (0 + length (drop (unat (2 :: u64)) [1, 2, 3 :: u8])) [9, 9, 9, 9] = [3, 9, 9, 9]" by code_simp
  moreover have "io_read store_requests 0x10000 0x10001 2 4 (p_kern (sample_pan [1, 2, 3])) =
      (0, drop (unat (2 :: u64)) [1, 2, 3], p_kern (sample_pan [1, 2, 3]))"
    by (simp add: store_requests_def sample_pan_def)
  ultimately show ?thesis
    using back_ends_differ_past_end [OF sample_object, of store_requests 2 4 "sample_pan [1, 2, 3]" 0 "[1, 2, 3]"
        "p_kern (sample_pan [1, 2, 3])" 0 "[9, 9, 9, 9]" "replicate 252 0" 0]
    by (simp add: rw_max_def) blast
qed

section \<open>Attributes\<close>

lemma pan_raw_discarded:
  "\<exists>ret k. pan_attr_get_raw P osd pid oid opage onum page number outlen outdata 0 out
    = Some (ret, out, osd\<lparr>p_kern := k\<rparr>)"
  by (auto simp: pan_attr_get_raw_def Let_def split: prod.splits)

text \<open>
  Whatever the file system answers, the used capacity of the device is zero: both capacities are
  retrieved without a format, so neither reaches the buffer the two numbers are read from, and the
  difference is packed as the value of the attribute.
\<close>

lemma pan_used_capacity_zero:
  assumes "outdata + 4 \<le> length m" and "8 \<le> length (snd ls)"
  shows "\<exists>ll k. get_ntohll ll 0 = Some 0 \<and>
    pan_attr_get_attr P ls osd pid oid ROOT_INFO_PG RIAP_USED_CAPACITY outlen outdata listfmt (m, used)
      = map_option (\<lambda>(ret, out). (ret, out, osd\<lparr>p_kern := k\<rparr>))
          (pack_computed oid ROOT_INFO_PG RIAP_USED_CAPACITY RIAP_USED_CAPACITY_LEN (Some ll) outlen outdata listfmt (m, used))"
proof -
  let ?raw = "\<lambda>a osd. pan_attr_get_raw P osd pid oid (attribute_page P a) (attribute_id P a)
    (attribute_page P a) (attribute_id P a) outlen outdata 0 (m, used)"
  obtain r1 k1 where 1: "?raw DEVICE_TotalCapacity osd = Some (r1, (m, used), osd\<lparr>p_kern := k1\<rparr>)"
    using pan_raw_discarded by blast
  obtain r2 k2 where 2: "?raw DEVICE_RemainingCapacity (osd\<lparr>p_kern := k1\<rparr>)
      = Some (r2, (m, used), osd\<lparr>p_kern := k1\<rparr>\<lparr>p_kern := k2\<rparr>)"
    using pan_raw_discarded by blast
  obtain v where v: "host_int m outdata = Some v"
    using assms(1) by (auto simp: host_int_def get_ntohl_le_def buf_get_def)
  obtain ll where ll: "set_htonll (snd ls) 0 0 = Some ll" "get_ntohll ll 0 = Some 0"
    by (rule ntohll.set_obtain [of 0 "snd ls" 0]) (use assms(2) ntohll.get_set in auto)
  have n: "ROOT_INFO_PG \<noteq> USER_INFO_PG" "RIAP_USED_CAPACITY \<noteq> 0" "RIAP_USED_CAPACITY \<notin> pan_names"
    by (simp_all add: pan_names_def osd_consts)
  show ?thesis
    using 1 2 v ll n
    by (intro exI [of _ ll] exI [of _ k2])
      (simp add: pan_attr_get_attr_def pan_used_capacity_def number_ll_def bind_map_option split: Option.bind_splits prod.splits)
qed

lemma pan_used_capacity_zero_witness:
  "\<exists>ll k. get_ntohll ll 0 = Some 0 \<and>
    pan_attr_get_attr store_requests ([], replicate 8 0) (sample_pan []) 0 0 ROOT_INFO_PG RIAP_USED_CAPACITY 24 0 8
        (replicate 24 0, 0)
      = map_option (\<lambda>(ret, out). (ret, out, (sample_pan [])\<lparr>p_kern := k\<rparr>))
          (pack_computed 0 ROOT_INFO_PG RIAP_USED_CAPACITY RIAP_USED_CAPACITY_LEN (Some ll) 24 0 8 (replicate 24 0, 0))"
  by (rule pan_used_capacity_zero) simp_all

end
