(* ===== verification/Util_Median.thy ===== *)
theory Util_Median
  imports OSD_Prelude "HOL-Library.Multiset"
begin

text \<open>
  The selection of the median, \<^verbatim>\<open>partition\<close>, \<^verbatim>\<open>selectmedian\<close> and \<^verbatim>\<open>median\<close> of
  \<^verbatim>\<open>osd-util/osd-util.c\<close>, over any linear order. The mean of the two middle elements is an
  argument, since it is a floating-point operation; so are the answers of \<open>rand\<close>.
\<close>

section \<open>The code\<close>

text \<open>Array accesses at a position of type \<open>int\<close>.\<close>

definition elem :: "'a list \<Rightarrow> int \<Rightarrow> 'a option" where
  "elem a i = (if 0 \<le> i \<and> i < int (length a) then Some (a ! nat i) else None)"

definition set_elem :: "'a list \<Rightarrow> int \<Rightarrow> 'a \<Rightarrow> 'a list option" where
  "set_elem a i x = (if 0 \<le> i \<and> i < int (length a) then Some (a[nat i := x]) else None)"

definition swapped :: "'a list \<Rightarrow> int \<Rightarrow> int \<Rightarrow> 'a list option" where
  "swapped a i j = do {
     tmp \<leftarrow> elem a i;
     x \<leftarrow> elem a j;
     a \<leftarrow> set_elem a i x;
     set_elem a j tmp }"

function partition_loop :: "'a :: linorder list \<Rightarrow> 'a \<Rightarrow> int \<Rightarrow> int \<Rightarrow> int \<Rightarrow> ('a list \<times> int) option" where
  "partition_loop a pv i right ind =
     (if i > right then Some (a, ind)
      else do {
        x \<leftarrow> elem a i;
        if x < pv then do {
          a \<leftarrow> swapped a ind i;
          partition_loop a pv (i + 1) right (ind + 1) }
        else partition_loop a pv (i + 1) right ind })"
  by pat_completeness auto

termination
  by (relation "measure (\<lambda>(_, _, i, right, _). nat (right + 1 - i))") auto

declare partition_loop.simps [simp del]

definition partition_array :: "'a :: linorder list \<Rightarrow> int \<Rightarrow> int \<Rightarrow> int \<Rightarrow> (int \<times> 'a list) option" where
  "partition_array a left right pi = do {
     pv \<leftarrow> elem a pi;
     a \<leftarrow> swapped a right pi;
     (a, ind) \<leftarrow> partition_loop a pv left right left;
     a \<leftarrow> swapped a right ind;
     Some (ind, a) }"

text \<open>The product is one of two numbers of type \<open>int\<close>: when it does not fit, the behaviour is undefined.\<close>

definition INT_MAX :: int where
  "INT_MAX = 2 ^ 31 - 1"

definition RAND_MAX :: int where
  "RAND_MAX = INT_MAX"

definition pivot :: "int \<Rightarrow> int \<Rightarrow> int \<Rightarrow> int option" where
  "pivot left right r =
     (let p = (right - left) * r in
      if - INT_MAX - 1 \<le> p \<and> p \<le> INT_MAX then Some (left + sgn p * (\<bar>p\<bar> div (RAND_MAX + 1))) else None)"

text \<open>The array is reordered in place; the number is that of the calls of \<open>rand\<close> so far.\<close>

partial_function (option) selectmedian ::
  "(nat \<Rightarrow> int) \<Rightarrow> nat \<Rightarrow> 'a :: linorder list \<Rightarrow> int \<Rightarrow> int \<Rightarrow> int \<Rightarrow> ('a \<times> 'a list \<times> nat) option" where
  "selectmedian rnd n a k left right = do {
     pi \<leftarrow> pivot left right (rnd n);
     (ind, a) \<leftarrow> partition_array a left right pi;
     if ind = k then do {
       x \<leftarrow> elem a k;
       Some (x, a, n + 1) }
     else if ind < k then selectmedian rnd (n + 1) a k (ind + 1) right
     else selectmedian rnd (n + 1) a k left (ind - 1) }"

text \<open>
  For an empty array the allocation of zero bytes answers a null pointer and the program exits, so
  the test for it that follows is never reached.
\<close>

definition median :: "('a \<Rightarrow> 'a \<Rightarrow> 'a) \<Rightarrow> (nat \<Rightarrow> int) \<Rightarrow> 'a :: linorder list \<Rightarrow> 'a option" where
  "median mean2 rnd v =
     (let N = int (length v) in
      if N = 0 then None
      else if N mod 2 = 1 then do {
        (m, _, _) \<leftarrow> selectmedian rnd 0 v ((N + 1) div 2 - 1) 0 (N - 1);
        Some m }
      else do {
        (m1, a, n) \<leftarrow> selectmedian rnd 0 v (N div 2) 0 (N - 1);
        (m2, _, _) \<leftarrow> selectmedian rnd n a (N div 2 - 1) 0 (N - 1);
        Some (mean2 m1 m2) })"

section \<open>Partitioning\<close>

lemma elem_int [simp]: "elem a (int i) = (if i < length a then Some (a ! i) else None)"
  by (simp add: elem_def)

lemma swapped_int [simp]:
  "swapped a (int i) (int j) = (if i < length a \<and> j < length a then Some (a[i := a ! j, j := a ! i]) else None)"
  by (simp add: swapped_def elem_def set_elem_def)

lemma swap_mset: "i < length a \<Longrightarrow> j < length a \<Longrightarrow> mset (a[i := a ! j, j := a ! i]) = mset a"
  by (rule mset_swap)

text \<open>Two arrays that differ only in the order of the elements from \<open>l\<close> to \<open>r\<close>.\<close>

definition reordered :: "nat \<Rightarrow> nat \<Rightarrow> 'a list \<Rightarrow> 'a list \<Rightarrow> bool" where
  "reordered l r a b \<longleftrightarrow> mset b = mset a \<and> length b = length a \<and> (\<forall>i. i < l \<or> r < i \<longrightarrow> b ! i = a ! i)"

lemma reordered_refl: "reordered l r a a"
  by (simp add: reordered_def)

lemma reordered_trans: "reordered l r a b \<Longrightarrow> reordered l r b c \<Longrightarrow> reordered l r a c"
  by (simp add: reordered_def)

lemma reordered_swap:
  "l \<le> i \<Longrightarrow> i \<le> r \<Longrightarrow> l \<le> j \<Longrightarrow> j \<le> r \<Longrightarrow> r < length a \<Longrightarrow> reordered l r a (a[i := a ! j, j := a ! i])"
  by (auto simp: reordered_def swap_mset)

text \<open>Around position \<open>k\<close>: smaller elements before it, and from it on none that is smaller.\<close>

definition split_at :: "nat \<Rightarrow> nat \<Rightarrow> nat \<Rightarrow> 'a :: linorder \<Rightarrow> 'a list \<Rightarrow> bool" where
  "split_at l r k pv b \<longleftrightarrow> l \<le> k \<and> k \<le> r \<and> (\<forall>j. l \<le> j \<and> j < k \<longrightarrow> b ! j < pv) \<and> (\<forall>j. k \<le> j \<and> j \<le> r \<longrightarrow> pv \<le> b ! j)"

lemma partition_loop_step:
  "i \<le> r \<Longrightarrow> r < length a \<Longrightarrow> ind \<le> i \<Longrightarrow> partition_loop a pv (int i) (int r) (int ind) =
    (if a ! i < pv then partition_loop (a[ind := a ! i, i := a ! ind]) pv (int (Suc i)) (int r) (int (Suc ind))
     else partition_loop a pv (int (Suc i)) (int r) (int ind))"
  by (subst partition_loop.simps) (simp add: algebra_simps)

lemma partition_loop_end: "r < i \<Longrightarrow> partition_loop a pv (int i) (int r) ind = Some (a, ind)"
  by (subst partition_loop.simps) simp

lemma partition_loop_ok:
  assumes "l \<le> ind" "ind \<le> i" "i \<le> r" "r < length a" "a ! r = pv"
    and "\<And>j. l \<le> j \<Longrightarrow> j < ind \<Longrightarrow> a ! j < pv" and "\<And>j. ind \<le> j \<Longrightarrow> j < i \<Longrightarrow> pv \<le> a ! j"
  shows "\<exists>b k. partition_loop a pv (int i) (int r) (int ind) = Some (b, int k) \<and> reordered l r a b \<and>
    b ! r = pv \<and> split_at l r k pv b"
  using assms
proof (induction "r - i" arbitrary: i ind a)
  case 0
  then have e: "i = r" by simp
  have "partition_loop a pv (int i) (int r) (int ind) = Some (a, int ind)"
    using 0 e partition_loop_step [of r r a ind pv] partition_loop_end [of r "Suc r"] by simp
  moreover have "split_at l r ind pv a"
    unfolding split_at_def using 0 e by (metis le_neq_implies_less order_refl)
  ultimately show ?case using 0(6) reordered_refl by blast
next
  case (Suc d)
  then have i: "i < r" by simp
  show ?case
  proof (cases "a ! i < pv")
    case True
    let ?b = "a[ind := a ! i, i := a ! ind]"
    have "\<exists>c k. partition_loop ?b pv (int (Suc i)) (int r) (int (Suc ind)) = Some (c, int k) \<and> reordered l r ?b c \<and>
        c ! r = pv \<and> split_at l r k pv c"
    proof (rule Suc(1))
      show "\<And>j. l \<le> j \<Longrightarrow> j < Suc ind \<Longrightarrow> ?b ! j < pv"
        using Suc i True by (auto simp: nth_list_update less_Suc_eq)
      show "\<And>j. Suc ind \<le> j \<Longrightarrow> j < Suc i \<Longrightarrow> pv \<le> ?b ! j"
        using Suc i by (auto simp: nth_list_update less_Suc_eq)
    qed (use Suc i in auto)
    moreover have "reordered l r a ?b" using Suc i by (intro reordered_swap) auto
    moreover have "partition_loop a pv (int i) (int r) (int ind)
        = partition_loop ?b pv (int (Suc i)) (int r) (int (Suc ind))"
      using partition_loop_step [of i r a ind pv] Suc i True by simp
    ultimately show ?thesis using reordered_trans [of l r a ?b] by (simp del: of_nat_Suc) blast
  next
    case False
    have "\<exists>c k. partition_loop a pv (int (Suc i)) (int r) (int ind) = Some (c, int k) \<and> reordered l r a c \<and>
        c ! r = pv \<and> split_at l r k pv c"
      by (rule Suc(1)) (use Suc i False in \<open>auto simp: less_Suc_eq\<close>)
    moreover have "partition_loop a pv (int i) (int r) (int ind)
        = partition_loop a pv (int (Suc i)) (int r) (int ind)"
      using partition_loop_step [of i r a ind pv] Suc i False by simp
    ultimately show ?thesis by (simp del: of_nat_Suc)
  qed
qed

lemma partition_array_ok:
  assumes "l \<le> p" "p \<le> r" "r < length a"
  obtains k b where "partition_array a (int l) (int r) (int p) = Some (int k, b)" and "reordered l r a b"
    and "split_at l r k (b ! k) b"
proof -
  let ?a = "a[r := a ! p, p := a ! r]"
  have s: "reordered l r a ?a" using assms by (intro reordered_swap) auto
  have "\<exists>b k. partition_loop ?a (a ! p) (int l) (int r) (int l) = Some (b, int k) \<and> reordered l r ?a b \<and>
      b ! r = a ! p \<and> split_at l r k (a ! p) b"
    by (rule partition_loop_ok) (use assms in \<open>auto simp: nth_list_update\<close>)
  then obtain b k where b: "partition_loop ?a (a ! p) (int l) (int r) (int l) = Some (b, int k)" "reordered l r ?a b"
    "b ! r = a ! p" "split_at l r k (a ! p) b"
    by blast
  let ?c = "b[r := b ! k, k := b ! r]"
  have lb: "length b = length a" using b(2) by (simp add: reordered_def)
  have k: "l \<le> k" "k \<le> r" using b(4) by (simp_all add: split_at_def)
  have "partition_array a (int l) (int r) (int p) = Some (int k, ?c)"
    using assms b(1) lb k by (simp add: partition_array_def)
  moreover have "reordered l r a ?c"
    by (rule reordered_trans [OF reordered_trans [OF s b(2)] reordered_swap]) (use assms k lb in auto)
  moreover have "split_at l r k (?c ! k) ?c"
    using b(3,4) k assms(3) lb by (auto simp: split_at_def nth_list_update)
  ultimately show thesis using that by blast
qed

section \<open>Selection\<close>

text \<open>The answers of \<open>rand\<close> are in its range.\<close>

definition rand_ok :: "(nat \<Rightarrow> int) \<Rightarrow> bool" where
  "rand_ok rnd \<longleftrightarrow> (\<forall>n. 0 \<le> rnd n \<and> rnd n \<le> RAND_MAX)"

text \<open>
  The product has to fit an \<open>int\<close> before it is divided by the larger \<open>RAND_MAX + 1.\<close>, so the pivot is the
  leftmost element or undefined: the choice is never random.
\<close>

lemma pivot_left:
  assumes "l \<le> r" and "0 \<le> x"
  shows "pivot (int l) (int r) x = (if int (r - l) * x \<le> INT_MAX then Some (int l) else None)"
proof -
  obtain d where r: "r = l + d" using assms(1) le_Suc_ex by blast
  have "0 \<le> int d * x" using assms(2) by simp
  then show ?thesis unfolding r by (simp add: pivot_def Let_def RAND_MAX_def INT_MAX_def div_pos_pos_trivial)
qed

text \<open>Elements before \<open>k\<close> that are not larger and elements behind it that are not smaller put it in its place.\<close>

lemma sorted_nth_of_split:
  fixes a :: "'a :: linorder list"
  assumes "k < length a" and "\<And>j. j < k \<Longrightarrow> a ! j \<le> a ! k" and "\<And>j. k < j \<Longrightarrow> j < length a \<Longrightarrow> a ! k \<le> a ! j"
  shows "sort a ! k = a ! k"
proof -
  let ?s = "sort (take k a) @ a ! k # sort (drop (Suc k) a)"
  have lo: "x \<le> a ! k" if "x \<in> set (take k a)" for x
    using that assms(1,2) by (auto simp: in_set_conv_nth)
  have hi: "a ! k \<le> x" if "x \<in> set (drop (Suc k) a)" for x
    using that assms(1,3) by (auto simp: in_set_conv_nth)
  have "sort a = ?s"
  proof (rule properties_for_sort)
    have "mset a = mset (take k a @ a ! k # drop (Suc k) a)" using id_take_nth_drop [OF assms(1)] by simp
    then show "mset ?s = mset a" by simp
    show "sorted ?s" using lo hi by (auto simp: sorted_append intro: order_trans)
  qed
  then show ?thesis using assms(1) by (simp add: nth_append)
qed

text \<open>The part from \<open>l\<close> to \<open>r\<close> is still to be searched; what is outside it is on its right side.\<close>

definition narrowed :: "nat \<Rightarrow> nat \<Rightarrow> 'a :: linorder list \<Rightarrow> bool" where
  "narrowed l r a \<longleftrightarrow> (\<forall>i j. i < l \<and> l \<le> j \<and> j < length a \<longrightarrow> a ! i \<le> a ! j) \<and>
     (\<forall>i j. i \<le> r \<and> r < j \<and> j < length a \<longrightarrow> a ! i \<le> a ! j)"

lemma reordered_zone:
  assumes "reordered l r a b" and "l \<le> j" "j \<le> r" "r < length a"
  obtains i where "l \<le> i" "i \<le> r" "b ! j = a ! i"
proof -
  let ?z = "\<lambda>c. take (Suc r - l) (drop l c)"
  have cut: "c = take l c @ ?z c @ drop (Suc r) c" if "length c = length a" for c :: "'a list"
    using that assms(2-4) by (metis append_take_drop_id drop_drop le_Suc_eq le_add_diff_inverse2 le_trans)
  have len: "length b = length a" using assms(1) by (simp add: reordered_def)
  have "take l b = take l a" "drop (Suc r) b = drop (Suc r) a"
    using assms(1) len by (auto simp: reordered_def intro!: nth_equalityI)
  moreover have "mset (take l b @ ?z b @ drop (Suc r) b) = mset (take l a @ ?z a @ drop (Suc r) a)"
    using assms(1) cut [OF len] cut [OF refl] by (metis reordered_def)
  ultimately have "mset (?z b) = mset (?z a)" by simp
  then have "set (?z b) = set (?z a)" by (rule mset_eq_setD)
  moreover have "?z b ! (j - l) \<in> set (?z b)" using assms(2-4) len by (intro nth_mem) simp
  moreover have "?z b ! (j - l) = b ! j" using assms(2-4) len by simp
  ultimately obtain n where "n < length (?z a)" "?z a ! n = b ! j" by (metis in_set_conv_nth)
  then show thesis using that [of "l + n"] assms(4) by auto
qed

lemma narrowed_reordered:
  assumes "narrowed l r a" and "reordered l r a b" and "r < length a"
  shows "narrowed l r b"
  unfolding narrowed_def
proof (intro conjI allI impI)
  have b: "length b = length a" "\<And>i. i < l \<or> r < i \<Longrightarrow> b ! i = a ! i"
    using assms(2) by (auto simp: reordered_def)
  have n: "\<And>i j. i < l \<Longrightarrow> l \<le> j \<Longrightarrow> j < length a \<Longrightarrow> a ! i \<le> a ! j"
    "\<And>i j. i \<le> r \<Longrightarrow> r < j \<Longrightarrow> j < length a \<Longrightarrow> a ! i \<le> a ! j"
    using assms(1) by (auto simp: narrowed_def)
  fix i j
  show "b ! i \<le> b ! j" if "i < l \<and> l \<le> j \<and> j < length b"
  proof (cases "j \<le> r")
    case True
    with that obtain j' where "l \<le> j'" "j' \<le> r" "b ! j = a ! j'"
      using reordered_zone [OF assms(2) _ True assms(3)] by blast
    then show ?thesis using that b n(1) [of i j'] assms(3) by simp
  qed (use that b n(1) in simp)
  show "b ! i \<le> b ! j" if "i \<le> r \<and> r < j \<and> j < length b"
  proof (cases "l \<le> i")
    case True
    with that obtain i' where "l \<le> i'" "i' \<le> r" "b ! i = a ! i'"
      using reordered_zone [OF assms(2) True _ assms(3)] by blast
    then show ?thesis using that b n(2) [of i' j] by simp
  qed (use that b n(2) in simp)
qed

lemma narrowed_above:
  assumes "narrowed l r b" "split_at l r k (b ! k) b" "r < length b"
  shows "narrowed (Suc k) r b"
  unfolding narrowed_def
proof (intro conjI allI impI)
  fix i j
  show "b ! i \<le> b ! j" if "i < Suc k \<and> Suc k \<le> j \<and> j < length b"
  proof (cases "i < l \<or> r < j")
    case True
    then show ?thesis using assms that by (auto simp: narrowed_def split_at_def)
  next
    case False
    then have "b ! i \<le> b ! k" "b ! k \<le> b ! j"
      using assms(2) that by (auto simp: split_at_def less_Suc_eq order.strict_implies_order)
    then show ?thesis by (rule order_trans)
  qed
qed (use assms(1) in \<open>auto simp: narrowed_def\<close>)

lemma narrowed_below:
  assumes "narrowed l r b" "split_at l r (Suc k) (b ! Suc k) b" "r < length b"
  shows "narrowed l k b"
  unfolding narrowed_def
proof (intro conjI allI impI)
  fix i j
  show "b ! i \<le> b ! j" if "i \<le> k \<and> k < j \<and> j < length b"
  proof (cases "i < l \<or> r < j")
    case True
    then show ?thesis using assms that by (auto simp: narrowed_def split_at_def)
  next
    case False
    then have "b ! i < b ! Suc k" "b ! Suc k \<le> b ! j" using assms(2) that by (auto simp: split_at_def)
    then show ?thesis by simp
  qed
qed (use assms(1) in \<open>auto simp: narrowed_def\<close>)

lemma selected_in_place:
  assumes "narrowed l r b" "split_at l r k (b ! k) b" "r < length b"
  shows "sort b ! k = b ! k"
proof (rule sorted_nth_of_split)
  show "k < length b" using assms(2,3) by (simp add: split_at_def)
  show "b ! j \<le> b ! k" if "j < k" for j
    using assms that by (cases "j < l") (auto simp: narrowed_def split_at_def order.strict_implies_order)
  show "b ! k \<le> b ! j" if "k < j" "j < length b" for j
    using assms that by (cases "j \<le> r") (auto simp: narrowed_def split_at_def)
qed

text \<open>
  The answer of a selection that starts with the \<open>n\<close>-th call of \<open>rand\<close> and has \<open>d\<close> index steps to go.
\<close>

definition select_post :: "(nat \<Rightarrow> int) \<Rightarrow> nat \<Rightarrow> nat \<Rightarrow> 'a :: linorder list \<Rightarrow> nat \<Rightarrow> ('a \<times> 'a list \<times> nat) option \<Rightarrow> bool" where
  "select_post rnd n d a k ans \<longleftrightarrow> (case ans of
     None \<Rightarrow> \<exists>j. n \<le> j \<and> j \<le> n + d \<and> INT_MAX < int d * rnd j
   | Some (x, b, m) \<Rightarrow> x = sort a ! k \<and> mset b = mset a \<and> m \<le> n + d + 1 \<and> int d * rnd n \<le> INT_MAX)"

lemma select_postD:
  "select_post rnd n d a k None \<Longrightarrow> n + d < m \<Longrightarrow> \<exists>j < m. INT_MAX < int d * rnd j"
  "select_post rnd n d a k (Some (x, b, m')) \<Longrightarrow> x = sort a ! k \<and> mset b = mset a \<and> m' \<le> n + d + 1 \<and> int d * rnd n \<le> INT_MAX"
  by (simp_all add: select_post_def) (use le_less_trans in blast)

lemma select_post_step:
  assumes "rand_ok rnd" and "int d * rnd n \<le> INT_MAX" and "d' < d" and "mset b = mset a"
    and "select_post rnd (n + 1) d' b k ans"
  shows "select_post rnd n d a k ans"
proof (cases ans)
  case None
  then obtain j where j: "n + 1 \<le> j" "j \<le> n + 1 + d'" "INT_MAX < int d' * rnd j"
    using assms(5) by (auto simp: select_post_def)
  have "int d' * rnd j \<le> int d * rnd j" using assms(1,3) by (intro mult_right_mono) (simp_all add: rand_ok_def)
  then show ?thesis using j assms(3) None by (auto simp: select_post_def intro!: exI [of _ j])
next
  case (Some t)
  have "sort b = sort a" using assms(4) by (metis sorted_list_of_multiset_mset)
  then show ?thesis using assms Some by (auto simp: select_post_def split: prod.splits)
qed

lemma selectmedian_post:
  assumes "rand_ok rnd" and "narrowed l r a" and "l \<le> k" "k \<le> r" "r < length a"
  shows "select_post rnd n (r - l) a k (selectmedian rnd n a (int k) (int l) (int r))"
  using assms
proof (induction "r - l" arbitrary: a l r n rule: less_induct)
  case less
  have p: "pivot (int l) (int r) (rnd n) = (if int (r - l) * rnd n \<le> INT_MAX then Some (int l) else None)"
    using less(2,4,5) by (intro pivot_left) (simp_all add: rand_ok_def)
  show ?case
  proof (cases "int (r - l) * rnd n \<le> INT_MAX")
    case False
    then have "selectmedian rnd n a (int k) (int l) (int r) = None" using p by (subst selectmedian.simps) simp
    then show ?thesis using False by (auto simp: select_post_def intro!: exI [of _ n])
  next
    case True
    with p have p: "pivot (int l) (int r) (rnd n) = Some (int l)" by simp
    obtain i b where b: "partition_array a (int l) (int r) (int l) = Some (int i, b)" "reordered l r a b"
      "split_at l r i (b ! i) b"
      by (rule partition_array_ok [of l l r a]) (use less(4-6) in auto)
    have m: "mset b = mset a" "length b = length a" using b(2) by (simp_all add: reordered_def)
    then have s: "sort b = sort a" by (metis sorted_list_of_multiset_mset)
    have nb: "narrowed l r b" by (rule narrowed_reordered [OF less(3) b(2) less(6)])
    have i: "l \<le> i" "i \<le> r" using b(3) by (simp_all add: split_at_def)
    consider "i = k" | "i < k" | j where "i = Suc j" "k \<le> j" by (metis not_less_eq_eq nat_neq_iff Suc_le_D le_SucE less_eq_Suc_le)
    then show ?thesis
    proof cases
      case 1
      then have "sort a ! k = b ! k" using selected_in_place [OF nb b(3)] less(6) m(2) s by simp
      then show ?thesis using 1 p b m less(5,6) True by (subst selectmedian.simps) (simp add: select_post_def)
    next
      case 2
      have "select_post rnd (n + 1) (r - Suc i) b k (selectmedian rnd (n + 1) b (int k) (int (Suc i)) (int r))"
        by (rule less(1)) (use 2 i less m narrowed_above [OF nb b(3)] in auto)
      from select_post_step [OF less(2) True _ m(1) this] show ?thesis
        using 2 p b i less(5) by (subst selectmedian.simps) (simp add: algebra_simps)
    next
      case 3
      have "select_post rnd (n + 1) (j - l) b k (selectmedian rnd (n + 1) b (int k) (int l) (int j))"
        by (rule less(1)) (use 3 i less m narrowed_below [OF nb b(3) [unfolded 3(1)]] in auto)
      from select_post_step [OF less(2) True _ m(1) this] show ?thesis
        using 3 p b i less(4) by (subst selectmedian.simps) simp
    qed
  qed
qed

section \<open>The median\<close>

definition median_spec :: "('a \<Rightarrow> 'a \<Rightarrow> 'a) \<Rightarrow> 'a :: linorder list \<Rightarrow> 'a" where
  "median_spec mean2 v =
     (let s = sort v; n = length v in
      if odd n then s ! (n div 2) else mean2 (s ! (n div 2)) (s ! (n div 2 - 1)))"

lemma select_whole:
  assumes "rand_ok rnd" and "k < length v"
  shows "select_post rnd n (length v - 1) v k (selectmedian rnd n v (int k) 0 (int (length v) - 1))"
proof -
  have "narrowed 0 (length v - 1) v" by (auto simp: narrowed_def)
  moreover have "int (length v) - 1 = int (length v - 1)" using assms(2) by simp
  moreover have "k \<le> length v - 1" "length v - 1 < length v" using assms(2) by simp_all
  ultimately show ?thesis
    using selectmedian_post [OF assms(1), of 0 "length v - 1" v k n] by simp
qed

text \<open>The first answer of \<open>rand\<close> can make the product overflow from three elements on.\<close>

lemma median_overflow:
  assumes "2 < length v" and "rnd 0 = RAND_MAX"
  shows "median mean2 rnd v = None"
proof -
  have "2 * RAND_MAX \<le> (int (length v) - 1) * RAND_MAX"
    using assms(1) by (intro mult_right_mono) (auto simp: RAND_MAX_def INT_MAX_def)
  then have "pivot 0 (int (length v) - 1) (rnd 0) = None"
    using assms(2) by (simp add: pivot_def Let_def RAND_MAX_def INT_MAX_def)
  then have "selectmedian rnd 0 v k 0 (int (length v) - 1) = None" for k
    by (subst selectmedian.simps) simp
  then show ?thesis by (simp add: median_def Let_def)
qed

text \<open>
  C27. A median that is defined is the one of the sorted array: the middle element, or the mean
  of the two middle ones. It is undefined only when one of the first \<open>2 * N\<close> answers of \<open>rand\<close> makes the
  product of the pivot overflow, and certainly when the first one does. The selection always ends; it never
  reads or writes outside the array.
\<close>

theorem median_correct:
  assumes "v \<noteq> []" and "rand_ok rnd"
  shows "case median mean2 rnd v of
      Some x \<Rightarrow> x = median_spec mean2 v \<and> int (length v - 1) * rnd 0 \<le> INT_MAX
    | None \<Rightarrow> \<exists>n < 2 * length v. INT_MAX < int (length v - 1) * rnd n"
proof -
  define d where "d = length v - 1"
  have d: "int (length v) - 1 = int d" "length v = d + 1" using assms(1) by (simp_all add: d_def Suc_le_eq)
  have sel: "select_post rnd n d a k (selectmedian rnd n a (int k) 0 (int d))" if "length a = length v" "k \<le> d" for n a k
    using select_whole [OF assms(2), of k a n] that d by simp
  show ?thesis
  proof (cases "odd (length v)")
    case True
    let ?k = "length v div 2"
    have e: "int (length v) mod 2 = 1" "(int (length v) + 1) div 2 - 1 = int ?k" using True by presburger+
    have eq: "median mean2 rnd v = map_option fst (selectmedian rnd 0 v (int ?k) 0 (int d))"
      using assms(1) e d(1)
      by (cases "selectmedian rnd 0 v (int ?k) 0 (int d)") (auto simp: median_def Let_def)
    have p: "select_post rnd 0 d v ?k (selectmedian rnd 0 v (int ?k) 0 (int d))" using d(2) by (intro sel) auto
    show ?thesis
      unfolding eq d_def [symmetric]
      using p select_postD [of rnd 0 d v ?k] True d(2)
      by (cases "selectmedian rnd 0 v (int ?k) 0 (int d)") (auto simp: median_spec_def Let_def)
  next
    case False
    then obtain k where k: "length v = 2 * k" by (auto elim: evenE)
    let ?m = "selectmedian rnd 0 v (int k) 0 (int d)"
    have e: "int (length v) mod 2 = 0" "int (length v) div 2 = int k" "length v div 2 = k" using k by simp_all
    have two: "1 \<le> k" using k assms(1) by (cases k) auto
    then have k1: "int k - 1 = int (k - 1)" by simp
    have med: "median mean2 rnd v = (case ?m of None \<Rightarrow> None
        | Some (x, b, n) \<Rightarrow> map_option (\<lambda>(y, _). mean2 x y) (selectmedian rnd n b (int (k - 1)) 0 (int d)))"
      unfolding median_def Let_def d(1) e(1,2) k1 using assms(1)
      by (auto simp: map_option_case split: option.splits Option.bind_splits)
    have p1: "select_post rnd 0 d v k ?m" using d(2) k two by (intro sel) auto
    show ?thesis
    proof (cases ?m)
      case None
      with med have "median mean2 rnd v = None" by simp
      then show ?thesis
        unfolding d_def [symmetric] using select_postD(1) [OF p1 [unfolded None], of "2 * length v"] d(2) by simp
    next
      case (Some t)
      obtain x b n where t: "t = (x, b, n)" by (cases t)
      have b: "x = sort v ! k" "mset b = mset v" "n \<le> d + 1" "int d * rnd 0 \<le> INT_MAX"
        using select_postD(2) [OF p1 [unfolded Some t]] by simp_all
      then have l: "length b = length v" "sort b = sort v"
        by (metis size_mset) (metis b(2) sorted_list_of_multiset_mset)
      let ?m2 = "selectmedian rnd n b (int (k - 1)) 0 (int d)"
      have eq: "median mean2 rnd v = map_option (\<lambda>(y, _). mean2 x y) ?m2"
        using med Some t by simp
      have p2: "select_post rnd n d b (k - 1) ?m2" using d(2) k l(1) by (intro sel) auto
      show ?thesis
      proof (cases ?m2)
        case None
        then show ?thesis
          unfolding eq d_def [symmetric] using select_postD(1) [OF p2 [unfolded None], of "2 * length v"] b(3) d(2) by simp
      next
        case (Some u)
        obtain y c m where "u = (y, c, m)" by (cases u)
        then show ?thesis
          unfolding eq d_def [symmetric] using select_postD(2) [of rnd n d b "k - 1" y c m] p2 Some b(1,4) l(2) False
          by (simp add: median_spec_def Let_def e(3))
      qed
    qed
  qed
qed

theorem median_correct_witness:
  "median (\<lambda>x y. (x + y) div 2) (\<lambda>n. if even n then 900000 else 7) [7, 1, 5, 9 :: int] = Some 6"
proof -
  have "rand_ok (\<lambda>n. if even n then 900000 else 7)" by (simp add: rand_ok_def RAND_MAX_def INT_MAX_def)
  then have "case median (\<lambda>x y. (x + y) div 2) (\<lambda>n. if even n then 900000 else 7) [7, 1, 5, 9 :: int] of
      Some x \<Rightarrow> x = 6 | None \<Rightarrow> False"
    using median_correct [of "[7, 1, 5, 9 :: int]" "\<lambda>n. if even n then 900000 else 7" "\<lambda>x y. (x + y) div 2"]
    by (auto simp: median_spec_def INT_MAX_def split: option.splits if_splits)
  then show ?thesis by (simp split: option.splits)
qed

end
