(* ===== verification/Util_Pipe.thy ===== *)
theory Util_Pipe
  imports Posix_Fs
begin

text \<open>
  The pipe loops and the hexadecimal dump of \<^verbatim>\<open>osd-util/osd-util.c\<close>: \<^verbatim>\<open>osd_saferead\<close>,
  \<^verbatim>\<open>osd_safewrite\<close> and \<^verbatim>\<open>osd_hexdump\<close>.
\<close>

section \<open>The code\<close>

text \<open>
  What is in a pipe, in the pieces in which it arrives; an error can come between two pieces. Behind
  them is the end of the file, for ever.
\<close>

datatype piece = Data bytes | Broken

fun read_pipe :: "nat \<Rightarrow> piece list \<Rightarrow> int \<times> bytes \<times> piece list" where
  "read_pipe n [] = (0, [], [])"
| "read_pipe n (Broken # ps) = (- 1, [], ps)"
| "read_pipe n (Data c # ps) =
     (if length c \<le> n then (int (length c), c, ps) else (int n, take n c, Data (drop n c) # ps))"

text \<open>
  The writing side: how many bytes each call takes at most, a negative number being an error; then
  everything is taken. The second component is what has been written.
\<close>

fun write_pipe :: "bytes \<Rightarrow> int list \<times> bytes \<Rightarrow> int \<times> int list \<times> bytes" where
  "write_pipe bs ([], out) = (int (length bs), [], out @ bs)"
| "write_pipe bs (k # ks, out) = (if k < 0 then (- 1, ks, out) else (int (min (nat k) (length bs)), ks, out @ take (nat k) bs))"

text \<open>A result of type \<open>ssize_t\<close> in a variable of type \<open>int\<close>, and the range of that type.\<close>

definition c_int :: "int \<Rightarrow> int" where
  "c_int x = sint (word_of_int x :: u32)"

definition int_range :: "int \<Rightarrow> bool" where
  "int_range x \<longleftrightarrow> - (2 ^ 31) \<le> x \<and> x < 2 ^ 31"

text \<open>Memory at a position that an error may have moved before the buffer.\<close>

definition put_at :: "bytes \<Rightarrow> int \<Rightarrow> bytes \<Rightarrow> bytes option" where
  "put_at m pos bs = (if bs = [] then Some m else if pos < 0 then None else buf_put m (nat pos) bs)"

definition get_at :: "bytes \<Rightarrow> int \<Rightarrow> nat \<Rightarrow> bytes option" where
  "get_at m pos n = (if pos < 0 then None else buf_get m (nat pos) n)"

text \<open>
  A read that fails is only reported: its answer \<open>-1\<close> makes the number of missing bytes larger
  and the position smaller. The end of the file within a block is reported again and again.
\<close>

partial_function (option) saferead_loop ::
  "int \<Rightarrow> nat \<Rightarrow> u64 \<Rightarrow> int \<Rightarrow> bytes \<Rightarrow> piece list \<Rightarrow> (u64 \<times> bytes \<times> piece list) option" where
  "saferead_loop tot buf num offset m p =
     (if num = 0 then Some (word_of_int tot, m, p)
      else do {
        let (r, bs, p) = read_pipe (unat num) p;
        let i = c_int r;
        m \<leftarrow> put_at m (int buf + offset) bs;
        if i = 0 \<and> offset = 0 then Some (0, m, p)
        else if \<not> int_range (offset + i) then None
        else saferead_loop tot buf (num - word_of_int i) (offset + i) m p })"

definition osd_saferead :: "piece list \<Rightarrow> bytes \<Rightarrow> nat \<Rightarrow> u64 \<Rightarrow> (u64 \<times> bytes \<times> piece list) option" where
  "osd_saferead p m buf num = saferead_loop (c_int (uint num)) buf num 0 m p"

partial_function (option) safewrite_loop ::
  "int \<Rightarrow> bytes \<Rightarrow> nat \<Rightarrow> u64 \<Rightarrow> int \<Rightarrow> int list \<times> bytes \<Rightarrow> (u64 \<times> int list \<times> bytes) option" where
  "safewrite_loop tot m buf num offset w =
     (if num = 0 then Some (word_of_int tot, w)
      else do {
        bs \<leftarrow> get_at m (int buf + offset) (unat num);
        let (r, w) = write_pipe bs w;
        let i = c_int r;
        if \<not> int_range (offset + i) then None
        else safewrite_loop tot m buf (num - word_of_int i) (offset + i) w })"

definition osd_safewrite :: "int list \<times> bytes \<Rightarrow> bytes \<Rightarrow> nat \<Rightarrow> u64 \<Rightarrow> (u64 \<times> int list \<times> bytes) option" where
  "osd_safewrite w m buf num = safewrite_loop (c_int (uint num)) m buf num 0 w"

text \<open>The dump: eight bytes a line, in hexadecimal and as characters.\<close>

definition printable :: "u8 \<Rightarrow> char" where
  "printable b = (if 32 \<le> b \<and> b \<le> 126 then char_of (unat b) else CHR ''.'')"

definition dump_line :: "nat \<Rightarrow> bytes \<Rightarrow> string" where
  "dump_line offset row =
     (let h = hex_string offset in
      replicate (4 - length h) CHR '' '' @ h @ '':''
        @ concat (map (\<lambda>b. CHR '' '' # hex_byte (unat b)) row) @ ''  ''
        @ concat (replicate (8 - length row) ''   '') @ map printable row @ [CHR 0x0A])"

function dump_from :: "nat \<Rightarrow> bytes \<Rightarrow> string" where
  "dump_from offset d = (if d = [] then [] else dump_line offset (take 8 d) @ dump_from (offset + length (take 8 d)) (drop 8 d))"
  by pat_completeness auto

termination
  by (relation "measure (\<lambda>(_, d). length d)") auto

declare dump_from.simps [simp del]

definition osd_hexdump :: "bytes \<Rightarrow> nat \<Rightarrow> nat \<Rightarrow> string option" where
  "osd_hexdump dv off len = map_option (dump_from 0) (buf_get dv off len)"

section \<open>Pieces\<close>

lemma c_int_small: "0 \<le> x \<Longrightarrow> x < 2 ^ 31 \<Longrightarrow> c_int x = x"
  by (simp add: c_int_def signed_of_int signed_take_bit_int_eq_self)

lemma int_range_small: "0 \<le> x \<Longrightarrow> x < 2 ^ 31 \<Longrightarrow> int_range x"
  by (simp add: int_range_def)

lemma word_of_int_length: "word_of_int (int n) = (of_nat n :: u64)"
  by simp

lemma put_at_nat: "0 < length bs \<Longrightarrow> put_at m (int n) bs = buf_put m n bs"
  by (simp add: put_at_def)

lemma unat_minus: "n \<le> unat (x :: u64) \<Longrightarrow> unat (x - of_nat n) = unat x - n"
  using unat_sub [of "of_nat n" x] le_less_trans [OF _ unsigned_less, of n x]
  by (simp add: word_le_nat_alt unsigned_of_nat take_bit_nat_eq_self)

text \<open>One round of the loop, on a piece that is not empty.\<close>

lemma saferead_step:
  assumes "num \<noteq> 0" and "bs \<noteq> []" and "d + length bs < 2 ^ 31"
    and "read_pipe (unat num) p = (int (length bs), bs, p')"
    and "buf_put m (buf + d) bs = Some m'"
  shows "saferead_loop tot buf num (int d) m p
    = saferead_loop tot buf (num - of_nat (length bs)) (int (d + length bs)) m' p'"
proof -
  have "c_int (int (length bs)) = int (length bs)" using assms(3) by (intro c_int_small) auto
  moreover have "int_range (int d + int (length bs))" using assms(3) by (intro int_range_small) auto
  moreover have "put_at m (int buf + int d) bs = Some m'"
    using assms(2,5) put_at_nat [of bs m "buf + d"] by simp
  ultimately show ?thesis using assms(1,2,4) by (subst saferead_loop.simps) simp
qed

lemma saferead_pieces:
  assumes "[] \<notin> set cs" and "unat num \<le> length (concat cs)" and "d + unat num < 2 ^ 31"
    and "buf + d + unat num \<le> length m"
  shows "\<exists>m' cs'. saferead_loop tot buf num (int d) m (map Data cs) = Some (word_of_int tot, m', map Data cs') \<and>
    buf_put m (buf + d) (take (unat num) (concat cs)) = Some m' \<and> concat cs' = drop (unat num) (concat cs) \<and>
    [] \<notin> set cs'"
  using assms
proof (induction cs arbitrary: num d m)
  case Nil
  then have "num = 0" by (simp add: unat_eq_0)
  then show ?case using Nil(4) by (subst saferead_loop.simps) (auto simp: buf_put_def intro: exI [of _ "[]"])
next
  case (Cons c cs)
  show ?case
  proof (cases "num = 0")
    case True
    then show ?thesis
      using Cons(2,5) by (subst saferead_loop.simps) (auto simp: buf_put_def intro!: exI [of _ "c # cs"])
  next
    case n0: False
    then have pos: "0 < unat num" by (simp add: unat_gt_0)
    show ?thesis
    proof (cases "length c \<le> unat num")
      case True
      have c: "c \<noteq> []" using Cons(2) by auto
      have u: "unat (num - of_nat (length c)) = unat num - length c" by (rule unat_minus [OF True])
      obtain m1 where m1: "buf_put m (buf + d) c = Some m1" "length m1 = length m"
        using mem.put_some [of "buf + d" c m] Cons(5) True by auto
      have "saferead_loop tot buf num (int d) m (map Data (c # cs))
          = saferead_loop tot buf (num - of_nat (length c)) (int (d + length c)) m1 (map Data cs)"
        by (rule saferead_step [OF n0 c]) (use Cons(4) True m1 in auto)
      moreover have "\<exists>m' cs'. saferead_loop tot buf (num - of_nat (length c)) (int (d + length c)) m1 (map Data cs)
          = Some (word_of_int tot, m', map Data cs') \<and>
          buf_put m1 (buf + (d + length c)) (take (unat num - length c) (concat cs)) = Some m' \<and>
          concat cs' = drop (unat num - length c) (concat cs) \<and> [] \<notin> set cs'"
        using Cons(1) [of "num - of_nat (length c)" "d + length c" m1] Cons(2-5) True u m1(2) by simp
      moreover have "take (unat num) (concat (c # cs)) = c @ take (unat num - length c) (concat cs)"
        "drop (unat num) (concat (c # cs)) = drop (unat num - length c) (concat cs)"
        using True by simp_all
      ultimately show ?thesis using m1(1) by (simp add: buf_put_append add.assoc)
    next
      case False
      let ?b = "take (unat num) c"
      have b: "?b \<noteq> []" "length ?b = unat num" using False pos by auto
      obtain m1 where m1: "buf_put m (buf + d) ?b = Some m1"
        using mem.put_some [of "buf + d" ?b m] Cons(5) b(2) by auto
      have "saferead_loop tot buf num (int d) m (map Data (c # cs))
          = saferead_loop tot buf (num - of_nat (length ?b)) (int (d + length ?b)) m1 (map Data (drop (unat num) c # cs))"
        by (rule saferead_step [OF n0 b(1)]) (use Cons(4) False m1 in auto)
      also have "\<dots> = Some (word_of_int tot, m1, map Data (drop (unat num) c # cs))"
        using b(2) by (subst saferead_loop.simps) simp
      finally show ?thesis
        using m1 False Cons(2) by (intro exI [of _ m1] exI [of _ "drop (unat num) c # cs"]) auto
    qed
  qed
qed

section \<open>When the reader returns\<close>

lemma saferead_stuck:
  "saferead_loop tot buf num offset m p = Some r \<Longrightarrow> p = [] \<longrightarrow> num \<noteq> 0 \<longrightarrow> offset \<noteq> 0 \<longrightarrow> False"
proof (erule saferead_loop.raw_induct [rotated 1], intro impI)
  fix loop tot buf num offset m p r
  assume IH: "\<And>tot buf num offset m p r. loop tot buf num offset m p = Some r \<Longrightarrow>
      p = [] \<longrightarrow> num \<noteq> 0 \<longrightarrow> offset \<noteq> 0 \<longrightarrow> False"
    and eq: "(if num = 0 then Some (word_of_int tot, m, p)
      else do {
        let (r, bs, p) = read_pipe (unat num) p;
        let i = c_int r;
        m \<leftarrow> put_at m (int buf + offset) bs;
        if i = 0 \<and> offset = 0 then Some (0, m, p)
        else if \<not> int_range (offset + i) then None
        else loop tot buf (num - word_of_int i) (offset + i) m p }) = Some r"
    and a: "p = []" "num \<noteq> (0 :: u64)" "offset \<noteq> 0"
  have "c_int 0 = 0" by (simp add: c_int_def)
  then have "loop tot buf num offset m [] = Some r"
    using eq a by (auto simp: put_at_def split: if_splits)
  then show False using IH a by blast
qed

lemma saferead_short:
  assumes "[] \<notin> set cs" and "length (concat cs) < unat num" and "d + unat num < 2 ^ 31"
    and "buf + d + unat num \<le> length m" and "0 < d \<or> cs \<noteq> []"
  shows "saferead_loop tot buf num (int d) m (map Data cs) = None"
  using assms
proof (induction cs arbitrary: num d m)
  case Nil
  then have "num \<noteq> 0" "0 < d" by auto
  then show ?case using saferead_stuck [of tot buf num "int d" m "[]"] by (cases "saferead_loop tot buf num (int d) m []") auto
next
  case (Cons c cs)
  have c: "c \<noteq> []" "length c \<le> unat num" using Cons(2,3) by auto
  have n0: "num \<noteq> 0" using Cons(3) by auto
  have u: "unat (num - of_nat (length c)) = unat num - length c" by (rule unat_minus [OF c(2)])
  obtain m1 where m1: "buf_put m (buf + d) c = Some m1" "length m1 = length m"
    using mem.put_some [of "buf + d" c m] Cons(5) c(2) by auto
  have "saferead_loop tot buf num (int d) m (map Data (c # cs))
      = saferead_loop tot buf (num - of_nat (length c)) (int (d + length c)) m1 (map Data cs)"
    by (rule saferead_step [OF n0 c(1)]) (use Cons(4) c m1 in auto)
  also have "\<dots> = None"
    by (rule Cons(1)) (use Cons(2-5) c u m1(2) in auto)
  finally show ?case .
qed

lemma saferead_empty: "osd_saferead [] m buf num = Some (0, m, [])"
proof -
  have "c_int 0 = 0" by (simp add: c_int_def)
  then show ?thesis
    unfolding osd_saferead_def by (subst saferead_loop.simps) (simp add: put_at_def)
qed

text \<open>
  C31. Reading a block from a pipe without errors returns exactly when the block is empty, when the
  pipe is at its end, or when the rest of the pipe holds the whole block; when the pipe ends within
  the block, the function reports the end of the file for ever.
\<close>

theorem saferead_returns_iff:
  assumes "[] \<notin> set cs" and "unat num < 2 ^ 31" and "buf + unat num \<le> length m"
  shows "osd_saferead (map Data cs) m buf num \<noteq> None \<longleftrightarrow> num = 0 \<or> cs = [] \<or> unat num \<le> length (concat cs)"
proof (cases "unat num \<le> length (concat cs)")
  case True
  then show ?thesis
    using saferead_pieces [OF assms(1) True, of 0 buf m "c_int (uint num)"] assms(2,3)
    by (auto simp: osd_saferead_def)
next
  case False
  then have "num \<noteq> 0" by auto
  moreover have "osd_saferead (map Data cs) m buf num = None" if "cs \<noteq> []"
    using saferead_short [of cs num 0 buf m "c_int (uint num)"] assms False that by (simp add: osd_saferead_def)
  ultimately show ?thesis using False saferead_empty [of m buf num] by (cases "cs = []") simp_all
qed

theorem saferead_returns_iff_witness:
  "osd_saferead (map Data [[1], [2, 3]]) [0, 0, 0] 0 3 \<noteq> None \<and> osd_saferead (map Data [[1], [2]]) [0, 0, 0] 0 3 = None"
proof
  show "osd_saferead (map Data [[1], [2, 3]]) [0, 0, 0] 0 3 \<noteq> None"
    using saferead_returns_iff [of "[[1], [2, 3]]" 3 0 "[0, 0, 0]"] by simp
  show "osd_saferead (map Data [[1], [2]]) [0, 0, 0] 0 3 = None"
    using saferead_returns_iff [of "[[1], [2]]" 3 0 "[0, 0, 0]"] by (simp del: not_None_eq)
qed

section \<open>Writing\<close>

lemma safewrite_ok:
  assumes "\<forall>k \<in> set ks. 0 \<le> k" and "buf_get m (buf + d) (unat num) = Some bs" and "d + unat num < 2 ^ 31"
  shows "\<exists>ks'. safewrite_loop tot m buf num (int d) (ks, out) = Some (word_of_int tot, ks', out @ bs)"
  using assms
proof (induction ks arbitrary: num d bs out)
  case Nil
  have l: "length bs = unat num" using Nil(2) by (rule buf_get_length)
  show ?case
  proof (cases "num = 0")
    case True
    then show ?thesis using l by (subst safewrite_loop.simps) simp
  next
    case False
    have "d + unat num < 2147483648" using Nil(3) by simp
    then have n: "int d + int (unat num) < 2147483648" by (simp only: of_nat_add [symmetric] of_nat_less_numeral_iff)
    have "c_int (int (unat num)) = int (unat num)" using n by (intro c_int_small) auto
    moreover have "int_range (int d + int (unat num))" using n by (intro int_range_small) auto
    moreover have "safewrite_loop tot m buf 0 (int d + int (unat num)) ([], out @ bs) = Some (word_of_int tot, [], out @ bs)"
      by (subst safewrite_loop.simps) simp
    ultimately show ?thesis using False Nil(2) l
      by (subst safewrite_loop.simps) (simp add: get_at_def nat_add_distrib)
  qed
next
  case (Cons k ks)
  have l: "length bs = unat num" using Cons(3) by (rule buf_get_length)
  show ?case
  proof (cases "num = 0")
    case True
    then show ?thesis using l by (subst safewrite_loop.simps) simp
  next
    case False
    define n where "n = min (nat k) (unat num)"
    have n: "n \<le> unat num" "0 \<le> k" using Cons(2) by (simp_all add: n_def)
    have u: "unat (num - of_nat n) = unat num - n" by (rule unat_minus [OF n(1)])
    have "c_int (int n) = int n" using Cons(4) n(1) by (intro c_int_small) auto
    moreover have "int_range (int d + int n)" using Cons(4) n(1) by (intro int_range_small) auto
    moreover have "write_pipe bs (k # ks, out) = (int n, ks, out @ take n bs)"
      using n(2) l by (auto simp: n_def min_def)
    ultimately have "safewrite_loop tot m buf num (int d) (k # ks, out)
        = safewrite_loop tot m buf (num - of_nat n) (int (d + n)) (ks, out @ take n bs)"
      using False Cons(3) by (subst safewrite_loop.simps) (simp add: get_at_def nat_add_distrib)
    moreover have "buf_get m (buf + (d + n)) (unat (num - of_nat n)) = Some (drop n bs)"
      using Cons(3) u n(1) by (auto simp: buf_get_def drop_take add.commute add.left_commute split: if_splits)
    then have "\<exists>ks'. safewrite_loop tot m buf (num - of_nat n) (int (d + n)) (ks, out @ take n bs)
        = Some (word_of_int tot, ks', (out @ take n bs) @ drop n bs)"
      by (intro Cons(1)) (use Cons(2,4) u n(1) in auto)
    ultimately show ?thesis by simp
  qed
qed

lemma c_int_unat:
  assumes "unat (num :: u64) < 2 ^ 31"
  shows "word_of_int (c_int (uint num)) = num"
proof -
  have "int (unat num) < int (2 ^ 31)" using assms by (simp only: of_nat_less_iff)
  then have "c_int (uint num) = uint num" by (intro c_int_small) simp_all
  then show ?thesis by simp
qed

text \<open>
  C28. A block written to a pipe, however little each call takes, is appended to what was written as
  a whole, and the length is the answer; a block read from a pipe that holds it, in whatever pieces
  it arrives, is put into the buffer as a whole, with the same answer, nothing else in the buffer changes, and what
  follows the block stays in the pipe.
\<close>

theorem pipe_block_roundtrip:
  assumes "buf_get src at (unat num) = Some bs" and "unat num < 2 ^ 31" and "\<forall>k \<in> set ks. 0 \<le> k"
    and "[] \<notin> set cs" and "concat cs = bs @ rest" and "buf + unat num \<le> length m"
  shows "\<exists>ks' m' cs'. osd_safewrite (ks, out) src at num = Some (num, ks', out @ bs) \<and>
    osd_saferead (map Data cs) m buf num = Some (num, m', map Data cs') \<and>
    m' = take buf m @ bs @ drop (buf + unat num) m \<and> concat cs' = rest"
proof -
  have l: "length bs = unat num" using assms(1) by (rule buf_get_length)
  obtain ks' where "osd_safewrite (ks, out) src at num = Some (num, ks', out @ bs)"
    using safewrite_ok [of ks src at 0 num bs "c_int (uint num)" out] assms(1-3) c_int_unat [of num]
    by (auto simp: osd_safewrite_def)
  moreover obtain m' cs' where "osd_saferead (map Data cs) m buf num = Some (num, m', map Data cs')"
    "buf_put m buf bs = Some m'" "concat cs' = rest"
    using saferead_pieces [of cs num 0 buf m "c_int (uint num)"] assms(2,4-6) c_int_unat [of num] l
    by (auto simp: osd_saferead_def)
  ultimately show ?thesis using l by (auto simp: buf_put_def split: if_splits)
qed

theorem pipe_block_roundtrip_witness:
  "\<exists>ks' m' cs'. osd_safewrite ([2, 0, 1], []) [9, 1, 2, 3, 4] 1 4 = Some (4, ks', [1, 2, 3, 4]) \<and>
    osd_saferead (map Data [[1], [2, 3], [4, 5]]) [0, 0, 0, 0, 0, 7] 1 4 = Some (4, m', map Data cs') \<and>
    m' = [0, 1, 2, 3, 4, 7] \<and> concat cs' = [5]"
proof -
  have "buf_get [9, 1, 2, 3, 4] 1 (unat (4 :: u64)) = Some [1, 2, 3, 4 :: u8]" by (simp add: buf_get_def)
  then show ?thesis
    using pipe_block_roundtrip [of "[9, 1, 2, 3, 4]" 1 4 "[1, 2, 3, 4]" "[2, 0, 1]" "[[1], [2, 3], [4, 5]]" "[5]" 1
      "[0, 0, 0, 0, 0, 7]" "[]"]
    by simp
qed

text \<open>After a failing read the next piece is stored one byte too early: before the buffer.\<close>

lemma saferead_error_underruns:
  assumes "num \<noteq> 0" and "num + 1 \<noteq> 0" and "c \<noteq> []"
  shows "osd_saferead (Broken # Data c # ps) m 0 num = None"
proof -
  have i: "c_int (- 1) = - 1" by (simp add: c_int_def)
  obtain r bs p where rd: "read_pipe (unat (num + 1)) (Data c # ps) = (r, bs, p)" "bs \<noteq> []"
    using assms(2,3) by (cases "length c \<le> unat (num + 1)") (auto simp: unat_eq_0)
  then have "saferead_loop tot 0 (num + 1) (- 1) m (Data c # ps) = None" for tot
    using assms(2) by (subst saferead_loop.simps) (simp add: put_at_def del: read_pipe.simps)
  then show ?thesis
    using assms(1) i unfolding osd_saferead_def
    by (subst saferead_loop.simps) (simp add: put_at_def int_range_def)
qed

end
