(* ===== verification/Util_Program.thy ===== *)
theory Util_Program
  imports Complex_Main OSD_Prelude
begin

text \<open>
  The rest of \<^verbatim>\<open>osd-util/osd-util.c\<close> that computes something: the name of the program, the
  checked allocation, the mean and the standard deviation, and the clock rate of the machine.

  Floating-point arithmetic is an argument: a record of its operations. The lemmas instantiate it
  with the real numbers.
\<close>

section \<open>The name of the program\<close>

text \<open>Every slash moves the start of the name behind it.\<close>

fun progname_loop :: "string \<Rightarrow> string \<Rightarrow> string" where
  "progname_loop progname [] = progname"
| "progname_loop progname (c # cp) = progname_loop (if c = CHR ''/'' then cp else progname) cp"

definition osd_set_progname :: "string \<Rightarrow> string" where
  "osd_set_progname argv0 = progname_loop argv0 argv0"

definition base_name :: "string \<Rightarrow> string" where
  "base_name p = rev (takeWhile (\<lambda>c. c \<noteq> CHR ''/'') (rev p))"

lemma progname_loop_no_slash: "CHR ''/'' \<notin> set cp \<Longrightarrow> progname_loop p cp = p"
  by (induction p cp rule: progname_loop.induct) auto

lemma base_name_no_slash: "CHR ''/'' \<notin> set p \<Longrightarrow> base_name p = p"
  unfolding base_name_def by (subst takeWhile_eq_all_conv [THEN iffD2]) auto

lemma base_name_last: "CHR ''/'' \<in> set cp \<Longrightarrow> base_name (c # cp) = base_name cp"
  by (simp add: base_name_def takeWhile_append1)

lemma progname_loop_base: "CHR ''/'' \<in> set cp \<Longrightarrow> progname_loop p cp = base_name cp"
proof (induction cp arbitrary: p)
  case (Cons c cp)
  show ?case
  proof (cases "CHR ''/'' \<in> set cp")
    case True
    then show ?thesis using Cons(1) base_name_last by simp
  next
    case False
    then have "c = CHR ''/''" using Cons(2) by simp
    then have "base_name (c # cp) = cp" using base_name_no_slash [OF False]
      by (simp add: base_name_def takeWhile_append)
    then show ?thesis using False \<open>c = CHR ''/''\<close> by (simp add: progname_loop_no_slash)
  qed
qed simp

lemma osd_set_progname_base: "osd_set_progname argv0 = base_name argv0"
  unfolding osd_set_progname_def
  by (cases "CHR ''/'' \<in> set argv0") (simp_all add: progname_loop_base progname_loop_no_slash base_name_no_slash)

section \<open>Allocation\<close>

text \<open>A request of zero bytes is an error, a null pointer; every other one is what the library answers.\<close>

definition Malloc :: "(u64 \<Rightarrow> 'p option) \<Rightarrow> u64 \<Rightarrow> 'p option" where
  "Malloc lib_malloc n = (if n = 0 then None else lib_malloc n)"

definition Calloc :: "(u64 \<Rightarrow> u64 \<Rightarrow> 'p option) \<Rightarrow> u64 \<Rightarrow> u64 \<Rightarrow> 'p option" where
  "Calloc lib_calloc nmemb n = (if n = 0 then None else lib_calloc nmemb n)"

section \<open>Mean and standard deviation\<close>

record 'd floats =
  f_of_int :: "int \<Rightarrow> 'd"
  f_add :: "'d \<Rightarrow> 'd \<Rightarrow> 'd"
  f_sub :: "'d \<Rightarrow> 'd \<Rightarrow> 'd"
  f_mul :: "'d \<Rightarrow> 'd \<Rightarrow> 'd"
  f_div :: "'d \<Rightarrow> 'd \<Rightarrow> 'd"
  f_sqrt :: "'d \<Rightarrow> 'd"
  f_scan :: "string \<Rightarrow> 'd option"
  f_mhz_default :: 'd

text \<open>The first \<open>N\<close> elements; an array with fewer is read beyond its end.\<close>

definition first_elems :: "'d list \<Rightarrow> int \<Rightarrow> 'd list option" where
  "first_elems v N = (if N \<le> int (length v) then Some (take (nat N) v) else None)"

definition mean :: "'d floats \<Rightarrow> 'd list \<Rightarrow> int \<Rightarrow> 'd option" where
  "mean F v N = do {
     xs \<leftarrow> first_elems v N;
     let mu = fold (\<lambda>x mu. f_add F mu x) xs (f_of_int F 0);
     Some (f_div F mu (f_of_int F N)) }"

definition stddev :: "'d floats \<Rightarrow> 'd list \<Rightarrow> 'd \<Rightarrow> int \<Rightarrow> 'd option" where
  "stddev F v mu N =
     (if N \<le> 1 then Some (f_of_int F 0)
      else do {
        xs \<leftarrow> first_elems v N;
        let sd = fold (\<lambda>x sd. f_add F sd (f_mul F (f_sub F x mu) (f_sub F x mu))) xs (f_of_int F 0);
        Some (f_sqrt F (f_div F sd (f_of_int F (N - 1)))) })"

definition exact :: "real floats" where
  "exact = \<lparr>f_of_int = of_int, f_add = (+), f_sub = (-), f_mul = (*), f_div = (/), f_sqrt = sqrt,
     f_scan = (\<lambda>_. None), f_mhz_default = 1717.17\<rparr>"

lemma fold_add: "fold (\<lambda>x s. s + g x) xs (a :: real) = a + sum_list (map g xs)"
  by (induction xs arbitrary: a) (simp_all add: add.assoc)

lemma mean_exact: "mean exact v (int (length v)) = Some (sum_list v / real (length v))"
  using fold_add [of "\<lambda>x. x" v 0] by (simp add: mean_def first_elems_def exact_def)

text \<open>In exact arithmetic the standard deviation does not depend on where the values are centred.\<close>

lemma stddev_exact:
  assumes "2 \<le> length v"
  shows "stddev exact v mu (int (length v))
    = Some (sqrt (sum_list (map (\<lambda>x. (x - mu)\<^sup>2) v) / (real (length v) - 1)))"
  using assms fold_add [of "\<lambda>x. (x - mu) * (x - mu)" v 0]
  by (simp add: stddev_def first_elems_def exact_def power2_eq_square)

lemma stddev_shift:
  assumes "2 \<le> length v"
  shows "stddev exact (map (\<lambda>x. x + a) v) (mu + a) (int (length v)) = stddev exact v mu (int (length v))"
  using stddev_exact [of "map (\<lambda>x. x + a) v" "mu + a"] stddev_exact [of v mu] assms by (simp add: o_def)

section \<open>The clock rate\<close>

text \<open>
  \<open>fgets\<close> reads up to and with a newline, but no more than the buffer has room for. The clock rate is
  taken from the lines that start with ``cpu MHz''; the last one counts, and a line without a colon or without
  a number ends the search.
\<close>

fun upto_newline :: "nat \<Rightarrow> string \<Rightarrow> string \<times> string" where
  "upto_newline 0 cs = ([], cs)"
| "upto_newline (Suc n) [] = ([], [])"
| "upto_newline (Suc n) (c # cs) =
     (if c = CHR 0x0A then ([c], cs) else let (s, cs) = upto_newline n cs in (c # s, cs))"

lemma upto_newline_shorter: "length (snd (upto_newline n cs)) \<le> length cs"
  by (induction n cs rule: upto_newline.induct) (auto split: prod.split)

lemma upto_newline_progress:
  assumes "cs \<noteq> []" and "0 < n"
  shows "length (snd (upto_newline n cs)) < length cs"
proof (cases n)
  case (Suc k)
  then show ?thesis using assms upto_newline_shorter [of k "tl cs"] by (cases cs) (auto split: prod.split)
qed (use assms in simp)

function mhz_lines :: "'d floats \<Rightarrow> string \<Rightarrow> 'd \<Rightarrow> 'd" where
  "mhz_lines F cs mhz =
     (if cs = [] then mhz
      else let (s, rest) = upto_newline 1023 cs in
        if take 7 s \<noteq> ''cpu MHz'' then mhz_lines F rest mhz
        else (case dropWhile (\<lambda>c. c \<noteq> CHR '':'') s of
            [] \<Rightarrow> mhz
          | _ # cp \<Rightarrow> (case f_scan F cp of None \<Rightarrow> mhz | Some x \<Rightarrow> mhz_lines F rest x)))"
  by pat_completeness auto

termination
proof (relation "measure (\<lambda>(_, cs, _). length cs)", goal_cases)
  case (2 F cs mhz p s rest)
  then show ?case using upto_newline_progress [of cs 1023] by (metis in_measure split_conv snd_conv zero_less_numeral)
next
  case (3 F cs mhz p s rest)
  then show ?case using upto_newline_progress [of cs 1023] by (metis in_measure split_conv snd_conv zero_less_numeral)
qed simp

declare mhz_lines.simps [simp del]

text \<open>The contents of \<^verbatim>\<open>/proc/cpuinfo\<close>, or nothing when it cannot be opened.\<close>

definition get_mhz :: "'d floats \<Rightarrow> string option \<Rightarrow> 'd" where
  "get_mhz F cpuinfo = (case cpuinfo of
       None \<Rightarrow> f_mhz_default F
     | Some cs \<Rightarrow> let mhz = mhz_lines F cs (f_of_int F 0) in if mhz \<noteq> f_of_int F 0 then mhz else f_mhz_default F)"

lemma get_mhz_nonzero: "f_mhz_default F \<noteq> f_of_int F 0 \<Longrightarrow> get_mhz F cpuinfo \<noteq> f_of_int F 0"
  by (simp add: get_mhz_def Let_def split: option.split)

end
